(* ===== verification/Prelude.thy ===== *)
theory Prelude
  imports Main "HOL-Library.Word" "HOL-Library.AList"
begin

unbundle bit_operations_syntax

text \<open>
  Shared vocabulary of the development.

  \<^item> Machine integers: a JavaScript number that the source keeps in the unsigned 32-bit range with
    \<open>>>> 0\<close> is a \<open>32 word\<close>; an element of a \<open>Uint8Array\<close> is an \<open>8 word\<close>; other integers are
    \<open>int\<close> or \<open>nat\<close>.
  \<^item> JavaScript \<open>Map\<close>: insertion ordered, one entry per key. It is an association list, looked up
    with \<open>map_of\<close>, updated with \<open>AList.update\<close> (an existing key keeps its place, a new one goes
    to the end) and shrunk with \<open>AList.delete\<close>.
  \<^item> Exceptions: a computation over a state returns \<open>Inl e\<close> for a throw of \<open>e\<close> and \<open>Inr v\<close> for a
    normal return, in both cases with the state reached, because JavaScript keeps the effects made
    before a throw.
\<close>

type_synonym u8 = "8 word"
type_synonym u16 = "16 word"
type_synonym u32 = "32 word"
type_synonym u64 = "64 word"
type_synonym ('k, 'v) jsmap = "('k \<times> 'v) list"
type_synonym ('s, 'e, 'a) sem = "'s \<Rightarrow> ('e + 'a) \<times> 's"

named_theorems sem_simps \<open>unfolding of the state-and-exception combinators\<close>

section \<open>State and exceptions\<close>

definition ret :: "'a \<Rightarrow> ('s, 'e, 'a) sem" where
  "ret x = (\<lambda>s. (Inr x, s))"

definition throw :: "'e \<Rightarrow> ('s, 'e, 'a) sem" where
  "throw e = (\<lambda>s. (Inl e, s))"

definition bnd :: "('s, 'e, 'a) sem \<Rightarrow> ('a \<Rightarrow> ('s, 'e, 'b) sem) \<Rightarrow> ('s, 'e, 'b) sem" where
  "bnd m f = (\<lambda>s. case m s of (Inl e, s') \<Rightarrow> (Inl e, s') | (Inr x, s') \<Rightarrow> f x s')"

definition thn :: "('s, 'e, 'a) sem \<Rightarrow> ('s, 'e, 'b) sem \<Rightarrow> ('s, 'e, 'b) sem" where
  "thn m k = bnd m (\<lambda>_. k)"

definition getS :: "('s \<Rightarrow> 'a) \<Rightarrow> ('s, 'e, 'a) sem" where
  "getS f = (\<lambda>s. (Inr (f s), s))"

definition modS :: "('s \<Rightarrow> 's) \<Rightarrow> ('s, 'e, unit) sem" where
  "modS f = (\<lambda>s. (Inr (), f s))"

definition whenM :: "bool \<Rightarrow> ('s, 'e, unit) sem \<Rightarrow> ('s, 'e, unit) sem" where
  "whenM b m = (if b then m else ret ())"

primrec forM :: "'a list \<Rightarrow> ('a \<Rightarrow> ('s, 'e, unit) sem) \<Rightarrow> ('s, 'e, unit) sem" where
  "forM [] f = ret ()"
| "forM (x # xs) f = thn (f x) (forM xs f)"

primrec mapMs :: "'a list \<Rightarrow> ('a \<Rightarrow> ('s, 'e, 'b) sem) \<Rightarrow> ('s, 'e, 'b list) sem" where
  "mapMs [] f = ret []"
| "mapMs (x # xs) f = bnd (f x) (\<lambda>y. bnd (mapMs xs f) (\<lambda>ys. ret (y # ys)))"

lemma ret_apply [simp, sem_simps]: "ret x s = (Inr x, s)"
  by (simp add: ret_def)

lemma throw_apply [simp, sem_simps]: "throw e s = (Inl e, s)"
  by (simp add: throw_def)

lemma getS_apply [simp, sem_simps]: "getS f s = (Inr (f s), s)"
  by (simp add: getS_def)

lemma modS_apply [simp, sem_simps]: "modS f s = (Inr (), f s)"
  by (simp add: modS_def)

lemma bnd_ok [simp, sem_simps]: "m s = (Inr x, s') \<Longrightarrow> bnd m f s = f x s'"
  by (simp add: bnd_def)

lemma bnd_err [simp, sem_simps]: "m s = (Inl e, s') \<Longrightarrow> bnd m f s = (Inl e, s')"
  by (simp add: bnd_def)

lemma thn_ok [simp, sem_simps]: "m s = (Inr x, s') \<Longrightarrow> thn m k s = k s'"
  by (simp add: thn_def)

lemma thn_err [simp, sem_simps]: "m s = (Inl e, s') \<Longrightarrow> thn m k s = (Inl e, s')"
  by (simp add: thn_def)

lemma bnd_Inr_iff:
  "bnd m f s = (Inr y, t) \<longleftrightarrow> (\<exists>x s'. m s = (Inr x, s') \<and> f x s' = (Inr y, t))"
  by (auto simp: bnd_def split: prod.splits sum.splits)

lemma thn_Inr_iff:
  "thn m k s = (Inr y, t) \<longleftrightarrow> (\<exists>x s'. m s = (Inr x, s') \<and> k s' = (Inr y, t))"
  by (simp add: thn_def bnd_Inr_iff)

lemma bnd_ret_left [simp]: "bnd (ret x) f = f x"
  by (simp add: fun_eq_iff)

lemma bnd_assoc: "bnd (bnd m f) g = bnd m (\<lambda>x. bnd (f x) g)"
  by (auto simp: fun_eq_iff bnd_def split: prod.splits sum.splits)

lemma forM_append: "forM (xs @ ys) f = thn (forM xs f) (forM ys f)"
  by (induction xs) (auto simp: fun_eq_iff thn_def bnd_def split: prod.splits sum.splits)

text \<open>An invariant of every iteration is an invariant of the loop, also when an iteration throws.\<close>

lemma forM_invariant:
  assumes "P s" "\<And>x s. x \<in> set xs \<Longrightarrow> P s \<Longrightarrow> P (snd (f x s))"
  shows "P (snd (forM xs f s))"
  using assms
proof (induction xs arbitrary: s)
  case Nil
  then show ?case by simp
next
  case (Cons x xs)
  obtain r s' where fx: "f x s = (r, s')" by (cases "f x s")
  with Cons.prems have "P s'" by (metis list.set_intros(1) snd_conv)
  with fx Cons show ?case by (cases r) auto
qed

text \<open>Keeping a relation to the start state through a computation: used for frame conditions.\<close>

lemma bnd_preserves:
  assumes "P (snd (m s))" "\<And>x s'. m s = (Inr x, s') \<Longrightarrow> P s' \<Longrightarrow> P (snd (f x s'))"
  shows "P (snd (bnd m f s))"
proof (cases "m s")
  case (Pair r s')
  with assms show ?thesis by (cases r) auto
qed

lemma thn_preserves:
  assumes "P (snd (m s))" "\<And>s'. P s' \<Longrightarrow> P (snd (k s'))"
  shows "P (snd (thn m k s))"
  unfolding thn_def using assms by (rule bnd_preserves)

section \<open>JavaScript maps\<close>

definition jsmap_wf :: "('k, 'v) jsmap \<Rightarrow> bool" where
  "jsmap_wf m \<longleftrightarrow> distinct (map fst m)"

lemma jsmap_wf_Nil [simp]: "jsmap_wf []"
  by (simp add: jsmap_wf_def)

lemma jsmap_wf_update [simp]: "jsmap_wf m \<Longrightarrow> jsmap_wf (AList.update k v m)"
  by (simp add: jsmap_wf_def distinct_update)

lemma jsmap_wf_delete [simp]: "jsmap_wf m \<Longrightarrow> jsmap_wf (AList.delete k m)"
  by (simp add: jsmap_wf_def distinct_delete)

lemma map_of_js_update [simp]: "map_of (AList.update k v m) = (map_of m)(k \<mapsto> v)"
  by (simp add: update_conv')

lemma map_of_js_delete [simp]: "map_of (AList.delete k m) = (map_of m)(k := None)"
  by (simp add: delete_conv')

lemma jsmap_in_set: "jsmap_wf m \<Longrightarrow> (k, v) \<in> set m \<longleftrightarrow> map_of m k = Some v"
  by (simp add: jsmap_wf_def)

lemma set_update_sub: "set (AList.update k v m) \<subseteq> insert (k, v) (set m)"
  by (induction m) auto

lemma set_delete_eq: "set (AList.delete k m) = {e \<in> set m. fst e \<noteq> k}"
  by (induction m) auto

lemma keys_update: "fst ` set (AList.update k v m) = insert k (fst ` set m)"
  by (induction m) auto

section \<open>Lists and words\<close>

lemma list_update_same_nth [simp]: "i < length xs \<Longrightarrow> xs[i := xs ! i] = xs"
  by simp

lemma unat_shiftr_div: "unat (drop_bit n (x :: 'a :: len word)) = unat x div 2 ^ n"
  by (subst unat_drop_bit_eq) (rule drop_bit_eq_div)

lemma unat_and_mask_mod: "unat (x AND mask n :: 'a :: len word) = unat x mod 2 ^ n"
  by (subst take_bit_eq_mask [symmetric], subst unsigned_take_bit_eq) (rule take_bit_eq_mod)

lemma unat_2p:
  assumes "n < LENGTH('a)"
  shows "unat (2 ^ n :: 'a :: len word) = 2 ^ n"
proof -
  have "unat (word_of_nat (2 ^ n) :: 'a word) = 2 ^ n"
    using assms by (simp only: unat_of_nat) (simp add: take_bit_nat_eq_self)
  then show ?thesis by (simp only: of_nat_power of_nat_numeral)
qed

lemma word_eq_div_mod:
  fixes x y :: "'a :: len word"
  shows "x = y \<longleftrightarrow> unat x div 2 ^ n = unat y div 2 ^ n \<and> unat x mod 2 ^ n = unat y mod 2 ^ n"
  by (metis div_mult_mod_eq word_unat_eq_iff)

end
