(* ===== verification/Util.thy ===== *)
theory Util
  imports Prelude
begin

text \<open>
  The helpers of \<open>src/util.js\<close>: register and flag numbers, sign extension, alignment, parity,
  errno encoding, 64-bit splitting, hexadecimal text and POSIX path normalisation. A string is the
  list of the bytes of its UTF-8 encoding, one \<open>char\<close> per byte, so \<open>TextEncoder\<close> and
  \<open>TextDecoder\<close> are the byte/character bijection (ill-formed UTF-8, which the decoder replaces, is
  outside the model).
\<close>

section \<open>Constants\<close>

definition REG_EAX :: nat where "REG_EAX = 0"
definition REG_ECX :: nat where "REG_ECX = 1"
definition REG_EDX :: nat where "REG_EDX = 2"
definition REG_EBX :: nat where "REG_EBX = 3"
definition REG_ESP :: nat where "REG_ESP = 4"
definition REG_EBP :: nat where "REG_EBP = 5"
definition REG_ESI :: nat where "REG_ESI = 6"
definition REG_EDI :: nat where "REG_EDI = 7"

lemmas reg_defs = REG_EAX_def REG_ECX_def REG_EDX_def REG_EBX_def
  REG_ESP_def REG_EBP_def REG_ESI_def REG_EDI_def

text \<open>A flag is its bit number in EFLAGS; the source's mask is \<open>1 << bit\<close>.\<close>

definition FLAG_CF :: nat where "FLAG_CF = 0"
definition FLAG_PF :: nat where "FLAG_PF = 2"
definition FLAG_AF :: nat where "FLAG_AF = 4"
definition FLAG_ZF :: nat where "FLAG_ZF = 6"
definition FLAG_SF :: nat where "FLAG_SF = 7"
definition FLAG_TF :: nat where "FLAG_TF = 8"
definition FLAG_IF :: nat where "FLAG_IF = 9"
definition FLAG_DF :: nat where "FLAG_DF = 10"
definition FLAG_OF :: nat where "FLAG_OF = 11"

lemmas flag_defs = FLAG_CF_def FLAG_PF_def FLAG_AF_def FLAG_ZF_def FLAG_SF_def
  FLAG_TF_def FLAG_IF_def FLAG_DF_def FLAG_OF_def

section \<open>Integers\<close>

definition to_u32 :: "int \<Rightarrow> u32" where
  "to_u32 x = word_of_int x"

definition s32 :: "int \<Rightarrow> int" where
  "s32 x = sint (word_of_int x :: u32)"

definition u16_of :: "u32 \<Rightarrow> u32" where
  "u16_of x = x AND 0xffff"

definition s16 :: "u32 \<Rightarrow> int" where
  "s16 x = (let v = x AND 0xffff in if v AND 0x8000 \<noteq> 0 then uint v - 0x10000 else uint v)"

definition u8_of :: "u32 \<Rightarrow> u32" where
  "u8_of x = x AND 0xff"

definition s8 :: "u32 \<Rightarrow> int" where
  "s8 x = (let v = x AND 0xff in if v AND 0x80 \<noteq> 0 then uint v - 0x100 else uint v)"

definition sign32 :: "u32 \<Rightarrow> int" where
  "sign32 x = sint x"

definition alignDown :: "u32 \<Rightarrow> u32 \<Rightarrow> u32" where
  "alignDown value align = value AND NOT (align - 1)"

definition alignUp :: "u32 \<Rightarrow> u32 \<Rightarrow> u32" where
  "alignUp value align = (value + align - 1) AND NOT (align - 1)"

definition parity8 :: "u32 \<Rightarrow> bool" where
  "parity8 value =
     (let v = value AND 0xff; w = v XOR drop_bit 4 v; x = w AND 0xf
      in drop_bit (unat x) (0x6996 :: u32) AND 1 = 0)"

definition errno :: "int \<Rightarrow> u32" where
  "errno n = word_of_int (- \<bar>n\<bar>)"

definition isErrno :: "u32 \<Rightarrow> bool" where
  "isErrno r \<longleftrightarrow> r \<ge> 0xfffff001"

definition lo32FromBigInt :: "int \<Rightarrow> u32" where
  "lo32FromBigInt v = word_of_int (take_bit 32 v)"

definition hi32FromBigInt :: "int \<Rightarrow> u32" where
  "hi32FromBigInt v = word_of_int (take_bit 32 (drop_bit 32 v))"

definition makeBigUint64 :: "u32 \<Rightarrow> u32 \<Rightarrow> int" where
  "makeBigUint64 lo hi = push_bit 32 (uint hi) OR uint lo"

definition makeBigInt64 :: "u32 \<Rightarrow> u32 \<Rightarrow> int" where
  "makeBigInt64 lo hi = signed_take_bit 63 (makeBigUint64 lo hi)"

text \<open>
  An integer as a JavaScript number: beyond 53 bits it is rounded to the nearest multiple of a power of two, to the
  even one when two are equally near.
\<close>

fun bit_len :: "nat \<Rightarrow> nat" where
  "bit_len n = (if n = 0 then 0 else Suc (bit_len (n div 2)))"

declare bit_len.simps [simp del]

definition round_even :: "nat \<Rightarrow> nat \<Rightarrow> nat" where
  "round_even k n =
     (let q = n div 2 ^ k; r = n mod 2 ^ k in
      (if 2 * r < 2 ^ k \<or> 2 * r = 2 ^ k \<and> even q then q else q + 1) * 2 ^ k)"

definition js_num :: "int \<Rightarrow> int" where
  "js_num x =
     (let n = nat \<bar>x\<bar> in
      if n < 2 ^ 53 then x else sgn x * int (round_even (bit_len n - 53) n))"

section \<open>Text\<close>

definition hexdigit :: "nat \<Rightarrow> char" where
  "hexdigit d = ''0123456789abcdef'' ! d"

text \<open>\<open>Number.prototype.toString(16)\<close> on a non-negative integer.\<close>

fun to_hex :: "nat \<Rightarrow> string" where
  "to_hex n = (if n < 16 then [hexdigit n] else to_hex (n div 16) @ [hexdigit (n mod 16)])"

declare to_hex.simps [simp del]

definition padStart :: "nat \<Rightarrow> char \<Rightarrow> string \<Rightarrow> string" where
  "padStart width c s = replicate (width - length s) c @ s"

definition hex :: "u32 \<Rightarrow> nat \<Rightarrow> string" where
  "hex value width = ''0x'' @ padStart width (CHR ''0'') (to_hex (unat value))"

definition hex32 :: "u32 \<Rightarrow> string" where
  "hex32 value = hex value 8"

definition stringToBytes :: "string \<Rightarrow> u8 list" where
  "stringToBytes s = map (\<lambda>c. word_of_nat (of_char c)) s"

definition bytesToString :: "u8 list \<Rightarrow> string" where
  "bytesToString bs = map (\<lambda>b. char_of (unat b)) bs"

section \<open>Paths\<close>

text \<open>\<open>String.prototype.split("/")\<close>: always at least one piece.\<close>

fun split_slash :: "string \<Rightarrow> string list" where
  "split_slash [] = [[]]"
| "split_slash (c # s) =
     (if c = CHR ''/'' then [] # split_slash s
      else case split_slash s of [] \<Rightarrow> [[c]] | p # ps \<Rightarrow> (c # p) # ps)"

fun join_slash :: "string list \<Rightarrow> string" where
  "join_slash [] = []"
| "join_slash [p] = p"
| "join_slash (p # q # ps) = p @ CHR ''/'' # join_slash (q # ps)"

text \<open>One round of the loop over the pieces: skip, pop or push.\<close>

definition path_step :: "string list \<Rightarrow> string \<Rightarrow> string list" where
  "path_step parts part =
     (if part = '''' \<or> part = ''.'' then parts
      else if part = ''..'' then butlast parts
      else parts @ [part])"

definition norm_parts :: "string \<Rightarrow> string list" where
  "norm_parts path = foldl path_step [] (split_slash path)"

definition normalizePath :: "string \<Rightarrow> string" where
  "normalizePath path =
     CHR ''/'' # join_slash (norm_parts (if path = '''' then ''/'' else path))"

definition joinPath :: "string \<Rightarrow> string \<Rightarrow> string" where
  "joinPath base child =
     (if child = '''' then normalizePath base
      else if hd child = CHR ''/'' then normalizePath child
      else normalizePath ((if base = '''' then ''/'' else base) @ ''/'' @ child))"

section \<open>File types\<close>

definition S_IFMT :: u32 where "S_IFMT = 0xf000"
definition S_IFSOCK :: u32 where "S_IFSOCK = 0xc000"
definition S_IFLNK :: u32 where "S_IFLNK = 0xa000"
definition S_IFREG :: u32 where "S_IFREG = 0x8000"
definition S_IFBLK :: u32 where "S_IFBLK = 0x6000"
definition S_IFDIR :: u32 where "S_IFDIR = 0x4000"
definition S_IFCHR :: u32 where "S_IFCHR = 0x2000"
definition S_IFIFO :: u32 where "S_IFIFO = 0x1000"

lemmas stat_defs = S_IFMT_def S_IFSOCK_def S_IFLNK_def S_IFREG_def S_IFBLK_def
  S_IFDIR_def S_IFCHR_def S_IFIFO_def

definition modeToDirentType :: "u32 \<Rightarrow> nat" where
  "modeToDirentType mode =
     (let t = mode AND S_IFMT in
      if t = S_IFDIR then 4 else if t = S_IFREG then 8 else if t = S_IFCHR then 2
      else if t = S_IFLNK then 10 else if t = S_IFIFO then 1 else 0)"

section \<open>Facts about the helpers\<close>

lemma alignDown_mask: "align = 2 ^ n \<Longrightarrow> n < 32 \<Longrightarrow> alignDown v align = v AND NOT (mask n)"
  by (simp add: alignDown_def mask_eq_exp_minus_1)

lemma alignDown_eq_sub:
  assumes "n < 32"
  shows "alignDown v (2 ^ n) = v - take_bit n v"
proof -
  have "push_bit n (drop_bit n v) = v AND NOT (mask n)"
    by (rule bit_word_eqI) (auto simp: bit_simps)
  then show ?thesis
    using assms bits_ident [of n v] by (simp add: alignDown_mask eq_diff_eq)
qed

lemma unat_take_bit_mod: "unat (take_bit n (x :: 'a :: len word)) = unat x mod 2 ^ n"
  by (subst unsigned_take_bit_eq) (rule take_bit_eq_mod)

lemma unat_alignDown:
  assumes "n < 32"
  shows "unat (alignDown v (2 ^ n)) = unat v div 2 ^ n * 2 ^ n"
proof -
  have "take_bit n v \<le> v"
    by (simp add: word_le_nat_alt unat_take_bit_mod)
  then have "unat (v - take_bit n v) = unat v - unat v mod 2 ^ n"
    by (simp add: unat_sub unat_take_bit_mod)
  then show ?thesis
    by (simp add: alignDown_eq_sub [OF assms] minus_mod_eq_div_mult)
qed

lemma alignUp_alignDown: "alignUp v a = alignDown (v + a - 1) a"
  by (simp add: alignUp_def alignDown_def)

lemma split_slash_nonempty [simp]: "split_slash s \<noteq> []"
  by (induction s) (auto split: list.splits)

lemma split_slash_no_slash: "CHR ''/'' \<notin> set p \<Longrightarrow> split_slash p = [p]"
  by (induction p) auto

lemma split_slash_append:
  "CHR ''/'' \<notin> set p \<Longrightarrow> split_slash (p @ CHR ''/'' # s) = p # split_slash s"
  by (induction p) (auto split: list.splits)

lemma split_join_slash:
  "ps \<noteq> [] \<Longrightarrow> \<forall>p \<in> set ps. CHR ''/'' \<notin> set p \<Longrightarrow> split_slash (join_slash ps) = ps"
  by (induction ps rule: join_slash.induct) (auto simp: split_slash_no_slash split_slash_append)

lemma split_slash_pieces: "p \<in> set (split_slash s) \<Longrightarrow> CHR ''/'' \<notin> set p"
  by (induction s arbitrary: p) (auto split: list.splits if_splits)

definition clean_part :: "string \<Rightarrow> bool" where
  "clean_part p \<longleftrightarrow> p \<noteq> '''' \<and> p \<noteq> ''.'' \<and> p \<noteq> ''..'' \<and> CHR ''/'' \<notin> set p"

lemma path_step_clean:
  "\<forall>p \<in> set ps. clean_part p \<Longrightarrow> CHR ''/'' \<notin> set q \<Longrightarrow> \<forall>p \<in> set (path_step ps q). clean_part p"
  by (auto simp: path_step_def clean_part_def dest: in_set_butlastD)

lemma foldl_path_step_clean:
  "\<forall>p \<in> set ps. clean_part p \<Longrightarrow> \<forall>q \<in> set qs. CHR ''/'' \<notin> set q \<Longrightarrow>
   \<forall>p \<in> set (foldl path_step ps qs). clean_part p"
proof (induction qs arbitrary: ps)
  case Nil
  then show ?case by simp
next
  case (Cons q qs)
  then have "\<forall>p \<in> set (path_step ps q). clean_part p"
    by (intro path_step_clean) auto
  with Cons show ?case by simp
qed

lemma norm_parts_clean: "p \<in> set (norm_parts s) \<Longrightarrow> clean_part p"
  using foldl_path_step_clean [of "[]" "split_slash s"] split_slash_pieces
  by (auto simp: norm_parts_def)

lemma foldl_path_step_clean_id:
  "\<forall>q \<in> set qs. clean_part q \<Longrightarrow> foldl path_step ps qs = ps @ qs"
  by (induction qs arbitrary: ps) (auto simp: path_step_def clean_part_def)

lemma norm_parts_join:
  assumes "\<forall>q \<in> set qs. clean_part q"
  shows "norm_parts (CHR ''/'' # join_slash qs) = qs"
proof (cases "qs = []")
  case True
  then show ?thesis by (simp add: norm_parts_def path_step_def)
next
  case False
  have "split_slash (join_slash qs) = qs"
    using False assms by (intro split_join_slash) (auto simp: clean_part_def)
  then show ?thesis
    using assms by (simp add: norm_parts_def path_step_def foldl_path_step_clean_id)
qed


lemma norm_parts_normalizePath: "norm_parts (normalizePath p) = norm_parts (if p = '''' then ''/'' else p)"
  unfolding normalizePath_def using norm_parts_clean by (intro norm_parts_join) blast

lemma bytes_string_inverse [simp]: "bytesToString (stringToBytes s) = s"
proof -
  have "unat (word_of_nat (of_char c) :: u8) = of_char c" for c
    by (simp add: unat_of_nat)
  then show ?thesis
    by (simp add: bytesToString_def stringToBytes_def comp_def)
qed

lemma string_bytes_inverse [simp]: "stringToBytes (bytesToString bs) = bs"
proof -
  have "unat b mod 256 = unat b" for b :: u8
    using unsigned_less [of b, where 'a = nat] by simp
  then show ?thesis
    by (simp add: bytesToString_def stringToBytes_def comp_def map_idI)
qed

lemma length_stringToBytes [simp]: "length (stringToBytes s) = length s"
  by (simp add: stringToBytes_def)

lemma length_bytesToString [simp]: "length (bytesToString s) = length s"
  by (simp add: bytesToString_def)

lemma hexdigit_inj: "a < 16 \<Longrightarrow> b < 16 \<Longrightarrow> hexdigit a = hexdigit b \<Longrightarrow> a = b"
  unfolding hexdigit_def by (subst (asm) nth_eq_iff_index_eq) (auto simp: numeral_eq_Suc)

lemma to_hex_nonempty [simp]: "to_hex n \<noteq> []"
  by (subst to_hex.simps) simp

lemma to_hex_inj: "to_hex m = to_hex n \<Longrightarrow> m = n"
proof (induction m arbitrary: n rule: to_hex.induct)
  case (1 m)
  show ?case
  proof (cases "m < 16")
    case True
    with "1.prems" show ?thesis
      by (auto simp: to_hex.simps [of m] to_hex.simps [of n] Nil_is_append_conv
          dest: hexdigit_inj sym [of "[]"] split: if_splits)
  next
    case False
    with "1.prems" have n: "\<not> n < 16"
      by (auto simp: to_hex.simps [of m] to_hex.simps [of n])
    with False "1.prems" have "to_hex (m div 16) = to_hex (n div 16)" "m mod 16 = n mod 16"
      by (auto simp: to_hex.simps [of m] to_hex.simps [of n] dest: hexdigit_inj [rotated 2])
    with False "1.IH" show ?thesis by (metis div_mult_mod_eq)
  qed
qed

end
