(* ===== verification/Memory.thy ===== *)
theory Memory
  imports Util
begin

text \<open>
  The paged virtual memory of \<open>src/memory.js\<close>. \<open>Page\<close> objects are shared between the memories of a
  parent and its forked children (copy-on-write), so pages live in an explicit store: a list of page
  records, a reference being an index into it, and a memory maps page numbers to references. A
  computation runs on a pair of the store and one \<open>PagedMemory\<close> object; a family of processes is one
  store with several objects. The \<open>onWrite\<close> callback is recorded as the list of its calls.
\<close>

named_theorems mem_defs \<open>definitions of the memory operations\<close>

section \<open>Errors, permissions, pages\<close>

text \<open>
  \<open>Diverges\<close> is not an exception of the source: it is the outcome of a loop that does not end.
  \<open>JsTypeError\<close> is the access to a field of \<open>undefined\<close>.
\<close>

datatype mem_error = MemoryFault (fault_addr: u32) (fault_op: string) | JsTypeError | Diverges

definition PERM_R :: u32 where "PERM_R = 1"
definition PERM_W :: u32 where "PERM_W = 2"
definition PERM_X :: u32 where "PERM_X = 4"
definition PERM_RW :: u32 where "PERM_RW = 3"

lemmas perm_defs = PERM_R_def PERM_W_def PERM_X_def PERM_RW_def

datatype perm_arg = PermNum u32 | PermText string

primrec permFrom :: "perm_arg \<Rightarrow> u32" where
  "permFrom (PermNum n) = n"
| "permFrom (PermText s) =
     (if CHR ''r'' \<in> set s then PERM_R else 0) OR
     (if CHR ''w'' \<in> set s then PERM_W else 0) OR
     (if CHR ''x'' \<in> set s then PERM_X else 0)"

definition permText :: "u32 \<Rightarrow> string" where
  "permText p =
     [if p AND PERM_R \<noteq> 0 then CHR ''r'' else CHR ''-'',
      if p AND PERM_W \<noteq> 0 then CHR ''w'' else CHR ''-'',
      if p AND PERM_X \<noteq> 0 then CHR ''x'' else CHR ''-'']"

record page =
  pdata :: "u8 list"
  pperm :: u32
  pdirty :: bool
  pshared :: bool
  prefCount :: nat

definition new_Page :: "nat \<Rightarrow> u32 \<Rightarrow> page" where
  "new_Page sz p =
     \<lparr>pdata = replicate sz 0, pperm = p, pdirty = False, pshared = False, prefCount = 1\<rparr>"

section \<open>The memory object\<close>

record paged_memory =
  pageSize :: u32
  pageShift :: nat
  pageMask :: u32
  pages :: "(nat, nat) jsmap"
  nameMap :: "(nat, string) jsmap"
  onWrite :: "(u32 \<times> nat) list option"
  nextMmap :: u32

type_synonym mst = "page list \<times> paged_memory"
type_synonym 'a memM = "(mst, mem_error, 'a) sem"

fun log2_floor :: "nat \<Rightarrow> nat" where
  "log2_floor n = (if n \<le> 1 then 0 else Suc (log2_floor (n div 2)))"

declare log2_floor.simps [simp del]

text \<open>The constructor: \<open>None\<close> is the throw for a page size that is not a power of two.\<close>

definition new_PagedMemory ::
    "u32 \<Rightarrow> (u32 \<times> nat) list option \<Rightarrow> u32 \<Rightarrow> paged_memory option" where
  "new_PagedMemory sz cb next =
     (if sz AND (sz - 1) \<noteq> 0 then None
      else Some \<lparr>pageSize = sz, pageShift = log2_floor (unat sz), pageMask = sz - 1,
                 pages = [], nameMap = [], onWrite = cb, nextMmap = next\<rparr>)"

definition pageNo :: "paged_memory \<Rightarrow> u32 \<Rightarrow> nat" where
  "pageNo m addr = unat (drop_bit (pageShift m) addr)"

definition pageOff :: "paged_memory \<Rightarrow> u32 \<Rightarrow> nat" where
  "pageOff m addr = unat (addr AND pageMask m)"

definition getPage :: "u32 \<Rightarrow> u32 \<Rightarrow> string \<Rightarrow> nat memM" where
  "getPage addr need op = (\<lambda>(h, m).
     case map_of (pages m) (pageNo m addr) of
       None \<Rightarrow> (Inl (MemoryFault addr op), (h, m))
     | Some r \<Rightarrow> if pperm (h ! r) AND need \<noteq> need then (Inl (MemoryFault addr op), (h, m))
                 else (Inr r, (h, m)))"

definition isMapped :: "u32 \<Rightarrow> mst \<Rightarrow> bool" where
  "isMapped addr s = (map_of (pages (snd s)) (pageNo (snd s) addr) \<noteq> None)"

partial_function (option) isRangeMapped_loop :: "mst \<Rightarrow> u32 \<Rightarrow> u32 \<Rightarrow> bool option" where
  "isRangeMapped_loop s a e =
     (if a = e then Some True
      else if \<not> isMapped a s then Some False
      else isRangeMapped_loop s (a + pageSize (snd s)) e)"

definition isRangeMapped :: "u32 \<Rightarrow> int \<Rightarrow> mst \<Rightarrow> bool option" where
  "isRangeMapped addr len s =
     (if len \<le> 0 then Some True
      else isRangeMapped_loop s (alignDown addr (pageSize (snd s)))
             (alignUp (addr + word_of_int len) (pageSize (snd s))))"

section \<open>Mapping, unmapping, protecting\<close>

text \<open>The page numbers visited by the loops of \<open>map\<close>, \<open>unmap\<close> and \<open>mprotect\<close>.\<close>

definition page_range :: "paged_memory \<Rightarrow> u32 \<Rightarrow> int \<Rightarrow> nat list" where
  "page_range m addr len =
     [pageNo m (alignDown addr (pageSize m)) ..<
      pageNo m (alignUp (addr + word_of_int len) (pageSize m))]"

definition map_page :: "u32 \<Rightarrow> string \<Rightarrow> nat \<Rightarrow> unit memM" where
  "map_page p name n = modS (\<lambda>(h, m).
     let (h', m') =
           (case map_of (pages m) n of
              None \<Rightarrow> (h @ [new_Page (unat (pageSize m)) p],
                       m\<lparr>pages := AList.update n (length h) (pages m)\<rparr>)
            | Some r \<Rightarrow> (h[r := (h ! r)\<lparr>pperm := p\<rparr>], m))
     in (h', if name = '''' then m' else m'\<lparr>nameMap := AList.update n name (nameMap m')\<rparr>))"

definition map_mem :: "u32 \<Rightarrow> int \<Rightarrow> perm_arg \<Rightarrow> string \<Rightarrow> u32 memM" where
  "map_mem addr len perm name =
     (if len \<le> 0 then ret addr
      else bnd (getS snd) (\<lambda>m.
           thn (forM (page_range m addr len) (map_page (permFrom perm) name))
               (ret (alignDown addr (pageSize m)))))"

definition unmap_page :: "bool \<Rightarrow> nat \<Rightarrow> unit memM" where
  "unmap_page ignoreMissing n = (\<lambda>(h, m).
     if map_of (pages m) n = None \<and> \<not> ignoreMissing
     then (Inl (MemoryFault (word_of_nat (n * unat (pageSize m))) ''unmap''), (h, m))
     else (Inr (), (h, m\<lparr>pages := AList.delete n (pages m),
                         nameMap := AList.delete n (nameMap m)\<rparr>)))"

definition unmap :: "u32 \<Rightarrow> int \<Rightarrow> bool \<Rightarrow> unit memM" where
  "unmap addr len ignoreMissing =
     (if len \<le> 0 then ret ()
      else bnd (getS snd) (\<lambda>m. forM (page_range m addr len) (unmap_page ignoreMissing)))"

record mmap_options =
  opt_fixed :: bool
  opt_addr :: u32
  opt_perm :: perm_arg
  opt_name :: string

definition mmap :: "u32 \<Rightarrow> mmap_options \<Rightarrow> u32 memM" where
  "mmap len opts =
     bnd (getS snd) (\<lambda>m. let sz = alignUp len (pageSize m) in
       bnd (if \<not> opt_fixed opts \<or> opt_addr opts = 0
            then let next = alignDown (nextMmap m - sz - pageSize m) (pageSize m)
                 in thn (modS (\<lambda>(h, m). (h, m\<lparr>nextMmap := next\<rparr>))) (ret next)
            else let addr = alignDown (opt_addr opts) (pageSize m)
                 in thn (unmap addr (uint sz) True) (ret addr))
         (\<lambda>addr. thn (map_mem addr (uint sz) (opt_perm opts) (opt_name opts)) (ret addr)))"

definition protect_page :: "u32 \<Rightarrow> nat \<Rightarrow> unit memM" where
  "protect_page p n = (\<lambda>(h, m).
     case map_of (pages m) n of
       None \<Rightarrow> (Inl (MemoryFault (word_of_nat (n * unat (pageSize m))) ''mprotect''), (h, m))
     | Some r \<Rightarrow> (Inr (), (h[r := (h ! r)\<lparr>pperm := p\<rparr>], m)))"

definition mprotect :: "u32 \<Rightarrow> int \<Rightarrow> perm_arg \<Rightarrow> unit memM" where
  "mprotect addr len perm =
     bnd (getS snd) (\<lambda>m. forM (page_range m addr len) (protect_page (permFrom perm)))"

definition region_free :: "paged_memory \<Rightarrow> nat \<Rightarrow> nat \<Rightarrow> bool" where
  "region_free m pn n = list_all (\<lambda>i. map_of (pages m) (pn + i) = None) [0..<n]"

partial_function (option) findFreeRegion_loop ::
    "paged_memory \<Rightarrow> nat \<Rightarrow> u32 \<Rightarrow> u32 \<Rightarrow> u32 option option" where
  "findFreeRegion_loop m n hi addr =
     (if addr < hi
      then if region_free m (pageNo m addr) n then Some (Some addr)
           else findFreeRegion_loop m n hi (addr + pageSize m)
      else Some None)"

text \<open>
  No caller passes the \<open>align\<close> option, so the alignment and the step are the page size;
  \<open>Math.ceil(length / pageSize)\<close> is a rounded-up division.
\<close>

definition findFreeRegion :: "u32 \<Rightarrow> u32 \<Rightarrow> u32 \<Rightarrow> u32 memM" where
  "findFreeRegion len lo hi = (\<lambda>(h, m).
     let lo' = alignUp lo (pageSize m); hi' = alignDown hi (pageSize m);
         n = (unat len + unat (pageSize m) - 1) div unat (pageSize m)
     in case findFreeRegion_loop m n hi' lo' of
          None \<Rightarrow> (Inl Diverges, (h, m))
        | Some None \<Rightarrow> (Inl (MemoryFault lo' ''mmap-no-space''), (h, m))
        | Some (Some a) \<Rightarrow> (Inr a, (h, m)))"

section \<open>Little-endian accesses over byte accesses\<close>

text \<open>
  The source writes the same byte assembly several times (\<open>read32\<close>, \<open>forceWrite32\<close>, the JIT's
  \<open>_read32\<close>); the shape is stated once, over the byte access it uses.
\<close>

definition le_read16 :: "(u32 \<Rightarrow> ('s, 'e, u8) sem) \<Rightarrow> u32 \<Rightarrow> ('s, 'e, u32) sem" where
  "le_read16 rd a =
     bnd (rd a) (\<lambda>b0. bnd (rd (a + 1)) (\<lambda>b1. ret (ucast b0 OR push_bit 8 (ucast b1))))"

definition le_read32 :: "(u32 \<Rightarrow> ('s, 'e, u8) sem) \<Rightarrow> u32 \<Rightarrow> ('s, 'e, u32) sem" where
  "le_read32 rd a =
     bnd (rd a) (\<lambda>b0. bnd (rd (a + 1)) (\<lambda>b1. bnd (rd (a + 2)) (\<lambda>b2. bnd (rd (a + 3)) (\<lambda>b3.
       ret (ucast b0 OR push_bit 8 (ucast b1) OR push_bit 16 (ucast b2) OR push_bit 24 (ucast b3))))))"

definition le_write16 :: "(u32 \<Rightarrow> u32 \<Rightarrow> ('s, 'e, unit) sem) \<Rightarrow> u32 \<Rightarrow> u32 \<Rightarrow> ('s, 'e, unit) sem" where
  "le_write16 wr a v = thn (wr a v) (wr (a + 1) (drop_bit 8 v))"

definition le_write32 :: "(u32 \<Rightarrow> u32 \<Rightarrow> ('s, 'e, unit) sem) \<Rightarrow> u32 \<Rightarrow> u32 \<Rightarrow> ('s, 'e, unit) sem" where
  "le_write32 wr a v =
     thn (wr a v) (thn (wr (a + 1) (drop_bit 8 v))
       (thn (wr (a + 2) (drop_bit 16 v)) (wr (a + 3) (drop_bit 24 v))))"

section \<open>Reading and writing\<close>

definition read8 :: "u32 \<Rightarrow> u8 memM" where
  "read8 addr =
     bnd (getPage addr PERM_R ''read'') (\<lambda>r. getS (\<lambda>(h, m). pdata (h ! r) ! pageOff m addr))"

definition read8exec :: "u32 \<Rightarrow> u8 memM" where
  "read8exec addr = (\<lambda>(h, m).
     case map_of (pages m) (pageNo m addr) of
       None \<Rightarrow> (Inl (MemoryFault addr ''exec''), (h, m))
     | Some r \<Rightarrow> if pperm (h ! r) AND (PERM_X OR PERM_R) = 0
                 then (Inl (MemoryFault addr ''exec''), (h, m))
                 else (Inr (pdata (h ! r) ! pageOff m addr), (h, m)))"

definition read16 :: "u32 \<Rightarrow> u32 memM" where
  "read16 = le_read16 read8"

definition read16s :: "u32 \<Rightarrow> int memM" where
  "read16s addr =
     bnd (read16 addr) (\<lambda>v. ret (if v AND 0x8000 \<noteq> 0 then uint v - 0x10000 else uint v))"

definition read32 :: "u32 \<Rightarrow> u32 memM" where
  "read32 = le_read32 read8"

definition read32s :: "u32 \<Rightarrow> int memM" where
  "read32s addr = bnd (read32 addr) (\<lambda>v. ret (sint v))"

text \<open>The copy-on-write step of \<open>write8\<close>: a shared page with other holders is copied first.\<close>

definition unshare :: "u32 \<Rightarrow> nat \<Rightarrow> nat memM" where
  "unshare addr r = (\<lambda>(h, m).
     let p = h ! r in
     if pshared p \<and> prefCount p > 1
     then let cp = (new_Page (unat (pageSize m)) (pperm p))\<lparr>pdata := pdata p, pdirty := pdirty p\<rparr>;
              n = prefCount p - 1;
              p' = p\<lparr>prefCount := n, pshared := (if n \<le> 1 then False else pshared p)\<rparr>
          in (Inr (length h),
              (h[r := p'] @ [cp], m\<lparr>pages := AList.update (pageNo m addr) (length h) (pages m)\<rparr>))
     else (Inr r, (h, m)))"

definition notifyWrite :: "u32 \<Rightarrow> unit memM" where
  "notifyWrite addr =
     modS (\<lambda>(h, m). (h, m\<lparr>onWrite := map_option (\<lambda>log. log @ [(addr, 1)]) (onWrite m)\<rparr>))"

definition storeByte :: "nat \<Rightarrow> u32 \<Rightarrow> u32 \<Rightarrow> unit memM" where
  "storeByte r addr value = modS (\<lambda>(h, m).
     (h[r := (h ! r)\<lparr>pdata := (pdata (h ! r))[pageOff m addr := ucast value], pdirty := True\<rparr>], m))"

definition write8 :: "u32 \<Rightarrow> u32 \<Rightarrow> unit memM" where
  "write8 addr value =
     bnd (getPage addr PERM_W ''write'') (\<lambda>r0. bnd (unshare addr r0) (\<lambda>r.
       thn (storeByte r addr value) (notifyWrite addr)))"

definition write16 :: "u32 \<Rightarrow> u32 \<Rightarrow> unit memM" where
  "write16 = le_write16 write8"

definition write32 :: "u32 \<Rightarrow> u32 \<Rightarrow> unit memM" where
  "write32 = le_write32 write8"

definition forceWrite8 :: "u32 \<Rightarrow> u32 \<Rightarrow> unit memM" where
  "forceWrite8 addr value =
     bnd (getPage addr 0 ''force-write'') (\<lambda>r.
       thn (storeByte r addr value) (notifyWrite addr))"

definition forceWrite16 :: "u32 \<Rightarrow> u32 \<Rightarrow> unit memM" where
  "forceWrite16 = le_write16 forceWrite8"

definition forceWrite32 :: "u32 \<Rightarrow> u32 \<Rightarrow> unit memM" where
  "forceWrite32 = le_write32 forceWrite8"

section \<open>Bulk access\<close>

definition addr_seq :: "u32 \<Rightarrow> nat \<Rightarrow> u32 list" where
  "addr_seq addr n = map (\<lambda>i. addr + word_of_nat i) [0..<n]"

text \<open>\<open>loadBytes\<close> stores into \<open>pages.get(...).data\<close> without a check: a missing page is a TypeError.\<close>

definition loadByte :: "u32 \<Rightarrow> u8 \<Rightarrow> unit memM" where
  "loadByte a b = (\<lambda>(h, m).
     case map_of (pages m) (pageNo m a) of
       None \<Rightarrow> (Inl JsTypeError, (h, m))
     | Some r \<Rightarrow> (Inr (), (h[r := (h ! r)\<lparr>pdata := (pdata (h ! r))[pageOff m a := b]\<rparr>], m)))"

definition loadBytes :: "u32 \<Rightarrow> u8 list \<Rightarrow> perm_arg \<Rightarrow> string \<Rightarrow> unit memM" where
  "loadBytes addr bs perm name =
     thn (map_mem addr (int (length bs)) (PermNum (PERM_RW OR PERM_X)) name)
       (thn (forM (zip (addr_seq addr (length bs)) bs) (\<lambda>(a, b). loadByte a b))
          (mprotect addr (int (length bs)) perm))"

definition zero :: "u32 \<Rightarrow> nat \<Rightarrow> unit memM" where
  "zero addr n = forM (addr_seq addr n) (\<lambda>a. write8 a 0)"

definition readBytes :: "u32 \<Rightarrow> nat \<Rightarrow> u8 list memM" where
  "readBytes addr n = mapMs (addr_seq addr n) read8"

definition writeBytes :: "u32 \<Rightarrow> u8 list \<Rightarrow> unit memM" where
  "writeBytes addr bs = forM (zip (addr_seq addr (length bs)) bs) (\<lambda>(a, b). write8 a (ucast b))"

fun cstring_loop :: "u32 \<Rightarrow> nat \<Rightarrow> nat \<Rightarrow> u8 list \<Rightarrow> u8 list option memM" where
  "cstring_loop addr i 0 acc = ret None"
| "cstring_loop addr i (Suc n) acc =
     bnd (read8 (addr + word_of_nat i)) (\<lambda>b.
       if b = 0 then ret (Some acc) else cstring_loop addr (Suc i) n (acc @ [b]))"

definition readCString :: "u32 \<Rightarrow> nat \<Rightarrow> string memM" where
  "readCString addr limit =
     bnd (cstring_loop addr 0 limit []) (\<lambda>r.
       case r of None \<Rightarrow> throw (MemoryFault addr ''cstring'') | Some bs \<Rightarrow> ret (bytesToString bs))"

record iovec =
  iov_base :: u32
  iov_len :: u32
  iov_data :: "u8 list"

fun iovec_loop :: "u32 \<Rightarrow> nat \<Rightarrow> nat \<Rightarrow> nat \<Rightarrow> nat \<Rightarrow> iovec list \<Rightarrow> iovec list memM" where
  "iovec_loop addr i 0 maxBytes tot out = ret out"
| "iovec_loop addr i (Suc n) maxBytes tot out =
     bnd (read32 (addr + word_of_nat (i * 8))) (\<lambda>base.
     bnd (read32 (addr + word_of_nat (i * 8 + 4))) (\<lambda>len.
       let tot' = tot + unat len in
       if tot' > maxBytes then throw (MemoryFault addr ''iovec-too-large'')
       else bnd (readBytes base (unat len)) (\<lambda>d.
         iovec_loop addr (Suc i) n maxBytes tot'
           (out @ [\<lparr>iov_base = base, iov_len = len, iov_data = d\<rparr>]))))"

definition copyInIovec :: "u32 \<Rightarrow> nat \<Rightarrow> nat \<Rightarrow> iovec list memM" where
  "copyInIovec addr count maxBytes = iovec_loop addr 0 count maxBytes 0 []"

section \<open>Memory maps\<close>

record map_run =
  startPage :: nat
  endPage :: nat
  run_perm :: u32
  run_name :: string

definition extend_runs :: "mst \<Rightarrow> map_run list \<Rightarrow> nat \<Rightarrow> map_run list" where
  "extend_runs s runs p =
     (let perm = pperm (fst s ! the (map_of (pages (snd s)) p));
          name = (case map_of (nameMap (snd s)) p of None \<Rightarrow> '''' | Some n \<Rightarrow> n)
      in if runs \<noteq> [] \<and> endPage (last runs) = p \<and> run_perm (last runs) = perm
            \<and> run_name (last runs) = name
         then butlast runs @ [(last runs)\<lparr>endPage := Suc (endPage (last runs))\<rparr>]
         else runs @ [\<lparr>startPage = p, endPage = Suc p, run_perm = perm, run_name = name\<rparr>])"

definition map_runs :: "mst \<Rightarrow> map_run list" where
  "map_runs s = foldl (extend_runs s) [] (sort (map fst (pages (snd s))))"

definition getMaps :: "mst \<Rightarrow> (u32 \<times> u32 \<times> u32 \<times> string) list" where
  "getMaps s =
     map (\<lambda>r. (word_of_nat (startPage r * unat (pageSize (snd s))),
               word_of_nat (endPage r * unat (pageSize (snd s))), run_perm r, run_name r))
       (map_runs s)"

section \<open>Cloning\<close>

definition share_page :: "page \<Rightarrow> page" where
  "share_page p = p\<lparr>pshared := True, prefCount := prefCount p + 1\<rparr>"

definition clone_cow :: "mst \<Rightarrow> (u32 \<times> nat) list option \<Rightarrow> page list \<times> paged_memory" where
  "clone_cow s cb =
     (let (h, m) = s in
      (foldl (\<lambda>h (no, r). h[r := share_page (h ! r)]) h (pages m),
       m\<lparr>onWrite := cb\<rparr>))"

definition clone_copy :: "mst \<Rightarrow> (u32 \<times> nat) list option \<Rightarrow> page list \<times> paged_memory" where
  "clone_copy s cb =
     (let (h, m) = s in
      foldl (\<lambda>(h', m') (no, r).
          (h' @ [(new_Page (unat (pageSize m)) (pperm (h ! r)))
                   \<lparr>pdata := pdata (h ! r), pdirty := pdirty (h ! r)\<rparr>],
           m'\<lparr>pages := AList.update no (length h') (pages m')\<rparr>))
        (h, m\<lparr>pages := [], onWrite := cb\<rparr>) (pages m))"

lemmas [mem_defs] = read8_def read8exec_def write8_def forceWrite8_def getPage_def
  unshare_def storeByte_def notifyWrite_def

text \<open>
  \<open>formatMaps\<close>, the text of \<open>/proc/self/maps\<close>. \<open>trimEnd\<close> drops white space at the end of the line.
\<close>

definition js_space :: "char \<Rightarrow> bool" where
  "js_space c \<longleftrightarrow> (of_char c :: nat) \<in> {9, 10, 11, 12, 13, 32, 160}"

definition trimEnd :: "string \<Rightarrow> string" where
  "trimEnd s = rev (dropWhile js_space (rev s))"

definition format_map :: "u32 \<times> u32 \<times> u32 \<times> string \<Rightarrow> string" where
  "format_map r = (case r of (start, fin, perm, name) \<Rightarrow>
     trimEnd (drop 2 (hex32 start) @ ''-'' @ drop 2 (hex32 fin) @ '' '' @ permText perm @
              ''p 00000000 00:00 0 '' @ name))"

fun join_lines :: "string list \<Rightarrow> string" where
  "join_lines [] = ''''"
| "join_lines [l] = l"
| "join_lines (l # ls) = l @ [CHR 0x0A] @ join_lines ls"

definition formatMaps :: "mst \<Rightarrow> string" where
  "formatMaps s = join_lines (map format_map (getMaps s)) @ [CHR 0x0A]"

definition copyIn :: "u32 \<Rightarrow> nat \<Rightarrow> u8 list memM" where
  "copyIn addr len = readBytes addr len"

definition copyOut :: "u32 \<Rightarrow> u8 list \<Rightarrow> nat memM" where
  "copyOut addr bs = thn (writeBytes addr bs) (ret (length bs))"

end
