(* ===== verification/Memory_Facts.thy ===== *)
theory Memory_Facts
  imports Memory
begin

text \<open>
  The contract of the paged memory. The abstract memory is a partial map from addresses to a byte
  and its permission bits (\<open>byte_at\<close>); reading, writing and forced writing refine lookup and update
  of it. The locale \<open>byte_memory\<close> states that contract for any pair of byte operations and derives
  the little-endian and bulk round trips once; it is interpreted for \<open>write8\<close> and for
  \<open>forceWrite8\<close>.
\<close>

lemma new_Page_simps [simp]:
  "pdata (new_Page n p) = replicate n 0" "pperm (new_Page n p) = p"
  "pdirty (new_Page n p) = False" "pshared (new_Page n p) = False" "prefCount (new_Page n p) = 1"
  by (simp_all add: new_Page_def)

section \<open>Well-formedness\<close>

definition shape_ok :: "paged_memory \<Rightarrow> bool" where
  "shape_ok m \<longleftrightarrow>
     pageShift m < 32 \<and> pageSize m = 2 ^ pageShift m \<and> pageMask m = mask (pageShift m)"

definition pages_ok :: "page list \<Rightarrow> paged_memory \<Rightarrow> bool" where
  "pages_ok h m \<longleftrightarrow>
     jsmap_wf (pages m) \<and> distinct (map snd (pages m)) \<and>
     (\<forall>(n, r) \<in> set (pages m). n < 2 ^ (32 - pageShift m) \<and> r < length h)"

definition store_ok :: "page list \<Rightarrow> paged_memory \<Rightarrow> bool" where
  "store_ok h m \<longleftrightarrow> (\<forall>p \<in> set h. length (pdata p) = unat (pageSize m))"

definition mem_wf :: "mst \<Rightarrow> bool" where
  "mem_wf s \<longleftrightarrow> shape_ok (snd s) \<and> pages_ok (fst s) (snd s) \<and> store_ok (fst s) (snd s)"

definition byte_at :: "mst \<Rightarrow> u32 \<Rightarrow> (u8 \<times> u32) option" where
  "byte_at s a =
     (case map_of (pages (snd s)) (pageNo (snd s) a) of
        None \<Rightarrow> None
      | Some r \<Rightarrow> Some (pdata (fst s ! r) ! pageOff (snd s) a, pperm (fst s ! r)))"

lemma pageNo_div: "pageNo m a = unat a div 2 ^ pageShift m"
  by (simp add: pageNo_def unat_shiftr_div)

lemma pageOff_mod: "shape_ok m \<Longrightarrow> pageOff m a = unat a mod 2 ^ pageShift m"
  by (simp add: pageOff_def shape_ok_def unat_and_mask_mod)

lemma unat_pageSize: "shape_ok m \<Longrightarrow> unat (pageSize m) = 2 ^ pageShift m"
  by (simp add: shape_ok_def unat_2p)

lemma pageOff_less: "shape_ok m \<Longrightarrow> pageOff m a < unat (pageSize m)"
  by (simp add: pageOff_mod unat_pageSize)

lemma addr_eq_iff: "shape_ok m \<Longrightarrow> a = b \<longleftrightarrow> pageNo m a = pageNo m b \<and> pageOff m a = pageOff m b"
  by (simp add: pageNo_div pageOff_mod word_eq_div_mod [of a b "pageShift m"])

lemma pageNo_bound: "shape_ok m \<Longrightarrow> pageNo m a < 2 ^ (32 - pageShift m)"
  using unsigned_less [of a, where 'a = nat]
  by (simp add: pageNo_div shape_ok_def less_mult_imp_div_less flip: power_add)


lemma pages_ok_ref: "pages_ok h m \<Longrightarrow> map_of (pages m) n = Some r \<Longrightarrow> r < length h"
  by (fastforce simp: pages_ok_def dest: map_of_SomeD)

lemma map_of_snd_inj:
  assumes "distinct (map snd xs)" "map_of xs n = Some r" "map_of xs n' = Some r"
  shows "n = n'"
  using assms by (metis distinct_map inj_on_eq_iff map_of_SomeD prod.inject snd_conv)

lemma pages_ok_inj:
  "pages_ok h m \<Longrightarrow> map_of (pages m) n = Some r \<Longrightarrow> map_of (pages m) n' = Some r \<Longrightarrow> n = n'"
  unfolding pages_ok_def by (blast intro: map_of_snd_inj)

lemma map_snd_update_fresh:
  assumes "distinct (map snd xs)" "r \<notin> set (map snd xs)"
  shows "distinct (map snd (AList.update n r xs))"
proof -
  have sub: "snd ` set (AList.update n r ys) \<subseteq> insert r (snd ` set ys)" for ys
    by (induction ys) auto
  show ?thesis
    using assms
  proof (induction xs)
    case (Cons x xs)
    with sub [of xs] show ?case by auto
  qed simp
qed

lemma set_update_subset: "set (AList.update n r xs) \<subseteq> insert (n, r) (set xs)"
  by (induction xs) auto

lemma pages_ok_update_fresh:
  assumes "pages_ok h m" "n < 2 ^ (32 - pageShift m)" "length h' > length h" "r < length h'" "length h \<le> r"
  shows "pages_ok h' (m\<lparr>pages := AList.update n r (pages m)\<rparr>)"
proof -
  have fresh: "r \<notin> set (map snd (pages m))"
    using assms by (force simp: pages_ok_def)
  have "\<forall>(n, r) \<in> set (pages m). n < 2 ^ (32 - pageShift m) \<and> r < length h'"
    using assms by (force simp: pages_ok_def)
  then have "\<forall>(n, r) \<in> set (AList.update n r (pages m)). n < 2 ^ (32 - pageShift m) \<and> r < length h'"
    using set_update_subset [of n r "pages m"] assms by fastforce
  with fresh assms show ?thesis
    by (simp add: pages_ok_def map_snd_update_fresh)
qed

section \<open>Byte accesses refine the abstract memory\<close>

theorem read8_byte_at:
  "read8 a s =
     (case byte_at s a of
        None \<Rightarrow> (Inl (MemoryFault a ''read''), s)
      | Some (b, p) \<Rightarrow> if p AND PERM_R = PERM_R then (Inr b, s) else (Inl (MemoryFault a ''read''), s))"
  by (cases s) (simp add: read8_def getPage_def byte_at_def bnd_def split: option.splits)

lemma storeByte_refines:
  assumes wf: "mem_wf (h, m)" and r: "map_of (pages m) (pageNo m a) = Some r"
    and s': "s' = snd (storeByte r a v (h, m))"
  shows "mem_wf s'" and "byte_at s' = (byte_at (h, m))(a \<mapsto> (ucast v, pperm (h ! r)))"
proof -
  define h' where
    "h' = h[r := (h ! r)\<lparr>pdata := (pdata (h ! r))[pageOff m a := ucast v], pdirty := True\<rparr>]"
  have s'_eq: "s' = (h', m)" by (simp add: s' storeByte_def h'_def)
  have r_less: "r < length h" using wf r by (auto simp: mem_wf_def dest: pages_ok_ref)
  then have len: "length (pdata (h ! r)) = unat (pageSize m)"
    using wf by (simp add: mem_wf_def store_ok_def)
  have "store_ok h' m"
    using wf len unfolding mem_wf_def store_ok_def h'_def
    by (auto dest!: subsetD [OF set_update_subset_insert])
  then show "mem_wf s'"
    using wf by (simp add: s'_eq h'_def mem_wf_def pages_ok_def)
  show "byte_at s' = (byte_at (h, m))(a \<mapsto> (ucast v, pperm (h ! r)))"
  proof
    fix b
    have sh: "shape_ok m" using wf by (simp add: mem_wf_def)
    show "byte_at s' b = ((byte_at (h, m))(a \<mapsto> (ucast v, pperm (h ! r)))) b"
    proof (cases "map_of (pages m) (pageNo m b) = Some r")
      case True
      then have "pageNo m b = pageNo m a"
        using wf r by (auto simp: mem_wf_def dest: pages_ok_inj)
      then have "b = a \<longleftrightarrow> pageOff m b = pageOff m a"
        using addr_eq_iff [OF sh] by auto
      with True r_less len pageOff_less [OF sh, of a] show ?thesis
        by (auto simp: s'_eq h'_def byte_at_def nth_list_update)
    next
      case False
      then have "b \<noteq> a" using r by auto
      with False show ?thesis
        by (auto simp: s'_eq h'_def byte_at_def nth_list_update split: option.splits)
    qed
  qed
qed

lemma unshare_refines:
  assumes wf: "mem_wf (h, m)" and r: "map_of (pages m) (pageNo m a) = Some r"
  obtains r' h' m' where "unshare a r (h, m) = (Inr r', (h', m'))" "mem_wf (h', m')"
    "map_of (pages m') (pageNo m' a) = Some r'" "byte_at (h', m') = byte_at (h, m)"
    "pperm (h' ! r') = pperm (h ! r)" "pageNo m' = pageNo m" "onWrite m' = onWrite m"
proof (cases "pshared (h ! r) \<and> prefCount (h ! r) > 1")
  case False
  then have "unshare a r (h, m) = (Inr r, (h, m))" by (auto simp: unshare_def Let_def)
  with wf r that show ?thesis by blast
next
  case True
  define p where "p = h ! r"
  define p' where "p' = p\<lparr>prefCount := prefCount p - 1,
     pshared := (if prefCount p - 1 \<le> 1 then False else pshared p)\<rparr>"
  define cp where "cp = (new_Page (unat (pageSize m)) (pperm p))\<lparr>pdata := pdata p, pdirty := pdirty p\<rparr>"
  define m' where "m' = m\<lparr>pages := AList.update (pageNo m a) (length h) (pages m)\<rparr>"
  have eq: "unshare a r (h, m) = (Inr (length h), (h[r := p'] @ [cp], m'))"
    using True by (simp add: unshare_def Let_def p_def p'_def cp_def m'_def)
  have sh: "shape_ok m" and r_less: "r < length h"
    using wf r by (auto simp: mem_wf_def dest: pages_ok_ref)
  have lenp: "length (pdata p) = unat (pageSize m)"
    using wf r_less by (simp add: mem_wf_def store_ok_def p_def)
  have "pages_ok (h[r := p'] @ [cp]) m'"
    unfolding m'_def using wf by (intro pages_ok_update_fresh [where h = h])
      (auto simp: mem_wf_def pageNo_bound)
  moreover have "store_ok (h[r := p'] @ [cp]) m'"
    using wf lenp unfolding mem_wf_def store_ok_def m'_def cp_def p'_def
    by (auto dest!: subsetD [OF set_update_subset_insert])
  moreover have "shape_ok m'" using sh by (simp add: m'_def shape_ok_def)
  ultimately have "mem_wf (h[r := p'] @ [cp], m')" by (simp add: mem_wf_def)
  moreover have "pageNo m' = pageNo m" "pageOff m' = pageOff m"
    by (auto simp: m'_def pageNo_def pageOff_def)
  moreover have "byte_at (h[r := p'] @ [cp], m') = byte_at (h, m)"
  proof
    fix b
    have "pages_ok h m" using wf by (simp add: mem_wf_def)
    then have "\<And>n q. map_of (pages m) n = Some q \<Longrightarrow> q < length h" by (rule pages_ok_ref)
    then show "byte_at (h[r := p'] @ [cp], m') b = byte_at (h, m) b"
      using r r_less
      by (auto simp: byte_at_def nth_append nth_list_update m'_def cp_def p'_def p_def
            pageNo_def pageOff_def split: option.splits)
  qed
  ultimately show ?thesis
    using that [of "length h" "h[r := p'] @ [cp]" m'] eq r_less
    by (simp add: m'_def cp_def p_def nth_append)
qed


lemma notifyWrite_byte_at [simp]: "byte_at (snd (notifyWrite a s)) = byte_at s"
  by (cases s) (auto simp: notifyWrite_def fun_eq_iff byte_at_def pageNo_def pageOff_def
      split: option.splits)

lemma notifyWrite_mem_wf [simp]: "mem_wf (snd (notifyWrite a s)) \<longleftrightarrow> mem_wf s"
  by (cases s) (simp add: notifyWrite_def mem_wf_def shape_ok_def pages_ok_def store_ok_def)

lemma write8_ok:
  assumes "mem_wf s" "byte_at s a = Some (b, p)" "p AND PERM_W = PERM_W"
  obtains s' where "write8 a v s = (Inr (), s')" "mem_wf s'"
    "byte_at s' = (byte_at s)(a \<mapsto> (ucast v, p))"
proof -
  obtain h m where s: "s = (h, m)" by fastforce
  then obtain r where r: "map_of (pages m) (pageNo m a) = Some r" and p: "p = pperm (h ! r)"
    using assms(2) by (auto simp: byte_at_def split: option.splits)
  obtain r' h' m' where un: "unshare a r (h, m) = (Inr r', (h', m'))" and wf': "mem_wf (h', m')"
    and r': "map_of (pages m') (pageNo m' a) = Some r'" and same: "byte_at (h', m') = byte_at (h, m)"
    and p': "pperm (h' ! r') = pperm (h ! r)"
    using unshare_refines [OF assms(1) [unfolded s] r] by metis
  define t where "t = snd (storeByte r' a v (h', m'))"
  have st: "storeByte r' a v (h', m') = (Inr (), t)" by (simp add: t_def storeByte_def)
  note ref = storeByte_refines [OF wf' r' t_def]
  have "write8 a v s = (Inr (), snd (notifyWrite a t))"
    using r assms(3) un st by (simp add: write8_def getPage_def s p notifyWrite_def)
  with ref that show ?thesis by (simp add: same s p p')
qed

lemma write8_fault:
  assumes "\<forall>b p. byte_at s a = Some (b, p) \<longrightarrow> p AND PERM_W \<noteq> PERM_W"
  shows "write8 a v s = (Inl (MemoryFault a ''write''), s)"
  using assms by (cases s) (auto simp: write8_def getPage_def byte_at_def bnd_def split: option.splits)

lemma forceWrite8_ok:
  assumes "mem_wf s" "byte_at s a = Some (b, p)"
  obtains s' where "forceWrite8 a v s = (Inr (), s')" "mem_wf s'"
    "byte_at s' = (byte_at s)(a \<mapsto> (ucast v, p))"
proof -
  obtain h m where s: "s = (h, m)" by fastforce
  then obtain r where r: "map_of (pages m) (pageNo m a) = Some r" and p: "p = pperm (h ! r)"
    using assms(2) by (auto simp: byte_at_def split: option.splits)
  define t where "t = snd (storeByte r a v (h, m))"
  have st: "storeByte r a v (h, m) = (Inr (), t)" by (simp add: t_def storeByte_def)
  note ref = storeByte_refines [OF assms(1) [unfolded s] r t_def]
  have "forceWrite8 a v s = (Inr (), snd (notifyWrite a t))"
    using r st by (simp add: forceWrite8_def getPage_def s notifyWrite_def)
  with ref that show ?thesis by (simp add: s p)
qed

section \<open>The interface of a byte-addressed memory\<close>

lemma join_bytes32:
  "(ucast (ucast v :: u8) :: u32) OR push_bit 8 (ucast (ucast (drop_bit 8 v) :: u8))
   OR push_bit 16 (ucast (ucast (drop_bit 16 v) :: u8))
   OR push_bit 24 (ucast (ucast (drop_bit 24 v) :: u8)) = (v :: u32)" (is "?l = v")
proof (rule bit_word_eqI)
  fix n
  assume "n < LENGTH(32)"
  then consider "n < 8" | "8 \<le> n" "n < 16" | "16 \<le> n" "n < 24" | "24 \<le> n" "n < 32"
    by fastforce
  then show "bit ?l n = bit v n"
    by cases (auto simp: bit_simps)
qed

lemma join_bytes16:
  "(ucast (ucast v :: u8) :: u32) OR push_bit 8 (ucast (ucast (drop_bit 8 v) :: u8)) = v AND 0xffff"
proof -
  have "v AND 0xffff = take_bit 16 v" by (simp add: take_bit_eq_mask mask_eq_exp_minus_1)
  moreover have "(ucast (ucast v :: u8) :: u32) OR push_bit 8 (ucast (ucast (drop_bit 8 v) :: u8))
      = take_bit 16 v"
    by (rule bit_word_eqI) (auto simp: bit_simps)
  ultimately show ?thesis by simp
qed

lemma addr_seq_Suc: "addr_seq a (Suc n) = a # addr_seq (a + 1) n"
proof -
  have "map (\<lambda>i. a + word_of_nat i) [0..<Suc n] = a # map (\<lambda>i. a + word_of_nat (Suc i)) [0..<n]"
    by (simp add: map_upt_Suc del: upt_Suc)
  then show ?thesis by (simp add: addr_seq_def add.assoc)
qed

lemma addr_seq_0 [simp]: "addr_seq a 0 = []"
  by (simp add: addr_seq_def)

lemma set_addr_seq: "x \<in> set (addr_seq a n) \<longleftrightarrow> (\<exists>i < n. x = a + word_of_nat i)"
  by (auto simp: addr_seq_def)

lemma in_addr_seq: "i < n \<Longrightarrow> a + word_of_nat i \<in> set (addr_seq a n)"
  by (auto simp: set_addr_seq)

lemma length_addr_seq [simp]: "length (addr_seq a n) = n"
  by (simp add: addr_seq_def)

lemma addr_seq_distinct: "n \<le> 2 ^ 32 \<Longrightarrow> distinct (addr_seq a n)"
  by (auto simp: addr_seq_def distinct_map inj_on_def of_nat_eq_iff
      word_of_nat_eq_iff take_bit_nat_eq_self)


text \<open>
  A byte memory: an abstract view, an invariant, and byte operations that look the view up and
  update it. \<open>can_wr\<close> says which permission bits let a write through.
\<close>

locale byte_memory =
  fixes view :: "'s \<Rightarrow> u32 \<Rightarrow> (u8 \<times> u32) option"
    and inv :: "'s \<Rightarrow> bool"
    and rd :: "u32 \<Rightarrow> ('s, 'e, u8) sem"
    and wr :: "u32 \<Rightarrow> u32 \<Rightarrow> ('s, 'e, unit) sem"
    and can_wr :: "u32 \<Rightarrow> bool"
  assumes rd_ok: "view s a = Some (b, p) \<Longrightarrow> p AND PERM_R = PERM_R \<Longrightarrow> rd a s = (Inr b, s)"
    and wr_ok: "inv s \<Longrightarrow> view s a = Some (b, p) \<Longrightarrow> can_wr p \<Longrightarrow>
      \<exists>s'. wr a v s = (Inr (), s') \<and> inv s' \<and> view s' = (view s)(a \<mapsto> (ucast v, p))"
begin

text \<open>The byte and the permission bits at an address, and what can be read or written.\<close>

definition byte :: "'s \<Rightarrow> u32 \<Rightarrow> u8 option" where
  "byte s a = map_option fst (view s a)"

definition perms :: "'s \<Rightarrow> u32 \<Rightarrow> u32 option" where
  "perms s a = map_option snd (view s a)"

definition readable :: "'s \<Rightarrow> u32 set \<Rightarrow> bool" where
  "readable s A \<longleftrightarrow> (\<forall>a \<in> A. \<exists>p. perms s a = Some p \<and> p AND PERM_R = PERM_R)"

definition writable :: "'s \<Rightarrow> u32 set \<Rightarrow> bool" where
  "writable s A \<longleftrightarrow> (\<forall>a \<in> A. \<exists>p. perms s a = Some p \<and> can_wr p)"

text \<open>Two states agree outside a set of addresses, and on the permissions everywhere.\<close>

definition same_except :: "u32 set \<Rightarrow> 's \<Rightarrow> 's \<Rightarrow> bool" where
  "same_except A s t \<longleftrightarrow> (\<forall>a. a \<notin> A \<longrightarrow> byte t a = byte s a) \<and> perms t = perms s"

lemma same_except_trans: "same_except A s t \<Longrightarrow> same_except B t u \<Longrightarrow> same_except (A \<union> B) s u"
  by (simp add: same_except_def)

lemma same_except_perms:
  "same_except A s t \<Longrightarrow> readable t B = readable s B"
  "same_except A s t \<Longrightarrow> writable t B = writable s B"
  by (simp_all add: same_except_def readable_def writable_def)

lemma readable_mono: "readable s B \<Longrightarrow> A \<subseteq> B \<Longrightarrow> readable s A"
  by (auto simp: readable_def)

lemma writable_mono: "writable s B \<Longrightarrow> A \<subseteq> B \<Longrightarrow> writable s A"
  by (auto simp: writable_def)

lemma write_step:
  assumes "inv s" "writable s {a}"
  obtains s' where "wr a v s = (Inr (), s')" "inv s'" "same_except {a} s s'" "byte s' a = Some (ucast v)"
proof -
  obtain b p where v: "view s a = Some (b, p)" "can_wr p"
    using assms(2) by (auto simp: writable_def perms_def)
  then obtain s' where s': "wr a v s = (Inr (), s')" "inv s'" "view s' = (view s)(a \<mapsto> (ucast v, p))"
    using wr_ok [OF assms(1) v, of v] by blast
  have "perms s' = perms s" using v by (auto simp: perms_def s'(3))
  with s' that show ?thesis by (simp add: same_except_def byte_def)
qed

lemma read_step: "readable s {a} \<Longrightarrow> byte s a = Some b \<Longrightarrow> rd a s = (Inr b, s)"
  using rd_ok by (auto simp: readable_def perms_def byte_def)

text \<open>Storing a list of bytes, one address after the other, and loading it back.\<close>

lemma write_seq:
  assumes "inv s" "writable s (set as)" "distinct as" "length as = length vs"
  shows "\<exists>s'. forM (zip as vs) (\<lambda>(a, v). wr a v) s = (Inr (), s') \<and> inv s' \<and>
     same_except (set as) s s' \<and> map (byte s') as = map (\<lambda>v. Some (ucast v)) vs"
  using assms
proof (induction as arbitrary: vs s)
  case Nil
  then show ?case by (simp add: same_except_def)
next
  case (Cons a as)
  then obtain v vs' where vs: "vs = v # vs'" by (cases vs) auto
  from Cons.prems(2) have w: "writable s {a}" by (rule writable_mono) simp
  obtain s1 where s1: "wr a v s = (Inr (), s1)" "inv s1" "same_except {a} s s1"
    "byte s1 a = Some (ucast v)"
    using write_step [OF Cons.prems(1) w] by blast
  have "writable s1 (set as)"
    unfolding same_except_perms(2) [OF s1(3)] using Cons.prems(2) by (rule writable_mono) auto
  then obtain s2 where s2: "forM (zip as vs') (\<lambda>(a, v). wr a v) s1 = (Inr (), s2)" "inv s2"
    "same_except (set as) s1 s2" "map (byte s2) as = map (\<lambda>v. Some (ucast v)) vs'"
    using Cons.IH [of s1 vs'] Cons.prems s1 vs by auto
  have "byte s2 a = Some (ucast v)"
    using s2(3) s1(4) Cons.prems(3) by (simp add: same_except_def)
  moreover have "same_except (set (a # as)) s s2"
    using same_except_trans [OF s1(3) s2(3)] by simp
  ultimately show ?case using s1 s2 by (simp add: vs)
qed

lemma read_seq:
  "readable s (set as) \<Longrightarrow> map (byte s) as = map Some bs \<Longrightarrow> mapMs as rd s = (Inr bs, s)"
proof (induction as arbitrary: bs)
  case Nil
  then show ?case by simp
next
  case (Cons a as)
  then obtain b bs' where bs: "bs = b # bs'" by (cases bs) auto
  have "rd a s = (Inr b, s)"
    using Cons.prems bs by (intro read_step) (auto simp: readable_def)
  moreover have "mapMs as rd s = (Inr bs', s)"
    using Cons.prems bs by (intro Cons.IH) (auto simp: readable_def)
  ultimately show ?case by (simp add: bs)
qed

lemma seq_roundtrip:
  assumes "inv s" "writable s (set as)" "readable s (set as)" "distinct as" "length as = length vs"
  obtains s' where "forM (zip as vs) (\<lambda>(a, v). wr a v) s = (Inr (), s')" "inv s'"
    "same_except (set as) s s'" "mapMs as rd s' = (Inr (map ucast vs), s')"
proof -
  obtain s' where s': "forM (zip as vs) (\<lambda>(a, v). wr a v) s = (Inr (), s')" "inv s'"
     "same_except (set as) s s'" "map (byte s') as = map (\<lambda>v. Some (ucast v)) vs"
    using write_seq [OF assms(1,2,4,5)] by blast
  have "mapMs as rd s' = (Inr (map ucast vs), s')"
    using s' assms(3) same_except_perms(1) [OF s'(3)] by (intro read_seq) auto
  with s' that show ?thesis by blast
qed

lemma le_write32_seq:
  "le_write32 wr a v =
   forM (zip [a, a + 1, a + 2, a + 3] [v, drop_bit 8 v, drop_bit 16 v, drop_bit 24 v]) (\<lambda>(a, v). wr a v)"
  by (auto simp: le_write32_def thn_def bnd_def fun_eq_iff split: prod.splits sum.splits)

lemma le_read32_seq:
  "mapMs [a, a + 1, a + 2, a + 3] rd s = (Inr [b0, b1, b2, b3], s) \<Longrightarrow>
   le_read32 rd a s =
     (Inr (ucast b0 OR push_bit 8 (ucast b1) OR push_bit 16 (ucast b2) OR push_bit 24 (ucast b3)), s)"
  by (auto simp: le_read32_def bnd_Inr_iff)

lemma le32_roundtrip:
  assumes "inv s" "writable s {a, a + 1, a + 2, a + 3}" "readable s {a, a + 1, a + 2, a + 3}"
  obtains s' where "le_write32 wr a v s = (Inr (), s')" "inv s'"
    "same_except {a, a + 1, a + 2, a + 3} s s'" "le_read32 rd a s' = (Inr v, s')"
proof -
  let ?as = "[a, a + 1, a + 2, a + 3]" and ?vs = "[v, drop_bit 8 v, drop_bit 16 v, drop_bit 24 v]"
  have "writable s (set ?as)" "readable s (set ?as)" "distinct ?as" "length ?as = length ?vs"
    using assms by simp_all
  from seq_roundtrip [OF assms(1) this] obtain s' where
    s': "forM (zip ?as ?vs) (\<lambda>(a, v). wr a v) s = (Inr (), s')" "inv s'"
    "same_except (set ?as) s s'" "mapMs ?as rd s' = (Inr (map ucast ?vs), s')"
    by blast
  have "le_read32 rd a s' = (Inr v, s')"
    using le_read32_seq [OF s'(4) [unfolded list.map]] by (simp only: join_bytes32)
  with s' that show ?thesis by (simp add: le_write32_seq)
qed

lemma le_write16_seq: "le_write16 wr a v = forM (zip [a, a + 1] [v, drop_bit 8 v]) (\<lambda>(a, v). wr a v)"
  by (auto simp: le_write16_def thn_def bnd_def fun_eq_iff split: prod.splits sum.splits)

lemma le_read16_seq:
  "mapMs [a, a + 1] rd s = (Inr [b0, b1], s) \<Longrightarrow>
   le_read16 rd a s = (Inr (ucast b0 OR push_bit 8 (ucast b1)), s)"
  by (auto simp: le_read16_def bnd_Inr_iff)

lemma le16_roundtrip:
  assumes "inv s" "writable s {a, a + 1}" "readable s {a, a + 1}"
  obtains s' where "le_write16 wr a v s = (Inr (), s')" "inv s'"
    "same_except {a, a + 1} s s'" "le_read16 rd a s' = (Inr (v AND 0xffff), s')"
proof -
  let ?as = "[a, a + 1]" and ?vs = "[v, drop_bit 8 v]"
  have "writable s (set ?as)" "readable s (set ?as)" "distinct ?as" "length ?as = length ?vs"
    using assms by simp_all
  from seq_roundtrip [OF assms(1) this] obtain s' where
    s': "forM (zip ?as ?vs) (\<lambda>(a, v). wr a v) s = (Inr (), s')" "inv s'"
    "same_except (set ?as) s s'" "mapMs ?as rd s' = (Inr (map ucast ?vs), s')"
    by blast
  have "le_read16 rd a s' = (Inr (v AND 0xffff), s')"
    using le_read16_seq [OF s'(4) [unfolded list.map]] by (simp only: join_bytes16)
  with s' that show ?thesis by (simp add: le_write16_seq)
qed

end

interpretation guest: byte_memory byte_at mem_wf read8 write8 "\<lambda>p. p AND PERM_W = PERM_W"
proof
  show "read8 a s = (Inr b, s)" if "byte_at s a = Some (b, p)" "p AND PERM_R = PERM_R" for s a b p
    using that by (simp add: read8_byte_at)
  show "\<exists>s'. write8 a v s = (Inr (), s') \<and> mem_wf s' \<and> byte_at s' = (byte_at s)(a \<mapsto> (ucast v, p))"
    if "mem_wf s" "byte_at s a = Some (b, p)" "p AND PERM_W = PERM_W" for s a b p v
    using write8_ok [OF that] by metis
qed

interpretation forced: byte_memory byte_at mem_wf read8 forceWrite8 "\<lambda>_. True"
proof
  show "read8 a s = (Inr b, s)" if "byte_at s a = Some (b, p)" "p AND PERM_R = PERM_R" for s a b p
    using that by (simp add: read8_byte_at)
  show "\<exists>s'. forceWrite8 a v s = (Inr (), s') \<and> mem_wf s' \<and> byte_at s' = (byte_at s)(a \<mapsto> (ucast v, p))"
    if "mem_wf s" "byte_at s a = Some (b, p)" for s a b p v
    using forceWrite8_ok [OF that] by metis
qed


section \<open>Loops over pages\<close>

text \<open>
  \<open>map\<close>, \<open>unmap\<close> and \<open>mprotect\<close> visit a range of page numbers and do the same to each. The locale
  states what one visit does to the abstract memory (\<open>g\<close> on every address of that page, provided \<open>Q\<close>
  held there) and gives the effect of the whole loop.
\<close>

definition page_of :: "nat \<Rightarrow> u32 \<Rightarrow> nat" where
  "page_of k a = unat a div 2 ^ k"

definition wf_shift :: "nat \<Rightarrow> mst \<Rightarrow> bool" where
  "wf_shift k s \<longleftrightarrow> mem_wf s \<and> pageShift (snd s) = k"

lemma pageNo_page_of: "wf_shift k s \<Longrightarrow> pageNo (snd s) = page_of k"
  by (auto simp: wf_shift_def page_of_def pageNo_div fun_eq_iff)

locale page_op =
  fixes k :: nat
    and f :: "nat \<Rightarrow> unit memM"
    and Q :: "(u8 \<times> u32) option \<Rightarrow> bool"
    and g :: "(u8 \<times> u32) option \<Rightarrow> (u8 \<times> u32) option"
  assumes visit: "wf_shift k s \<Longrightarrow> n < 2 ^ (32 - k) \<Longrightarrow> \<forall>a. page_of k a = n \<longrightarrow> Q (byte_at s a) \<Longrightarrow>
     \<exists>s'. f n s = (Inr (), s') \<and> wf_shift k s' \<and>
          (\<forall>a. byte_at s' a = (if page_of k a = n then g (byte_at s a) else byte_at s a))"
begin

lemma visit_all:
  assumes "distinct ns" "\<forall>n \<in> set ns. n < 2 ^ (32 - k)" "wf_shift k s"
    "\<forall>a. page_of k a \<in> set ns \<longrightarrow> Q (byte_at s a)"
  shows "\<exists>s'. forM ns f s = (Inr (), s') \<and> wf_shift k s' \<and>
     (\<forall>a. byte_at s' a = (if page_of k a \<in> set ns then g (byte_at s a) else byte_at s a))"
  using assms
proof (induction ns arbitrary: s)
  case Nil
  then show ?case by simp
next
  case (Cons n ns)
  have "\<forall>a. page_of k a = n \<longrightarrow> Q (byte_at s a)" using Cons.prems(4) by simp
  then obtain s1 where s1: "f n s = (Inr (), s1)" "wf_shift k s1"
    "\<forall>a. byte_at s1 a = (if page_of k a = n then g (byte_at s a) else byte_at s a)"
    using visit [of s n] Cons.prems by auto
  have "\<forall>a. page_of k a \<in> set ns \<longrightarrow> Q (byte_at s1 a)"
    using Cons.prems(1,4) s1(3) by auto
  then obtain s2 where "forM ns f s1 = (Inr (), s2)" "wf_shift k s2"
    "\<forall>a. byte_at s2 a = (if page_of k a \<in> set ns then g (byte_at s1 a) else byte_at s1 a)"
    using Cons.IH [of s1] Cons.prems s1(2) by auto
  with s1 Cons.prems(1) show ?case by auto
qed

end

lemma byte_at_None: "byte_at s a = None \<longleftrightarrow> map_of (pages (snd s)) (pageNo (snd s) a) = None"
  by (auto simp: byte_at_def split: option.splits)

lemma page_of_surj:
  assumes "k < 32" "n < 2 ^ (32 - k)"
  obtains a where "page_of k a = n"
proof -
  have "n * 2 ^ k < 2 ^ (32 - k) * 2 ^ k" using assms by simp
  also have "\<dots> = 2 ^ 32" using assms by (simp flip: power_add)
  finally have "unat (word_of_nat (n * 2 ^ k) :: u32) = n * 2 ^ k"
    by (simp only: unat_of_nat) (simp add: take_bit_nat_eq_self)
  then have "page_of k (word_of_nat (n * 2 ^ k)) = n" by (simp add: page_of_def)
  then show ?thesis by (rule that)
qed

text \<open>Replacing the permission of a mapped page: the step of \<open>mprotect\<close>, and of \<open>map\<close> on a mapped page.\<close>

lemma set_perm_refines:
  assumes wf: "wf_shift k (h, m)" and r: "map_of (pages m) n = Some r"
    and h': "h' = h[r := (h ! r)\<lparr>pperm := p\<rparr>]"
  shows "wf_shift k (h', m)"
    and "byte_at (h', m) a = (if page_of k a = n then map_option (\<lambda>(b, _). (b, p)) (byte_at (h, m) a)
                              else byte_at (h, m) a)"
proof -
  have ok: "pages_ok h m" and pn: "pageNo m = page_of k"
    using wf pageNo_page_of [OF wf] by (auto simp: wf_shift_def mem_wf_def)
  have r_less: "r < length h" using ok r by (rule pages_ok_ref)
  have "store_ok h' m"
    using wf r_less unfolding h' wf_shift_def mem_wf_def store_ok_def
    by (auto dest!: subsetD [OF set_update_subset_insert])
  with wf show "wf_shift k (h', m)"
    by (auto simp: wf_shift_def mem_wf_def pages_ok_def h')
  show "byte_at (h', m) a = (if page_of k a = n then map_option (\<lambda>(b, _). (b, p)) (byte_at (h, m) a)
                             else byte_at (h, m) a)"
  proof (cases "page_of k a = n")
    case True
    with r r_less show ?thesis by (simp add: byte_at_def pn h')
  next
    case False
    then have "map_of (pages m) (page_of k a) \<noteq> Some r"
      using pages_ok_inj [OF ok r] by blast
    with False show ?thesis by (auto simp: byte_at_def pn h' split: option.splits)
  qed
qed

interpretation protect_loop: page_op k "protect_page p" "\<lambda>v. v \<noteq> None" "map_option (\<lambda>(b, _). (b, p))" for k p
proof
  fix s :: mst and n
  assume wf: "wf_shift k s" and n: "n < 2 ^ (32 - k)"
    and q: "\<forall>a. page_of k a = n \<longrightarrow> byte_at s a \<noteq> None"
  obtain h m where s: "s = (h, m)" by fastforce
  have "k < 32" using wf by (simp add: wf_shift_def mem_wf_def shape_ok_def)
  then obtain a where "page_of k a = n" using n page_of_surj by blast
  with q have "map_of (pages m) n \<noteq> None"
    using pageNo_page_of [OF wf] byte_at_None [of s a] by (auto simp: s)
  then obtain r where r: "map_of (pages m) n = Some r" by blast
  show "\<exists>s'. protect_page p n s = (Inr (), s') \<and> wf_shift k s' \<and>
     (\<forall>a. byte_at s' a = (if page_of k a = n then map_option (\<lambda>(b, _). (b, p)) (byte_at s a) else byte_at s a))"
    using set_perm_refines [OF wf [unfolded s] r refl] r by (simp add: protect_page_def s)
qed

lemma map_page_refines:
  assumes wf: "wf_shift k s" and n: "n < 2 ^ (32 - k)"
  shows "\<exists>s'. map_page p name n s = (Inr (), s') \<and> wf_shift k s' \<and>
     (\<forall>a. byte_at s' a = (if page_of k a = n
        then Some (case byte_at s a of None \<Rightarrow> 0 | Some (b, _) \<Rightarrow> b, p) else byte_at s a))"
proof -
  obtain h m where s: "s = (h, m)" by fastforce
  have named: "wf_shift k (h', m'\<lparr>nameMap := x\<rparr>) = wf_shift k (h', m')"
    "byte_at (h', m'\<lparr>nameMap := x\<rparr>) = byte_at (h', m')" for h' m' x
    by (auto simp: wf_shift_def mem_wf_def shape_ok_def pages_ok_def store_ok_def fun_eq_iff
        byte_at_def pageNo_def pageOff_def split: option.splits)
  show ?thesis
  proof (cases "map_of (pages m) n")
    case (Some r)
    have "byte_at s a \<noteq> None" if "page_of k a = n" for a
      using Some that pageNo_page_of [OF wf] by (simp add: byte_at_None s)
    then show ?thesis
      using set_perm_refines [OF wf [unfolded s] Some refl, of p] Some
      by (fastforce simp: map_page_def s named split: option.splits)
  next
    case None
    define h' where "h' = h @ [new_Page (unat (pageSize m)) p]"
    define m' where "m' = m\<lparr>pages := AList.update n (length h) (pages m)\<rparr>"
    have k: "pageShift m = k" and ok: "pages_ok h m" and sh: "shape_ok m" and pn: "pageNo m = page_of k"
      using wf pageNo_page_of [OF wf] by (auto simp: wf_shift_def mem_wf_def s)
    have "pages_ok h' m'"
      unfolding m'_def using ok n k by (intro pages_ok_update_fresh [where h = h]) (auto simp: h'_def)
    then have wf': "wf_shift k (h', m')"
      using wf by (auto simp: s h'_def m'_def wf_shift_def mem_wf_def shape_ok_def store_ok_def)
    have "byte_at (h', m') a = (if page_of k a = n
        then Some (case byte_at s a of None \<Rightarrow> 0 | Some (b, _) \<Rightarrow> b, p) else byte_at s a)" for a
    proof (cases "page_of k a = n")
      case True
      then have "byte_at s a = None" using None by (simp add: byte_at_None s pn)
      with True sh pageOff_less [OF sh, of a] show ?thesis
        by (simp add: byte_at_def h'_def m'_def pageNo_def pageOff_def flip: pn)
    next
      case False
      then show ?thesis
        using ok pages_ok_ref [OF ok]
        by (auto simp: s byte_at_def h'_def m'_def pageNo_def pageOff_def nth_append simp flip: pn
            split: option.splits)
    qed
    with wf' None show ?thesis
      by (simp add: map_page_def s named flip: h'_def m'_def)
  qed
qed

interpretation map_loop: page_op k "map_page p name" "\<lambda>_. True"
    "\<lambda>v. Some (case v of None \<Rightarrow> 0 | Some (b, _) \<Rightarrow> b, p)" for k p name
  by unfold_locales (rule map_page_refines)

lemma unmap_page_refines:
  assumes wf: "wf_shift k s" and ok: "ign \<or> map_of (pages (snd s)) n \<noteq> None"
  shows "\<exists>s'. unmap_page ign n s = (Inr (), s') \<and> wf_shift k s' \<and>
     (\<forall>a. byte_at s' a = (if page_of k a = n then None else byte_at s a))"
proof -
  obtain h m where s: "s = (h, m)" by fastforce
  define m' where "m' = m\<lparr>pages := AList.delete n (pages m), nameMap := AList.delete n (nameMap m)\<rparr>"
  have "set (AList.delete n (pages m)) \<subseteq> set (pages m)" by (simp add: AList.delete_eq)
  moreover have "distinct (map snd (AList.delete n (pages m)))" if "distinct (map snd (pages m))"
    using that by (simp add: AList.delete_eq distinct_map_filter)
  ultimately have "wf_shift k (h, m')"
    using wf by (auto simp: s m'_def wf_shift_def mem_wf_def shape_ok_def pages_ok_def store_ok_def)
  moreover have "byte_at (h, m') a = (if page_of k a = n then None else byte_at s a)" for a
    using pageNo_page_of [OF wf]
    by (auto simp: s byte_at_def m'_def pageNo_def pageOff_def fun_eq_iff split: option.splits)
  moreover have "unmap_page ign n s = (Inr (), (h, m'))"
    using ok by (auto simp: unmap_page_def s m'_def)
  ultimately show ?thesis by blast
qed

interpretation unmap_loop: page_op k "unmap_page True" "\<lambda>_. True" "\<lambda>_. None" for k
  by unfold_locales (rule unmap_page_refines, simp_all)

interpretation unmap_strict_loop: page_op k "unmap_page False" "\<lambda>v. v \<noteq> None" "\<lambda>_. None" for k
proof
  fix s :: mst and n
  assume wf: "wf_shift k s" and n: "n < 2 ^ (32 - k)"
    and q: "\<forall>a. page_of k a = n \<longrightarrow> byte_at s a \<noteq> None"
  have "k < 32" using wf by (simp add: wf_shift_def mem_wf_def shape_ok_def)
  then obtain a where "page_of k a = n" using n page_of_surj by blast
  with q have "map_of (pages (snd s)) n \<noteq> None"
    using pageNo_page_of [OF wf] byte_at_None [of s a] by auto
  then show "\<exists>s'. unmap_page False n s = (Inr (), s') \<and> wf_shift k s' \<and>
     (\<forall>a. byte_at s' a = (if page_of k a = n then None else byte_at s a))"
    using unmap_page_refines [OF wf] by blast
qed


section \<open>Page ranges\<close>

lemma pageNo_alignDown: "shape_ok m \<Longrightarrow> pageNo m (alignDown a (pageSize m)) = unat a div 2 ^ pageShift m"
  by (simp add: pageNo_div shape_ok_def unat_alignDown)

lemma unat_add_len:
  assumes "0 \<le> len" "unat a + nat len < 2 ^ 32"
  shows "unat (a + word_of_int len :: u32) = unat a + nat len"
proof -
  have "(word_of_int len :: u32) = word_of_nat (nat len)" using assms(1) by simp
  moreover have "unat (word_of_nat (nat len) :: u32) = nat len"
    using assms(2) by (simp only: unat_of_nat) (simp add: take_bit_nat_eq_self)
  ultimately show ?thesis using assms(2) by (simp add: unat_plus_if_size word_size)
qed

text \<open>Without wrap-around the range is the pages that the bytes \<open>addr .. addr + len - 1\<close> touch.\<close>

lemma page_range_eq:
  assumes sh: "shape_ok m" and len: "0 < len" and fit: "unat addr + nat len + 2 ^ pageShift m \<le> 2 ^ 32"
  shows "page_range m addr len =
     [unat addr div 2 ^ pageShift m ..< (unat addr + nat len + 2 ^ pageShift m - 1) div 2 ^ pageShift m]"
proof -
  let ?k = "pageShift m"
  have k: "?k < 32" and ps: "pageSize m = 2 ^ ?k" using sh by (simp_all add: shape_ok_def)
  have "unat (addr + word_of_int len) = unat addr + nat len"
    using len fit zero_less_power [of "2 :: nat" ?k] by (intro unat_add_len) linarith+
  moreover have "unat (2 ^ ?k - 1 :: u32) = 2 ^ ?k - 1"
    using k by (simp add: unat_2p unat_sub word_le_nat_alt)
  moreover have "unat addr + nat len + (2 ^ ?k - 1) < 2 ^ 32"
    using len fit zero_less_power [of "2 :: nat" ?k] by linarith
  ultimately have "unat (addr + word_of_int len + (2 ^ ?k - 1)) = unat addr + nat len + (2 ^ ?k - 1)"
    by (simp add: unat_plus_if_size word_size)
  then have "pageNo m (alignUp (addr + word_of_int len) (pageSize m)) = (unat addr + nat len + (2 ^ ?k - 1)) div 2 ^ ?k"
    using k by (simp add: pageNo_div ps alignUp_alignDown unat_alignDown add_diff_eq)
  with pageNo_alignDown [OF sh] show ?thesis by (simp add: page_range_def)
qed

lemma page_range_bound:
  assumes "shape_ok m" "n \<in> set (page_range m addr len)"
  shows "n < 2 ^ (32 - pageShift m)"
proof -
  have "n < pageNo m (alignUp (addr + word_of_int len) (pageSize m))"
    using assms(2) by (simp add: page_range_def)
  also have "\<dots> < 2 ^ (32 - pageShift m)" by (rule pageNo_bound [OF assms(1)])
  finally show ?thesis .
qed

lemma page_range_covers:
  assumes "shape_ok m" "0 < len" "unat addr + nat len + 2 ^ pageShift m \<le> 2 ^ 32"
    "unat addr \<le> unat a" "unat a < unat addr + nat len"
  shows "page_of (pageShift m) a \<in> set (page_range m addr len)"
proof -
  let ?p = "2 ^ pageShift m :: nat"
  have "unat a div ?p < (unat addr + nat len + ?p - 1) div ?p"
  proof -
    have "unat a div ?p + 1 = (unat a + ?p) div ?p" by (subst div_add_self2) simp_all
    also have "\<dots> \<le> (unat addr + nat len + ?p - 1) div ?p"
      using assms(5) by (intro div_le_mono) simp
    finally show ?thesis by simp
  qed
  with assms show ?thesis by (simp add: page_range_eq page_of_def div_le_mono)
qed

section \<open>Properties of the memory\<close>

definition mapped_with :: "mst \<Rightarrow> u32 \<Rightarrow> u32 set \<Rightarrow> bool" where
  "mapped_with s p A \<longleftrightarrow> (\<forall>a \<in> A. \<exists>b q. byte_at s a = Some (b, q) \<and> q AND p = p)"

lemma and_RW:
  "q AND PERM_RW = PERM_RW \<Longrightarrow> q AND PERM_R = PERM_R"
  "q AND PERM_RW = PERM_RW \<Longrightarrow> q AND PERM_W = PERM_W"
proof -
  assume q: "q AND PERM_RW = PERM_RW"
  have "q AND PERM_R = (q AND PERM_RW) AND PERM_R" by (simp add: perm_defs and.assoc)
  then show "q AND PERM_R = PERM_R" by (simp add: q) (simp add: perm_defs)
  have "q AND PERM_W = (q AND PERM_RW) AND PERM_W" by (simp add: perm_defs and.assoc)
  then show "q AND PERM_W = PERM_W" by (simp add: q) (simp add: perm_defs)
qed

lemma mapped_RW:
  assumes "mapped_with s PERM_RW A"
  shows "guest.readable s A" "guest.writable s A"
  using assms and_RW
  by (fastforce simp: mapped_with_def guest.readable_def guest.writable_def guest.perms_def)+

lemma guest_same_exceptD:
  assumes "guest.same_except A s t" "b \<notin> A"
  shows "byte_at t b = byte_at s b"
proof -
  have "guest.byte t b = guest.byte s b" "guest.perms t b = guest.perms s b"
    using assms by (simp_all add: guest.same_except_def)
  then show ?thesis
    by (cases "byte_at t b"; cases "byte_at s b") (auto simp: guest.byte_def guest.perms_def)
qed

end
