(* ===== verification/Memory_Props.thy ===== *)
theory Memory_Props
  imports Memory_Facts
begin

text \<open>
  What a guest may rely on when it uses the memory: multi-byte and bulk round trips with their
  frame, the effect of \<open>map\<close>, \<open>unmap\<close> and \<open>mprotect\<close> on every address, the search for a free
  region, and the memory map listing.
\<close>

text \<open>A small memory for concrete instances: 16-byte pages, one readable and writable page at 16.\<close>

definition tiny_memory :: paged_memory where
  "tiny_memory = \<lparr>pageSize = 16, pageShift = 4, pageMask = 15, pages = [(1, 0)], nameMap = [],
     onWrite = None, nextMmap = 0x70000000\<rparr>"

definition tiny_state :: mst where
  "tiny_state = ([new_Page 16 PERM_RW], tiny_memory)"

lemma tiny_wf: "mem_wf tiny_state"
  by (simp add: tiny_state_def tiny_memory_def mem_wf_def shape_ok_def pages_ok_def store_ok_def
      jsmap_wf_def new_Page_def mask_eq_exp_minus_1)

lemma tiny_byte_at: "a \<in> {16, 17, 18, 19} \<Longrightarrow> byte_at tiny_state a = Some (0, PERM_RW)"
  by (auto simp: tiny_state_def tiny_memory_def byte_at_def pageNo_def pageOff_def new_Page_def)

text \<open>
  C12: a 32-bit value written with \<open>write32\<close> to four readable and writable bytes is read back by
  \<open>read32\<close>, also when the bytes lie on two pages, when a page is copied on the way because it is
  shared, and when the addresses wrap around; every other byte and every permission is unchanged.
\<close>

theorem write32_read32:
  assumes "mem_wf s" "mapped_with s PERM_RW {a, a + 1, a + 2, a + 3}"
  shows "\<exists>s'. write32 a v s = (Inr (), s') \<and> mem_wf s' \<and> read32 a s' = (Inr v, s') \<and>
     (\<forall>b. b \<notin> {a, a + 1, a + 2, a + 3} \<longrightarrow> byte_at s' b = byte_at s b)"
proof -
  obtain s' where "write32 a v s = (Inr (), s')" "mem_wf s'" "read32 a s' = (Inr v, s')"
    "guest.same_except {a, a + 1, a + 2, a + 3} s s'"
    unfolding write32_def read32_def
    using guest.le32_roundtrip [OF assms(1) mapped_RW(2,1) [OF assms(2)], of v] by blast
  then show ?thesis using guest_same_exceptD by blast
qed

theorem write32_read32_witness:
  "\<exists>s'. write32 16 0xdeadbeef tiny_state = (Inr (), s') \<and> mem_wf s' \<and> read32 16 s' = (Inr 0xdeadbeef, s') \<and>
     (\<forall>b. b \<notin> {16, 17, 18, 19} \<longrightarrow> byte_at s' b = byte_at tiny_state b)"
proof -
  have "mapped_with tiny_state PERM_RW {16, 16 + 1, 16 + 2, 16 + 3}"
    by (simp add: mapped_with_def tiny_byte_at)
  from write32_read32 [OF tiny_wf this, where v = "0xdeadbeef"] show ?thesis by simp
qed

lemma forM_map: "forM (map f xs) g = forM xs (\<lambda>x. g (f x))"
  by (induction xs) simp_all

lemma writeBytes_seq:
  "writeBytes a bs = forM (zip (addr_seq a (length bs)) (map ucast bs)) (\<lambda>(a, v). write8 a v)"
  by (simp add: writeBytes_def zip_map2 forM_map case_prod_unfold)

text \<open>
  C13: copying a byte string of at most 4 GiB out to readable and writable memory and back in
  returns the same bytes, whatever pages it spans, and touches nothing else.
\<close>

theorem writeBytes_readBytes:
  assumes "mem_wf s" "length bs \<le> 2 ^ 32" "mapped_with s PERM_RW (set (addr_seq a (length bs)))"
  shows "\<exists>s'. writeBytes a bs s = (Inr (), s') \<and> mem_wf s' \<and>
     readBytes a (length bs) s' = (Inr bs, s') \<and>
     (\<forall>b. b \<notin> set (addr_seq a (length bs)) \<longrightarrow> byte_at s' b = byte_at s b)"
proof -
  have "length (addr_seq a (length bs)) = length (map ucast bs :: u32 list)"
    by (simp add: addr_seq_def)
  from guest.seq_roundtrip [OF assms(1) mapped_RW(2,1) [OF assms(3)] addr_seq_distinct [OF assms(2)] this]
  obtain s' where s': "writeBytes a bs s = (Inr (), s')" "mem_wf s'"
    "guest.same_except (set (addr_seq a (length bs))) s s'"
    "mapMs (addr_seq a (length bs)) read8 s' = (Inr (map ucast (map ucast bs :: u32 list)), s')"
    unfolding writeBytes_seq by blast
  have "ucast (ucast b :: u32) = b" for b :: u8
    by (rule bit_word_eqI) (simp add: bit_simps)
  then have "map ucast (map ucast bs :: u32 list) = bs"
    by (simp add: comp_def)
  with s' show ?thesis using guest_same_exceptD by (auto simp: readBytes_def)
qed

theorem writeBytes_readBytes_witness:
  "\<exists>s'. writeBytes 16 [1, 2, 3] tiny_state = (Inr (), s') \<and> mem_wf s' \<and>
     readBytes 16 3 s' = (Inr [1, 2, 3], s') \<and>
     (\<forall>b. b \<notin> {16, 17, 18} \<longrightarrow> byte_at s' b = byte_at tiny_state b)"
proof -
  have seq: "set (addr_seq 16 (length [1, 2, 3 :: u8])) = {16, 17, 18}"
    by (auto simp: addr_seq_def)
  then have "mapped_with tiny_state PERM_RW (set (addr_seq 16 (length [1, 2, 3 :: u8])))"
    by (simp add: mapped_with_def tiny_byte_at)
  from writeBytes_readBytes [OF tiny_wf _ this] show ?thesis
    unfolding seq by (simp add: numeral_3_eq_3)
qed

lemma map_mem_pages:
  assumes ws: "wf_shift k s" and len: "0 < len"
  shows "\<exists>s'. map_mem addr len perm name s = (Inr (alignDown addr (pageSize (snd s))), s') \<and> wf_shift k s' \<and>
     (\<forall>a. byte_at s' a = (if page_of k a \<in> set (page_range (snd s) addr len)
        then Some (case byte_at s a of None \<Rightarrow> 0 | Some (b, _) \<Rightarrow> b, permFrom perm) else byte_at s a))"
proof -
  let ?m = "snd s"
  have sh: "shape_ok ?m" and k: "pageShift ?m = k" using ws by (simp_all add: mem_wf_def wf_shift_def)
  have "distinct (page_range ?m addr len)" by (simp add: page_range_def)
  then obtain s' where "forM (page_range ?m addr len) (map_page (permFrom perm) name) s = (Inr (), s')"
    "wf_shift k s'" "\<forall>a. byte_at s' a = (if page_of k a \<in> set (page_range ?m addr len)
        then Some (case byte_at s a of None \<Rightarrow> 0 | Some (b, _) \<Rightarrow> b, permFrom perm) else byte_at s a)"
    using map_loop.visit_all [of "page_range ?m addr len" k s "permFrom perm" name]
      page_range_bound [OF sh] ws k by blast
  then show ?thesis using len by (auto simp: map_mem_def)
qed

lemma map_mem_effect:
  assumes wf: "mem_wf s" and len: "0 < len"
    and fit: "unat addr + nat len + unat (pageSize (snd s)) \<le> 2 ^ 32"
  shows "\<exists>s'. map_mem addr len perm name s = (Inr (alignDown addr (pageSize (snd s))), s') \<and> mem_wf s' \<and>
     (\<forall>a. byte_at s' a =
        (if pageNo (snd s) a \<in> set (page_range (snd s) addr len)
         then Some (case byte_at s a of None \<Rightarrow> 0 | Some (b, _) \<Rightarrow> b, permFrom perm) else byte_at s a)) \<and>
     (\<forall>a. unat addr \<le> unat a \<and> unat a < unat addr + nat len \<longrightarrow>
        pageNo (snd s) a \<in> set (page_range (snd s) addr len))"
proof -
  have sh: "shape_ok (snd s)" and ws: "wf_shift (pageShift (snd s)) s" using wf by (simp_all add: mem_wf_def wf_shift_def)
  have "\<forall>a. unat addr \<le> unat a \<and> unat a < unat addr + nat len \<longrightarrow>
      page_of (pageShift (snd s)) a \<in> set (page_range (snd s) addr len)"
    using page_range_covers [OF sh len] fit by (simp add: unat_pageSize [OF sh])
  with map_mem_pages [OF ws len, of addr perm name] show ?thesis by (auto simp: pageNo_page_of [OF ws] wf_shift_def)
qed



text \<open>
  A request whose end reaches the last page of the address space maps nothing and still
  returns its start as if it had succeeded, because the end of the range wraps around to zero.
\<close>

theorem map_mem_top_maps_nothing:
  assumes "shape_ok (snd s)" "0 < len"
    and "2 ^ 32 < unat addr + nat len + unat (pageSize (snd s))" "unat addr + nat len \<le> 2 ^ 32"
  shows "map_mem addr len perm name s = (Inr (alignDown addr (pageSize (snd s))), s)"
proof -
  let ?m = "snd s" and ?k = "pageShift (snd s)"
  have k: "?k < 32" and ps: "pageSize ?m = 2 ^ ?k" "unat (pageSize ?m) = 2 ^ ?k"
    using assms(1) unat_pageSize by (auto simp: shape_ok_def)
  let ?v = "addr + word_of_int len + pageSize ?m - 1"
  have "(word_of_int len :: u32) = word_of_nat (nat len)" using assms(2) by simp
  moreover have "(word_of_nat (2 ^ ?k - 1) :: u32) = 2 ^ ?k - 1"
    by (subst of_nat_diff) simp_all
  ultimately have "?v = word_of_nat (unat addr) + word_of_nat (nat len) + word_of_nat (2 ^ ?k - 1)"
    by (simp add: ps(1) algebra_simps)
  then have "unat ?v = (unat addr + nat len + (2 ^ ?k - 1)) mod 2 ^ 32"
    by (simp only: of_nat_add [symmetric] unat_of_nat) (simp add: take_bit_eq_mod)
  also have "\<dots> = unat addr + nat len + (2 ^ ?k - 1) - 2 ^ 32"
  proof -
    have "2 ^ ?k \<le> (2 ^ 32 :: nat)" using k by (intro power_increasing) auto
    then have "2 ^ 32 \<le> unat addr + nat len + (2 ^ ?k - 1)"
      "unat addr + nat len + (2 ^ ?k - 1) - 2 ^ 32 < 2 ^ 32"
      using assms(3,4) ps(2) by linarith+
    then show ?thesis by (metis le_mod_geq mod_less)
  qed
  finally have small: "unat ?v < 2 ^ ?k" using assms(3,4) ps(2) by simp
  then have "unat (alignUp (addr + word_of_int len) (pageSize ?m)) = 0"
    using k by (simp add: alignUp_alignDown ps(1) unat_alignDown)
  then have "page_range ?m addr len = []"
    by (simp add: page_range_def pageNo_div)
  with assms(2) show ?thesis by (simp add: map_mem_def)
qed


theorem map_mem_top_maps_nothing_witness:
  "map_mem 0xfffffff0 16 (PermNum 3) ''stack'' tiny_state = (Inr 0xfffffff0, tiny_state)"
proof -
  have "shape_ok (snd tiny_state)" using tiny_wf by (simp add: mem_wf_def)
  from map_mem_top_maps_nothing [OF this, of 16 "0xfffffff0" "PermNum 3" "''stack''"] show ?thesis
    by (simp add: tiny_state_def tiny_memory_def alignDown_def)
qed

lemma mprotect_pages:
  assumes ws: "wf_shift k s"
    and mapped: "\<forall>a. page_of k a \<in> set (page_range (snd s) addr len) \<longrightarrow> byte_at s a \<noteq> None"
  shows "\<exists>s'. mprotect addr len perm s = (Inr (), s') \<and> wf_shift k s' \<and>
     (\<forall>a. byte_at s' a = (if page_of k a \<in> set (page_range (snd s) addr len)
        then map_option (\<lambda>(b, _). (b, permFrom perm)) (byte_at s a) else byte_at s a))"
proof -
  let ?m = "snd s"
  have sh: "shape_ok ?m" and k: "pageShift ?m = k" using ws by (simp_all add: mem_wf_def wf_shift_def)
  have "distinct (page_range ?m addr len)" by (simp add: page_range_def)
  then obtain s' where "forM (page_range ?m addr len) (protect_page (permFrom perm)) s = (Inr (), s')"
    "wf_shift k s'" "\<forall>a. byte_at s' a = (if page_of k a \<in> set (page_range ?m addr len)
        then map_option (\<lambda>(b, _). (b, permFrom perm)) (byte_at s a) else byte_at s a)"
    using protect_loop.visit_all [of "page_range ?m addr len" k s "permFrom perm"]
      page_range_bound [OF sh] ws k mapped by blast
  then show ?thesis by (auto simp: mprotect_def)
qed



subsection \<open>Searching a free region\<close>

definition pages_needed :: "paged_memory \<Rightarrow> u32 \<Rightarrow> nat" where
  "pages_needed m len = (unat len + unat (pageSize m) - 1) div unat (pageSize m)"

definition region_candidate :: "mst \<Rightarrow> u32 \<Rightarrow> u32 \<Rightarrow> u32 \<Rightarrow> bool" where
  "region_candidate s lo hi x \<longleftrightarrow>
     alignUp lo (pageSize (snd s)) \<le> x \<and> x < alignDown hi (pageSize (snd s)) \<and> pageOff (snd s) x = 0"

definition free_at :: "mst \<Rightarrow> nat \<Rightarrow> u32 \<Rightarrow> bool" where
  "free_at s n a \<longleftrightarrow>
     (\<forall>b. pageNo (snd s) a \<le> pageNo (snd s) b \<and> pageNo (snd s) b < pageNo (snd s) a + n \<longrightarrow> byte_at s b = None)"

lemma region_free_iff:
  assumes "mem_wf s"
  shows "region_free (snd s) (pageNo (snd s) a) n \<longleftrightarrow> free_at s n a"
proof -
  let ?m = "snd s" and ?k = "pageShift (snd s)"
  have ws: "wf_shift ?k s" and k: "?k < 32" and ok: "pages_ok (fst s) ?m"
    using assms by (simp_all add: wf_shift_def mem_wf_def shape_ok_def)
  note pn = pageNo_page_of [OF ws]
  have bound: "q < 2 ^ (32 - ?k)" if "map_of (pages ?m) q = Some r" for q r
    using ok that by (fastforce simp: pages_ok_def dest: map_of_SomeD)
  let ?p = "pageNo ?m a"
  have "region_free ?m ?p n \<longleftrightarrow> (\<forall>i < n. map_of (pages ?m) (?p + i) = None)"
    by (auto simp: region_free_def list_all_iff)
  moreover have "free_at s n a \<longleftrightarrow> (\<forall>i < n. map_of (pages ?m) (?p + i) = None)"
  proof
    assume free: "free_at s n a"
    show "\<forall>i < n. map_of (pages ?m) (?p + i) = None"
    proof (intro allI impI, rule ccontr)
      fix i
      assume "i < n" "map_of (pages ?m) (?p + i) \<noteq> None"
      then obtain b where b: "pageNo ?m b = ?p + i"
        using bound page_of_surj [OF k] by (metis not_None_eq pn)
      with free \<open>i < n\<close> have "byte_at s b = None" by (simp add: free_at_def)
      with b \<open>map_of (pages ?m) (?p + i) \<noteq> None\<close> show False by (simp add: byte_at_None)
    qed
  next
    assume "\<forall>i < n. map_of (pages ?m) (?p + i) = None"
    then show "free_at s n a"
      by (auto simp: free_at_def byte_at_None dest!: le_Suc_ex)
  qed
  ultimately show ?thesis by simp
qed

lemma aligned_next:
  assumes k: "k < 32" and a: "2 ^ k dvd unat a" and b: "2 ^ k dvd unat b" and less: "a < (b :: u32)"
  shows "unat (a + 2 ^ k) = unat a + 2 ^ k" "a + 2 ^ k \<le> b"
proof -
  obtain i j where ij: "unat a = 2 ^ k * i" "unat b = 2 ^ k * j" using a b by (auto elim!: dvdE)
  have "i < j" using less ij by (simp add: word_less_nat_alt)
  then have "2 ^ k * (i + 1) \<le> 2 ^ k * j" by (intro mult_le_mono2) simp
  then have le: "unat a + 2 ^ k \<le> unat b" using ij by simp
  also have "unat b < 2 ^ 32" using unsigned_less [of b, where 'a = nat] by simp
  finally show "unat (a + 2 ^ k) = unat a + 2 ^ k"
    using k by (simp add: unat_plus_if_size word_size unat_2p)
  with le show "a + 2 ^ k \<le> b" by (simp add: word_le_nat_alt)
qed

lemma findFreeRegion_loop_spec:
  assumes wf: "mem_wf s" and m: "m = snd s" and al: "2 ^ pageShift m dvd unat hi"
  shows "2 ^ pageShift m dvd unat a \<Longrightarrow>
    (\<exists>x. findFreeRegion_loop m n hi a = Some (Some x) \<and> a \<le> x \<and> x < hi \<and> 2 ^ pageShift m dvd unat x \<and> free_at s n x
       \<and> (\<forall>y. a \<le> y \<and> y < x \<and> 2 ^ pageShift m dvd unat y \<longrightarrow> \<not> free_at s n y)) \<or>
    (findFreeRegion_loop m n hi a = Some None
       \<and> (\<forall>y. a \<le> y \<and> y < hi \<and> 2 ^ pageShift m dvd unat y \<longrightarrow> \<not> free_at s n y))"
proof (induction "unat hi - unat a" arbitrary: a rule: less_induct)
  case less
  let ?k = "pageShift m"
  have k: "?k < 32" and ps: "pageSize m = 2 ^ ?k" using wf by (simp_all add: m mem_wf_def shape_ok_def)
  show ?case
  proof (cases "a < hi \<and> \<not> free_at s n a")
    case False
    have "findFreeRegion_loop m n hi a = (if a < hi then Some (Some a) else Some None)"
      using False region_free_iff [OF wf, of a n]
      by (simp add: findFreeRegion_loop.simps [of "snd s" n hi a] m)
    with False less.prems show ?thesis by (cases "a < hi") auto
  next
    case True
    have n1: "unat (a + 2 ^ ?k) = unat a + 2 ^ ?k" and n2: "a + 2 ^ ?k \<le> hi"
      using aligned_next [OF k less.prems al] True by blast+
    have dec: "unat hi - unat (a + 2 ^ ?k) < unat hi - unat a"
      using n1 n2 zero_less_power [of "2 :: nat" ?k] unfolding word_le_nat_alt by linarith
    have skip: "a + 2 ^ ?k \<le> y" if "a \<le> y" "y \<noteq> a" "2 ^ ?k dvd unat y" for y
      using aligned_next(2) [OF k less.prems that(3)] that by simp
    have step: "findFreeRegion_loop m n hi a = findFreeRegion_loop m n hi (a + 2 ^ ?k)"
      using True region_free_iff [OF wf, of a n] ps
      by (simp add: findFreeRegion_loop.simps [of "snd s" n hi a] m)
    have "2 ^ ?k dvd unat (a + 2 ^ ?k)" using n1 less.prems by simp
    from less.hyps [OF dec this] show ?thesis
    proof (elim disjE exE conjE)
      fix x
      assume x: "findFreeRegion_loop m n hi (a + 2 ^ ?k) = Some (Some x)" "a + 2 ^ ?k \<le> x" "x < hi"
        "2 ^ ?k dvd unat x" "free_at s n x"
        "\<forall>y. a + 2 ^ ?k \<le> y \<and> y < x \<and> 2 ^ ?k dvd unat y \<longrightarrow> \<not> free_at s n y"
      have "a \<le> x" using x(2) n1 by (simp add: word_le_nat_alt)
      with x step skip True show ?thesis by (metis)
    next
      assume "findFreeRegion_loop m n hi (a + 2 ^ ?k) = Some None"
        "\<forall>y. a + 2 ^ ?k \<le> y \<and> y < hi \<and> 2 ^ ?k dvd unat y \<longrightarrow> \<not> free_at s n y"
      with step skip True show ?thesis by metis
    qed
  qed
qed

lemma findFreeRegion_effect:
  assumes wf: "mem_wf s"
  shows "case findFreeRegion len lo hi s of
      (Inr a, s') \<Rightarrow> s' = s \<and> region_candidate s lo hi a \<and> free_at s (pages_needed (snd s) len) a \<and>
        (\<forall>y. region_candidate s lo hi y \<and> y < a \<longrightarrow> \<not> free_at s (pages_needed (snd s) len) y)
    | (Inl e, s') \<Rightarrow> s' = s \<and> e = MemoryFault (alignUp lo (pageSize (snd s))) ''mmap-no-space'' \<and>
        (\<forall>y. region_candidate s lo hi y \<longrightarrow> \<not> free_at s (pages_needed (snd s) len) y)"
proof -
  obtain h m where s: "s = (h, m)" by fastforce
  define lo' where "lo' = alignUp lo (pageSize m)"
  define hi' where "hi' = alignDown hi (pageSize m)"
  define n where "n = pages_needed m len"
  let ?k = "pageShift m"
  have sh: "shape_ok m" using wf by (simp add: s mem_wf_def)
  then have k: "?k < 32" and ps: "pageSize m = 2 ^ ?k" by (simp_all add: shape_ok_def)
  have off: "pageOff m x = 0 \<longleftrightarrow> 2 ^ ?k dvd unat x" for x
    by (simp add: pageOff_mod [OF sh] mod_eq_0_iff_dvd)
  have al: "2 ^ ?k dvd unat hi'" "2 ^ ?k dvd unat lo'"
    using k by (simp_all add: hi'_def lo'_def ps unat_alignDown alignUp_alignDown)
  have n: "n = (unat len + unat (pageSize m) - 1) div unat (pageSize m)"
    by (simp add: n_def pages_needed_def)
  have "findFreeRegion len lo hi s =
     (case findFreeRegion_loop m n hi' lo' of
          None \<Rightarrow> (Inl Diverges, s)
        | Some None \<Rightarrow> (Inl (MemoryFault lo' ''mmap-no-space''), s)
        | Some (Some a) \<Rightarrow> (Inr a, s))"
    unfolding findFreeRegion_def s by (simp add: Let_def n hi'_def lo'_def split: option.splits)
  with findFreeRegion_loop_spec [OF wf _ al(1), where n = n and a = lo'] al(2) show ?thesis
    by (auto simp: s region_candidate_def off simp flip: lo'_def hi'_def n_def)
qed

text \<open>
  C16: \<open>findFreeRegion\<close> always ends. It returns the lowest page-aligned address of the window at
  which the requested number of pages is unmapped, or raises the no-space fault exactly when the
  window has no such address; the memory is not changed.
\<close>

theorem findFreeRegion_first_free:
  assumes wf: "mem_wf s"
  shows "case findFreeRegion len lo hi s of
      (Inr a, s') \<Rightarrow> s' = s \<and> region_candidate s lo hi a \<and> free_at s (pages_needed (snd s) len) a \<and>
        (\<forall>y. region_candidate s lo hi y \<and> y < a \<longrightarrow> \<not> free_at s (pages_needed (snd s) len) y)
    | (Inl e, s') \<Rightarrow> s' = s \<and> e = MemoryFault (alignUp lo (pageSize (snd s))) ''mmap-no-space'' \<and>
        (\<forall>y. region_candidate s lo hi y \<longrightarrow> \<not> free_at s (pages_needed (snd s) len) y)"
  using assms by (rule findFreeRegion_effect)

theorem findFreeRegion_first_free_witness:
  "findFreeRegion 5 16 64 tiny_state = (Inr 32, tiny_state) \<and> free_at tiny_state 1 32"
proof -
  have "findFreeRegion 5 16 64 tiny_state = (Inr 32, tiny_state)"
    by (simp add: findFreeRegion_def tiny_state_def tiny_memory_def alignUp_def alignDown_def
        findFreeRegion_loop.simps region_free_def pageNo_def)
  with findFreeRegion_first_free [OF tiny_wf, where len = 5 and lo = 16 and hi = 64]
  have "free_at tiny_state (pages_needed (snd tiny_state) 5) 32" by simp
  moreover have "pages_needed (snd tiny_state) 5 = 1"
    by (simp add: pages_needed_def tiny_state_def tiny_memory_def)
  ultimately show ?thesis
    using \<open>findFreeRegion 5 16 64 tiny_state = (Inr 32, tiny_state)\<close> by simp
qed

subsection \<open>The listing of the memory map\<close>

definition run_covers :: "map_run \<Rightarrow> nat \<Rightarrow> bool" where
  "run_covers r n \<longleftrightarrow> startPage r \<le> n \<and> n < endPage r"

definition page_label :: "mst \<Rightarrow> nat \<Rightarrow> u32 \<times> string" where
  "page_label s p =
     (pperm (fst s ! the (map_of (pages (snd s)) p)),
      case map_of (nameMap (snd s)) p of None \<Rightarrow> '''' | Some n \<Rightarrow> n)"

definition runs_exact :: "mst \<Rightarrow> nat list \<Rightarrow> map_run list \<Rightarrow> bool" where
  "runs_exact s ps runs \<longleftrightarrow>
     (\<forall>n. (\<exists>r \<in> set runs. run_covers r n) \<longleftrightarrow> n \<in> set ps) \<and>
     sorted_wrt (\<lambda>r r'. endPage r \<le> startPage r') runs \<and>
     (\<forall>r \<in> set runs. startPage r < endPage r \<and>
        (\<forall>n. run_covers r n \<longrightarrow> page_label s n = (run_perm r, run_name r)))"

lemma runs_exact_end:
  assumes "runs_exact s ps runs" "\<forall>q \<in> set ps. q < p" "r \<in> set runs"
  shows "endPage r \<le> p"
proof -
  have "run_covers r (endPage r - 1)" using assms(1,3) by (force simp: runs_exact_def run_covers_def)
  then have "endPage r - 1 \<in> set ps" using assms by (force simp: runs_exact_def)
  with assms(2) show ?thesis by fastforce
qed

lemma extend_runs_exact:
  assumes ex: "runs_exact s ps runs" and less: "\<forall>q \<in> set ps. q < p"
  shows "runs_exact s (ps @ [p]) (extend_runs s runs p)"
proof (cases "runs \<noteq> [] \<and> endPage (last runs) = p \<and> (run_perm (last runs), run_name (last runs)) = page_label s p")
  case True
  define r where "r = last runs"
  define rs where "rs = butlast runs"
  have runs: "runs = rs @ [r]" using True by (simp add: r_def rs_def)
  have "extend_runs s runs p = rs @ [r\<lparr>endPage := Suc p\<rparr>]"
    using True by (simp add: extend_runs_def page_label_def Let_def rs_def r_def)
  moreover have "startPage r < p" using True ex by (auto simp: runs_exact_def runs)
  then have "run_covers (r\<lparr>endPage := Suc p\<rparr>) n \<longleftrightarrow> run_covers r n \<or> n = p" for n
    using True by (auto simp: run_covers_def r_def less_Suc_eq)
  ultimately show ?thesis
    using ex True unfolding runs_exact_def runs
    by (auto simp: sorted_wrt_append r_def less_Suc_eq)
next
  case False
  define r where "r = \<lparr>startPage = p, endPage = Suc p, run_perm = fst (page_label s p), run_name = snd (page_label s p)\<rparr>"
  have "extend_runs s runs p = runs @ [r]"
    using False by (auto simp: extend_runs_def page_label_def Let_def r_def)
  moreover have "run_covers r n \<longleftrightarrow> n = p" for n by (auto simp: run_covers_def r_def)
  ultimately show ?thesis
    using ex runs_exact_end [OF ex less] unfolding runs_exact_def
    by (auto simp: sorted_wrt_append r_def)
qed

lemma foldl_runs_exact:
  "sorted_wrt (<) ps \<Longrightarrow> runs_exact s ps (foldl (extend_runs s) [] ps)"
proof (induction ps rule: rev_induct)
  case Nil
  then show ?case by (simp add: runs_exact_def)
next
  case (snoc p ps)
  then show ?case by (simp add: extend_runs_exact sorted_wrt_append)
qed

text \<open>
  C17: the listing behind \<open>/proc/self/maps\<close> is exact: its runs are non-empty, in ascending order
  and disjoint, a page belongs to a run if and only if it is mapped, and every page of a run has
  the permission and the name the run shows.
\<close>

theorem map_runs_exact:
  assumes "mem_wf s"
  shows "(\<forall>n. (\<exists>r \<in> set (map_runs s). run_covers r n) \<longleftrightarrow> map_of (pages (snd s)) n \<noteq> None) \<and>
     sorted_wrt (\<lambda>r r'. endPage r \<le> startPage r') (map_runs s) \<and>
     (\<forall>r \<in> set (map_runs s). startPage r < endPage r \<and>
        (\<forall>n. run_covers r n \<longrightarrow> page_label s n = (run_perm r, run_name r)))"
proof -
  have "distinct (map fst (pages (snd s)))"
    using assms by (simp add: mem_wf_def pages_ok_def jsmap_wf_def)
  then have "sorted_wrt (<) (sort (map fst (pages (snd s))))"
    by (simp add: strict_sorted_iff)
  from foldl_runs_exact [OF this, of s] have "runs_exact s (sort (map fst (pages (snd s)))) (map_runs s)"
    by (simp add: map_runs_def)
  then show ?thesis by (simp add: runs_exact_def map_of_eq_None_iff)
qed

theorem map_runs_exact_witness:
  "map_runs tiny_state = [\<lparr>startPage = 1, endPage = 2, run_perm = 3, run_name = ''''\<rparr>] \<and>
   (\<forall>n. (\<exists>r \<in> set (map_runs tiny_state). run_covers r n) \<longleftrightarrow> map_of (pages (snd tiny_state)) n \<noteq> None)"
proof -
  have "map_runs tiny_state = [\<lparr>startPage = 1, endPage = 2, run_perm = 3, run_name = ''''\<rparr>]"
    by (simp add: map_runs_def extend_runs_def tiny_state_def tiny_memory_def new_Page_def perm_defs)
  with map_runs_exact [OF tiny_wf] show ?thesis by blast
qed

end
