(* ===== verification/Memory_Fork.thy ===== *)
theory Memory_Fork
  imports Memory_Props
begin

text \<open>
  Copy-on-write isolation. \<open>forkProcess\<close> clones the parent's memory with \<open>copyOnWrite\<close>, after which
  both hold the same \<open>Page\<close> objects. A world is the store of pages with the memories of all
  processes; \<open>world_inv\<close> ties the reference counts and the shared marks of the pages to the
  memories that hold them. Every guest memory operation of one process keeps it and leaves the
  bytes every other process sees alone.
\<close>

type_synonym world = "page list \<times> paged_memory list"

definition refs :: "paged_memory \<Rightarrow> nat set" where
  "refs m = snd ` set (pages m)"

definition holders :: "nat \<Rightarrow> paged_memory list \<Rightarrow> nat" where
  "holders r ms = (\<Sum>m \<leftarrow> ms. if r \<in> refs m then 1 else 0)"

definition world_inv :: "nat \<Rightarrow> world \<Rightarrow> bool" where
  "world_inv k w \<longleftrightarrow>
     (\<forall>m \<in> set (snd w). wf_shift k (fst w, m)) \<and>
     (\<forall>r < length (fst w). holders r (snd w) \<le> prefCount (fst w ! r) \<and>
        (2 \<le> holders r (snd w) \<longrightarrow> pshared (fst w ! r)))"

text \<open>The bytes process \<open>j\<close> sees.\<close>

definition contents :: "world \<Rightarrow> nat \<Rightarrow> u32 \<Rightarrow> u8 option" where
  "contents w j a = map_option fst (byte_at (fst w, snd w ! j) a)"

definition run_in :: "nat \<Rightarrow> 'a memM \<Rightarrow> world \<Rightarrow> world" where
  "run_in i f w = (let (h', m') = snd (f (fst w, snd w ! i)) in (h', (snd w)[i := m']))"

definition fork_in :: "nat \<Rightarrow> world \<Rightarrow> world" where
  "fork_in i w = (let (h', m') = clone_cow (fst w, snd w ! i) (onWrite (snd w ! i)) in (h', snd w @ [m']))"

text \<open>An operation is isolated if run in any process it keeps the invariant and the others' bytes.\<close>

definition isolated :: "nat \<Rightarrow> 'a memM \<Rightarrow> bool" where
  "isolated k f \<longleftrightarrow> (\<forall>w i. world_inv k w \<and> i < length (snd w) \<longrightarrow>
     world_inv k (run_in i f w) \<and>
     (\<forall>j < length (snd w). j \<noteq> i \<longrightarrow> contents (run_in i f w) j = contents w j))"

lemma isolatedD:
  assumes "isolated k f" "world_inv k w" "i < length (snd w)"
  shows "world_inv k (run_in i f w)"
    "j < length (snd w) \<Longrightarrow> j \<noteq> i \<Longrightarrow> contents (run_in i f w) j = contents w j"
  using assms unfolding isolated_def by blast+

lemma isolatedI:
  assumes "\<And>h ms i. world_inv k (h, ms) \<Longrightarrow> i < length ms \<Longrightarrow>
     world_inv k (run_in i f (h, ms)) \<and>
     (\<forall>j < length ms. j \<noteq> i \<longrightarrow> contents (run_in i f (h, ms)) j = contents (h, ms) j)"
  shows "isolated k f"
  unfolding isolated_def using assms by auto

lemma run_in_length [simp]: "length (snd (run_in i f w)) = length (snd w)"
  by (simp add: run_in_def split: prod.splits)

lemma run_in_bnd_ok:
  assumes "f (fst w, snd w ! i) = (Inr x, s')" "i < length (snd w)"
  shows "run_in i (bnd f g) w = run_in i (g x) (run_in i f w)"
  using assms by (cases s') (simp add: run_in_def split: prod.splits)

lemma run_in_bnd_err:
  "f (fst w, snd w ! i) = (Inl e, s') \<Longrightarrow> run_in i (bnd f g) w = run_in i f w"
  by (cases s') (simp add: run_in_def)

lemma isolated_bnd:
  assumes f: "isolated k f" and g: "\<And>x. isolated k (g x)"
  shows "isolated k (bnd f g)"
  unfolding isolated_def
proof (intro allI impI)
  fix w :: world and i
  assume w: "world_inv k w \<and> i < length (snd w)"
  let ?w1 = "run_in i f w"
  have f1: "world_inv k ?w1" "\<forall>j < length (snd w). j \<noteq> i \<longrightarrow> contents ?w1 j = contents w j"
    using isolatedD [OF f] w by blast+
  obtain r s' where fr: "f (fst w, snd w ! i) = (r, s')" by (cases "f (fst w, snd w ! i)")
  show "world_inv k (run_in i (bnd f g) w) \<and>
     (\<forall>j < length (snd w). j \<noteq> i \<longrightarrow> contents (run_in i (bnd f g) w) j = contents w j)"
  proof (cases r)
    case (Inl e)
    with fr f1 show ?thesis by (simp add: run_in_bnd_err)
  next
    case (Inr x)
    with fr w have eq: "run_in i (bnd f g) w = run_in i (g x) ?w1" by (simp add: run_in_bnd_ok)
    have "i < length (snd ?w1)" using w by simp
    then show ?thesis unfolding eq using isolatedD [OF g [of x] f1(1)] f1(2) w by simp
  qed
qed

lemma run_in_id: "snd (f (fst w, snd w ! i)) = (fst w, snd w ! i) \<Longrightarrow> i < length (snd w) \<Longrightarrow> run_in i f w = w"
  by (cases w) (simp add: run_in_def)

lemma isolated_pure: "(\<And>s. snd (f s) = s) \<Longrightarrow> isolated k f"
  by (simp add: isolated_def run_in_id)

lemma isolated_ret [simp]: "isolated k (ret x)"
  by (simp add: isolated_pure)

lemma isolated_throw [simp]: "isolated k (throw e)"
  by (simp add: isolated_pure)

lemma isolated_getS [simp]: "isolated k (getS f)"
  by (simp add: isolated_pure)

lemma isolated_thn: "isolated k f \<Longrightarrow> isolated k g \<Longrightarrow> isolated k (thn f g)"
  by (simp add: thn_def isolated_bnd)

lemma isolated_forM: "(\<And>x. x \<in> set xs \<Longrightarrow> isolated k (f x)) \<Longrightarrow> isolated k (forM xs f)"
  by (induction xs) (auto intro: isolated_thn)

lemma isolated_get:
  assumes "\<And>m. shape_ok m \<Longrightarrow> pageShift m = k \<Longrightarrow> isolated k (g m)"
  shows "isolated k (bnd (getS snd) g)"
  unfolding isolated_def
proof (intro allI impI)
  fix w :: world and i
  assume w: "world_inv k w \<and> i < length (snd w)"
  then have "wf_shift k (fst w, snd w ! i)" by (simp add: world_inv_def)
  then have "isolated k (g (snd w ! i))" using assms by (simp add: wf_shift_def mem_wf_def)
  moreover have "run_in i (bnd (getS snd) g) w = run_in i (g (snd w ! i)) w" by (simp add: run_in_def)
  ultimately show "world_inv k (run_in i (bnd (getS snd) g) w) \<and>
     (\<forall>j < length (snd w). j \<noteq> i \<longrightarrow> contents (run_in i (bnd (getS snd) g) w) j = contents w j)"
    using isolatedD [of k "g (snd w ! i)" w i] w by simp
qed

section \<open>Reference counting\<close>

lemma holders_update:
  assumes "i < length ms"
  shows "holders r (ms[i := m]) + (if r \<in> refs (ms ! i) then 1 else 0) =
         holders r ms + (if r \<in> refs m then 1 else 0)"
  using assms
proof (induction ms arbitrary: i)
  case (Cons x ms)
  then show ?case by (cases i) (auto simp: holders_def)
qed simp

lemma holders_same_refs: "i < length ms \<Longrightarrow> refs m = refs (ms ! i) \<Longrightarrow> holders r (ms[i := m]) = holders r ms"
  using holders_update [of i ms r m] by simp

lemma holders_append: "holders r (ms @ [m]) = holders r ms + (if r \<in> refs m then 1 else 0)"
  by (simp add: holders_def)

lemma holders_two:
  assumes "i < length ms" "j < length ms" "i \<noteq> j" "r \<in> refs (ms ! i)" "r \<in> refs (ms ! j)"
  shows "2 \<le> holders r ms"
proof -
  have "holders r ((ms[i := m])[j := m]) + 2 = holders r ms" if "refs m = {}" for m
    using that assms holders_update [of i ms r m] holders_update [of j "ms[i := m]" r m] by simp
  moreover have "refs \<lparr>pageSize = 0, pageShift = 0, pageMask = 0, pages = [], nameMap = [],
    onWrite = None, nextMmap = 0\<rparr> = {}" by (simp add: refs_def)
  ultimately show ?thesis by (metis le_add2)
qed

lemma refs_bound: "mem_wf (h, m) \<Longrightarrow> r \<in> refs m \<Longrightarrow> r < length h"
  by (force simp: mem_wf_def pages_ok_def refs_def)

lemma holders_fresh: "\<forall>m \<in> set ms. mem_wf (h, m) \<Longrightarrow> length h \<le> r \<Longrightarrow> holders r ms = 0"
proof (induction ms)
  case (Cons m ms)
  then have "r \<notin> refs m" using refs_bound [of h m r] by fastforce
  with Cons show ?case by (simp add: holders_def)
qed (simp add: holders_def)

lemma refs_map_of: "jsmap_wf (pages m) \<Longrightarrow> r \<in> refs m \<longleftrightarrow> (\<exists>n. map_of (pages m) n = Some r)"
  by (force simp: refs_def jsmap_in_set [symmetric])

text \<open>A change of the store that a memory cannot see: only pages it does not hold, or only marks.\<close>

definition agree_on :: "nat set \<Rightarrow> page list \<Rightarrow> page list \<Rightarrow> bool" where
  "agree_on R h h' \<longleftrightarrow> (\<forall>r \<in> R. pdata (h' ! r) = pdata (h ! r))"

lemma contents_agree:
  assumes "agree_on (refs (snd w ! j)) (fst w) h'" "ms' ! j = snd w ! j"
  shows "contents (h', ms') j = contents w j"
proof
  fix a
  show "contents (h', ms') j a = contents w j a"
    using assms by (fastforce simp: contents_def byte_at_def agree_on_def refs_def
        dest: map_of_SomeD split: option.splits)
qed

lemma mem_wf_store:
  assumes "mem_wf (h, m)" "length h \<le> length h'"
    "\<forall>p \<in> set h'. length (pdata p) = unat (pageSize m)"
  shows "mem_wf (h', m)"
  using assms by (force simp: mem_wf_def pages_ok_def store_ok_def)

text \<open>
  The shape every step shares: process \<open>i\<close> changes its own memory and the store, so that its new
  memory is well-formed, page sizes stay, reference counts and marks stay in line with the holders,
  and the pages that some other process holds keep their bytes.
\<close>

lemma step_isolated:
  assumes inv: "world_inv k (h, ms)" and i: "i < length ms"
    and run: "run_in i f (h, ms) = (h', ms[i := m'])"
    and wf': "wf_shift k (h', m')" and len: "length h \<le> length h'"
    and sizes: "\<And>m. m \<in> set ms \<Longrightarrow> \<forall>p \<in> set h'. length (pdata p) = unat (pageSize m)"
    and cnt: "\<And>r. r < length h' \<Longrightarrow> holders r (ms[i := m']) \<le> prefCount (h' ! r) \<and>
        (2 \<le> holders r (ms[i := m']) \<longrightarrow> pshared (h' ! r))"
    and frame: "\<And>j. j < length ms \<Longrightarrow> j \<noteq> i \<Longrightarrow> agree_on (refs (ms ! j)) h h'"
  shows "world_inv k (run_in i f (h, ms)) \<and>
     (\<forall>j < length ms. j \<noteq> i \<longrightarrow> contents (run_in i f (h, ms)) j = contents (h, ms) j)"
proof -
  have "wf_shift k (h', m)" if "m \<in> set (ms[i := m'])" for m
  proof (cases "m = m'")
    case False
    then have "m \<in> set ms" using that set_update_subset_insert [of ms i m'] by auto
    then show ?thesis
      using inv len sizes mem_wf_store [of h m h'] by (simp add: world_inv_def wf_shift_def)
  qed (simp add: wf')
  with cnt have "world_inv k (h', ms[i := m'])" by (simp add: world_inv_def)
  moreover have "contents (h', ms[i := m']) j = contents (h, ms) j" if "j < length ms" "j \<noteq> i" for j
    using frame [OF that] that by (intro contents_agree) simp_all
  ultimately show ?thesis by (simp add: run)
qed

lemma world_sizes:
  assumes "world_inv k (h, ms)" "m \<in> set ms" "p \<in> set h"
  shows "length (pdata p) = unat (pageSize m)"
  using assms by (fastforce simp: world_inv_def wf_shift_def mem_wf_def store_ok_def)

lemma world_wf: "world_inv k (h, ms) \<Longrightarrow> i < length ms \<Longrightarrow> wf_shift k (h, ms ! i)"
  by (simp add: world_inv_def)

lemma world_ref: "world_inv k (h, ms) \<Longrightarrow> i < length ms \<Longrightarrow> map_of (pages (ms ! i)) n = Some r \<Longrightarrow> r < length h"
  using world_wf [of k h ms i] by (auto simp: wf_shift_def mem_wf_def dest: pages_ok_ref)

lemma world_holders:
  "world_inv k (h, ms) \<Longrightarrow> r < length h \<Longrightarrow>
   holders r ms \<le> prefCount (h ! r) \<and> (2 \<le> holders r ms \<longrightarrow> pshared (h ! r))"
  by (simp add: world_inv_def)

lemma private_page:
  assumes "world_inv k (h, ms)" "i < length ms" "j < length ms" "i \<noteq> j" "r \<in> refs (ms ! i)"
    "\<not> (pshared (h ! r) \<and> 1 < prefCount (h ! r))"
  shows "r \<notin> refs (ms ! j)"
proof
  assume "r \<in> refs (ms ! j)"
  with assms have "2 \<le> holders r ms" by (intro holders_two)
  moreover have "r < length h" using assms refs_bound world_wf wf_shift_def by blast
  ultimately show False using world_holders [OF assms(1), of r] assms(6) by simp
qed

text \<open>Overwriting one page record of the store, with the same size, count and mark.\<close>

lemma set_nth_update: "p \<in> set (h[r := x]) \<Longrightarrow> p = x \<or> p \<in> set h"
  using set_update_subset_insert [of h r x] by auto

lemma update_page_isolated:
  assumes inv: "world_inv k (h, ms)" and i: "i < length ms" and r: "r < length h"
    and run: "run_in i f (h, ms) = (h[r := p], ms[i := m'])"
    and wf': "wf_shift k (h[r := p], m')" and rf: "refs m' = refs (ms ! i)"
    and p: "length (pdata p) = length (pdata (h ! r))" "prefCount p = prefCount (h ! r)" "pshared p = pshared (h ! r)"
    and frame: "pdata p = pdata (h ! r) \<or> (\<forall>j < length ms. j \<noteq> i \<longrightarrow> r \<notin> refs (ms ! j))"
  shows "world_inv k (run_in i f (h, ms)) \<and>
     (\<forall>j < length ms. j \<noteq> i \<longrightarrow> contents (run_in i f (h, ms)) j = contents (h, ms) j)"
proof (rule step_isolated [OF inv i run wf'])
  show "length h \<le> length (h[r := p])" by simp
  show "\<forall>q \<in> set (h[r := p]). length (pdata q) = unat (pageSize m)" if "m \<in> set ms" for m
    using world_sizes [OF inv that] r p(1) by (auto dest!: set_nth_update)
  show "holders q (ms[i := m']) \<le> prefCount (h[r := p] ! q) \<and>
      (2 \<le> holders q (ms[i := m']) \<longrightarrow> pshared (h[r := p] ! q))" if "q < length (h[r := p])" for q
    using world_holders [OF inv, of q] that p(2,3) holders_same_refs [OF i rf]
    by (cases "q = r") simp_all
  show "agree_on (refs (ms ! j)) h (h[r := p])" if "j < length ms" "j \<noteq> i" for j
    unfolding agree_on_def
  proof
    fix q
    assume "q \<in> refs (ms ! j)"
    then show "pdata (h[r := p] ! q) = pdata (h ! q)"
      using frame that r by (cases "q = r") auto
  qed
qed

lemma protect_page_isolated: "isolated k (protect_page p n)"
proof (rule isolatedI)
  fix h ms i
  assume inv: "world_inv k (h, ms)" and i: "i < length ms"
  let ?m = "ms ! i"
  have wf: "wf_shift k (h, ?m)" using inv i by (rule world_wf)
  show "world_inv k (run_in i (protect_page p n) (h, ms)) \<and>
     (\<forall>j < length ms. j \<noteq> i \<longrightarrow> contents (run_in i (protect_page p n) (h, ms)) j = contents (h, ms) j)"
  proof (cases "map_of (pages ?m) n")
    case None
    then show ?thesis using inv i by (simp add: run_in_id protect_page_def)
  next
    case (Some r)
    have "wf_shift k (h[r := (h ! r)\<lparr>pperm := p\<rparr>], ?m)"
      by (rule set_perm_refines(1) [OF wf Some refl])
    moreover have "r < length h" using inv i Some by (rule world_ref)
    ultimately show ?thesis
      using inv i Some by (intro update_page_isolated [where m' = ?m and r = r and p = "(h ! r)\<lparr>pperm := p\<rparr>"])
        (simp_all add: run_in_def protect_page_def)
  qed
qed

lemma unmap_page_isolated: "isolated k (unmap_page ign n)"
proof (rule isolatedI)
  fix h ms i
  assume inv: "world_inv k (h, ms)" and i: "i < length ms"
  let ?m = "ms ! i"
  define m' where "m' = ?m\<lparr>pages := AList.delete n (pages ?m), nameMap := AList.delete n (nameMap ?m)\<rparr>"
  have wf: "wf_shift k (h, ?m)" using inv i by (rule world_wf)
  show "world_inv k (run_in i (unmap_page ign n) (h, ms)) \<and>
     (\<forall>j < length ms. j \<noteq> i \<longrightarrow> contents (run_in i (unmap_page ign n) (h, ms)) j = contents (h, ms) j)"
  proof (cases "map_of (pages ?m) n = None \<and> \<not> ign")
    case True
    then show ?thesis using inv i by (simp add: run_in_id unmap_page_def)
  next
    case False
    then have step: "unmap_page ign n (h, ?m) = (Inr (), (h, m'))" by (auto simp: unmap_page_def m'_def)
    have wf': "wf_shift k (h, m')"
      using unmap_page_refines [OF wf, of ign n] False step by auto
    have sub: "refs m' \<subseteq> refs ?m" by (auto simp: refs_def m'_def AList.delete_eq)
    have le: "holders r (ms[i := m']) \<le> holders r ms" for r
      using holders_update [OF i, of r m'] sub by (auto split: if_splits)
    show ?thesis
    proof (rule step_isolated [OF inv i _ wf'])
      show "run_in i (unmap_page ign n) (h, ms) = (h, ms[i := m'])" by (simp add: run_in_def step)
      show "holders r (ms[i := m']) \<le> prefCount (h ! r) \<and> (2 \<le> holders r (ms[i := m']) \<longrightarrow> pshared (h ! r))"
        if "r < length h" for r
        using world_holders [OF inv that] le [of r] by auto
    qed (auto simp: agree_on_def intro: world_sizes [OF inv])
  qed
qed

text \<open>Appending a fresh page that only process \<open>i\<close> maps, in place of \<open>n\<close>'s old entry if there was one.\<close>

lemma refs_update_fresh:
  assumes wf: "mem_wf (h, m)" and m': "pages m' = AList.update n (length h) (pages m)"
  shows "refs m' = (case map_of (pages m) n of None \<Rightarrow> refs m | Some r \<Rightarrow> refs m - {r}) \<union> {length h}"
proof -
  have ok: "pages_ok h m" and js: "jsmap_wf (pages m)" using wf by (auto simp: mem_wf_def pages_ok_def)
  have js': "jsmap_wf (pages m')" using js by (simp add: m')
  have "q \<in> refs m' \<longleftrightarrow> (\<exists>x. ((map_of (pages m))(n \<mapsto> length h)) x = Some q)" for q
    using refs_map_of [OF js'] by (simp add: m')
  moreover have "(\<exists>x. ((map_of (pages m))(n \<mapsto> length h)) x = Some q) \<longleftrightarrow>
     q = length h \<or> (\<exists>x. x \<noteq> n \<and> map_of (pages m) x = Some q)" for q
    by (auto split: if_splits)
  moreover have "(\<exists>x. x \<noteq> n \<and> map_of (pages m) x = Some q) \<longleftrightarrow>
     q \<in> refs m \<and> map_of (pages m) n \<noteq> Some q" for q
    using refs_map_of [OF js] pages_ok_inj [OF ok] by metis
  ultimately show ?thesis by (auto split: option.splits)
qed

lemma fresh_page_isolated:
  assumes inv: "world_inv k (h, ms)" and i: "i < length ms"
    and run: "run_in i f (h, ms) = (g @ [q], ms[i := m'])"
    and wf': "wf_shift k (g @ [q], m')"
    and pgs: "pages m' = AList.update n (length h) (pages (ms ! i))"
    and g: "length g = length h" "\<And>r. r < length h \<Longrightarrow> pdata (g ! r) = pdata (h ! r)"
    and other: "\<And>r. r < length h \<Longrightarrow> map_of (pages (ms ! i)) n \<noteq> Some r \<Longrightarrow> g ! r = h ! r"
    and old: "\<And>r. map_of (pages (ms ! i)) n = Some r \<Longrightarrow> prefCount (g ! r) = prefCount (h ! r) - 1 \<and>
        pshared (g ! r) = (pshared (h ! r) \<and> 1 < prefCount (h ! r) - 1)"
    and q: "length (pdata q) = unat (pageSize (ms ! i))" "prefCount q = 1"
  shows "world_inv k (run_in i f (h, ms)) \<and>
     (\<forall>j < length ms. j \<noteq> i \<longrightarrow> contents (run_in i f (h, ms)) j = contents (h, ms) j)"
proof (rule step_isolated [OF inv i run wf'])
  have wf: "mem_wf (h, ms ! i)" using world_wf [OF inv i] by (simp add: wf_shift_def)
  note rf = refs_update_fresh [OF wf pgs]
  have all_wf: "\<forall>m \<in> set ms. mem_wf (h, m)" using inv by (simp add: world_inv_def wf_shift_def)
  show "length h \<le> length (g @ [q])" by (simp add: g)
  show "\<forall>p \<in> set (g @ [q]). length (pdata p) = unat (pageSize m)" if "m \<in> set ms" for m
  proof
    fix p
    assume "p \<in> set (g @ [q])"
    then consider r where "r < length h" "p = g ! r" | "p = q"
      by (auto simp: in_set_conv_nth g(1))
    then show "length (pdata p) = unat (pageSize m)"
    proof cases
      case 1
      then show ?thesis using world_sizes [OF inv that, of "h ! r"] by (simp add: g(2))
    next
      case 2
      have "unat (pageSize (ms ! i)) = unat (pageSize m)"
        using world_wf [OF inv i] that inv
        by (auto simp: world_inv_def wf_shift_def mem_wf_def shape_ok_def)
      with 2 show ?thesis by (simp add: q)
    qed
  qed
  show "holders r (ms[i := m']) \<le> prefCount ((g @ [q]) ! r) \<and>
      (2 \<le> holders r (ms[i := m']) \<longrightarrow> pshared ((g @ [q]) ! r))" if "r < length (g @ [q])" for r
  proof (cases "r = length h")
    case True
    then have "holders r ms = 0" using holders_fresh [OF all_wf] by simp
    then have "holders r (ms[i := m']) \<le> 1"
      using holders_update [OF i, of r m'] by (auto split: if_splits)
    with True g q show ?thesis by (simp add: nth_append)
  next
    case False
    then have r: "r < length h" using that g by simp
    show ?thesis
    proof (cases "map_of (pages (ms ! i)) n = Some r")
      case True
      then have "r \<in> refs (ms ! i)" "r \<notin> refs m'"
        using False rf by (force simp: refs_def dest: map_of_SomeD)+
      then have "holders r (ms[i := m']) + 1 = holders r ms"
        using holders_update [OF i, of r m'] by simp
      with world_holders [OF inv r] old [OF True] r g show ?thesis by (auto simp: nth_append)
    next
      case ne: False
      then have "r \<in> refs m' \<longleftrightarrow> r \<in> refs (ms ! i)"
        using False rf by (auto split: option.splits)
      then have "holders r (ms[i := m']) = holders r ms"
        using holders_update [OF i, of r m'] by simp
      with world_holders [OF inv r] other [OF r ne] r g show ?thesis by (simp add: nth_append)
    qed
  qed
  show "agree_on (refs (ms ! j)) h (g @ [q])" if "j < length ms" "j \<noteq> i" for j
    unfolding agree_on_def
  proof
    fix r
    assume "r \<in> refs (ms ! j)"
    then have "r < length h" using all_wf that refs_bound [of h "ms ! j" r] by simp
    with g show "pdata ((g @ [q]) ! r) = pdata (h ! r)" by (simp add: nth_append)
  qed
qed

lemma map_page_isolated:
  assumes n: "n < 2 ^ (32 - k)"
  shows "isolated k (map_page p name n)"
proof (rule isolatedI)
  fix h ms i
  assume inv: "world_inv k (h, ms)" and i: "i < length ms"
  let ?m = "ms ! i"
  have wf: "wf_shift k (h, ?m)" using inv i by (rule world_wf)
  let ?nm = "\<lambda>m. if name = '''' then m else m\<lparr>nameMap := AList.update n name (nameMap m)\<rparr>"
  have nm: "refs (?nm m) = refs m" "wf_shift k (g, ?nm m) = wf_shift k (g, m)" "pages (?nm m) = pages m" for m g
    by (auto simp: refs_def wf_shift_def mem_wf_def shape_ok_def pages_ok_def store_ok_def)
  obtain t where step: "map_page p name n (h, ?m) = (Inr (), t)" "wf_shift k t"
    using map_page_refines [OF wf n] by blast
  show "world_inv k (run_in i (map_page p name n) (h, ms)) \<and>
     (\<forall>j < length ms. j \<noteq> i \<longrightarrow> contents (run_in i (map_page p name n) (h, ms)) j = contents (h, ms) j)"
  proof (cases "map_of (pages ?m) n")
    case (Some r)
    have "wf_shift k (h[r := (h ! r)\<lparr>pperm := p\<rparr>], ?m)"
      by (rule set_perm_refines(1) [OF wf Some refl])
    moreover have "r < length h" using inv i Some by (rule world_ref)
    ultimately show ?thesis
      using inv i Some nm
      by (intro update_page_isolated [where m' = "?nm ?m" and r = r and p = "(h ! r)\<lparr>pperm := p\<rparr>"])
        (simp_all add: run_in_def map_page_def)
  next
    case None
    define pg where "pg = new_Page (unat (pageSize ?m)) p"
    define m1 where "m1 = ?m\<lparr>pages := AList.update n (length h) (pages ?m)\<rparr>"
    have t: "t = (h @ [pg], ?nm m1)"
      using None step(1) by (cases "name = ''''") (auto simp: map_page_def pg_def m1_def)
    have run: "run_in i (map_page p name n) (h, ms) = (h @ [pg], ms[i := ?nm m1])"
      using step(1) t by (simp add: run_in_def)
    show ?thesis
      by (rule fresh_page_isolated [OF inv i run, where n = n])
        (use step(2) None in \<open>simp_all only: t nm\<close>, simp_all add: m1_def pg_def)
  qed
qed

lemma notifyWrite_shift [simp]: "wf_shift k (snd (notifyWrite a s)) \<longleftrightarrow> wf_shift k s"
  by (cases s) (simp add: notifyWrite_def wf_shift_def mem_wf_def shape_ok_def pages_ok_def store_ok_def)

lemma unshare_shape: "pageShift (snd (snd (unshare a r s))) = pageShift (snd s)"
  by (cases s) (simp add: unshare_def Let_def)

lemma storeByte_shape: "pageShift (snd (snd (storeByte r a v s))) = pageShift (snd s)"
  by (cases s) (simp add: storeByte_def)

lemma notifyWrite_shape: "pageShift (snd (snd (notifyWrite a s))) = pageShift (snd s)"
  by (cases s) (simp add: notifyWrite_def)

lemma getPage_state [simp]: "snd (getPage a n op s) = s"
  by (cases s) (simp add: getPage_def split: option.splits)

lemma write8_shape: "pageShift (snd (snd (write8 a v s))) = pageShift (snd s)"
  unfolding write8_def
  by (intro bnd_preserves [where P = "\<lambda>t. pageShift (snd t) = pageShift (snd s)"]
      thn_preserves [where P = "\<lambda>t. pageShift (snd t) = pageShift (snd s)"])
    (simp_all add: unshare_shape storeByte_shape notifyWrite_shape)

lemma write8_shift:
  assumes "wf_shift k (h, m)"
  shows "wf_shift k (snd (write8 a v (h, m)))"
proof -
  have "mem_wf (snd (write8 a v (h, m)))"
  proof (cases "\<forall>b p. byte_at (h, m) a = Some (b, p) \<longrightarrow> p AND PERM_W \<noteq> PERM_W")
    case True
    then show ?thesis using assms write8_fault [OF True, of v] by (simp add: wf_shift_def)
  next
    case False
    then obtain b p where "byte_at (h, m) a = Some (b, p)" "p AND PERM_W = PERM_W" by blast
    moreover have "mem_wf (h, m)" using assms by (simp add: wf_shift_def)
    ultimately obtain s' where "write8 a v (h, m) = (Inr (), s')" "mem_wf s'" using write8_ok by metis
    then show ?thesis by simp
  qed
  then show ?thesis using assms by (simp add: wf_shift_def write8_shape)
qed

lemma write8_isolated: "isolated k (write8 a v)"
proof (rule isolatedI)
  fix h ms i
  assume inv: "world_inv k (h, ms)" and i: "i < length ms"
  let ?m = "ms ! i" and ?n = "pageNo (ms ! i) a"
  have wf: "wf_shift k (h, ?m)" using inv i by (rule world_wf)
  have wf': "wf_shift k (snd (write8 a v (h, ?m)))" using wf by (rule write8_shift)
  define lg where "lg = map_option (\<lambda>log. log @ [(a, 1 :: nat)]) (onWrite ?m)"
  let ?st = "\<lambda>p. p\<lparr>pdata := (pdata p)[pageOff ?m a := ucast v], pdirty := True\<rparr>"
  show "world_inv k (run_in i (write8 a v) (h, ms)) \<and>
     (\<forall>j < length ms. j \<noteq> i \<longrightarrow> contents (run_in i (write8 a v) (h, ms)) j = contents (h, ms) j)"
  proof (cases "\<exists>r. map_of (pages ?m) ?n = Some r \<and> pperm (h ! r) AND PERM_W = PERM_W")
    case False
    then have "write8 a v (h, ?m) = (Inl (MemoryFault a ''write''), (h, ?m))"
      by (auto simp: write8_def getPage_def bnd_def split: option.splits)
    then show ?thesis using inv i by (simp add: run_in_id)
  next
    case True
    then obtain r where r: "map_of (pages ?m) ?n = Some r" "pperm (h ! r) AND PERM_W = PERM_W" by blast
    have rl: "r < length h" using inv i r(1) by (rule world_ref)
    have len: "length (pdata (h ! r)) = unat (pageSize ?m)"
      using inv i rl by (intro world_sizes [OF inv]) simp_all
    show ?thesis
    proof (cases "pshared (h ! r) \<and> 1 < prefCount (h ! r)")
      case False
      then have step: "write8 a v (h, ?m) = (Inr (), (h[r := ?st (h ! r)], ?m\<lparr>onWrite := lg\<rparr>))"
        using r by (auto simp: write8_def getPage_def unshare_def storeByte_def notifyWrite_def Let_def lg_def)
      have rin: "r \<in> refs ?m" using r(1) by (force simp: refs_def dest: map_of_SomeD)
      have "r \<notin> refs (ms ! j)" if "j < length ms" "j \<noteq> i" for j
        using private_page [OF inv i that(1) _ rin False] that(2) by simp
      then show ?thesis
        using wf' rl step
        by (intro update_page_isolated [OF inv i rl, where m' = "?m\<lparr>onWrite := lg\<rparr>" and p = "?st (h ! r)"])
          (simp_all add: run_in_def refs_def)
    next
      case True
      define cp where "cp = (new_Page (unat (pageSize ?m)) (pperm (h ! r)))\<lparr>pdata := pdata (h ! r), pdirty := pdirty (h ! r)\<rparr>"
      define p' where "p' = (h ! r)\<lparr>prefCount := prefCount (h ! r) - 1,
        pshared := (if prefCount (h ! r) - 1 \<le> 1 then False else pshared (h ! r))\<rparr>"
      define m' where "m' = ?m\<lparr>pages := AList.update ?n (length h) (pages ?m), onWrite := lg\<rparr>"
      have step: "write8 a v (h, ?m) = (Inr (), (h[r := p'] @ [?st cp], m'))"
        using r True rl
        by (simp add: write8_def getPage_def unshare_def storeByte_def notifyWrite_def Let_def lg_def m'_def
            p'_def cp_def list_update_append pageOff_def nth_append)
      have run: "run_in i (write8 a v) (h, ms) = (h[r := p'] @ [?st cp], ms[i := m'])"
        using step by (simp add: run_in_def)
      show ?thesis
      proof (rule fresh_page_isolated [OF inv i run, where n = ?n])
        show "wf_shift k (h[r := p'] @ [?st cp], m')" using wf' step by simp
        show "pages m' = AList.update ?n (length h) (pages ?m)" by (simp add: m'_def)
        show "pdata (h[r := p'] ! q) = pdata (h ! q)" if "q < length h" for q
          using that by (cases "q = r") (simp_all add: p'_def)
        show "h[r := p'] ! q = h ! q" if "q < length h" "map_of (pages ?m) ?n \<noteq> Some q" for q
          using that r by (cases "q = r") simp_all
        show "prefCount (h[r := p'] ! q) = prefCount (h ! q) - 1 \<and>
            pshared (h[r := p'] ! q) = (pshared (h ! q) \<and> 1 < prefCount (h ! q) - 1)"
          if "map_of (pages ?m) ?n = Some q" for q
          using that r rl by (auto simp: p'_def)
      qed (simp_all add: cp_def len)
    qed
  qed
qed

section \<open>Forking\<close>

lemma share_fold_length [simp]: "length (foldl (\<lambda>h (no, r). h[r := share_page (h ! r)]) h ps) = length h"
  by (induction ps arbitrary: h) (auto split: prod.splits)

lemma share_fold_nth:
  assumes "distinct (map snd ps)" "\<forall>q \<in> set (map snd ps). q < length h" "r < length h"
  shows "foldl (\<lambda>h (no, r). h[r := share_page (h ! r)]) h ps ! r =
     (if r \<in> snd ` set ps then share_page (h ! r) else h ! r)"
  using assms
proof (induction ps arbitrary: h)
  case (Cons p ps)
  obtain no q where p: "p = (no, q)" by fastforce
  have "foldl (\<lambda>h (no, r). h[r := share_page (h ! r)]) (h[q := share_page (h ! q)]) ps ! r =
     (if r \<in> snd ` set ps then share_page (h[q := share_page (h ! q)] ! r) else h[q := share_page (h ! q)] ! r)"
    using Cons.prems by (intro Cons.IH) auto
  moreover have "q \<notin> snd ` set ps" using Cons.prems(1) by (simp add: p)
  ultimately show ?case using Cons.prems(2,3) by (cases "r = q") (auto simp: p)
qed simp

lemma fork_in_eq:
  assumes inv: "world_inv k (h, ms)" and i: "i < length ms"
  obtains g where "fork_in i (h, ms) = (g, ms @ [ms ! i])" "length g = length h"
    "\<And>r. r < length h \<Longrightarrow> g ! r = (if r \<in> refs (ms ! i) then share_page (h ! r) else h ! r)"
proof -
  define g where "g = foldl (\<lambda>h (no, r). h[r := share_page (h ! r)]) h (pages (ms ! i))"
  have "pages_ok h (ms ! i)" using world_wf [OF inv i] by (simp add: wf_shift_def mem_wf_def)
  then have "distinct (map snd (pages (ms ! i)))" "\<forall>q \<in> set (map snd (pages (ms ! i))). q < length h"
    by (auto simp: pages_ok_def)
  then have "g ! r = (if r \<in> refs (ms ! i) then share_page (h ! r) else h ! r)" if "r < length h" for r
    using that unfolding g_def refs_def by (rule share_fold_nth)
  moreover have "fork_in i (h, ms) = (g, ms @ [ms ! i])"
    by (simp add: fork_in_def clone_cow_def g_def)
  ultimately show ?thesis using that [of g] by (simp add: g_def)
qed

lemma share_page_simps [simp]:
  "pdata (share_page p) = pdata p" "pshared (share_page p)" "prefCount (share_page p) = prefCount p + 1"
  by (simp_all add: share_page_def)

lemma fork_in_isolated:
  assumes inv: "world_inv k w" and i: "i < length (snd w)"
  shows "world_inv k (fork_in i w)" "length (snd (fork_in i w)) = Suc (length (snd w))"
    "j < length (snd w) \<Longrightarrow> contents (fork_in i w) j = contents w j"
    "contents (fork_in i w) (length (snd w)) = contents w i"
proof -
  obtain h ms where w: "w = (h, ms)" by fastforce
  obtain g where fk: "fork_in i w = (g, ms @ [ms ! i])" and len: "length g = length h"
    and nth: "\<And>r. r < length h \<Longrightarrow> g ! r = (if r \<in> refs (ms ! i) then share_page (h ! r) else h ! r)"
    using fork_in_eq [OF inv [unfolded w]] i w by auto
  have data: "pdata (g ! r) = pdata (h ! r)" if "r < length h" for r using nth [OF that] by simp
  have sizes: "\<forall>p \<in> set g. length (pdata p) = unat (pageSize m)" if "m \<in> set ms" for m
    using world_sizes [OF inv [unfolded w] that] data nth_mem by (fastforce simp: in_set_conv_nth len)
  have wfs: "wf_shift k (g, m)" if "m \<in> set ms" for m
    using mem_wf_store [of h m g] sizes [OF that] that inv len by (simp add: world_inv_def wf_shift_def w)
  have "ms ! i \<in> set ms" using i by (simp add: w)
  moreover have "holders r (ms @ [ms ! i]) \<le> prefCount (g ! r) \<and> (2 \<le> holders r (ms @ [ms ! i]) \<longrightarrow> pshared (g ! r))"
    if "r < length h" for r
    using world_holders [OF inv [unfolded w] that] nth [OF that] by (simp add: holders_append)
  ultimately show "world_inv k (fork_in i w)" using wfs by (auto simp: fk world_inv_def len)
  show "length (snd (fork_in i w)) = Suc (length (snd w))" using fk by (simp add: w)
  have same: "agree_on (refs m) h g" if "m \<in> set ms" for m
    using data refs_bound [of h m] that inv by (auto simp: agree_on_def world_inv_def wf_shift_def w)
  show "contents (fork_in i w) j = contents w j" if "j < length (snd w)"
    using that same unfolding fk by (intro contents_agree) (simp_all add: w nth_append)
  have "contents (g, ms @ [ms ! i]) (length ms) = contents (g, ms) i"
    by (simp add: contents_def fun_eq_iff)
  also have "\<dots> = contents w i"
    using same i by (intro contents_agree) (simp_all add: w)
  finally show "contents (fork_in i w) (length (snd w)) = contents w i" using fk by (simp add: w)
qed

section \<open>Runs of several processes\<close>

text \<open>The guest memory operations, as the system calls and the CPU invoke them.\<close>

datatype guest_op =
    OpWrite8 u32 u32
  | OpWrite16 u32 u32
  | OpWrite32 u32 u32
  | OpWriteBytes u32 "u8 list"
  | OpZero u32 nat
  | OpRead8 u32
  | OpMap u32 int perm_arg string
  | OpUnmap u32 int bool
  | OpMmap u32 mmap_options
  | OpMprotect u32 int perm_arg

definition drop_result :: "'a memM \<Rightarrow> unit memM" where
  "drop_result f = bnd f (\<lambda>_. ret ())"

primrec exec_op :: "guest_op \<Rightarrow> unit memM" where
  "exec_op (OpWrite8 a v) = write8 a v"
| "exec_op (OpWrite16 a v) = write16 a v"
| "exec_op (OpWrite32 a v) = write32 a v"
| "exec_op (OpWriteBytes a bs) = writeBytes a bs"
| "exec_op (OpZero a n) = zero a n"
| "exec_op (OpRead8 a) = drop_result (read8 a)"
| "exec_op (OpMap a len p name) = drop_result (map_mem a len p name)"
| "exec_op (OpUnmap a len ign) = unmap a len ign"
| "exec_op (OpMmap len opts) = drop_result (mmap len opts)"
| "exec_op (OpMprotect a len p) = mprotect a len p"

lemma modS_nextMmap_isolated: "isolated k (modS (\<lambda>(h, m). (h, m\<lparr>nextMmap := x\<rparr>)))"
proof (rule isolatedI)
  fix h ms i
  assume inv: "world_inv k (h, ms)" and i: "i < length ms"
  define m' where "m' = (ms ! i)\<lparr>nextMmap := x\<rparr>"
  have wf': "wf_shift k (h, m')" using world_wf [OF inv i]
    by (auto simp: m'_def wf_shift_def mem_wf_def shape_ok_def pages_ok_def store_ok_def)
  have run: "run_in i (modS (\<lambda>(h, m). (h, m\<lparr>nextMmap := x\<rparr>))) (h, ms) = (h, ms[i := m'])"
    by (simp add: run_in_def m'_def)
  have "holders r (ms[i := m']) = holders r ms" for r
    by (rule holders_same_refs [OF i]) (simp add: m'_def refs_def)
  then show "world_inv k (run_in i (modS (\<lambda>(h, m). (h, m\<lparr>nextMmap := x\<rparr>))) (h, ms)) \<and>
     (\<forall>j < length ms. j \<noteq> i \<longrightarrow> contents (run_in i (modS (\<lambda>(h, m). (h, m\<lparr>nextMmap := x\<rparr>))) (h, ms)) j = contents (h, ms) j)"
    by (intro step_isolated [OF inv i run wf'])
      (auto simp: agree_on_def world_holders [OF inv] intro: world_sizes [OF inv])
qed

lemma map_mem_isolated: "isolated k (map_mem a len p name)"
  unfolding map_mem_def
  by (auto intro!: isolated_get isolated_thn isolated_forM map_page_isolated dest: page_range_bound)

lemma unmap_isolated: "isolated k (unmap a len ign)"
  unfolding unmap_def by (auto intro!: isolated_get isolated_forM unmap_page_isolated)

lemma mprotect_isolated: "isolated k (mprotect a len p)"
  unfolding mprotect_def by (intro isolated_get isolated_forM protect_page_isolated)

lemma mmap_isolated: "isolated k (mmap len opts)"
  unfolding mmap_def Let_def
  by (auto intro!: isolated_get isolated_bnd isolated_thn modS_nextMmap_isolated map_mem_isolated unmap_isolated)

lemma read8_state: "snd (read8 a s) = s"
  by (simp add: read8_byte_at split: option.splits)

lemma read8_isolated: "isolated k (read8 a)"
  by (intro isolated_pure read8_state)

lemma exec_op_isolated: "isolated k (exec_op c)"
  by (cases c)
    (auto simp: drop_result_def write16_def write32_def le_write16_def le_write32_def writeBytes_def zero_def
      intro!: isolated_bnd isolated_thn isolated_forM write8_isolated map_mem_isolated unmap_isolated
        mprotect_isolated mmap_isolated read8_isolated)

text \<open>
  \<open>world_run P w w'\<close>: the processes in \<open>P\<close> take \<open>w\<close> to \<open>w'\<close> by memory operations, in any order and
  whether or not they fault, and by forks.
\<close>

inductive world_run :: "nat set \<Rightarrow> world \<Rightarrow> world \<Rightarrow> bool" for P :: "nat set" and w :: world where
  start: "world_run P w w"
| op: "world_run P w w' \<Longrightarrow> i \<in> P \<Longrightarrow> i < length (snd w') \<Longrightarrow> world_run P w (run_in i (exec_op c) w')"
| fork: "world_run P w w' \<Longrightarrow> i \<in> P \<Longrightarrow> i < length (snd w') \<Longrightarrow> world_run P w (fork_in i w')"

lemma world_run_isolated:
  assumes "world_run P w w'" "world_inv k w"
  shows "world_inv k w' \<and> length (snd w) \<le> length (snd w') \<and>
     (\<forall>j < length (snd w). j \<notin> P \<longrightarrow> contents w' j = contents w j)"
  using assms
proof (induction rule: world_run.induct)
  case start
  then show ?case by simp
next
  case (op w' i c)
  then have w': "world_inv k w'" "length (snd w) \<le> length (snd w')"
    "\<forall>j < length (snd w). j \<notin> P \<longrightarrow> contents w' j = contents w j" by auto
  note iso = isolatedD [OF exec_op_isolated w'(1) op.hyps(3), where c1 = c]
  have "contents (run_in i (exec_op c) w') j = contents w j" if "j < length (snd w)" "j \<notin> P" for j
    using iso(2) [of j] that w'(2,3) op.hyps(2) by auto
  with iso(1) w' show ?case by simp
next
  case (fork w' i)
  then have w': "world_inv k w'" "length (snd w) \<le> length (snd w')"
    "\<forall>j < length (snd w). j \<notin> P \<longrightarrow> contents w' j = contents w j" by auto
  note fk = fork_in_isolated [OF w'(1) fork.hyps(3)]
  have "contents (fork_in i w') j = contents w j" if "j < length (snd w)" "j \<notin> P" for j
    using fk(3) [of j] that w'(2,3) by auto
  with fk(1,2) w' show ?case by simp
qed

section \<open>Isolation of processes\<close>

text \<open>A world with one process that holds the small memory.\<close>

definition tiny_world :: world where
  "tiny_world = ([new_Page 16 PERM_RW], [tiny_memory])"

lemma tiny_world_inv: "world_inv 4 tiny_world"
  using tiny_wf
  by (simp add: tiny_world_def world_inv_def wf_shift_def tiny_state_def holders_def refs_def)
    (simp add: tiny_memory_def)

text \<open>
  C1: copy-on-write isolates processes. Right after a fork the child sees exactly the parent's bytes
  and nobody's bytes have changed; from then on, whatever sequence of writes, mappings, unmappings,
  protection changes and further forks the other processes perform, with or without faults, the
  child keeps seeing those bytes, and so does every process that does not act.
\<close>

theorem fork_isolation:
  assumes "world_inv k w" "i < length (snd w)" "world_run P (fork_in i w) w'"
  shows "world_inv k w' \<and>
     (length (snd w) \<notin> P \<longrightarrow> contents w' (length (snd w)) = contents w i) \<and>
     (\<forall>j < length (snd w). j \<notin> P \<longrightarrow> contents w' j = contents w j)"
  using world_run_isolated [OF assms(3) fork_in_isolated(1) [OF assms(1,2)]]
    fork_in_isolated(2-) [OF assms(1,2)] by simp

theorem fork_isolation_witness:
  "contents (run_in 0 (exec_op (OpWrite8 16 0x41)) (fork_in 0 tiny_world)) 1 16 = Some 0 \<and>
   contents (run_in 0 (exec_op (OpWrite8 16 0x41)) (fork_in 0 tiny_world)) 0 16 = Some 0x41"
proof -
  have len: "length (snd tiny_world) = 1" by (simp add: tiny_world_def)
  have "length (snd (fork_in 0 tiny_world)) = 2"
    using fork_in_isolated(2) [OF tiny_world_inv, of 0] by (simp add: len)
  then have "world_run {0} (fork_in 0 tiny_world) (run_in 0 (exec_op (OpWrite8 16 0x41)) (fork_in 0 tiny_world))"
    by (intro world_run.intros) simp_all
  from fork_isolation [OF tiny_world_inv _ this]
  have "contents (run_in 0 (exec_op (OpWrite8 16 0x41)) (fork_in 0 tiny_world)) 1 16 = contents tiny_world 0 16"
    by (simp add: len)
  then show ?thesis
    by (simp add: contents_def tiny_world_def byte_at_def tiny_memory_def pageNo_def pageOff_def new_Page_def
        run_in_def fork_in_def clone_cow_def share_page_def write8_def getPage_def unshare_def storeByte_def
        notifyWrite_def Let_def perm_defs nth_append)
qed


end
