(* ===== verification/Cpu.thy ===== *)
theory Cpu
  imports Memory_Fork
begin

text \<open>
  The state and the addressing half of the IA-32 interpreter of \<open>src/cpu.js\<close>: registers and flags,
  instruction fetch, the stack, prefixes, ModRM/SIB decoding and operand access. The registers, the
  XMM registers and the segment tables are functions of their index; the syscall layer that the CPU
  calls keeps its state in \<open>kern\<close>. Computations throw a \<open>cpu_error\<close> and keep the state reached.
\<close>

named_theorems cpu_defs \<open>definitions of the CPU operations\<close>

section \<open>State\<close>

datatype segname = ES | CS | SS | DS | FS | GS

datatype rep_prefix = NoRep | Rep | RepNE

record prefix =
  operandSize :: nat
  addressSize :: nat
  rep :: rep_prefix
  lock :: bool
  seg :: "segname option"

type_synonym f64 = u64

text \<open>An x87 stack slot is \<open>None\<close> where the JavaScript array has a hole.\<close>

record 'k cpu =
  mem :: mst
  regs :: "nat \<Rightarrow> u32"
  sregs :: "segname \<Rightarrow> u32"
  segBase :: "segname \<Rightarrow> u32"
  eip :: u32
  eflags :: u32
  steps :: nat
  lastPrefix :: "prefix option"
  xmm :: "nat \<Rightarrow> u8 list"
  fpu_stack :: "f64 option list"
  fpu_control :: u32
  fpu_status :: u32
  mxcsr :: u32
  kern :: 'k

text \<open>\<open>RangeError\<close> is the host's \<open>BigInt\<close> of a non-finite number, \<open>Trap\<close> what the syscall layer throws.\<close>

datatype 'x cpu_error =
    CPUError string
  | UnsupportedOpcodeError string u32
  | CpuFault mem_error
  | RangeError
  | Trap 'x

type_synonym ('k, 'x, 'a) cpuM = "('k cpu, 'x cpu_error, 'a) sem"

definition DEFAULT_EFLAGS :: u32 where
  "DEFAULT_EFLAGS = 0x202"

definition default_sregs :: "segname \<Rightarrow> u32" where
  "default_sregs s = (case s of ES \<Rightarrow> 0x2b | CS \<Rightarrow> 0x23 | SS \<Rightarrow> 0x2b | DS \<Rightarrow> 0x2b | FS \<Rightarrow> 0 | GS \<Rightarrow> 0)"

definition new_CPU :: "mst \<Rightarrow> 'k \<Rightarrow> u32 \<Rightarrow> 'k cpu" where
  "new_CPU m k entry =
     \<lparr>mem = m, regs = (\<lambda>_. 0), sregs = default_sregs, segBase = (\<lambda>_. 0), eip = entry,
      eflags = DEFAULT_EFLAGS, steps = 0, lastPrefix = None, xmm = (\<lambda>_. replicate 16 0),
      fpu_stack = [], fpu_control = 0x037f, fpu_status = 0, mxcsr = 0x1f80, kern = k\<rparr>"

section \<open>Widths\<close>

definition maskFor :: "nat \<Rightarrow> u32" where
  "maskFor width = (if width = 32 then 0xffffffff else push_bit width 1 - 1)"

definition signBit :: "nat \<Rightarrow> u32" where
  "signBit width = (if width = 32 then 0x80000000 else push_bit (width - 1) 1)"

definition truncate_w :: "u32 \<Rightarrow> nat \<Rightarrow> u32" where
  "truncate_w v width = (if width = 32 then v else v AND maskFor width)"

definition signExtend :: "u32 \<Rightarrow> nat \<Rightarrow> int" where
  "signExtend v width =
     (let v = truncate_w v width in
      if width = 8 then s8 v else if width = 16 then s16 v else sint v)"

section \<open>Memory access from the CPU\<close>

definition memOp :: "'a memM \<Rightarrow> ('k, 'x, 'a) cpuM" where
  "memOp f = (\<lambda>s. case f (mem s) of
     (Inl e, m) \<Rightarrow> (Inl (CpuFault e), s\<lparr>mem := m\<rparr>)
   | (Inr x, m) \<Rightarrow> (Inr x, s\<lparr>mem := m\<rparr>))"

definition memRead :: "nat \<Rightarrow> u32 \<Rightarrow> ('k, 'x, u32) cpuM" where
  "memRead width a =
     (if width = 8 then bnd (memOp (read8 a)) (\<lambda>b. ret (ucast b))
      else if width = 16 then memOp (read16 a) else memOp (read32 a))"

definition memWrite :: "nat \<Rightarrow> u32 \<Rightarrow> u32 \<Rightarrow> ('k, 'x, unit) cpuM" where
  "memWrite width a v =
     (if width = 8 then memOp (write8 a v)
      else if width = 16 then memOp (write16 a v) else memOp (write32 a v))"

definition setEip :: "u32 \<Rightarrow> ('k, 'x, unit) cpuM" where
  "setEip a = modS (\<lambda>s. s\<lparr>eip := a\<rparr>)"

definition fetch8 :: "('k, 'x, u32) cpuM" where
  "fetch8 = bnd (getS eip) (\<lambda>a. bnd (memOp (read8exec a)) (\<lambda>v.
     thn (setEip (a + 1)) (ret (ucast v))))"

definition fetch16 :: "('k, 'x, u32) cpuM" where
  "fetch16 = bnd fetch8 (\<lambda>b0. bnd fetch8 (\<lambda>b1. ret (b0 OR push_bit 8 b1)))"

definition fetch32 :: "('k, 'x, u32) cpuM" where
  "fetch32 = bnd fetch8 (\<lambda>b0. bnd fetch8 (\<lambda>b1. bnd fetch8 (\<lambda>b2. bnd fetch8 (\<lambda>b3.
     ret (b0 OR push_bit 8 b1 OR push_bit 16 b2 OR push_bit 24 b3)))))"

definition fetchImm :: "nat \<Rightarrow> ('k, 'x, u32) cpuM" where
  "fetchImm width = (if width = 8 then fetch8 else if width = 16 then fetch16 else fetch32)"

definition fetchSignedImm :: "nat \<Rightarrow> ('k, 'x, int) cpuM" where
  "fetchSignedImm width = bnd (fetchImm width) (\<lambda>v. ret (signExtend v width))"

section \<open>Flags and registers\<close>

definition flag :: "nat \<Rightarrow> u32 \<Rightarrow> bool" where
  "flag n fl \<longleftrightarrow> fl AND push_bit n 1 \<noteq> 0"

definition getFlag :: "nat \<Rightarrow> 'k cpu \<Rightarrow> bool" where
  "getFlag n s = flag n (eflags s)"

definition with_flag :: "nat \<Rightarrow> bool \<Rightarrow> u32 \<Rightarrow> u32" where
  "with_flag n v fl = (if v then fl OR push_bit n 1 else fl AND NOT (push_bit n 1))"

definition setFlag :: "nat \<Rightarrow> bool \<Rightarrow> ('k, 'x, unit) cpuM" where
  "setFlag n v = modS (\<lambda>s. s\<lparr>eflags := with_flag n v (eflags s)\<rparr>)"

definition getReg :: "nat \<Rightarrow> nat \<Rightarrow> 'k cpu \<Rightarrow> u32" where
  "getReg width i s =
     (let r = i mod 8 in
      if width = 8 then
        if r < 4 then regs s r AND 0xff else drop_bit 8 (regs s (r - 4)) AND 0xff
      else if width = 16 then regs s r AND 0xffff
      else regs s r)"

definition put_reg :: "nat \<Rightarrow> nat \<Rightarrow> u32 \<Rightarrow> 'k cpu \<Rightarrow> 'k cpu" where
  "put_reg width i value s =
     (let r = i mod 8; v = truncate_w value width in
      if width = 8 then
        if r < 4 then s\<lparr>regs := (regs s)(r := (regs s r AND 0xffffff00) OR v)\<rparr>
        else s\<lparr>regs := (regs s)(r - 4 := (regs s (r - 4) AND 0xffff00ff) OR push_bit 8 v)\<rparr>
      else if width = 16 then s\<lparr>regs := (regs s)(r := (regs s r AND 0xffff0000) OR v)\<rparr>
      else s\<lparr>regs := (regs s)(r := v)\<rparr>)"

definition setReg :: "nat \<Rightarrow> nat \<Rightarrow> u32 \<Rightarrow> ('k, 'x, unit) cpuM" where
  "setReg width i value = modS (put_reg width i value)"

text \<open>Direct access to \<open>this.regs[r]\<close>.\<close>

definition getR :: "nat \<Rightarrow> ('k, 'x, u32) cpuM" where
  "getR r = getS (\<lambda>s. regs s r)"

definition setR :: "nat \<Rightarrow> u32 \<Rightarrow> ('k, 'x, unit) cpuM" where
  "setR r v = modS (\<lambda>s. s\<lparr>regs := (regs s)(r := v)\<rparr>)"

section \<open>The stack\<close>

definition push :: "u32 \<Rightarrow> nat \<Rightarrow> ('k, 'x, unit) cpuM" where
  "push value width =
     (if width = 16
      then bnd (getR REG_ESP) (\<lambda>sp. thn (setR REG_ESP (sp - 2)) (memOp (write16 (sp - 2) value)))
      else bnd (getR REG_ESP) (\<lambda>sp. thn (setR REG_ESP (sp - 4)) (memOp (write32 (sp - 4) value))))"

definition pop :: "nat \<Rightarrow> ('k, 'x, u32) cpuM" where
  "pop width =
     (if width = 16
      then bnd (getR REG_ESP) (\<lambda>sp. bnd (memOp (read16 sp)) (\<lambda>v. thn (setR REG_ESP (sp + 2)) (ret v)))
      else bnd (getR REG_ESP) (\<lambda>sp. bnd (memOp (read32 sp)) (\<lambda>v. thn (setR REG_ESP (sp + 4)) (ret v))))"

section \<open>Prefixes\<close>

definition SEG_PREFIX :: "u8 \<Rightarrow> segname option" where
  "SEG_PREFIX b = map_of [(0x26, ES), (0x2e, CS), (0x36, SS), (0x3e, DS), (0x64, FS), (0x65, GS)] b"

definition prefix0 :: prefix where
  "prefix0 = \<lparr>operandSize = 32, addressSize = 32, rep = NoRep, lock = False, seg = None\<rparr>"

definition add_prefix :: "u8 \<Rightarrow> prefix \<Rightarrow> prefix option" where
  "add_prefix b p =
     (if b = 0x66 then Some (p\<lparr>operandSize := 16\<rparr>)
      else if b = 0x67 then Some (p\<lparr>addressSize := 16\<rparr>)
      else if b = 0xf0 then Some (p\<lparr>lock := True\<rparr>)
      else if b = 0xf2 then Some (p\<lparr>rep := RepNE\<rparr>)
      else if b = 0xf3 then Some (p\<lparr>rep := Rep\<rparr>)
      else case SEG_PREFIX b of None \<Rightarrow> None | Some sg \<Rightarrow> Some (p\<lparr>seg := Some sg\<rparr>))"

text \<open>
  The loop has no limit on the number of prefixes. It moves EIP by one and reads memory it does not
  change, so after \<open>2 ^ 32\<close> prefix bytes it is back where it began and never ends: that many rounds
  of fuel decide it.
\<close>

fun prefix_loop :: "nat \<Rightarrow> prefix \<Rightarrow> ('k, 'x, prefix) cpuM" where
  "prefix_loop n p s =
     (if n = 0 then (Inl (CpuFault Diverges), s)
      else case memOp (read8exec (eip s)) s of
        (Inl e, s') \<Rightarrow> (Inl e, s')
      | (Inr b, s') \<Rightarrow> (case add_prefix b p of
            None \<Rightarrow> (Inr p, s'\<lparr>lastPrefix := Some p\<rparr>)
          | Some p' \<Rightarrow> prefix_loop (n - 1) p' (s'\<lparr>eip := eip s' + 1\<rparr>)))"

declare prefix_loop.simps [simp del]

definition parsePrefixes :: "('k, 'x, prefix) cpuM" where
  "parsePrefixes = prefix_loop (2 ^ 32) prefix0"

section \<open>ModRM and SIB\<close>

datatype rm = RmReg nat | RmMem (rm_addr: u32) (rawAddr: u32) (rm_seg: segname)

record modrm =
  mr_byte :: u32
  mr_mod :: nat
  mr_reg :: nat
  mr_rm :: rm

definition applySeg :: "u32 \<Rightarrow> segname \<Rightarrow> 'k cpu \<Rightarrow> u32" where
  "applySeg addr sg s = addr + segBase s sg"

definition mem_operand :: "u32 \<Rightarrow> nat \<Rightarrow> nat \<Rightarrow> prefix \<Rightarrow> segname \<Rightarrow> u32 \<Rightarrow> ('k, 'x, modrm) cpuM" where
  "mem_operand byte md rg p dflt addr =
     (let sg = (case seg p of None \<Rightarrow> dflt | Some x \<Rightarrow> x) in
      bnd (getS (applySeg addr sg)) (\<lambda>a.
        ret \<lparr>mr_byte = byte, mr_mod = md, mr_reg = rg, mr_rm = RmMem a addr sg\<rparr>))"

definition decodeModRM16 :: "u32 \<Rightarrow> nat \<Rightarrow> nat \<Rightarrow> nat \<Rightarrow> prefix \<Rightarrow> ('k, 'x, modrm) cpuM" where
  "decodeModRM16 byte md rg rmNo p =
     bnd (getS regs) (\<lambda>r.
       let bx = r REG_EBX AND 0xffff; bp = r REG_EBP AND 0xffff;
           si = r REG_ESI AND 0xffff; di = r REG_EDI AND 0xffff;
           table = [bx + si, bx + di, bp + si, bp + di, si, di, 0, bx];
           dflt = (if rmNo = 2 \<or> rmNo = 3 \<or> rmNo = 6 then SS else DS) in
       bnd (if md = 0 \<and> rmNo = 6 then fetch16 else ret ((table ! rmNo) AND 0xffff)) (\<lambda>a0.
       bnd (if md = 1 then bnd fetch8 (\<lambda>d. ret ((a0 + word_of_int (s8 d)) AND 0xffff))
            else if md = 2 then bnd fetch16 (\<lambda>d. ret ((a0 + word_of_int (s16 d)) AND 0xffff))
            else ret a0) (\<lambda>addr. mem_operand byte md rg p dflt addr)))"

definition decodeSIB :: "nat \<Rightarrow> ('k, 'x, u32 \<times> segname) cpuM" where
  "decodeSIB md =
     bnd fetch8 (\<lambda>sib. bnd (getS regs) (\<lambda>r.
       let scale = push_bit (unat (drop_bit 6 sib)) 1; index = unat (drop_bit 3 sib AND 7);
           base = unat (sib AND 7); a0 = (if index \<noteq> 4 then r index * scale else 0) in
       if base = 5 \<and> md = 0 then bnd fetch32 (\<lambda>d. ret (a0 + d, DS))
       else ret (a0 + r base, if base = REG_EBP \<or> base = REG_ESP then SS else DS)))"

definition decodeModRM :: "prefix \<Rightarrow> ('k, 'x, modrm) cpuM" where
  "decodeModRM p =
     bnd fetch8 (\<lambda>byte.
       let md = unat (drop_bit 6 byte); rg = unat (drop_bit 3 byte AND 7); rmNo = unat (byte AND 7) in
       if md = 3 then ret \<lparr>mr_byte = byte, mr_mod = md, mr_reg = rg, mr_rm = RmReg rmNo\<rparr>
       else if addressSize p = 16 then decodeModRM16 byte md rg rmNo p
       else
       bnd (if rmNo = 4 then decodeSIB md
            else if rmNo = 5 \<and> md = 0 then bnd fetch32 (\<lambda>d. ret (d, DS))
            else bnd (getR rmNo) (\<lambda>a. ret (a, if rmNo = REG_EBP then SS else DS))) (\<lambda>(a0, dflt).
       bnd (if md = 1 then bnd fetch8 (\<lambda>d. ret (a0 + word_of_int (s8 d)))
            else if md = 2 then bnd fetch32 (\<lambda>d. ret (a0 + d))
            else ret a0) (\<lambda>addr. mem_operand byte md rg p dflt addr)))"

section \<open>Operands\<close>

definition getRM :: "nat \<Rightarrow> rm \<Rightarrow> ('k, 'x, u32) cpuM" where
  "getRM width r = (case r of RmReg i \<Rightarrow> getS (getReg width i) | RmMem a _ _ \<Rightarrow> memRead width a)"

definition setRM :: "nat \<Rightarrow> rm \<Rightarrow> u32 \<Rightarrow> ('k, 'x, unit) cpuM" where
  "setRM width r v = (case r of RmReg i \<Rightarrow> setReg width i v | RmMem a _ _ \<Rightarrow> memWrite width a v)"

text \<open>
  \<open>m.rm.addr + i\<close> where the source does not check that the operand is in memory: the address of a
  register operand is \<open>undefined\<close>, which \<open>>>> 0\<close> makes 0 whatever is added.
\<close>

definition rm_at :: "rm \<Rightarrow> nat \<Rightarrow> u32" where
  "rm_at r i = (case r of RmReg _ \<Rightarrow> 0 | RmMem a _ _ \<Rightarrow> a + word_of_nat i)"

definition rm_readBytes :: "rm \<Rightarrow> nat \<Rightarrow> ('k, 'x, u8 list) cpuM" where
  "rm_readBytes r n = memOp (mapMs (map (rm_at r) [0..<n]) read8)"

definition rm_writeBytes :: "rm \<Rightarrow> nat \<Rightarrow> u8 list \<Rightarrow> ('k, 'x, unit) cpuM" where
  "rm_writeBytes r off bs =
     memOp (forM (zip (map (\<lambda>i. rm_at r (off + i)) [0..<length bs]) bs) (\<lambda>(a, b). write8 a (ucast b)))"

definition le_bytes :: "nat \<Rightarrow> 'a :: len word \<Rightarrow> u8 list" where
  "le_bytes n v = map (\<lambda>i. ucast (drop_bit (8 * i) v)) [0..<n]"

definition of_le_bytes :: "u8 list \<Rightarrow> 'a :: len word" where
  "of_le_bytes bs = foldr (\<lambda>b v. ucast b OR push_bit 8 v) bs 0"

definition rm_read :: "nat \<Rightarrow> rm \<Rightarrow> nat \<Rightarrow> ('k, 'x, u32) cpuM" where
  "rm_read n r off =
     bnd (memOp (mapMs (map (\<lambda>i. rm_at r (off + i)) [0..<n]) read8)) (\<lambda>bs. ret (of_le_bytes bs))"

end
