(* ===== verification/Cpu_Alu.thy ===== *)
theory Cpu_Alu
  imports Cpu
begin

text \<open>
  The arithmetic half of \<open>src/cpu.js\<close>: flag setting, addition, subtraction and logic at 8, 16 and 32
  bits, condition codes, shifts and rotates. The flag-setting helpers of the source only touch
  EFLAGS, so each is a function from an EFLAGS value to a result and a new EFLAGS value, and the
  CPU operation runs it on the state.
\<close>

section \<open>Operations on EFLAGS\<close>

definition setZS :: "nat \<Rightarrow> u32 \<Rightarrow> u32 \<Rightarrow> u32" where
  "setZS width result fl =
     (let r = truncate_w result width in
      with_flag FLAG_PF (parity8 r)
        (with_flag FLAG_SF (r AND signBit width \<noteq> 0)
          (with_flag FLAG_ZF (r = 0) fl)))"

definition setAF :: "u32 \<Rightarrow> u32 \<Rightarrow> u32 \<Rightarrow> u32 \<Rightarrow> u32" where
  "setAF a b r fl = with_flag FLAG_AF ((a XOR b XOR r) AND 0x10 \<noteq> 0) fl"

text \<open>
  The source computes the sums as \<open>BigInt\<close> to read off the carry; here the carry comes from the
  unbounded sum of the operands as natural numbers, and the result from the word sum.
\<close>

definition add_fl :: "u32 \<Rightarrow> u32 \<Rightarrow> nat \<Rightarrow> bool \<Rightarrow> u32 \<Rightarrow> u32 \<times> u32" where
  "add_fl a b width carry fl =
     (let A = truncate_w a width; B = truncate_w b width; C = of_bool carry :: nat;
          R = unat A + unat B + C;
          r = truncate_w (word_of_nat R) width;
          fl = setZS width r fl;
          fl = with_flag FLAG_CF (R > unat (maskFor width)) fl;
          fl = with_flag FLAG_OF ((NOT (A XOR B)) AND (A XOR r) AND signBit width \<noteq> 0) fl;
          fl = setAF A (B + word_of_nat C) r fl
      in (truncate_w r width, fl))"

definition sub_fl :: "u32 \<Rightarrow> u32 \<Rightarrow> nat \<Rightarrow> bool \<Rightarrow> u32 \<Rightarrow> u32 \<times> u32" where
  "sub_fl a b width borrow fl =
     (let A = truncate_w a width; B = unat (truncate_w b width) + of_bool borrow :: nat;
          r = truncate_w (word_of_nat (unat A + 2 ^ width - B)) width;
          fl = setZS width r fl;
          fl = with_flag FLAG_CF (unat A < B) fl;
          fl = with_flag FLAG_OF ((A XOR word_of_nat B) AND (A XOR r) AND signBit width \<noteq> 0) fl;
          fl = setAF A (word_of_nat B) r fl
      in (truncate_w r width, fl))"

definition logic_fl :: "u32 \<Rightarrow> nat \<Rightarrow> u32 \<Rightarrow> u32 \<times> u32" where
  "logic_fl result width fl =
     (let r = truncate_w result width;
          fl = setZS width r fl;
          fl = with_flag FLAG_CF False fl;
          fl = with_flag FLAG_OF False fl;
          fl = with_flag FLAG_AF False fl
      in (r, fl))"

text \<open>\<open>None\<close> is the throw for an unknown kind.\<close>

definition alu_fl :: "nat \<Rightarrow> u32 \<Rightarrow> u32 \<Rightarrow> nat \<Rightarrow> u32 \<Rightarrow> (u32 \<times> u32) option" where
  "alu_fl kind a b width fl =
     (if kind = 0 then Some (add_fl a b width False fl)
      else if kind = 1 then Some (logic_fl (a OR b) width fl)
      else if kind = 2 then Some (add_fl a b width (flag FLAG_CF fl) fl)
      else if kind = 3 then Some (sub_fl a b width (flag FLAG_CF fl) fl)
      else if kind = 4 then Some (logic_fl (a AND b) width fl)
      else if kind = 5 then Some (sub_fl a b width False fl)
      else if kind = 6 then Some (logic_fl (a XOR b) width fl)
      else if kind = 7 then Some (sub_fl a b width False fl)
      else None)"

definition cond_fl :: "u32 \<Rightarrow> u32 \<Rightarrow> bool" where
  "cond_fl code fl =
     (let c = unat (code AND 0xf); CF = flag FLAG_CF fl; ZF = flag FLAG_ZF fl; SF = flag FLAG_SF fl;
          OF = flag FLAG_OF fl; PF = flag FLAG_PF fl
      in if c = 0x0 then OF else if c = 0x1 then \<not> OF
         else if c = 0x2 then CF else if c = 0x3 then \<not> CF
         else if c = 0x4 then ZF else if c = 0x5 then \<not> ZF
         else if c = 0x6 then CF \<or> ZF else if c = 0x7 then \<not> CF \<and> \<not> ZF
         else if c = 0x8 then SF else if c = 0x9 then \<not> SF
         else if c = 0xa then PF else if c = 0xb then \<not> PF
         else if c = 0xc then SF \<noteq> OF else if c = 0xd then SF = OF
         else if c = 0xe then ZF \<or> SF \<noteq> OF else \<not> ZF \<and> SF = OF)"

section \<open>Shifts and rotates\<close>

text \<open>JavaScript shifts use the count modulo 32.\<close>

definition jshl :: "u32 \<Rightarrow> nat \<Rightarrow> u32" where
  "jshl v n = push_bit (n mod 32) v"

definition jshr :: "u32 \<Rightarrow> nat \<Rightarrow> u32" where
  "jshr v n = drop_bit (n mod 32) v"

definition jsar :: "int \<Rightarrow> nat \<Rightarrow> u32" where
  "jsar v n = word_of_int (drop_bit (n mod 32) v)"

definition shl_fl :: "nat \<Rightarrow> u32 \<Rightarrow> nat \<Rightarrow> u32 \<Rightarrow> u32 \<times> u32" where
  "shl_fl width value count fl =
     (let sign = signBit width;
          result = truncate_w (jshl value count) width;
          fl = with_flag FLAG_CF (jshl value (count - 1) AND sign \<noteq> 0) fl;
          fl = (if count = 1 then with_flag FLAG_OF ((result AND sign \<noteq> 0) \<noteq> flag FLAG_CF fl) fl else fl);
          fl = setZS width result fl
      in (result, fl))"

definition shr_fl :: "nat \<Rightarrow> u32 \<Rightarrow> nat \<Rightarrow> u32 \<Rightarrow> u32 \<times> u32" where
  "shr_fl width value count fl =
     (let result = truncate_w (jshr value count) width;
          fl = with_flag FLAG_CF (jshr value (count - 1) AND 1 \<noteq> 0) fl;
          fl = (if count = 1 then with_flag FLAG_OF (value AND signBit width \<noteq> 0) fl else fl);
          fl = setZS width result fl
      in (result, fl))"

text \<open>The cases of \<open>shiftRotate\<close>: the ModRM grp number is at most 7, so the throw is not reached.\<close>

definition shiftRotate_fl :: "nat \<Rightarrow> nat \<Rightarrow> u32 \<Rightarrow> u32 \<Rightarrow> u32 \<Rightarrow> (u32 \<times> u32) option" where
  "shiftRotate_fl width grp value count fl =
     (let count = unat (count AND 0x1f); value = truncate_w value width; sign = signBit width;
          fin = (\<lambda>(result, fl). Some (truncate_w (result AND maskFor width) width, fl)) in
      if count = 0 then Some (value, fl)
      else if grp = 0 then
        (let count = count mod width;
             result = truncate_w (jshl value count OR jshr value (width - count)) width;
             fl = with_flag FLAG_CF (result AND 1 \<noteq> 0) fl;
             fl = (if count = 1 then with_flag FLAG_OF ((result AND sign \<noteq> 0) \<noteq> flag FLAG_CF fl) fl else fl)
         in fin (result, fl))
      else if grp = 1 then
        (let count = count mod width;
             result = truncate_w (jshr value count OR jshl value (width - count)) width;
             fl = with_flag FLAG_CF (result AND sign \<noteq> 0) fl;
             fl = (if count = 1
                   then with_flag FLAG_OF ((result AND sign \<noteq> 0) \<noteq> (result AND drop_bit 1 sign \<noteq> 0)) fl else fl)
         in fin (result, fl))
      else if grp = 2 \<or> grp = 4 \<or> grp = 6 then fin (shl_fl width value count fl)
      else if grp = 3 \<or> grp = 5 then fin (shr_fl width value count fl)
      else if grp = 7 then
        (let signed = signExtend value width;
             result = truncate_w (jsar signed count) width;
             fl = with_flag FLAG_CF (jshr value (count - 1) AND 1 \<noteq> 0) fl;
             fl = (if count = 1 then with_flag FLAG_OF False fl else fl);
             fl = setZS width result fl
         in fin (result, fl))
      else None)"

section \<open>On the CPU state\<close>

definition onFlags :: "(u32 \<Rightarrow> u32 \<times> u32) \<Rightarrow> ('k, 'x, u32) cpuM" where
  "onFlags f = (\<lambda>s. case f (eflags s) of (r, fl) \<Rightarrow> (Inr r, s\<lparr>eflags := fl\<rparr>))"

definition setZS_op :: "nat \<Rightarrow> u32 \<Rightarrow> ('k, 'x, unit) cpuM" where
  "setZS_op width r = modS (\<lambda>s. s\<lparr>eflags := setZS width r (eflags s)\<rparr>)"

definition add_op :: "u32 \<Rightarrow> u32 \<Rightarrow> nat \<Rightarrow> ('k, 'x, u32) cpuM" where
  "add_op a b width = onFlags (add_fl a b width False)"

definition sub_op :: "u32 \<Rightarrow> u32 \<Rightarrow> nat \<Rightarrow> ('k, 'x, u32) cpuM" where
  "sub_op a b width = onFlags (sub_fl a b width False)"

definition logic_op :: "u32 \<Rightarrow> nat \<Rightarrow> ('k, 'x, unit) cpuM" where
  "logic_op result width = bnd (onFlags (logic_fl result width)) (\<lambda>_. ret ())"

text \<open>Decimal text of a number, as in a template literal.\<close>

fun to_dec :: "nat \<Rightarrow> string" where
  "to_dec n = (if n < 10 then [''0123456789'' ! n] else to_dec (n div 10) @ [''0123456789'' ! (n mod 10)])"

declare to_dec.simps [simp del]

definition alu :: "nat \<Rightarrow> u32 \<Rightarrow> u32 \<Rightarrow> nat \<Rightarrow> ('k, 'x, u32) cpuM" where
  "alu kind a b width = (\<lambda>s. case alu_fl kind a b width (eflags s) of
     None \<Rightarrow> (Inl (CPUError (''bad alu kind '' @ to_dec kind)), s)
   | Some (r, fl) \<Rightarrow> (Inr r, s\<lparr>eflags := fl\<rparr>))"

definition cond :: "u32 \<Rightarrow> ('k, 'x, bool) cpuM" where
  "cond code = getS (\<lambda>s. cond_fl code (eflags s))"

definition executeGroup1 :: "nat \<Rightarrow> nat \<Rightarrow> u32 \<Rightarrow> u32 \<Rightarrow> (u32 \<Rightarrow> ('k, 'x, unit) cpuM) \<Rightarrow> ('k, 'x, unit) cpuM" where
  "executeGroup1 width grp dst imm store =
     bnd (alu grp dst imm width) (\<lambda>r. whenM (grp \<noteq> 7) (store r))"

definition shiftRotate :: "nat \<Rightarrow> nat \<Rightarrow> u32 \<Rightarrow> u32 \<Rightarrow> ('k, 'x, u32) cpuM" where
  "shiftRotate width grp value count = (\<lambda>s. case shiftRotate_fl width grp value count (eflags s) of
     None \<Rightarrow> (Inl (CPUError (''bad shift group '' @ to_dec grp)), s)
   | Some (r, fl) \<Rightarrow> (Inr r, s\<lparr>eflags := fl\<rparr>))"

end
