(* ===== verification/Cpu_Exec.thy ===== *)
theory Cpu_Exec
  imports Cpu_Alu
begin

text \<open>
  The execution half of \<open>src/cpu.js\<close>: string instructions, the x87 subset, the two-byte opcodes and
  \<open>step\<close>. What the interpreter takes from its surroundings is collected in a record: the syscall
  layer (\<open>None\<close> when the CPU was built without one), the host clock, and the host's double-precision
  arithmetic, which works on the bit patterns of doubles.
\<close>

record fpu_ops =
  f_of_f32 :: "u32 \<Rightarrow> f64"
  f_to_f32 :: "f64 \<Rightarrow> u32"
  f_of_int :: "int \<Rightarrow> f64"
  f_trunc :: "f64 \<Rightarrow> int option"
  f_add :: "f64 \<Rightarrow> f64 \<Rightarrow> f64"
  f_sub :: "f64 \<Rightarrow> f64 \<Rightarrow> f64"
  f_mul :: "f64 \<Rightarrow> f64 \<Rightarrow> f64"
  f_div :: "f64 \<Rightarrow> f64 \<Rightarrow> f64"
  f_max :: "f64 \<Rightarrow> f64 \<Rightarrow> f64"
  f_sqrt :: "f64 \<Rightarrow> f64"
  f_lt :: "f64 \<Rightarrow> f64 \<Rightarrow> bool"
  f_eq :: "f64 \<Rightarrow> f64 \<Rightarrow> bool"
  f_isNaN :: "f64 \<Rightarrow> bool"
  f_NaN :: f64
  f_PI :: f64
  f_log10_2 :: f64

record ('k, 'x) env =
  fops :: fpu_ops
  syscalls :: "('k, 'x, unit) cpuM option"
  now :: int

section \<open>String instructions\<close>

definition dataSeg :: "prefix \<Rightarrow> segname" where
  "dataSeg p = (case seg p of None \<Rightarrow> DS | Some sg \<Rightarrow> sg)"

definition srcRead :: "nat \<Rightarrow> prefix \<Rightarrow> ('k, 'x, u32) cpuM" where
  "srcRead width p = bnd (getS (\<lambda>s. applySeg (regs s REG_ESI) (dataSeg p) s)) (memRead width)"

definition dstRead :: "nat \<Rightarrow> ('k, 'x, u32) cpuM" where
  "dstRead width = bnd (getS (\<lambda>s. applySeg (regs s REG_EDI) ES s)) (memRead width)"

definition dstWrite :: "nat \<Rightarrow> u32 \<Rightarrow> ('k, 'x, unit) cpuM" where
  "dstWrite width v = bnd (getS (\<lambda>s. applySeg (regs s REG_EDI) ES s)) (\<lambda>a. memWrite width a v)"

definition advance :: "nat \<Rightarrow> u32 \<Rightarrow> ('k, 'x, unit) cpuM" where
  "advance r d = bnd (getR r) (\<lambda>v. setR r (v + d))"

text \<open>The early exit of the compare instructions, tested after every element.\<close>

definition repStop :: "prefix \<Rightarrow> ('k, 'x, bool) cpuM" where
  "repStop p = getS (\<lambda>s. (rep p = Rep \<and> \<not> getFlag FLAG_ZF s) \<or> (rep p = RepNE \<and> getFlag FLAG_ZF s))"

definition string_iter :: "u32 \<Rightarrow> nat \<Rightarrow> prefix \<Rightarrow> u32 \<Rightarrow> ('k, 'x, bool) cpuM" where
  "string_iter op width p direction =
     (if op = 0xa4 \<or> op = 0xa5 then
        bnd (srcRead width p) (\<lambda>v. thn (dstWrite width v)
          (thn (advance REG_ESI direction) (thn (advance REG_EDI direction) (ret False))))
      else if op = 0xa6 \<or> op = 0xa7 then
        bnd (srcRead width p) (\<lambda>a. bnd (dstRead width) (\<lambda>b. bnd (sub_op a b width) (\<lambda>_.
          thn (advance REG_ESI direction) (thn (advance REG_EDI direction) (repStop p)))))
      else if op = 0xaa \<or> op = 0xab then
        bnd (getS (getReg width REG_EAX)) (\<lambda>v. thn (dstWrite width v)
          (thn (advance REG_EDI direction) (ret False)))
      else if op = 0xac \<or> op = 0xad then
        bnd (srcRead width p) (\<lambda>v. thn (setReg width REG_EAX v)
          (thn (advance REG_ESI direction) (ret False)))
      else if op = 0xae \<or> op = 0xaf then
        bnd (dstRead width) (\<lambda>v. bnd (getS (getReg width REG_EAX)) (\<lambda>a. bnd (sub_op a v width) (\<lambda>_.
          thn (advance REG_EDI direction) (repStop p))))
      else ret False)"

text \<open>\<open>n\<close> is the number of rounds left, \<open>total - done\<close> in the source's variables.\<close>

fun string_loop :: "('k, 'x, bool) cpuM \<Rightarrow> nat \<Rightarrow> nat \<Rightarrow> nat \<Rightarrow> ('k, 'x, bool) cpuM" where
  "string_loop body repeat iterations 0 = ret False"
| "string_loop body repeat iterations (Suc n) =
     bnd body (\<lambda>stop.
       if stop then thn (setR REG_ECX (word_of_nat (repeat - (iterations + 1)))) (ret True)
       else string_loop body repeat (iterations + 1) n)"

definition handleStringOp :: "u32 \<Rightarrow> prefix \<Rightarrow> ('k, 'x, unit) cpuM" where
  "handleStringOp op p =
     (let width = (if op \<in> {0xa4, 0xa6, 0xaa, 0xac, 0xae} then 8 else operandSize p);
          size = word_of_nat (width div 8) in
      bnd (getS (getFlag FLAG_DF)) (\<lambda>df. bnd (getR REG_ECX) (\<lambda>cx.
        let direction = (if df then - size else size);
            repeat = (if rep p \<noteq> NoRep then unat cx else 1) in
        bnd (string_loop (string_iter op width p direction) repeat 0 repeat) (\<lambda>stopped.
          whenM (\<not> stopped \<and> rep p \<noteq> NoRep) (setR REG_ECX 0)))))"

section \<open>x87\<close>

definition setStack :: "(f64 option list \<Rightarrow> f64 option list) \<Rightarrow> ('k, 'x, unit) cpuM" where
  "setStack f = modS (\<lambda>s. s\<lparr>fpu_stack := f (fpu_stack s)\<rparr>)"

definition fpuPush :: "f64 \<Rightarrow> ('k, 'x, unit) cpuM" where
  "fpuPush v = setStack (\<lambda>st. take 8 (Some v # st))"

text \<open>Popping a hole gives \<open>undefined\<close>, which every use turns into NaN.\<close>

definition fpuPop :: "fpu_ops \<Rightarrow> ('k, 'x, f64) cpuM" where
  "fpuPop fo = bnd (getS fpu_stack) (\<lambda>st.
     case st of [] \<Rightarrow> ret 0
     | x # st' \<Rightarrow> thn (setStack (\<lambda>_. st')) (ret (case x of None \<Rightarrow> f_NaN fo | Some v \<Rightarrow> v)))"

definition peek_at :: "nat \<Rightarrow> f64 option list \<Rightarrow> f64" where
  "peek_at i st = (if i < length st then case st ! i of None \<Rightarrow> 0 | Some v \<Rightarrow> v else 0)"

definition fpuPeek :: "nat \<Rightarrow> ('k, 'x, f64) cpuM" where
  "fpuPeek i = getS (\<lambda>s. peek_at i (fpu_stack s))"

definition array_set :: "nat \<Rightarrow> 'a \<Rightarrow> 'a option list \<Rightarrow> 'a option list" where
  "array_set i v st =
     (if i < length st then st[i := Some v] else st @ replicate (i - length st) None @ [Some v])"

definition fpuCompare :: "fpu_ops \<Rightarrow> f64 \<Rightarrow> f64 \<Rightarrow> ('k, 'x, unit) cpuM" where
  "fpuCompare fo a b = modS (\<lambda>s.
     let c = push_bit 8 1 OR push_bit 10 1 OR push_bit 14 1; st = fpu_status s AND NOT c in
     s\<lparr>fpu_status :=
       (if f_isNaN fo a \<or> f_isNaN fo b then st OR c
        else if f_lt fo a b then st OR push_bit 8 1
        else if f_eq fo a b then st OR push_bit 14 1 else st)\<rparr>)"

definition x87_error :: "u32 \<Rightarrow> nat \<Rightarrow> u32 \<Rightarrow> ('k, 'x, 'a) cpuM" where
  "x87_error op r at =
     throw (CPUError (''Unsupported x87 '' @ to_hex (unat op) @ '' /'' @ to_dec r @ '' at '' @ hex32 at))"

definition fpu_d9_reg :: "fpu_ops \<Rightarrow> u32 \<Rightarrow> ('k, 'x, unit) cpuM" where
  "fpu_d9_reg fo b =
     (let i = unat (b AND 7) in
      if b \<le> 0xc7 then bnd (fpuPeek i) fpuPush
      else if b \<le> 0xcf then
        setStack (\<lambda>st. let t = peek_at 0 st; st = array_set 0 (peek_at i st) st in array_set i t st)
      else if b = 0xe8 then fpuPush (f_of_int fo 1)
      else if b = 0xee then fpuPush (f_of_int fo 0)
      else if b = 0xf0 then fpuPush (f_mul fo (f_PI fo) (f_log10_2 fo))
      else if b = 0xf1 then fpuPush (f_PI fo)
      else if b = 0xf5 then fpuPush (f_log10_2 fo)
      else if b = 0xf8 then
        setStack (\<lambda>st. array_set 0 (f_sqrt fo (f_max fo (f_of_int fo 0) (peek_at 0 st))) st)
      else ret ())"

definition getFloat32 :: "fpu_ops \<Rightarrow> rm \<Rightarrow> ('k, 'x, f64) cpuM" where
  "getFloat32 fo r = bnd (rm_readBytes r 4) (\<lambda>bs. ret (f_of_f32 fo (of_le_bytes bs)))"

definition getFloat64 :: "rm \<Rightarrow> ('k, 'x, f64) cpuM" where
  "getFloat64 r = bnd (rm_readBytes r 8) (\<lambda>bs. ret (of_le_bytes bs))"

definition fpu_d9 :: "fpu_ops \<Rightarrow> nat \<Rightarrow> rm \<Rightarrow> ('k, 'x, unit) cpuM \<Rightarrow> ('k, 'x, unit) cpuM" where
  "fpu_d9 fo rg r bad =
     (if rg = 0 then bnd (getFloat32 fo r) fpuPush
      else if rg = 3 then bnd (fpuPop fo) (\<lambda>v. rm_writeBytes r 0 (le_bytes 4 (f_to_f32 fo v)))
      else if rg = 5 then bnd (rm_read 2 r 0) (\<lambda>v. modS (\<lambda>s. s\<lparr>fpu_control := v\<rparr>))
      else if rg = 7 then bnd (getS fpu_control) (\<lambda>v. rm_writeBytes r 0 (le_bytes 2 v))
      else bad)"

definition fpu_db :: "fpu_ops \<Rightarrow> nat \<Rightarrow> rm \<Rightarrow> ('k, 'x, unit) cpuM \<Rightarrow> ('k, 'x, unit) cpuM" where
  "fpu_db fo rg r bad =
     (if rg = 0 then bnd (rm_read 4 r 0) (\<lambda>v. fpuPush (f_of_int fo (sint v)))
      else if rg = 3 then bnd (fpuPop fo) (\<lambda>v.
        rm_writeBytes r 0 (le_bytes 4 (case f_trunc fo v of None \<Rightarrow> (0 :: u32) | Some i \<Rightarrow> word_of_int i)))
      else bad)"

definition fpu_dd :: "fpu_ops \<Rightarrow> nat \<Rightarrow> rm \<Rightarrow> ('k, 'x, unit) cpuM \<Rightarrow> ('k, 'x, unit) cpuM" where
  "fpu_dd fo rg r bad =
     (if rg = 0 then bnd (getFloat64 r) fpuPush
      else if rg = 3 then bnd (fpuPop fo) (\<lambda>v. rm_writeBytes r 0 (le_bytes 8 v))
      else if rg = 7 then bnd (getS fpu_status) (\<lambda>v. rm_writeBytes r 0 (le_bytes 2 v))
      else bad)"

definition fpu_df :: "fpu_ops \<Rightarrow> nat \<Rightarrow> rm \<Rightarrow> ('k, 'x, unit) cpuM \<Rightarrow> ('k, 'x, unit) cpuM" where
  "fpu_df fo rg r bad =
     (if rg = 5 then bnd (rm_read 4 r 0) (\<lambda>lo. bnd (rm_read 4 r 4) (\<lambda>hi.
        fpuPush (f_of_int fo (makeBigInt64 lo hi))))
      else if rg = 7 then bnd (fpuPop fo) (\<lambda>v. case f_trunc fo v of
          None \<Rightarrow> throw RangeError
        | Some i \<Rightarrow> thn (rm_writeBytes r 0 (le_bytes 4 (lo32FromBigInt i)))
                        (rm_writeBytes r 4 (le_bytes 4 (hi32FromBigInt i))))
      else bad)"

definition fpu_arith :: "fpu_ops \<Rightarrow> nat \<Rightarrow> f64 \<Rightarrow> ('k, 'x, unit) cpuM" where
  "fpu_arith fo rg rhs =
     (let upd = (\<lambda>f. setStack (\<lambda>st. array_set 0 (f (peek_at 0 st)) st)) in
      if rg = 0 then upd (\<lambda>x. f_add fo x rhs)
      else if rg = 1 then upd (\<lambda>x. f_mul fo x rhs)
      else if rg = 2 then bnd (fpuPeek 0) (\<lambda>x. fpuCompare fo x rhs)
      else if rg = 3 then bnd (fpuPeek 0) (\<lambda>x. thn (fpuCompare fo x rhs) (bnd (fpuPop fo) (\<lambda>_. ret ())))
      else if rg = 4 then upd (\<lambda>x. f_sub fo x rhs)
      else if rg = 5 then upd (\<lambda>x. f_sub fo rhs x)
      else if rg = 6 then upd (\<lambda>x. f_div fo x rhs)
      else upd (\<lambda>x. f_div fo rhs x))"

definition handleFPU :: "fpu_ops \<Rightarrow> u32 \<Rightarrow> u32 \<Rightarrow> prefix \<Rightarrow> ('k, 'x, unit) cpuM" where
  "handleFPU fo op at p =
     bnd (getS eip) (\<lambda>ip. bnd (memOp (read8exec ip)) (\<lambda>b8.
       let b = ucast b8 :: u32 in
       if op = 0xd9 \<and> b \<ge> 0xc0 then thn (setEip (ip + 1)) (fpu_d9_reg fo b)
       else if op = 0xdf \<and> b = 0xe0 then
         thn (setEip (ip + 1)) (bnd (getS fpu_status) (setReg 16 REG_EAX))
       else bnd (decodeModRM p) (\<lambda>m.
         let rg = mr_reg m; r = mr_rm m; bad = x87_error op rg at in
         if op = 0xd9 then fpu_d9 fo rg r bad
         else if op = 0xdb then fpu_db fo rg r bad
         else if op = 0xdd then fpu_dd fo rg r bad
         else if op = 0xdf then fpu_df fo rg r bad
         else if op = 0xd8 then bnd (getFloat32 fo r) (fpu_arith fo rg)
         else if op = 0xdc then bnd (getFloat64 r) (fpu_arith fo rg)
         else bad)))"

end
