(* ===== verification/Cpu_Step.thy ===== *)
theory Cpu_Step
  imports Cpu_Exec
begin

text \<open>
  The two-byte opcodes (\<open>handle0F\<close>) and the main dispatch (\<open>step\<close>, \<open>run\<close>) of \<open>src/cpu.js\<close>. Each
  group of cases of the source's switch is one definition; the dispatch composes them in the order
  of the source.
\<close>

definition withM :: "prefix \<Rightarrow> (nat \<Rightarrow> rm \<Rightarrow> ('k, 'x, 'a) cpuM) \<Rightarrow> ('k, 'x, 'a) cpuM" where
  "withM p f = bnd (decodeModRM p) (\<lambda>m. f (mr_reg m) (mr_rm m))"

definition jumpRel :: "int \<Rightarrow> ('k, 'x, unit) cpuM" where
  "jumpRel rel = bnd (getS eip) (\<lambda>a. setEip (a + word_of_int rel))"

definition enterKernel :: "('k, 'x) env \<Rightarrow> string \<Rightarrow> ('k, 'x, unit) cpuM" where
  "enterKernel ev what =
     (case syscalls ev of
        None \<Rightarrow> throw (CPUError (what @ '' with no syscall layer''))
      | Some h \<Rightarrow> h)"

section \<open>Two-byte opcodes\<close>

definition bswap :: "u32 \<Rightarrow> u32" where
  "bswap v = push_bit 24 (v AND 0xff) OR push_bit 8 (v AND 0xff00) OR
             (drop_bit 8 v AND 0xff00) OR (drop_bit 24 v AND 0xff)"

definition setXmm :: "nat \<Rightarrow> u8 list \<Rightarrow> ('k, 'x, unit) cpuM" where
  "setXmm r bs = modS (\<lambda>s. s\<lparr>xmm := (xmm s)(r := bs @ drop (length bs) (xmm s r))\<rparr>)"

definition readXmmOperand :: "rm \<Rightarrow> nat \<Rightarrow> ('k, 'x, u8 list) cpuM" where
  "readXmmOperand r n =
     (case r of RmReg i \<Rightarrow> getS (\<lambda>s. take n (xmm s i)) | RmMem a _ _ \<Rightarrow> memOp (readBytes a n))"

definition writeXmmOperand :: "rm \<Rightarrow> nat \<Rightarrow> u8 list \<Rightarrow> ('k, 'x, unit) cpuM" where
  "writeXmmOperand r n bs =
     (case r of RmReg i \<Rightarrow> setXmm i (take n bs) | RmMem a _ _ \<Rightarrow> memOp (writeBytes a (take n bs)))"

definition op0f_movups :: "u32 \<Rightarrow> prefix \<Rightarrow> ('k, 'x, unit) cpuM" where
  "op0f_movups op2 p =
     (let n = (case rep p of Rep \<Rightarrow> 4 | RepNE \<Rightarrow> 8 | NoRep \<Rightarrow> 16) in
      withM p (\<lambda>rg r. if op2 = 0x10 \<or> op2 = 0x28 then bnd (readXmmOperand r n) (setXmm rg)
        else bnd (getS (\<lambda>s. xmm s rg)) (writeXmmOperand r n)))"

definition op0f_ucomis :: "fpu_ops \<Rightarrow> prefix \<Rightarrow> ('k, 'x, unit) cpuM" where
  "op0f_ucomis fo p =
     (let n = (if rep p = RepNE then 8 else 4);
          num = (\<lambda>bs. if n = 8 then of_le_bytes bs else f_of_f32 fo (of_le_bytes bs)) in
      withM p (\<lambda>rg r. bnd (getS (\<lambda>s. num (take n (xmm s rg)))) (\<lambda>a.
        bnd (readXmmOperand r n) (\<lambda>bs. let b = num bs; un = f_isNaN fo a \<or> f_isNaN fo b in
          thn (setFlag FLAG_ZF (un \<or> f_eq fo a b)) (thn (setFlag FLAG_PF un)
          (thn (setFlag FLAG_CF (un \<or> f_lt fo a b)) (thn (setFlag FLAG_OF False)
          (thn (setFlag FLAG_SF False) (setFlag FLAG_AF False)))))))))"

definition op0f_xorps :: "prefix \<Rightarrow> ('k, 'x, unit) cpuM" where
  "op0f_xorps p = withM p (\<lambda>rg r. bnd (readXmmOperand r 16) (\<lambda>src.
     bnd (getS (\<lambda>s. xmm s rg)) (\<lambda>d. setXmm rg (map2 (XOR) d src))))"

definition op0f_movd_to :: "prefix \<Rightarrow> ('k, 'x, unit) cpuM" where
  "op0f_movd_to p = withM p (\<lambda>rg r. thn (setXmm rg (replicate 16 0))
     (bnd (getRM 32 r) (\<lambda>v. setXmm rg (le_bytes 4 v))))"

definition op0f_movd_from :: "prefix \<Rightarrow> ('k, 'x, unit) cpuM" where
  "op0f_movd_from p = withM p (\<lambda>rg r.
     bnd (getS (\<lambda>s. of_le_bytes (take 4 (xmm s rg)))) (setRM 32 r))"

definition op0f_movdq :: "u32 \<Rightarrow> prefix \<Rightarrow> ('k, 'x, unit) cpuM" where
  "op0f_movdq op2 p = withM p (\<lambda>rg r.
     if op2 = 0x6f then bnd (readXmmOperand r 16) (setXmm rg)
     else bnd (getS (\<lambda>s. xmm s rg)) (writeXmmOperand r 16))"

definition op0f_fxsave_group :: "prefix \<Rightarrow> ('k, 'x, unit) cpuM" where
  "op0f_fxsave_group p = withM p (\<lambda>rg r.
     let isMem = (case r of RmReg _ \<Rightarrow> False | RmMem _ _ _ \<Rightarrow> True) in
     if rg = 0 then whenM isMem
       (thn (rm_writeBytes r 0 (replicate 512 0))
         (bnd (getS fpu_control) (\<lambda>c. thn (rm_writeBytes r 0 (le_bytes 2 c))
           (bnd (getS mxcsr) (\<lambda>x. rm_writeBytes r 24 (le_bytes 4 x))))))
     else if rg = 1 then whenM isMem
       (bnd (rm_read 2 r 0) (\<lambda>c. thn (modS (\<lambda>s. s\<lparr>fpu_control := c\<rparr>))
         (bnd (rm_read 4 r 24) (\<lambda>x. modS (\<lambda>s. s\<lparr>mxcsr := x\<rparr>)))))
     else if rg = 2 then bnd (rm_read 4 r 0) (\<lambda>x. modS (\<lambda>s. s\<lparr>mxcsr := x\<rparr>))
     else if rg = 3 then bnd (getS mxcsr) (\<lambda>x. rm_writeBytes r 0 (le_bytes 4 x))
     else ret ())"

text \<open>Double shifts. The count is not reduced, and \<open>width - count\<close> may be negative.\<close>

definition shcount :: "nat \<Rightarrow> u32 \<Rightarrow> nat" where
  "shcount width count = nat ((int width - uint count) mod 32)"

definition op0f_shxd :: "bool \<Rightarrow> bool \<Rightarrow> prefix \<Rightarrow> ('k, 'x, unit) cpuM" where
  "op0f_shxd left byImm p =
     (let width = operandSize p in
      withM p (\<lambda>rg r.
        bnd (if byImm then fetch8 else getS (\<lambda>s. getReg 8 REG_ECX s AND 0x1f)) (\<lambda>count.
        whenM (count \<noteq> 0)
          (bnd (getRM width r) (\<lambda>dst. bnd (getS (getReg width rg)) (\<lambda>src.
            let v = truncate_w (if left then jshl dst (unat count) OR jshr src (shcount width count)
                              else jshr dst (unat count) OR jshl src (shcount width count)) width
            in thn (setRM width r v) (setZS_op width v)))))))"

definition cmpxchg :: "nat \<Rightarrow> prefix \<Rightarrow> ('k, 'x, unit) cpuM" where
  "cmpxchg width p = withM p (\<lambda>rg r.
     bnd (getRM width r) (\<lambda>dst. bnd (getS (getReg width REG_EAX)) (\<lambda>acc.
     bnd (sub_op acc dst width) (\<lambda>_.
       if acc = dst then bnd (getS (getReg width rg)) (setRM width r)
       else setReg width REG_EAX dst))))"

definition cmpxchg8b :: "prefix \<Rightarrow> ('k, 'x, unit) cpuM" where
  "cmpxchg8b p = withM p (\<lambda>rg r.
     if rg \<noteq> 1 then throw (CPUError (''Unsupported 0F C7 /'' @ to_dec rg))
     else bnd (getRM 32 r) (\<lambda>lo.
       bnd (case r of RmReg _ \<Rightarrow> ret 0 | RmMem a _ _ \<Rightarrow> memOp (read32 (a + 4))) (\<lambda>hi.
       bnd (getS regs) (\<lambda>rs. let eqs = (lo = rs REG_EAX \<and> hi = rs REG_EDX) in
         thn (setFlag FLAG_ZF eqs)
         (case (eqs, r) of
            (True, RmMem a _ _) \<Rightarrow>
              thn (memOp (write32 a (rs REG_EBX))) (memOp (write32 (a + 4) (rs REG_ECX)))
          | _ \<Rightarrow> thn (setR REG_EAX lo) (setR REG_EDX hi))))))"

text \<open>\<open>bt\<close>, \<open>bts\<close>, \<open>btr\<close>, \<open>btc\<close>: the carry is the addressed bit, then the bit is changed.\<close>

datatype bit_change = BitKeep | BitSet | BitReset | BitFlip

definition bit_op :: "bit_change \<Rightarrow> u32 \<Rightarrow> nat \<Rightarrow> u32" where
  "bit_op c base n =
     (case c of BitKeep \<Rightarrow> base | BitSet \<Rightarrow> base OR push_bit n 1
      | BitReset \<Rightarrow> base AND NOT (push_bit n 1) | BitFlip \<Rightarrow> base XOR push_bit n 1)"

definition bitTest :: "bit_change \<Rightarrow> nat \<Rightarrow> rm \<Rightarrow> u32 \<Rightarrow> ('k, 'x, unit) cpuM" where
  "bitTest c width r sel =
     (let n = unat (sel AND 31) in
      bnd (getRM width r) (\<lambda>base.
        thn (setFlag FLAG_CF (drop_bit n base AND 1 \<noteq> 0))
          (whenM (c \<noteq> BitKeep) (setRM width r (bit_op c base n)))))"

definition op0f_bt :: "bit_change \<Rightarrow> prefix \<Rightarrow> ('k, 'x, unit) cpuM" where
  "op0f_bt c p = withM p (\<lambda>rg r.
     bnd (getS (getReg (operandSize p) rg)) (\<lambda>sel. bitTest c (operandSize p) r sel))"

text \<open>The immediate group reads the operand and sets the carry before it rejects a bad group.\<close>

definition op0f_bt_imm :: "u32 \<Rightarrow> prefix \<Rightarrow> ('k, 'x, unit) cpuM" where
  "op0f_bt_imm at p = withM p (\<lambda>rg r. bnd fetch8 (\<lambda>sel.
     if rg = 4 then bitTest BitKeep (operandSize p) r sel
     else if rg = 5 then bitTest BitSet (operandSize p) r sel
     else if rg = 6 then bitTest BitReset (operandSize p) r sel
     else if rg = 7 then bitTest BitFlip (operandSize p) r sel
     else thn (bitTest BitKeep (operandSize p) r sel)
       (throw (CPUError (''Unsupported 0F BA /'' @ to_dec rg @ '' at '' @ hex32 at)))))"

definition op0f_cpuid :: "('k, 'x, unit) cpuM" where
  "op0f_cpuid = bnd (getR REG_EAX) (\<lambda>leaf.
     let set4 = (\<lambda>a b c d. thn (setR REG_EAX a) (thn (setR REG_EBX b) (thn (setR REG_ECX c) (setR REG_EDX d)))) in
     if leaf = 0 then set4 1 0x756e6547 0x6c65746e 0x49656e69
     else if leaf = 1 then
       set4 0x663 0 0 (push_bit 0 1 OR push_bit 4 1 OR push_bit 8 1 OR push_bit 15 1 OR
                       push_bit 23 1 OR push_bit 24 1 OR push_bit 25 1 OR push_bit 26 1)
     else set4 0 0 0 0)"

definition imul_store :: "nat \<Rightarrow> nat \<Rightarrow> int \<Rightarrow> ('k, 'x, unit) cpuM" where
  "imul_store width rg full =
     (let overflow = signed_take_bit (width - 1) full \<noteq> full in
      thn (setReg width rg (word_of_int (take_bit width full)))
        (thn (setFlag FLAG_CF overflow) (setFlag FLAG_OF overflow)))"

definition op0f_imul :: "prefix \<Rightarrow> ('k, 'x, unit) cpuM" where
  "op0f_imul p = (let width = operandSize p in
     withM p (\<lambda>rg r. bnd (getS (\<lambda>s. signExtend (getReg width rg s) width)) (\<lambda>a.
       bnd (getRM width r) (\<lambda>v. imul_store width rg (a * signExtend v width)))))"

definition op0f_movx :: "u32 \<Rightarrow> prefix \<Rightarrow> ('k, 'x, unit) cpuM" where
  "op0f_movx op2 p =
     (let srcWidth = (if op2 = 0xb6 \<or> op2 = 0xbe then 8 else 16); sign = (op2 = 0xbe \<or> op2 = 0xbf) in
      withM p (\<lambda>rg r. bnd (getRM srcWidth r) (\<lambda>v.
        setReg (operandSize p) rg (if sign then word_of_int (signExtend v srcWidth) else v))))"

definition op0f_xadd :: "prefix \<Rightarrow> ('k, 'x, unit) cpuM" where
  "op0f_xadd p = (let width = operandSize p in
     withM p (\<lambda>rg r. bnd (getRM width r) (\<lambda>dst. bnd (getS (getReg width rg)) (\<lambda>src.
       bnd (add_op dst src width) (\<lambda>res. thn (setReg width rg dst) (setRM width r res))))))"

text \<open>The scans run until they meet a set bit; \<open>None\<close> is a scan that leaves the operand.\<close>

fun bsf_loop :: "nat \<Rightarrow> u32 \<Rightarrow> nat \<Rightarrow> nat option" where
  "bsf_loop 0 v idx = None"
| "bsf_loop (Suc n) v idx = (if jshr v idx AND 1 = 0 then bsf_loop n v (idx + 1) else Some idx)"

fun bsr_loop :: "u32 \<Rightarrow> nat \<Rightarrow> nat option" where
  "bsr_loop v 0 = (if jshr v 0 AND 1 = 0 then None else Some 0)"
| "bsr_loop v (Suc idx) = (if jshr v (Suc idx) AND 1 = 0 then bsr_loop v idx else Some (Suc idx))"

definition op0f_bitscan :: "bool \<Rightarrow> prefix \<Rightarrow> ('k, 'x, unit) cpuM" where
  "op0f_bitscan forward p = (let width = operandSize p in
     withM p (\<lambda>rg r. bnd (getRM width r) (\<lambda>v.
       if v = 0 then setFlag FLAG_ZF True
       else thn (setFlag FLAG_ZF False)
         (case (if forward then bsf_loop 32 v 0 else bsr_loop v (width - 1)) of
            None \<Rightarrow> throw (CpuFault Diverges)
          | Some idx \<Rightarrow> setReg width rg (word_of_nat idx)))))"

definition op0f_rdtsc :: "int \<Rightarrow> ('k, 'x, unit) cpuM" where
  "op0f_rdtsc t = (let n = t * 1000000 in
     thn (setR REG_EAX (lo32FromBigInt n)) (setR REG_EDX (hi32FromBigInt n)))"

definition op0f_misc :: "('k, 'x) env \<Rightarrow> u32 \<Rightarrow> u32 \<Rightarrow> prefix \<Rightarrow> ('k, 'x, unit) cpuM" where
  "op0f_misc ev op2 at p =
     (if op2 = 0x05 then enterKernel ev ''syscall''
      else if op2 = 0x10 \<or> op2 = 0x11 \<or> op2 = 0x28 \<or> op2 = 0x29 then op0f_movups op2 p
      else if op2 = 0x2e \<or> op2 = 0x2f then op0f_ucomis (fops ev) p
      else if op2 = 0x57 \<or> op2 = 0xef then op0f_xorps p
      else if op2 = 0x6e then op0f_movd_to p
      else if op2 = 0x7e then op0f_movd_from p
      else if op2 = 0x6f \<or> op2 = 0x7f then op0f_movdq op2 p
      else if op2 = 0xae then op0f_fxsave_group p
      else if op2 = 0xa4 then op0f_shxd True True p
      else if op2 = 0xa5 then op0f_shxd True False p
      else if op2 = 0xac then op0f_shxd False True p
      else if op2 = 0xad then op0f_shxd False False p
      else if op2 = 0xb0 then cmpxchg 8 p
      else if op2 = 0xb3 then op0f_bt BitReset p
      else if op2 = 0xbb then op0f_bt BitFlip p
      else if op2 = 0xc7 then cmpxchg8b p
      else if op2 = 0x1f then withM p (\<lambda>_ _. ret ())
      else if op2 = 0x31 then op0f_rdtsc (now ev)
      else if op2 = 0x34 then enterKernel ev ''sysenter''
      else if op2 = 0xa2 then op0f_cpuid
      else if op2 = 0xaf then op0f_imul p
      else if op2 = 0xb6 \<or> op2 = 0xb7 \<or> op2 = 0xbe \<or> op2 = 0xbf then op0f_movx op2 p
      else if op2 = 0xb1 then cmpxchg (operandSize p) p
      else if op2 = 0xc1 then op0f_xadd p
      else if op2 = 0xbc then op0f_bitscan True p
      else if op2 = 0xbd then op0f_bitscan False p
      else if op2 = 0xa3 then op0f_bt BitKeep p
      else if op2 = 0xab then op0f_bt BitSet p
      else if op2 = 0xba then op0f_bt_imm at p
      else throw (UnsupportedOpcodeError (''0f '' @ padStart 2 (CHR ''0'') (to_hex (unat op2))) at))"

definition handle0F :: "('k, 'x) env \<Rightarrow> u32 \<Rightarrow> u32 \<Rightarrow> prefix \<Rightarrow> ('k, 'x, unit) cpuM" where
  "handle0F ev op2 at p =
     (if 0x80 \<le> op2 \<and> op2 \<le> 0x8f then
        bnd fetch32 (\<lambda>d. bnd (cond (op2 AND 0xf)) (\<lambda>c. whenM c (jumpRel (sign32 d))))
      else if 0x90 \<le> op2 \<and> op2 \<le> 0x9f then
        withM p (\<lambda>rg r. bnd (cond (op2 AND 0xf)) (\<lambda>c. setRM 8 r (if c then 1 else 0)))
      else if 0x40 \<le> op2 \<and> op2 \<le> 0x4f then
        withM p (\<lambda>rg r. bnd (cond (op2 AND 0xf)) (\<lambda>c.
          whenM c (bnd (getRM (operandSize p) r) (setReg (operandSize p) rg))))
      else if 0xc8 \<le> op2 \<and> op2 \<le> 0xcf then
        (let r = unat (op2 - 0xc8) in bnd (getR r) (\<lambda>v. setR r (bswap v)))
      else op0f_misc ev op2 at p)"

section \<open>One-byte opcodes\<close>

definition op_alu :: "u32 \<Rightarrow> prefix \<Rightarrow> ('k, 'x, unit) cpuM" where
  "op_alu op p =
     (let kind = unat (drop_bit 3 op); form = unat (op AND 7); width = operandSize p in
      if form = 0 \<or> form = 1 then
        (let w = (if form = 0 then 8 else width) in
         withM p (\<lambda>rg r. bnd (getRM w r) (\<lambda>a. bnd (getS (getReg w rg)) (\<lambda>b.
           bnd (alu kind a b w) (\<lambda>v. whenM (kind \<noteq> 7) (setRM w r v))))))
      else if form = 2 \<or> form = 3 then
        (let w = (if form = 2 then 8 else width) in
         withM p (\<lambda>rg r. bnd (getS (getReg w rg)) (\<lambda>a. bnd (getRM w r) (\<lambda>b.
           bnd (alu kind a b w) (\<lambda>v. whenM (kind \<noteq> 7) (setReg w rg v))))))
      else
        (let w = (if form = 4 then 8 else width) in
         bnd (fetchImm w) (\<lambda>imm. bnd (getS (getReg w REG_EAX)) (\<lambda>a.
           bnd (alu kind a imm w) (\<lambda>v. whenM (kind \<noteq> 7) (setReg w REG_EAX v))))))"

text \<open>\<open>inc\<close> and \<open>dec\<close> keep the carry.\<close>

definition keepCF :: "('k, 'x, unit) cpuM \<Rightarrow> ('k, 'x, unit) cpuM" where
  "keepCF f = bnd (getS (getFlag FLAG_CF)) (\<lambda>old. thn f (setFlag FLAG_CF old))"

definition op_incdec_reg :: "(u32 \<Rightarrow> u32 \<Rightarrow> nat \<Rightarrow> ('k, 'x, u32) cpuM) \<Rightarrow> nat \<Rightarrow> nat \<Rightarrow> ('k, 'x, unit) cpuM" where
  "op_incdec_reg f r width =
     keepCF (bnd (getS (getReg width r)) (\<lambda>a. bnd (f a 1 width) (setReg width r)))"

definition op_incdec_rm :: "(u32 \<Rightarrow> u32 \<Rightarrow> nat \<Rightarrow> ('k, 'x, u32) cpuM) \<Rightarrow> rm \<Rightarrow> nat \<Rightarrow> ('k, 'x, unit) cpuM" where
  "op_incdec_rm f r width =
     keepCF (bnd (getRM width r) (\<lambda>a. bnd (f a 1 width) (setRM width r)))"

definition op_jcc8 :: "u32 \<Rightarrow> ('k, 'x, unit) cpuM" where
  "op_jcc8 op = bnd fetch8 (\<lambda>d. bnd (cond (op AND 0xf)) (\<lambda>c. whenM c (jumpRel (s8 d))))"

definition op_xchg_eax :: "nat \<Rightarrow> ('k, 'x, unit) cpuM" where
  "op_xchg_eax r = whenM (r \<noteq> 0)
     (bnd (getR REG_EAX) (\<lambda>tmp. bnd (getR r) (\<lambda>v. thn (setR REG_EAX v) (setR r tmp))))"

definition op_pusha :: "('k, 'x, unit) cpuM" where
  "op_pusha = bnd (getR REG_ESP) (\<lambda>esp.
     thn (forM [REG_EAX, REG_ECX, REG_EDX, REG_EBX] (\<lambda>r. bnd (getR r) (\<lambda>v. push v 32)))
       (thn (push esp 32)
         (forM [REG_EBP, REG_ESI, REG_EDI] (\<lambda>r. bnd (getR r) (\<lambda>v. push v 32)))))"

definition op_popa :: "('k, 'x, unit) cpuM" where
  "op_popa =
     thn (forM [REG_EDI, REG_ESI, REG_EBP] (\<lambda>r. bnd (pop 32) (setR r)))
       (thn (advance REG_ESP 4)
         (forM [REG_EBX, REG_EDX, REG_ECX, REG_EAX] (\<lambda>r. bnd (pop 32) (setR r))))"

definition op_imul3 :: "u32 \<Rightarrow> prefix \<Rightarrow> ('k, 'x, unit) cpuM" where
  "op_imul3 op p = (let width = operandSize p in
     withM p (\<lambda>rg r. bnd (if op = 0x69 then fetchSignedImm width else bnd fetch8 (\<lambda>d. ret (s8 d))) (\<lambda>imm.
       bnd (getRM width r) (\<lambda>v. imul_store width rg (signExtend v width * imm)))))"

definition op_group1 :: "u32 \<Rightarrow> prefix \<Rightarrow> ('k, 'x, unit) cpuM" where
  "op_group1 op p = (let w = (if op = 0x80 \<or> op = 0x82 then 8 else operandSize p) in
     withM p (\<lambda>rg r.
       bnd (if op = 0x81 then fetchImm w
            else if op = 0x83 then bnd fetch8 (\<lambda>d. ret (word_of_int (signExtend d 8))) else fetch8) (\<lambda>imm.
       bnd (getRM w r) (\<lambda>dst. executeGroup1 w rg dst imm (setRM w r)))))"

definition op_test :: "nat \<Rightarrow> prefix \<Rightarrow> ('k, 'x, unit) cpuM" where
  "op_test w p = withM p (\<lambda>rg r. bnd (getRM w r) (\<lambda>a. bnd (getS (getReg w rg)) (\<lambda>b. logic_op (a AND b) w)))"

definition op_xchg :: "nat \<Rightarrow> prefix \<Rightarrow> ('k, 'x, unit) cpuM" where
  "op_xchg w p = withM p (\<lambda>rg r. bnd (getRM w r) (\<lambda>a. bnd (getS (getReg w rg)) (\<lambda>b.
     thn (setRM w r b) (setReg w rg a))))"

definition op_mov_store :: "nat \<Rightarrow> prefix \<Rightarrow> ('k, 'x, unit) cpuM" where
  "op_mov_store w p = withM p (\<lambda>rg r. bnd (getS (getReg w rg)) (setRM w r))"

definition op_mov_load :: "nat \<Rightarrow> prefix \<Rightarrow> ('k, 'x, unit) cpuM" where
  "op_mov_load w p = withM p (\<lambda>rg r. bnd (getRM w r) (setReg w rg))"

definition segNames :: "nat \<Rightarrow> segname option" where
  "segNames i = (if i < 6 then Some ([ES, CS, SS, DS, FS, GS] ! i) else None)"

definition op_mov_sreg :: "u32 \<Rightarrow> prefix \<Rightarrow> ('k, 'x, unit) cpuM" where
  "op_mov_sreg op p = withM p (\<lambda>rg r.
     if op = 0x8c then bnd (getS (\<lambda>s. sregs s (case segNames rg of None \<Rightarrow> DS | Some sg \<Rightarrow> sg))) (setRM 16 r)
     else case segNames rg of
         None \<Rightarrow> ret ()
       | Some sg \<Rightarrow> bnd (getRM 16 r) (\<lambda>v. modS (\<lambda>s. s\<lparr>sregs := (sregs s)(sg := v)\<rparr>)))"

definition op_lea :: "u32 \<Rightarrow> prefix \<Rightarrow> ('k, 'x, unit) cpuM" where
  "op_lea at p = withM p (\<lambda>rg r. case r of
     RmReg _ \<Rightarrow> throw (CPUError (''LEA with register at '' @ hex32 at))
   | RmMem _ raw _ \<Rightarrow> setReg (operandSize p) rg raw)"

definition op_pop_rm :: "prefix \<Rightarrow> ('k, 'x, unit) cpuM" where
  "op_pop_rm p = withM p (\<lambda>rg r.
     if rg \<noteq> 0 then throw (CPUError (''Unsupported 8F /'' @ to_dec rg))
     else bnd (pop (operandSize p)) (setRM (operandSize p) r))"

definition op_cbw :: "nat \<Rightarrow> ('k, 'x, unit) cpuM" where
  "op_cbw width =
     (if width = 16
      then bnd (getS (getReg 8 REG_EAX)) (\<lambda>v. setReg 16 REG_EAX (word_of_int (s8 v) AND 0xffff))
      else bnd (getR REG_EAX) (\<lambda>v. setR REG_EAX (word_of_int (s16 v))))"

definition op_cwd :: "nat \<Rightarrow> ('k, 'x, unit) cpuM" where
  "op_cwd width =
     (if width = 16
      then bnd (getS (getReg 16 REG_EAX)) (\<lambda>v. setReg 16 REG_EDX (if v AND 0x8000 \<noteq> 0 then 0xffff else 0))
      else bnd (getR REG_EAX) (\<lambda>v. setR REG_EDX (if v AND 0x80000000 \<noteq> 0 then 0xffffffff else 0)))"

definition op_sahf :: "('k, 'x, unit) cpuM" where
  "op_sahf = bnd (getS (getReg 8 4)) (\<lambda>ah.
     thn (setFlag FLAG_SF (ah AND 0x80 \<noteq> 0)) (thn (setFlag FLAG_ZF (ah AND 0x40 \<noteq> 0))
     (thn (setFlag FLAG_AF (ah AND 0x10 \<noteq> 0)) (thn (setFlag FLAG_PF (ah AND 0x04 \<noteq> 0))
       (setFlag FLAG_CF (ah AND 0x01 \<noteq> 0))))))"

definition op_lahf :: "('k, 'x, unit) cpuM" where
  "op_lahf = bnd (getS (\<lambda>s.
     (0x02 :: u32) OR (if getFlag FLAG_SF s then 0x80 else 0) OR (if getFlag FLAG_ZF s then 0x40 else 0) OR
     (if getFlag FLAG_AF s then 0x10 else 0) OR (if getFlag FLAG_PF s then 0x04 else 0) OR
     (if getFlag FLAG_CF s then 0x01 else 0))) (setReg 8 4)"

definition moffs :: "prefix \<Rightarrow> ('k, 'x, u32) cpuM" where
  "moffs p = bnd fetch32 (\<lambda>a. getS (applySeg a (dataSeg p)))"

definition op_mov_moffs :: "u32 \<Rightarrow> prefix \<Rightarrow> ('k, 'x, unit) cpuM" where
  "op_mov_moffs op p = (let width = operandSize p in
     bnd (moffs p) (\<lambda>a.
       if op = 0xa0 then bnd (memRead 8 a) (setReg 8 REG_EAX)
       else if op = 0xa1 then bnd (memRead width a) (setReg width REG_EAX)
       else if op = 0xa2 then bnd (getS (getReg 8 REG_EAX)) (memWrite 8 a)
       else bnd (getS (getReg width REG_EAX)) (memWrite width a)))"

definition op_shift :: "nat \<Rightarrow> prefix \<Rightarrow> ('k, 'x, u32) cpuM \<Rightarrow> ('k, 'x, unit) cpuM" where
  "op_shift w p cnt = withM p (\<lambda>rg r. bnd cnt (\<lambda>count. bnd (getRM w r) (\<lambda>v.
     bnd (shiftRotate w rg v count) (setRM w r))))"

definition op_mov_imm :: "u32 \<Rightarrow> prefix \<Rightarrow> ('k, 'x, unit) cpuM" where
  "op_mov_imm op p = (let w = (if op = 0xc6 then 8 else operandSize p) in
     withM p (\<lambda>rg r.
       if rg \<noteq> 0 then throw (CPUError (''Unsupported '' @ to_hex (unat op) @ '' /'' @ to_dec rg))
       else bnd (fetchImm w) (setRM w r)))"

definition op_enter :: "nat \<Rightarrow> ('k, 'x, unit) cpuM" where
  "op_enter width = bnd fetch16 (\<lambda>frameSize. bnd fetch8 (\<lambda>nesting.
     bnd (getR REG_EBP) (\<lambda>ebp. thn (push ebp width) (bnd (getR REG_ESP) (\<lambda>frameTemp.
       thn (forM [1..<unat (nesting AND 31)] (\<lambda>_.
              thn (advance REG_EBP (- word_of_nat (width div 8)))
                (bnd (getR REG_EBP) (\<lambda>b. bnd (memRead width b) (\<lambda>v. push v width)))))
         (thn (whenM (nesting \<noteq> 0) (push frameTemp width))
           (thn (setR REG_EBP frameTemp) (advance REG_ESP (- frameSize)))))))))"

definition op_leave :: "nat \<Rightarrow> ('k, 'x, unit) cpuM" where
  "op_leave width = bnd (getR REG_EBP) (\<lambda>b. thn (setR REG_ESP b) (bnd (pop width) (setR REG_EBP)))"

definition op_int :: "('k, 'x) env \<Rightarrow> u32 \<Rightarrow> ('k, 'x, unit) cpuM" where
  "op_int ev at = bnd fetch8 (\<lambda>imm.
     if imm \<noteq> 0x80
     then throw (CPUError (''Unsupported interrupt '' @ to_dec (unat imm) @ '' at '' @ hex32 at))
     else enterKernel ev ''int 0x80'')"

definition op_loop :: "u32 \<Rightarrow> ('k, 'x, unit) cpuM" where
  "op_loop op = bnd fetch8 (\<lambda>d.
     if op = 0xe3 then bnd (getR REG_ECX) (\<lambda>c. whenM (c = 0) (jumpRel (s8 d)))
     else thn (advance REG_ECX (- 1)) (bnd (getR REG_ECX) (\<lambda>c. bnd (getS (getFlag FLAG_ZF)) (\<lambda>z.
       whenM (c \<noteq> 0 \<and> (op = 0xe2 \<or> (op = 0xe0 \<and> z) \<or> (op = 0xe1 \<and> \<not> z))) (jumpRel (s8 d))))))"

definition op_call :: "nat \<Rightarrow> ('k, 'x, unit) cpuM" where
  "op_call width = bnd fetch32 (\<lambda>d. bnd (getS eip) (\<lambda>a. thn (push a width) (jumpRel (sign32 d))))"

definition op_ret :: "nat \<Rightarrow> ('k, 'x, unit) cpuM" where
  "op_ret width = bnd (pop width) setEip"

definition op_ret_imm :: "nat \<Rightarrow> ('k, 'x, unit) cpuM" where
  "op_ret_imm width = bnd fetch16 (\<lambda>imm. thn (op_ret width) (advance REG_ESP imm))"

section \<open>Multiplication and division\<close>

definition setCO :: "bool \<Rightarrow> ('k, 'x, unit) cpuM" where
  "setCO b = thn (setFlag FLAG_CF b) (setFlag FLAG_OF b)"

definition op_mul :: "nat \<Rightarrow> u32 \<Rightarrow> ('k, 'x, unit) cpuM" where
  "op_mul w val =
     (if w = 8 then bnd (getS (getReg 8 REG_EAX)) (\<lambda>a. let r = unat a * unat val in
        thn (setReg 16 REG_EAX (word_of_nat r)) (setCO (r > 0xff)))
      else if w = 16 then bnd (getS (getReg 16 REG_EAX)) (\<lambda>a. let r = unat a * unat val in
        thn (setReg 16 REG_EAX (word_of_nat r))
          (thn (setReg 16 REG_EDX (drop_bit 16 (word_of_nat r))) (setCO (r > 0xffff))))
      else bnd (getR REG_EAX) (\<lambda>a. let r = uint a * uint val in
        thn (setR REG_EAX (lo32FromBigInt r)) (thn (setR REG_EDX (hi32FromBigInt r))
          (bnd (getR REG_EDX) (\<lambda>hi. setCO (hi \<noteq> 0))))))"

definition op_imul1 :: "nat \<Rightarrow> u32 \<Rightarrow> ('k, 'x, unit) cpuM" where
  "op_imul1 w val =
     (if w = 8 then bnd (getS (getReg 8 REG_EAX)) (\<lambda>a. let r = s8 a * s8 val in
        thn (setReg 16 REG_EAX (word_of_int (take_bit 16 r))) (setCO (signed_take_bit 7 r \<noteq> r)))
      else if w = 16 then bnd (getS (getReg 16 REG_EAX)) (\<lambda>a.
        let r = s16 a * s16 val; nr = word_of_int (take_bit 32 r) in
        thn (setReg 16 REG_EAX nr) (thn (setReg 16 REG_EDX (drop_bit 16 nr)) (setCO (signed_take_bit 15 r \<noteq> r))))
      else bnd (getR REG_EAX) (\<lambda>a. let r = sint a * sint val in
        thn (setR REG_EAX (lo32FromBigInt r)) (thn (setR REG_EDX (hi32FromBigInt r))
          (setCO (signed_take_bit 31 r \<noteq> r)))))"

text \<open>
  \<open>Math.trunc(a / b)\<close> and \<open>a % b\<close> on 16- and 32-bit integers, and \<open>/\<close> and \<open>%\<close> on \<open>BigInt\<close>: the
  quotient rounds towards zero and the remainder has the sign of the dividend. (The doubles that
  \<open>a / b\<close> goes through have 53 bits, which is enough for a 32-bit dividend.)
\<close>

definition js_quot :: "int \<Rightarrow> int \<Rightarrow> int" where
  "js_quot a b = sgn a * sgn b * (\<bar>a\<bar> div \<bar>b\<bar>)"

definition js_rem :: "int \<Rightarrow> int \<Rightarrow> int" where
  "js_rem a b = sgn a * (\<bar>a\<bar> mod \<bar>b\<bar>)"

definition div_store :: "nat \<Rightarrow> nat \<Rightarrow> nat \<Rightarrow> int \<Rightarrow> int \<Rightarrow> int \<Rightarrow> int \<Rightarrow> string \<Rightarrow> ('k, 'x, unit) cpuM" where
  "div_store w qreg rreg dividend divisor lo hi msg =
     (let q = js_quot dividend divisor; r = js_rem dividend divisor in
      if q < lo \<or> q > hi then throw (CPUError msg)
      else thn (setReg w qreg (word_of_int q)) (setReg w rreg (word_of_int r)))"

definition op_div :: "nat \<Rightarrow> bool \<Rightarrow> u32 \<Rightarrow> ('k, 'x, unit) cpuM" where
  "op_div w sgnd val =
     (if w = 8 then bnd (getS (getReg 16 REG_EAX)) (\<lambda>dividend. let divisor = val AND 0xff in
        if divisor = 0 then throw (CPUError ''divide by zero'')
        else if \<not> sgnd then div_store 8 REG_EAX 4 (uint dividend) (uint divisor) 0 0xff ''divide overflow''
        else div_store 8 REG_EAX 4 (s16 dividend) (s8 divisor) (- 128) 127 ''idiv overflow'')
      else if w = 32 then
        (let divisor = (if sgnd then sint val else uint val) in
         if divisor = 0 then throw (CPUError ''divide by zero'')
         else bnd (getS regs) (\<lambda>rs.
           let dividend = (if sgnd then makeBigInt64 (rs REG_EAX) (rs REG_EDX)
                           else makeBigUint64 (rs REG_EAX) (rs REG_EDX)) in
           if sgnd then div_store 32 REG_EAX REG_EDX dividend divisor (- 0x80000000) 0x7fffffff ''divide overflow''
           else div_store 32 REG_EAX REG_EDX dividend divisor 0 0xffffffff ''divide overflow''))
      else bnd (getS (\<lambda>s. push_bit 16 (getReg 16 REG_EDX s) OR getReg 16 REG_EAX s)) (\<lambda>dividend.
        let divisor = val AND 0xffff in
        if divisor = 0 then throw (CPUError ''divide by zero'')
        else if \<not> sgnd then div_store 16 REG_EAX REG_EDX (uint dividend) (uint divisor) 0 0xffff ''divide overflow''
        else div_store 16 REG_EAX REG_EDX (sint dividend) (s16 divisor) (- 32768) 32767 ''idiv overflow''))"

definition op_group3 :: "u32 \<Rightarrow> prefix \<Rightarrow> ('k, 'x, unit) cpuM" where
  "op_group3 op p = (let w = (if op = 0xf6 then 8 else operandSize p) in
     withM p (\<lambda>rg r. bnd (getRM w r) (\<lambda>val.
       if rg = 0 then bnd (fetchImm w) (\<lambda>imm. logic_op (val AND imm) w)
       else if rg = 2 then setRM w r (NOT val AND maskFor w)
       else if rg = 3 then bnd (sub_op 0 val w) (setRM w r)
       else if rg = 4 then op_mul w val
       else if rg = 5 then op_imul1 w val
       else if rg = 6 then op_div w False val
       else if rg = 7 then op_div w True val
       else throw (CPUError (''Unsupported F6/F7 /'' @ to_dec rg)))))"

definition op_group4 :: "prefix \<Rightarrow> ('k, 'x, unit) cpuM" where
  "op_group4 p = withM p (\<lambda>rg r.
     if rg = 0 then op_incdec_rm add_op r 8
     else if rg = 1 then op_incdec_rm sub_op r 8
     else throw (CPUError (''Unsupported FE /'' @ to_dec rg)))"

definition op_group5 :: "prefix \<Rightarrow> ('k, 'x, unit) cpuM" where
  "op_group5 p = (let width = operandSize p in
     withM p (\<lambda>rg r.
       if rg = 0 then op_incdec_rm add_op r width
       else if rg = 1 then op_incdec_rm sub_op r width
       else if rg = 2 then bnd (getRM width r) (\<lambda>target. bnd (getS eip) (\<lambda>a. thn (push a width) (setEip target)))
       else if rg = 4 then bnd (getRM width r) setEip
       else if rg = 6 then bnd (getRM width r) (\<lambda>v. push v width)
       else throw (CPUError (''Unsupported FF /'' @ to_dec rg))))"

section \<open>Dispatch\<close>

definition is_alu_op :: "u32 \<Rightarrow> bool" where
  "is_alu_op op \<longleftrightarrow> op \<le> 0x3d \<and> op AND 7 \<le> 5 \<and>
     op \<notin> {0x06, 0x07, 0x0e, 0x0f, 0x16, 0x17, 0x1e, 0x1f, 0x26, 0x27, 0x2e, 0x2f, 0x36, 0x37, 0x3e, 0x3f}"

definition exec_flags :: "u32 \<Rightarrow> ('k, 'x, unit) cpuM" where
  "exec_flags op =
     (if op = 0xf5 then bnd (getS (getFlag FLAG_CF)) (\<lambda>c. setFlag FLAG_CF (\<not> c))
      else if op = 0xf8 then setFlag FLAG_CF False
      else if op = 0xf9 then setFlag FLAG_CF True
      else if op = 0xfa then setFlag FLAG_IF False
      else if op = 0xfb then setFlag FLAG_IF True
      else if op = 0xfc then setFlag FLAG_DF False
      else setFlag FLAG_DF True)"

definition exec_low :: "u32 \<Rightarrow> u32 \<Rightarrow> prefix \<Rightarrow> ('k, 'x, unit) cpuM \<Rightarrow> ('k, 'x, unit) cpuM" where
  "exec_low op at p rest =
     (let width = operandSize p in
      if op \<in> {0x06, 0x0e, 0x16, 0x1e} then push 0 width
      else if op \<in> {0x07, 0x17, 0x1f} then bnd (pop width) (\<lambda>_. ret ())
      else if op = 0x60 then op_pusha
      else if op = 0x61 then op_popa
      else if op = 0x68 then bnd (fetchImm width) (\<lambda>v. push v width)
      else if op = 0x69 \<or> op = 0x6b then op_imul3 op p
      else if op = 0x6a then bnd fetch8 (\<lambda>d. push (word_of_int (s8 d)) width)
      else if op \<in> {0x80, 0x81, 0x82, 0x83} then op_group1 op p
      else if op = 0x84 then op_test 8 p
      else if op = 0x85 then op_test width p
      else if op = 0x86 then op_xchg 8 p
      else if op = 0x87 then op_xchg width p
      else if op = 0x88 then op_mov_store 8 p
      else if op = 0x89 then op_mov_store width p
      else if op = 0x8a then op_mov_load 8 p
      else if op = 0x8b then op_mov_load width p
      else if op = 0x8c \<or> op = 0x8e then op_mov_sreg op p
      else if op = 0x8d then op_lea at p
      else if op = 0x8f then op_pop_rm p
      else if op = 0x98 then op_cbw width
      else if op = 0x99 then op_cwd width
      else if op = 0x9b then ret ()
      else if op = 0x9c then bnd (getS eflags) (\<lambda>f. push f width)
      else if op = 0x9d then bnd (pop width) (\<lambda>v. modS (\<lambda>s. s\<lparr>eflags := v OR 0x2\<rparr>))
      else if op = 0x9e then op_sahf
      else if op = 0x9f then op_lahf
      else rest)"

definition exec_high :: "('k, 'x) env \<Rightarrow> u32 \<Rightarrow> u32 \<Rightarrow> prefix \<Rightarrow> ('k, 'x, unit) cpuM" where
  "exec_high ev op at p =
     (let width = operandSize p in
      if op \<in> {0xa0, 0xa1, 0xa2, 0xa3} then op_mov_moffs op p
      else if op \<in> {0xa4, 0xa5, 0xa6, 0xa7, 0xaa, 0xab, 0xac, 0xad, 0xae, 0xaf} then handleStringOp op p
      else if op = 0xa8 then bnd (getS (getReg 8 REG_EAX)) (\<lambda>a. bnd fetch8 (\<lambda>i. logic_op (a AND i) 8))
      else if op = 0xa9 then bnd (getS (getReg width REG_EAX)) (\<lambda>a. bnd (fetchImm width) (\<lambda>i. logic_op (a AND i) width))
      else if op = 0xc0 then op_shift 8 p fetch8
      else if op = 0xc1 then op_shift width p fetch8
      else if op = 0xc2 then op_ret_imm width
      else if op = 0xc3 then op_ret width
      else if op = 0xc6 \<or> op = 0xc7 then op_mov_imm op p
      else if op = 0xc8 then op_enter width
      else if op = 0xc9 then op_leave width
      else if op = 0xcc then throw (CPUError (''INT3 breakpoint at '' @ hex32 at))
      else if op = 0xcd then op_int ev at
      else if op = 0xce then bnd (getS (getFlag FLAG_OF)) (\<lambda>b. whenM b (throw (CPUError (''INTO trap at '' @ hex32 at))))
      else if op = 0xd0 then op_shift 8 p (ret 1)
      else if op = 0xd1 then op_shift width p (ret 1)
      else if op = 0xd2 then op_shift 8 p (getS (getReg 8 REG_ECX))
      else if op = 0xd3 then op_shift width p (getS (getReg 8 REG_ECX))
      else if op \<in> {0xe0, 0xe1, 0xe2, 0xe3} then op_loop op
      else if op = 0xe8 then op_call width
      else if op = 0xe9 then bnd fetch32 (\<lambda>d. jumpRel (sign32 d))
      else if op = 0xeb then bnd fetch8 (\<lambda>d. jumpRel (s8 d))
      else if op = 0xf4 then throw (CPUError (''HLT at '' @ hex32 at))
      else if op = 0xf6 \<or> op = 0xf7 then op_group3 op p
      else if op \<in> {0xf5, 0xf8, 0xf9, 0xfa, 0xfb, 0xfc, 0xfd} then exec_flags op
      else if op = 0xfe then op_group4 p
      else if op = 0xff then op_group5 p
      else if op = 0x0f then bnd fetch8 (\<lambda>op2. handle0F ev op2 at p)
      else throw (UnsupportedOpcodeError (''0x'' @ padStart 2 (CHR ''0'') (to_hex (unat op))) at))"

definition exec :: "('k, 'x) env \<Rightarrow> u32 \<Rightarrow> u32 \<Rightarrow> prefix \<Rightarrow> ('k, 'x, unit) cpuM" where
  "exec ev op at p =
     (let width = operandSize p in
      if is_alu_op op then op_alu op p
      else if 0x40 \<le> op \<and> op \<le> 0x47 then op_incdec_reg add_op (unat (op - 0x40)) width
      else if 0x48 \<le> op \<and> op \<le> 0x4f then op_incdec_reg sub_op (unat (op - 0x48)) width
      else if 0x50 \<le> op \<and> op \<le> 0x57 then bnd (getS (getReg width (unat (op - 0x50)))) (\<lambda>v. push v width)
      else if 0x58 \<le> op \<and> op \<le> 0x5f then bnd (pop width) (setReg width (unat (op - 0x58)))
      else if 0x70 \<le> op \<and> op \<le> 0x7f then op_jcc8 op
      else if 0x90 \<le> op \<and> op \<le> 0x97 then op_xchg_eax (unat (op - 0x90))
      else if 0xb0 \<le> op \<and> op \<le> 0xb7 then bnd fetch8 (setReg 8 (unat (op - 0xb0)))
      else if 0xb8 \<le> op \<and> op \<le> 0xbf then bnd (fetchImm width) (setReg width (unat (op - 0xb8)))
      else if 0xd8 \<le> op \<and> op \<le> 0xdf then handleFPU (fops ev) op at p
      else exec_low op at p (exec_high ev op at p))"

definition step :: "('k, 'x) env \<Rightarrow> ('k, 'x, unit) cpuM" where
  "step ev = bnd (getS eip) (\<lambda>at. bnd parsePrefixes (\<lambda>p. bnd fetch8 (\<lambda>op.
     thn (modS (\<lambda>s. s\<lparr>steps := steps s + 1\<rparr>)) (exec ev op at p))))"

text \<open>
  \<open>run\<close> never returns normally. A syscall can move \<open>steps\<close> (it is a field of the CPU), so the loop
  runs on fuel and \<open>Diverges\<close> is fuel that ran out.
\<close>

fun run :: "nat \<Rightarrow> ('k, 'x) env \<Rightarrow> nat \<Rightarrow> ('k, 'x, unit) cpuM" where
  "run 0 ev maxSteps = throw (CpuFault Diverges)"
| "run (Suc n) ev maxSteps = (\<lambda>s.
     if steps s < maxSteps then thn (step ev) (run n ev maxSteps) s
     else (Inl (CPUError (''Step limit reached ('' @ to_dec maxSteps @ '')'')), s))"

definition REG_NAMES :: "string list" where
  "REG_NAMES = [''eax'', ''ecx'', ''edx'', ''ebx'', ''esp'', ''ebp'', ''esi'', ''edi'']"

definition dumpRegs :: "'k cpu \<Rightarrow> (string, u32) jsmap" where
  "dumpRegs s = zip REG_NAMES (map (regs s) [0..<8]) @
     [(''eip'', eip s), (''eflags'', eflags s), (''fsBase'', segBase s FS), (''gsBase'', segBase s GS)]"

end
