(* ===== verification/Cpu_Facts.thy ===== *)
theory Cpu_Facts
  imports Cpu_Step
begin

text \<open>
  Facts about the CPU's data: truncation to a width, sign bits, single flags of EFLAGS, registers and
  their 8- and 16-bit parts. They hold for every width from 1 to 32.
\<close>

section \<open>Widths\<close>

lemma maskFor_mask: "w \<le> 32 \<Longrightarrow> maskFor w = mask w"
  by (auto simp: maskFor_def mask_eq_exp_minus_1 push_bit_eq_mult)

lemma truncate_take_bit: "w \<le> 32 \<Longrightarrow> truncate_w v w = take_bit w v"
  by (auto simp: truncate_w_def maskFor_mask take_bit_eq_mask [symmetric] take_bit_word_eq_self)

lemma unat_truncate: "w \<le> 32 \<Longrightarrow> unat (truncate_w v w) = unat v mod 2 ^ w"
  by (simp add: truncate_take_bit unat_take_bit_mod)

lemma truncate_idem [simp]: "w \<le> 32 \<Longrightarrow> truncate_w (truncate_w v w) w = truncate_w v w"
  by (simp add: truncate_take_bit)

lemma unat_maskFor:
  assumes "w \<le> 32"
  shows "unat (maskFor w) = 2 ^ w - 1"
proof (cases "w = 32")
  case False
  with assms have "w < 32" by simp
  then have "unat (2 ^ w - 1 :: u32) = 2 ^ w - 1"
    by (simp add: unat_2p unat_sub word_le_nat_alt)
  with assms show ?thesis by (simp only: maskFor_mask mask_eq_exp_minus_1)
qed (simp add: maskFor_def)

lemma signBit_push: "0 < w \<Longrightarrow> w \<le> 32 \<Longrightarrow> signBit w = push_bit (w - 1) 1"
  by (auto simp: signBit_def push_bit_eq_mult)

lemma and_push_bit_1: "(x AND push_bit n 1 \<noteq> 0) = bit (x :: u32) n"
  by (rule bit_iff_and_push_bit_not_eq_0 [symmetric])

lemma and_exp: "(x AND 2 ^ n \<noteq> 0) = bit (x :: u32) n"
  using and_push_bit_1 [of x n] by (simp add: push_bit_eq_mult)

lemma bit_odd_unat: "bit (x :: u32) n = odd (unat x div 2 ^ n)"
proof -
  have "bit (unat x) n = bit x n" by (simp add: bit_unsigned_iff)
  then show ?thesis by (simp only: bit_iff_odd [where 'a = nat])
qed

lemma and_signBit: "0 < w \<Longrightarrow> w \<le> 32 \<Longrightarrow> (x AND signBit w \<noteq> 0) = bit x (w - 1)"
  by (simp only: signBit_push and_push_bit_1)

lemma bit_top:
  assumes "0 < w" "unat (x :: u32) < 2 ^ w"
  shows "bit x (w - 1) \<longleftrightarrow> 2 ^ (w - 1) \<le> unat x"
proof -
  note bit_odd_unat [of x "w - 1"]
  moreover have "unat x div 2 ^ (w - 1) < 2"
    using assms by (cases w) (simp_all add: less_mult_imp_div_less mult.commute)
  moreover have "unat x div 2 ^ (w - 1) \<noteq> 0 \<longleftrightarrow> 2 ^ (w - 1) \<le> unat x"
    by (simp add: div_eq_0_iff not_less)
  ultimately show ?thesis by (cases "unat x div 2 ^ (w - 1)") auto
qed

section \<open>Flags\<close>

lemma flag_bit: "flag n fl = bit fl n"
  by (simp only: flag_def and_push_bit_1)

lemma flag_with_flag: "n < 32 \<Longrightarrow> flag n (with_flag m v fl) = (if n = m then v else flag n fl)"
  by (auto simp: flag_bit with_flag_def bit_simps)

lemma flag_numbers [simp]:
  "FLAG_CF < 32" "FLAG_PF < 32" "FLAG_AF < 32" "FLAG_ZF < 32" "FLAG_SF < 32" "FLAG_TF < 32"
  "FLAG_IF < 32" "FLAG_DF < 32" "FLAG_OF < 32"
  by (simp_all add: flag_defs)

lemma flags_distinct [simp]:
  "FLAG_CF \<noteq> FLAG_PF" "FLAG_CF \<noteq> FLAG_AF" "FLAG_CF \<noteq> FLAG_ZF" "FLAG_CF \<noteq> FLAG_SF" "FLAG_CF \<noteq> FLAG_OF"
  "FLAG_PF \<noteq> FLAG_CF" "FLAG_PF \<noteq> FLAG_AF" "FLAG_PF \<noteq> FLAG_ZF" "FLAG_PF \<noteq> FLAG_SF" "FLAG_PF \<noteq> FLAG_OF"
  "FLAG_AF \<noteq> FLAG_CF" "FLAG_AF \<noteq> FLAG_PF" "FLAG_AF \<noteq> FLAG_ZF" "FLAG_AF \<noteq> FLAG_SF" "FLAG_AF \<noteq> FLAG_OF"
  "FLAG_ZF \<noteq> FLAG_CF" "FLAG_ZF \<noteq> FLAG_PF" "FLAG_ZF \<noteq> FLAG_AF" "FLAG_ZF \<noteq> FLAG_SF" "FLAG_ZF \<noteq> FLAG_OF"
  "FLAG_SF \<noteq> FLAG_CF" "FLAG_SF \<noteq> FLAG_PF" "FLAG_SF \<noteq> FLAG_AF" "FLAG_SF \<noteq> FLAG_ZF" "FLAG_SF \<noteq> FLAG_OF"
  "FLAG_OF \<noteq> FLAG_CF" "FLAG_OF \<noteq> FLAG_PF" "FLAG_OF \<noteq> FLAG_AF" "FLAG_OF \<noteq> FLAG_ZF" "FLAG_OF \<noteq> FLAG_SF"
  by (simp_all add: flag_defs)

text \<open>The arithmetic flags; every other bit of EFLAGS is a control flag the ALU leaves alone.\<close>

definition arith_flags :: "nat set" where
  "arith_flags = {FLAG_CF, FLAG_PF, FLAG_AF, FLAG_ZF, FLAG_SF, FLAG_OF}"

section \<open>Addition and subtraction\<close>

text \<open>The value of a \<open>w\<close>-bit operand as a two's complement number.\<close>

definition sval :: "nat \<Rightarrow> u32 \<Rightarrow> int" where
  "sval w v = (let u = int (unat v mod 2 ^ w) in if 2 ^ (w - 1) \<le> u then u - 2 ^ w else u)"

lemma unat_word_of_nat_mod: "w \<le> 32 \<Longrightarrow> unat (word_of_nat n :: u32) mod 2 ^ w = n mod 2 ^ w"
  using le_imp_power_dvd [of w 32 "2 :: nat"] by (simp add: unat_of_nat take_bit_eq_mod mod_mod_cancel)

lemma setZS_flags:
  assumes w: "0 < w" "w \<le> 32" and n: "n < 32"
  shows "flag n (setZS w r fl) =
     (if n = FLAG_ZF then unat r mod 2 ^ w = 0
      else if n = FLAG_SF then 2 ^ (w - 1) \<le> unat r mod 2 ^ w
      else if n = FLAG_PF then parity8 (truncate_w r w) else flag n fl)"
proof -
  have "(truncate_w r w = 0) = (unat r mod 2 ^ w = 0)"
    using w by (simp add: unat_truncate word_unat_eq_iff)
  moreover have "(truncate_w r w AND signBit w \<noteq> 0) = (2 ^ (w - 1) \<le> unat r mod 2 ^ w)"
    using bit_top [of w "truncate_w r w"] w by (simp add: and_signBit unat_truncate)
  ultimately show ?thesis
    using n by (simp add: setZS_def Let_def flag_with_flag)
qed

text \<open>The overflow test of the source looks at the three sign bits.\<close>

lemma sign_bits:
  assumes w: "0 < w" "w \<le> 32"
  shows "(NOT (x XOR y) AND (x XOR z) AND signBit w \<noteq> 0) =
     (bit x (w - 1) = bit y (w - 1) \<and> bit x (w - 1) \<noteq> bit z (w - 1))"
    "((x XOR y) AND (x XOR z) AND signBit w \<noteq> 0) =
     (bit x (w - 1) \<noteq> bit y (w - 1) \<and> bit x (w - 1) \<noteq> bit z (w - 1))"
  using w by (simp_all add: and.assoc [symmetric] and_signBit) (auto simp: bit_simps)

lemma gt_pred_pow: "((2 :: nat) ^ w - 1 < x) = (2 ^ w \<le> x)"
  using zero_less_power [of "2 :: nat" w] by linarith

lemma pos2_nat: "(0 :: nat) < 2"
  by simp

lemma pow_double: "0 < w \<Longrightarrow> (2 :: nat) ^ w = 2 * 2 ^ (w - 1)"
  by (cases w) simp_all

lemma add_overflow_arith:
  fixes A B S H :: nat
  assumes "A < 2 * H" "B < 2 * H" "c \<le> 1" "S = (A + B + c) mod (2 * H)"
  shows "((H \<le> A) = (H \<le> B) \<and> (H \<le> A) \<noteq> (H \<le> S)) =
     (let v = (\<lambda>u. if H \<le> u then int u - 2 * int H else int u); t = v A + v B + int c in
      t < - int H \<or> int H \<le> t)"
proof -
  have "S = (if A + B + c < 2 * H then A + B + c else A + B + c - 2 * H)"
    using assms by (simp add: mod_if)
  with assms(1-3) show ?thesis by (auto simp: Let_def split: if_splits)
qed

lemma sub_overflow_arith:
  fixes A B S H :: nat
  assumes "A < 2 * H" "B < 2 * H" "S = (A + 2 * H - B) mod (2 * H)"
  shows "((H \<le> A) \<noteq> (H \<le> B) \<and> (H \<le> A) \<noteq> (H \<le> S)) =
     (let v = (\<lambda>u. if H \<le> u then int u - 2 * int H else int u); t = v A - v B in
      t < - int H \<or> int H \<le> t)"
proof -
  have "S = (if A < B then A + 2 * H - B else A - B)"
    using assms by (auto simp: mod_if)
  with assms(1-2) show ?thesis by (auto simp: Let_def split: if_splits)
qed

lemma sval_cases:
  "0 < w \<Longrightarrow> sval w v = (let u = unat v mod 2 ^ w; H = 2 ^ (w - 1) :: nat in
     if H \<le> u then int u - 2 * int H else int u)"
proof -
  assume w: "0 < w"
  have "(2 ^ (w - 1) \<le> int (unat v mod 2 ^ w)) = ((2 :: nat) ^ (w - 1) \<le> unat v mod 2 ^ w)"
    by (metis of_nat_le_iff of_nat_numeral of_nat_power)
  moreover have "(2 :: int) ^ w = 2 * int (2 ^ (w - 1))" using w by (cases w) simp_all
  ultimately show "?thesis" unfolding sval_def Let_def by simp
qed

lemma add_fl_spec:
  assumes w: "0 < w" "w \<le> 32"
  shows "unat (fst (add_fl a b w c fl)) = (unat a mod 2 ^ w + unat b mod 2 ^ w + of_bool c) mod 2 ^ w"
    and "flag FLAG_CF (snd (add_fl a b w c fl)) = (2 ^ w \<le> unat a mod 2 ^ w + unat b mod 2 ^ w + of_bool c)"
    and "flag FLAG_ZF (snd (add_fl a b w c fl)) = (unat (fst (add_fl a b w c fl)) = 0)"
    and "flag FLAG_SF (snd (add_fl a b w c fl)) = (2 ^ (w - 1) \<le> unat (fst (add_fl a b w c fl)))"
    and "flag FLAG_PF (snd (add_fl a b w c fl)) = parity8 (fst (add_fl a b w c fl))"
    and "flag FLAG_OF (snd (add_fl a b w c fl)) =
      (sval w a + sval w b + of_bool c < - (2 ^ (w - 1)) \<or> 2 ^ (w - 1) \<le> sval w a + sval w b + of_bool c)"
    and "n < 32 \<Longrightarrow> n \<notin> arith_flags \<Longrightarrow> flag n (snd (add_fl a b w c fl)) = flag n fl"
proof -
  define A B where "A = truncate_w a w" and "B = truncate_w b w"
  define R where "R = unat A + unat B + of_bool c"
  define r where "r = truncate_w (word_of_nat R) w"
  have uA: "unat A = unat a mod 2 ^ w" and uB: "unat B = unat b mod 2 ^ w"
    using w by (simp_all add: A_def B_def unat_truncate)
  have ur: "unat r = R mod 2 ^ w" using w by (simp add: r_def unat_truncate unat_word_of_nat_mod)
  have rr: "truncate_w r w = r" using w by (simp add: r_def)
  have fst_eq: "fst (add_fl a b w c fl) = r"
    by (simp only: add_fl_def Let_def A_def [symmetric] B_def [symmetric] R_def [symmetric] r_def [symmetric] rr fst_conv)
  show res: "unat (fst (add_fl a b w c fl)) = (unat a mod 2 ^ w + unat b mod 2 ^ w + of_bool c) mod 2 ^ w"
    by (simp add: fst_eq ur R_def uA uB)
  have fl_eq: "flag n (snd (add_fl a b w c fl)) =
     (if n = FLAG_AF then (A XOR (B + word_of_nat (of_bool c)) XOR r) AND 0x10 \<noteq> 0
      else if n = FLAG_OF then (NOT (A XOR B)) AND (A XOR r) AND signBit w \<noteq> 0
      else if n = FLAG_CF then R > unat (maskFor w)
      else flag n (setZS w r fl))" if "n < 32" for n
    using that by (simp only: add_fl_def Let_def setAF_def flag_with_flag A_def [symmetric] B_def [symmetric]
        R_def [symmetric] r_def [symmetric] snd_conv)
  have umod: "unat r mod 2 ^ w = unat r" by (simp add: ur)
  show "flag FLAG_CF (snd (add_fl a b w c fl)) = (2 ^ w \<le> unat a mod 2 ^ w + unat b mod 2 ^ w + of_bool c)"
    using w by (simp only: fl_eq flag_numbers unat_maskFor R_def uA uB gt_pred_pow) simp
  show "flag FLAG_ZF (snd (add_fl a b w c fl)) = (unat (fst (add_fl a b w c fl)) = 0)"
    "flag FLAG_SF (snd (add_fl a b w c fl)) = (2 ^ (w - 1) \<le> unat (fst (add_fl a b w c fl)))"
    "flag FLAG_PF (snd (add_fl a b w c fl)) = parity8 (fst (add_fl a b w c fl))"
    using w by (simp_all add: fl_eq setZS_flags fst_eq umod rr)
  show "flag n (snd (add_fl a b w c fl)) = flag n fl" if "n < 32" "n \<notin> arith_flags"
    using w that by (simp add: fl_eq setZS_flags arith_flags_def)
  have top: "bit A (w - 1) = (2 ^ (w - 1) \<le> unat A)" "bit B (w - 1) = (2 ^ (w - 1) \<le> unat B)"
    "bit r (w - 1) = (2 ^ (w - 1) \<le> unat r)"
    using w by (simp_all only: bit_top uA uB ur mod_less_divisor zero_less_power pos2_nat)
  show "flag FLAG_OF (snd (add_fl a b w c fl)) =
      (sval w a + sval w b + of_bool c < - (2 ^ (w - 1)) \<or> 2 ^ (w - 1) \<le> sval w a + sval w b + of_bool c)"
  proof -
    define H :: nat where "H = 2 ^ (w - 1)"
    have H2: "2 ^ w = 2 * H" and Hpos: "0 < H" using w by (simp_all only: H_def pow_double zero_less_power pos2_nat)
    have "flag FLAG_OF (snd (add_fl a b w c fl)) =
        ((H \<le> unat A) = (H \<le> unat B) \<and> (H \<le> unat A) \<noteq> (H \<le> unat r))"
      using w by (simp only: fl_eq flag_numbers flags_distinct refl if_False if_True sign_bits top H_def)
    also have "\<dots> = (let v = (\<lambda>u. if H \<le> u then int u - 2 * int H else int u); t = v (unat A) + v (unat B) + int (of_bool c) in
        t < - int H \<or> int H \<le> t)"
      by (rule add_overflow_arith) (simp_all add: uA uB ur R_def H2 Hpos)
    also have "\<dots> = (sval w a + sval w b + of_bool c < - int H \<or> int H \<le> sval w a + sval w b + of_bool c)"
      using w by (simp only: sval_cases uA uB Let_def H_def of_nat_of_bool)
    finally show ?thesis by (simp only: H_def of_nat_power of_nat_numeral)
  qed
qed

text \<open>
  Subtraction with a borrow adds it to the subtrahend first, so the sign bit the overflow test sees
  is that of \<open>b + 1\<close>: the overflow flag is only right without a borrow.
\<close>

lemma sub_fl_spec:
  assumes w: "0 < w" "w \<le> 32"
  shows "unat (fst (sub_fl a b w c fl)) =
       (unat a mod 2 ^ w + 2 ^ w - (unat b mod 2 ^ w + of_bool c)) mod 2 ^ w"
    and "flag FLAG_CF (snd (sub_fl a b w c fl)) = (unat a mod 2 ^ w < unat b mod 2 ^ w + of_bool c)"
    and "flag FLAG_ZF (snd (sub_fl a b w c fl)) = (unat (fst (sub_fl a b w c fl)) = 0)"
    and "flag FLAG_SF (snd (sub_fl a b w c fl)) = (2 ^ (w - 1) \<le> unat (fst (sub_fl a b w c fl)))"
    and "flag FLAG_PF (snd (sub_fl a b w c fl)) = parity8 (fst (sub_fl a b w c fl))"
    and "flag FLAG_OF (snd (sub_fl a b w False fl)) =
      (sval w a - sval w b < - (2 ^ (w - 1)) \<or> 2 ^ (w - 1) \<le> sval w a - sval w b)"
    and "n < 32 \<Longrightarrow> n \<notin> arith_flags \<Longrightarrow> flag n (snd (sub_fl a b w c fl)) = flag n fl"
proof -
  define A Bw where "A = truncate_w a w" and "Bw = truncate_w b w"
  define B where "B c = unat Bw + of_bool c" for c
  define r where "r c = truncate_w (word_of_nat (unat A + 2 ^ w - B c)) w" for c
  have uA: "unat A = unat a mod 2 ^ w" and uB: "unat Bw = unat b mod 2 ^ w"
    using w by (simp_all add: A_def Bw_def unat_truncate)
  have ur: "unat (r c) = (unat A + 2 ^ w - B c) mod 2 ^ w" for c
    using w by (simp add: r_def unat_truncate unat_word_of_nat_mod del: of_nat_diff)
  have rr: "truncate_w (r c) w = r c" for c using w by (simp add: r_def)
  have fst_eq: "fst (sub_fl a b w c fl) = r c" for c
    by (simp only: sub_fl_def Let_def A_def [symmetric] Bw_def [symmetric] B_def [symmetric] r_def [symmetric] rr fst_conv)
  show "unat (fst (sub_fl a b w c fl)) =
       (unat a mod 2 ^ w + 2 ^ w - (unat b mod 2 ^ w + of_bool c)) mod 2 ^ w"
    by (simp add: fst_eq ur B_def uA uB)
  have fl_eq: "flag n (snd (sub_fl a b w c fl)) =
     (if n = FLAG_AF then (A XOR word_of_nat (B c) XOR r c) AND 0x10 \<noteq> 0
      else if n = FLAG_OF then (A XOR word_of_nat (B c)) AND (A XOR r c) AND signBit w \<noteq> 0
      else if n = FLAG_CF then unat A < B c
      else flag n (setZS w (r c) fl))" if "n < 32" for n c
    using that by (simp only: sub_fl_def Let_def setAF_def flag_with_flag A_def [symmetric] Bw_def [symmetric]
        B_def [symmetric] r_def [symmetric] snd_conv)
  have umod: "unat (r c) mod 2 ^ w = unat (r c)" for c by (simp add: ur)
  show "flag FLAG_CF (snd (sub_fl a b w c fl)) = (unat a mod 2 ^ w < unat b mod 2 ^ w + of_bool c)"
    by (simp add: fl_eq B_def uA uB)
  show "flag FLAG_ZF (snd (sub_fl a b w c fl)) = (unat (fst (sub_fl a b w c fl)) = 0)"
    "flag FLAG_SF (snd (sub_fl a b w c fl)) = (2 ^ (w - 1) \<le> unat (fst (sub_fl a b w c fl)))"
    "flag FLAG_PF (snd (sub_fl a b w c fl)) = parity8 (fst (sub_fl a b w c fl))"
    using w by (simp_all add: fl_eq setZS_flags fst_eq umod rr)
  show "flag n (snd (sub_fl a b w c fl)) = flag n fl" if "n < 32" "n \<notin> arith_flags"
    using w that by (simp add: fl_eq setZS_flags arith_flags_def)
  have top: "bit A (w - 1) = (2 ^ (w - 1) \<le> unat A)" "bit Bw (w - 1) = (2 ^ (w - 1) \<le> unat Bw)"
    "bit (r False) (w - 1) = (2 ^ (w - 1) \<le> unat (r False))"
    using w by (simp_all only: bit_top uA uB ur mod_less_divisor zero_less_power pos2_nat)
  have "word_of_nat (B False) = Bw" by (simp add: B_def)
  then show "flag FLAG_OF (snd (sub_fl a b w False fl)) =
      (sval w a - sval w b < - (2 ^ (w - 1)) \<or> 2 ^ (w - 1) \<le> sval w a - sval w b)"
  proof -
    assume Bf: "word_of_nat (B False) = Bw"
    define H :: nat where "H = 2 ^ (w - 1)"
    have H2: "2 ^ w = 2 * H" and Hpos: "0 < H" using w by (simp_all only: H_def pow_double zero_less_power pos2_nat)
    have "flag FLAG_OF (snd (sub_fl a b w False fl)) =
        ((H \<le> unat A) \<noteq> (H \<le> unat Bw) \<and> (H \<le> unat A) \<noteq> (H \<le> unat (r False)))"
      using w by (simp only: fl_eq flag_numbers flags_distinct refl if_False if_True Bf sign_bits top H_def)
    also have "\<dots> = (let v = (\<lambda>u. if H \<le> u then int u - 2 * int H else int u); t = v (unat A) - v (unat Bw) in
        t < - int H \<or> int H \<le> t)"
      by (rule sub_overflow_arith) (simp_all add: uA uB ur B_def H2 Hpos)
    also have "\<dots> = (sval w a - sval w b < - int H \<or> int H \<le> sval w a - sval w b)"
      using w by (simp only: sval_cases uA uB Let_def H_def)
    finally show ?thesis by (simp only: H_def of_nat_power of_nat_numeral)
  qed
qed

section \<open>Condition codes after a comparison\<close>

lemma sub_zero_arith:
  fixes A B M :: nat
  assumes "A < M" "B < M"
  shows "(A + M - B) mod M = 0 \<longleftrightarrow> A = B"
  using assms by (cases "B \<le> A") (auto simp: mod_if)

lemma sub_sign_arith:
  fixes A B H :: nat
  assumes "A < 2 * H" "B < 2 * H" "S = (A + 2 * H - B) mod (2 * H)"
  defines "v \<equiv> \<lambda>u. if H \<le> u then int u - 2 * int H else int u"
  shows "((H \<le> S) \<noteq> (v A - v B < - int H \<or> int H \<le> v A - v B)) = (v A < v B)"
    "v A = v B \<longleftrightarrow> A = B"
proof -
  have "S = (if A < B then A + 2 * H - B else A - B)"
    using assms by (auto simp: mod_if)
  with assms(1-2) show "((H \<le> S) \<noteq> (v A - v B < - int H \<or> int H \<le> v A - v B)) = (v A < v B)"
    by (auto simp: v_def split: if_splits)
  show "v A = v B \<longleftrightarrow> A = B" using assms(1,2) by (auto simp: v_def)
qed

lemma cond_codes:
  "cond_fl 0x2 fl = flag FLAG_CF fl" "cond_fl 0x3 fl = (\<not> flag FLAG_CF fl)"
  "cond_fl 0x4 fl = flag FLAG_ZF fl" "cond_fl 0x5 fl = (\<not> flag FLAG_ZF fl)"
  "cond_fl 0x6 fl = (flag FLAG_CF fl \<or> flag FLAG_ZF fl)"
  "cond_fl 0x7 fl = (\<not> (flag FLAG_CF fl \<or> flag FLAG_ZF fl))"
  "cond_fl 0xc fl = (flag FLAG_SF fl \<noteq> flag FLAG_OF fl)"
  "cond_fl 0xd fl = (\<not> (flag FLAG_SF fl \<noteq> flag FLAG_OF fl))"
  "cond_fl 0xe fl = ((flag FLAG_SF fl \<noteq> flag FLAG_OF fl) \<or> flag FLAG_ZF fl)"
  "cond_fl 0xf fl = (\<not> ((flag FLAG_SF fl \<noteq> flag FLAG_OF fl) \<or> flag FLAG_ZF fl))"
  by (auto simp: cond_fl_def Let_def)

lemma cmp_flags:
  assumes w: "0 < w" "w \<le> 32" and fl': "fl' = snd (sub_fl a b w False fl)"
  shows "flag FLAG_CF fl' = (unat a mod 2 ^ w < unat b mod 2 ^ w)"
    and "flag FLAG_ZF fl' = (unat a mod 2 ^ w = unat b mod 2 ^ w)"
    and "(flag FLAG_SF fl' \<noteq> flag FLAG_OF fl') = (sval w a < sval w b)"
    and "(sval w a = sval w b) = (unat a mod 2 ^ w = unat b mod 2 ^ w)"
proof -
  define H :: nat where "H = 2 ^ (w - 1)"
  have H2: "2 ^ w = 2 * H" using w by (simp only: H_def pow_double)
  have bounds: "unat a mod 2 ^ w < 2 * H" "unat b mod 2 ^ w < 2 * H" by (simp_all add: H2 H_def)
  note spec = sub_fl_spec(1-5) [OF w, where a = a and b = b and c = False and fl = fl, folded fl']
    sub_fl_spec(6) [OF w, where a = a and b = b and fl = fl, folded fl']
  show "flag FLAG_CF fl' = (unat a mod 2 ^ w < unat b mod 2 ^ w)" by (simp add: spec(2))
  show "flag FLAG_ZF fl' = (unat a mod 2 ^ w = unat b mod 2 ^ w)"
    unfolding spec(3) spec(1) using sub_zero_arith [OF bounds] by (simp add: H2)
  have sv: "sval w x = (if H \<le> unat x mod 2 ^ w then int (unat x mod 2 ^ w) - 2 * int H else int (unat x mod 2 ^ w))" for x
    using w by (simp only: sval_cases Let_def H_def)
  have iH: "(2 :: int) ^ (w - 1) = int H" by (simp only: H_def of_nat_power of_nat_numeral)
  have S: "unat (fst (sub_fl a b w False fl)) = (unat a mod 2 ^ w + 2 * H - unat b mod 2 ^ w) mod (2 * H)"
    unfolding spec(1) by (simp add: H2)
  show "(flag FLAG_SF fl' \<noteq> flag FLAG_OF fl') = (sval w a < sval w b)"
    unfolding spec(4) spec(6) sv iH H_def [symmetric] by (rule sub_sign_arith(1) [OF bounds S])
  show "(sval w a = sval w b) = (unat a mod 2 ^ w = unat b mod 2 ^ w)"
    unfolding sv by (rule sub_sign_arith(2) [OF bounds S])
qed

section \<open>Registers\<close>

lemma getReg_bits:
  "bit (getReg 8 i s) n = (n < 8 \<and> bit (regs s (i mod 4)) (if i mod 8 < 4 then n else n + 8))"
  "bit (getReg 16 i s) n = (n < 16 \<and> bit (regs s (i mod 8)) n)"
  "getReg 32 i s = regs s (i mod 8)"
proof -
  have i4: "i mod 8 < 4 \<Longrightarrow> i mod 8 = i mod 4" "\<not> i mod 8 < 4 \<Longrightarrow> i mod 8 - 4 = i mod 4" by presburger+
  have m8: "x AND 0xff = take_bit 8 x" for x :: u32 by (simp add: take_bit_eq_mask mask_eq_exp_minus_1)
  have m16: "x AND 0xffff = take_bit 16 x" for x :: u32 by (simp add: take_bit_eq_mask mask_eq_exp_minus_1)
  show "bit (getReg 8 i s) n = (n < 8 \<and> bit (regs s (i mod 4)) (if i mod 8 < 4 then n else n + 8))"
    using i4 by (auto simp: getReg_def Let_def m8 bit_simps add.commute)
  show "bit (getReg 16 i s) n = (n < 16 \<and> bit (regs s (i mod 8)) n)"
    by (auto simp: getReg_def Let_def m16 bit_simps)
  show "getReg 32 i s = regs s (i mod 8)" by (simp add: getReg_def)
qed

text \<open>The bits of EAX..EDI that an operand of a given width and number names.\<close>

definition reg_bits :: "nat \<Rightarrow> nat \<Rightarrow> (nat \<times> nat) set" where
  "reg_bits w i =
     (if w = 8 then {(i mod 4, n + (if i mod 8 < 4 then 0 else 8)) |n. n < 8}
      else {(i mod 8, n) |n. n < w})"

lemma literal_masks:
  "bit (0xffffff00 :: u32) n = (8 \<le> n \<and> n < 32)"
  "bit (0xffff00ff :: u32) n = ((n < 8 \<or> 16 \<le> n) \<and> n < 32)"
  "bit (0xffff0000 :: u32) n = (16 \<le> n \<and> n < 32)"
proof -
  have eqs: "(0xffffff00 :: u32) = NOT (mask 8)" "(0xffff00ff :: u32) = NOT (push_bit 8 (mask 8))"
    "(0xffff0000 :: u32) = NOT (mask 16)"
    by (simp_all add: mask_eq_exp_minus_1 not_eq_complement push_bit_eq_mult)
  show "bit (0xffffff00 :: u32) n = (8 \<le> n \<and> n < 32)" unfolding eqs by (auto simp: bit_simps)
  show "bit (0xffff00ff :: u32) n = ((n < 8 \<or> 16 \<le> n) \<and> n < 32)" unfolding eqs by (auto simp: bit_simps)
  show "bit (0xffff0000 :: u32) n = (16 \<le> n \<and> n < 32)" unfolding eqs by (auto simp: bit_simps)
qed

lemma put_reg_bits:
  assumes "w \<in> {8, 16, 32}" "n < 32"
  shows "bit (regs (put_reg w i v s) r) n =
     (if (r, n) \<in> reg_bits w i
      then bit v (if w = 8 \<and> \<not> i mod 8 < 4 then n - 8 else n) else bit (regs s r) n)"
proof -
  have i4: "i mod 8 < 4 \<Longrightarrow> i mod 8 = i mod 4" "\<not> i mod 8 < 4 \<Longrightarrow> i mod 8 - 4 = i mod 4" by presburger+
  have n8: "(\<exists>m. n = m + 8 \<and> m < 8) = (8 \<le> n \<and> n < 16)" by presburger
  consider "w = 8" "i mod 8 < 4" | "w = 8" "\<not> i mod 8 < 4" | "w = 16" | "w = 32" using assms(1) by blast
  then show ?thesis
  proof cases
    case 1
    with assms(2) i4 show ?thesis
      by (auto simp: put_reg_def Let_def reg_bits_def truncate_take_bit bit_and_iff bit_or_iff bit_take_bit_iff bit_push_bit_iff literal_masks simp del: bit_numeral_word_iff)
  next
    case 2
    with assms(2) i4 show ?thesis
      by (auto simp: put_reg_def Let_def reg_bits_def truncate_take_bit bit_and_iff bit_or_iff bit_take_bit_iff bit_push_bit_iff literal_masks n8 simp del: bit_numeral_word_iff)
  next
    case 3
    with assms(2) show ?thesis
      by (auto simp: put_reg_def Let_def reg_bits_def truncate_take_bit bit_and_iff bit_or_iff bit_take_bit_iff bit_push_bit_iff literal_masks simp del: bit_numeral_word_iff)
  next
    case 4
    with assms(2) show ?thesis
      by (auto simp: put_reg_def Let_def reg_bits_def truncate_take_bit bit_simps)
  qed
qed

text \<open>Bit \<open>n\<close> of an operand register lies in this register of the file, at this bit.\<close>

definition reg_pos :: "nat \<Rightarrow> nat \<Rightarrow> nat \<Rightarrow> nat \<times> nat" where
  "reg_pos w i n = (if w = 8 then (i mod 4, n + (if i mod 8 < 4 then 0 else 8)) else (i mod 8, n))"

lemma reg_bits_pos: "n < w \<Longrightarrow> reg_pos w i n \<in> reg_bits w i"
  by (auto simp: reg_pos_def reg_bits_def)

lemma getReg_pos:
  assumes "w \<in> {8, 16, 32}"
  shows "bit (getReg w i s) n = (n < w \<and> bit (regs s (fst (reg_pos w i n))) (snd (reg_pos w i n)))"
  using assms by (auto simp: getReg_bits reg_pos_def dest: bit_imp_le_length)

lemma put_reg_pos:
  assumes w: "w \<in> {8, 16, 32}" and n: "n < w"
  shows "bit (regs (put_reg w i v s) (fst (reg_pos w i n))) (snd (reg_pos w i n)) = bit v n"
proof -
  have m: "snd (reg_pos w i n) < 32" using w n by (auto simp: reg_pos_def)
  have "(fst (reg_pos w i n), snd (reg_pos w i n)) \<in> reg_bits w i" using reg_bits_pos [OF n] by simp
  then show ?thesis unfolding put_reg_bits [OF w m] by (simp add: reg_pos_def)
qed

lemma put_reg_other:
  assumes w: "w \<in> {8, 16, 32}" and "(r, m) \<notin> reg_bits w i"
  shows "bit (regs (put_reg w i v s) r) m = bit (regs s r) m"
proof (cases "m < 32")
  case True
  then show ?thesis unfolding put_reg_bits [OF w True] using assms(2) by simp
qed (auto dest: bit_imp_le_length)

end
