(* ===== verification/Cpu_Memory.thy ===== *)
theory Cpu_Memory
  imports Cpu_Facts
begin

text \<open>
  What an instruction can do to memory. The locale \<open>store_order\<close> is the interface between the CPU
  and the memory: any preorder on memory states that a byte write respects is respected by every
  instruction of the CPU, provided the syscall layer respects it. It is interpreted with
  well-formedness of the memory and with page protection.
\<close>

named_theorems resp \<open>introduction rules for computations that respect a memory preorder\<close>

locale store_order =
  fixes R :: "mst \<Rightarrow> mst \<Rightarrow> bool"
  assumes R_refl: "R m m"
    and R_trans: "R m m' \<Longrightarrow> R m' m'' \<Longrightarrow> R m m''"
    and R_write8: "R m (snd (write8 a v m))"
begin

definition mresp :: "'a memM \<Rightarrow> bool" where
  "mresp f \<longleftrightarrow> (\<forall>m. R m (snd (f m)))"

definition keeps :: "('k, 'x, 'a) cpuM \<Rightarrow> bool" where
  "keeps f \<longleftrightarrow> (\<forall>s. R (mem s) (mem (snd (f s))))"

lemma mresp_bnd [resp]:
  assumes "mresp f" "\<And>x. mresp (g x)"
  shows "mresp (bnd f g)"
  unfolding mresp_def
proof
  fix m
  obtain r m' where f: "f m = (r, m')" by (cases "f m")
  have "R m m'" using assms(1) f unfolding mresp_def by (metis snd_conv)
  moreover have "R m' (snd (g x m'))" for x using assms(2) unfolding mresp_def by blast
  ultimately show "R m (snd (bnd f g m))"
    using f by (cases r) (auto intro: R_trans)
qed

lemma keeps_bnd [resp]:
  assumes "keeps f" "\<And>x. keeps (g x)"
  shows "keeps (bnd f g)"
  unfolding keeps_def
proof
  fix s
  obtain r s' where f: "f s = (r, s')" by (cases "f s")
  have "R (mem s) (mem s')" using assms(1) f unfolding keeps_def by (metis snd_conv)
  moreover have "R (mem s') (mem (snd (g x s')))" for x using assms(2) by (simp add: keeps_def)
  ultimately show "R (mem s) (mem (snd (bnd f g s)))"
    using f by (cases r) (auto intro: R_trans)
qed

lemma mresp_pure: "(\<And>m. snd (f m) = m) \<Longrightarrow> mresp f"
  by (simp add: mresp_def R_refl)

lemma keeps_pure: "(\<And>s. mem (snd (f s)) = mem s) \<Longrightarrow> keeps f"
  by (simp add: keeps_def R_refl)

lemma mresp_ret [resp]: "mresp (ret x)"
  by (simp add: mresp_pure)

lemma mresp_thn [resp]: "mresp f \<Longrightarrow> mresp g \<Longrightarrow> mresp (thn f g)"
  unfolding thn_def by (intro resp)

lemma mresp_forM [resp]: "(\<And>x. mresp (f x)) \<Longrightarrow> mresp (forM xs f)"
  by (induction xs) (auto intro: resp)

lemma mresp_mapMs [resp]: "(\<And>x. mresp (f x)) \<Longrightarrow> mresp (mapMs xs f)"
  by (induction xs) (auto intro!: resp)

lemma mresp_prod [resp]: "(\<And>a b. mresp (f a b)) \<Longrightarrow> mresp (case p of (a, b) \<Rightarrow> f a b)"
  by (cases p) simp

lemma mresp_accesses [resp]:
  "mresp (write8 a v)" "mresp (read8 a)" "mresp (read8exec a)"
  by (simp add: mresp_def R_write8) (auto intro!: mresp_pure simp: read8_state read8exec_def split: option.splits)

lemma mresp_wide [resp]:
  "mresp (read16 a)" "mresp (read32 a)" "mresp (write16 a v)" "mresp (write32 a v)"
  "mresp (readBytes a n)" "mresp (writeBytes a bs)"
  unfolding read16_def read32_def write16_def write32_def le_read16_def le_read32_def le_write16_def
    le_write32_def readBytes_def writeBytes_def
  by (intro resp)+

lemma keeps_basic [resp]:
  "keeps (ret x)" "keeps (throw e)" "keeps (getS f)"
  by (simp_all add: keeps_pure)

lemma keeps_modS: "(\<And>s. mem (f s) = mem s) \<Longrightarrow> keeps (modS f)"
  by (simp add: keeps_pure)

lemma keeps_thn [resp]: "keeps f \<Longrightarrow> keeps g \<Longrightarrow> keeps (thn f g)"
  unfolding thn_def by (intro resp)

lemma keeps_whenM [resp]: "keeps f \<Longrightarrow> keeps (whenM b f)"
  by (simp add: whenM_def resp)

lemma keeps_if [resp]: "keeps f \<Longrightarrow> keeps g \<Longrightarrow> keeps (if b then f else g)"
  by simp

lemma keeps_prod [resp]: "(\<And>a b. keeps (f a b)) \<Longrightarrow> keeps (case p of (a, b) \<Rightarrow> f a b)"
  by (cases p) simp

lemma keeps_option [resp]:
  "keeps f \<Longrightarrow> (\<And>x. keeps (g x)) \<Longrightarrow> keeps (case v of None \<Rightarrow> f | Some x \<Rightarrow> g x)"
  by (cases v) simp_all

lemma keeps_list [resp]:
  "keeps f \<Longrightarrow> (\<And>x y. keeps (g x y)) \<Longrightarrow> keeps (case v of [] \<Rightarrow> f | x # y \<Rightarrow> g x y)"
  by (cases v) simp_all

lemma keeps_rm [resp]:
  "(\<And>i. keeps (f i)) \<Longrightarrow> (\<And>a b c. keeps (g a b c)) \<Longrightarrow>
   keeps (case r of RmReg i \<Rightarrow> f i | RmMem a b c \<Rightarrow> g a b c)"
  by (cases r) simp_all

lemma keeps_bool [resp]: "keeps f \<Longrightarrow> keeps g \<Longrightarrow> keeps (case b of True \<Rightarrow> f | False \<Rightarrow> g)"
  by (cases b) simp_all

lemma keeps_forM [resp]: "(\<And>x. keeps (f x)) \<Longrightarrow> keeps (forM xs f)"
  by (induction xs) (auto intro: resp)

lemma keeps_memOp [resp]:
  assumes "mresp f"
  shows "keeps (memOp f :: ('k, 'x, 'a) cpuM)"
  unfolding keeps_def
proof
  fix s :: "'k cpu"
  have "R (mem s) (snd (f (mem s)))" using assms unfolding mresp_def by blast
  then show "R (mem s) (mem (snd (memOp f s)))"
    by (auto simp: memOp_def split: prod.splits sum.splits)
qed


text \<open>State changes of the CPU outside memory.\<close>

lemma put_reg_mem [simp]: "mem (put_reg w i v s) = mem s"
  by (simp add: put_reg_def Let_def)

lemma keeps_state [resp]:
  "keeps (setEip a)" "keeps (setFlag n b)" "keeps (setReg w i v)" "keeps (getR r)"
  "keeps (setR r v)" "keeps (setStack g)" "keeps (setXmm r bs)" "keeps (setZS_op w v)"
  "keeps (fpuCompare fo x y)"
  "keeps (modS (\<lambda>s. s\<lparr>fpu_control := c\<rparr>))" "keeps (modS (\<lambda>s. s\<lparr>mxcsr := c\<rparr>))"
  "keeps (modS (\<lambda>s. s\<lparr>sregs := (sregs s)(sg := c)\<rparr>))" "keeps (modS (\<lambda>s. s\<lparr>eflags := c\<rparr>))"
  "keeps (modS (\<lambda>s. s\<lparr>steps := steps s + 1\<rparr>))"
  unfolding setEip_def setFlag_def setReg_def getR_def setR_def setStack_def setXmm_def setZS_op_def fpuCompare_def Let_def
  by (intro keeps_modS keeps_basic; simp)+

lemma keeps_flags [resp]:
  "keeps (onFlags g)" "keeps (alu k a b w)" "keeps (shiftRotate w k v c)" "keeps (cond c)"
  unfolding onFlags_def alu_def shiftRotate_def cond_def
  by (intro keeps_pure; auto split: prod.splits option.splits)+

lemma keeps_arith [resp]:
  "keeps (add_op a b w)" "keeps (sub_op a b w)" "keeps (logic_op v w)"
  unfolding add_op_def sub_op_def logic_op_def by (intro resp)+

lemma keeps_memRead [resp]: "keeps (memRead w a)"
  unfolding memRead_def by (intro resp)

lemma keeps_memWrite [resp]: "keeps (memWrite w a v)"
  unfolding memWrite_def by (intro resp)

lemma keeps_fetch8 [resp]: "keeps fetch8"
  unfolding fetch8_def by (intro resp)

lemma keeps_fetch [resp]:
  "keeps fetch16" "keeps fetch32" "keeps (fetchImm w)"
  unfolding fetch16_def fetch32_def fetchImm_def by (intro resp)+

lemma keeps_fetchSigned [resp]: "keeps (fetchSignedImm w)"
  unfolding fetchSignedImm_def by (intro resp)

lemma keeps_stack [resp]: "keeps (push v w)" "keeps (pop w)"
  unfolding push_def pop_def by (intro resp)+

lemma keeps_prefix_loop: "keeps (prefix_loop n p)"
proof (induction n arbitrary: p)
  case 0
  then show ?case by (simp add: keeps_def prefix_loop.simps R_refl)
next
  case (Suc n)
  have rd: "keeps (memOp (read8exec a) :: ('a, 'b, u8) cpuM)" for a by (intro resp)
  show ?case
    unfolding keeps_def
  proof
    fix s :: "'a cpu"
    obtain r s' where f: "(memOp (read8exec (eip s)) s :: ('b cpu_error + u8) \<times> _) = (r, s')"
      by (cases "memOp (read8exec (eip s)) s :: ('b cpu_error + u8) \<times> _")
    have m: "R (mem s) (mem s')" using rd [of "eip s"] f unfolding keeps_def by (metis snd_conv)
    have "R (mem s') (mem (snd (prefix_loop n p' (s'\<lparr>eip := e\<rparr>) :: ('b cpu_error + prefix) \<times> 'a cpu)))" for p' e
      using Suc.IH [of p', unfolded keeps_def, rule_format, of "s'\<lparr>eip := e\<rparr>"] by simp
    then show "R (mem s) (mem (snd (prefix_loop (Suc n) p s :: ('b cpu_error + prefix) \<times> 'a cpu)))"
      using f m by (subst prefix_loop.simps) (auto intro: R_trans split: sum.splits option.splits)
  qed
qed

lemma keeps_parsePrefixes [resp]: "keeps parsePrefixes"
  unfolding parsePrefixes_def by (rule keeps_prefix_loop)

lemma keeps_mem_operand [resp]: "keeps (mem_operand b md rg p d a)"
  unfolding mem_operand_def Let_def by (intro resp)

lemma keeps_modrm16 [resp]: "keeps (decodeModRM16 b md rg rmNo p)"
  unfolding decodeModRM16_def Let_def by (intro resp)

lemma keeps_sib [resp]: "keeps (decodeSIB md)"
  unfolding decodeSIB_def Let_def by (intro resp)

lemma keeps_modrm [resp]: "keeps (decodeModRM p)"
  unfolding decodeModRM_def Let_def by (intro resp)

lemma keeps_operands [resp]:
  "keeps (getRM w r)" "keeps (setRM w r v)" "keeps (rm_readBytes r n)"
  "keeps (rm_writeBytes r off bs)" "keeps (rm_read n r off)"
  unfolding getRM_def setRM_def rm_readBytes_def rm_writeBytes_def rm_read_def by (intro resp)+

lemma keeps_withM [resp]: "(\<And>rg r. keeps (f rg r)) \<Longrightarrow> keeps (withM p f)"
  unfolding withM_def by (intro resp)

lemma keeps_group1 [resp]: "(\<And>r. keeps (store r)) \<Longrightarrow> keeps (executeGroup1 w g d i store)"
  unfolding executeGroup1_def by (intro resp)

text \<open>String instructions and the x87 subset.\<close>

lemma keeps_string_parts [resp]:
  "keeps (srcRead w p)" "keeps (dstRead w)" "keeps (dstWrite w v)" "keeps (advance r d)" "keeps (repStop p)"
  unfolding srcRead_def dstRead_def dstWrite_def advance_def repStop_def by (intro resp)+

lemma keeps_string_iter [resp]: "keeps (string_iter op w p d)"
  unfolding string_iter_def by (intro resp)

lemma keeps_string_loop [resp]: "keeps body \<Longrightarrow> keeps (string_loop body n i k)"
  by (induction k arbitrary: i) (auto intro!: resp)

lemma keeps_string [resp]: "keeps (handleStringOp op p)"
  unfolding handleStringOp_def Let_def by (intro resp)

lemma keeps_fpu_parts [resp]:
  "keeps (fpuPush v)" "keeps (fpuPop fo)" "keeps (fpuPeek i)" "keeps (x87_error op rg at)"
  "keeps (getFloat32 fo r)" "keeps (getFloat64 r)"
  unfolding fpuPush_def fpuPop_def fpuPeek_def x87_error_def getFloat32_def getFloat64_def by (intro resp)+

lemma keeps_fpu_groups [resp]:
  "keeps (fpu_d9_reg fo b)" "keeps (fpu_arith fo rg v)"
  "keeps bad \<Longrightarrow> keeps (fpu_d9 fo rg r bad)" "keeps bad \<Longrightarrow> keeps (fpu_db fo rg r bad)"
  "keeps bad \<Longrightarrow> keeps (fpu_dd fo rg r bad)" "keeps bad \<Longrightarrow> keeps (fpu_df fo rg r bad)"
  unfolding fpu_d9_reg_def fpu_arith_def fpu_d9_def fpu_db_def fpu_dd_def fpu_df_def Let_def
  by (intro resp; assumption)+

lemma keeps_fpu [resp]: "keeps (handleFPU fo op at p)"
  unfolding handleFPU_def Let_def by (intro resp)

text \<open>Two-byte opcodes.\<close>

lemma keeps_xmm [resp]: "keeps (readXmmOperand r n)" "keeps (writeXmmOperand r n bs)"
  unfolding readXmmOperand_def writeXmmOperand_def by (intro resp)+

lemma keeps_jumpRel [resp]: "keeps (jumpRel d)"
  unfolding jumpRel_def by (intro resp)

lemma keeps_setCO [resp]: "keeps (setCO b)"
  unfolding setCO_def by (intro resp)

lemma keeps_imul_store [resp]: "keeps (imul_store w rg v)"
  unfolding imul_store_def Let_def by (intro resp)

lemma keeps_bitTest [resp]: "keeps (bitTest c w r sel)"
  unfolding bitTest_def Let_def by (intro resp)

lemma keeps_sse [resp]:
  "keeps (op0f_movups op2 p)" "keeps (op0f_ucomis fo p)" "keeps (op0f_xorps p)" "keeps (op0f_movd_to p)"
  "keeps (op0f_movd_from p)" "keeps (op0f_movdq op2 p)" "keeps (op0f_fxsave_group p)"
  unfolding op0f_movups_def op0f_ucomis_def op0f_xorps_def op0f_movd_to_def op0f_movd_from_def
    op0f_movdq_def op0f_fxsave_group_def Let_def
  by (intro resp)+

lemma keeps_0f_ops [resp]:
  "keeps (op0f_shxd l i p)" "keeps (cmpxchg w p)" "keeps (cmpxchg8b p)" "keeps (op0f_bt c p)"
  "keeps (op0f_bt_imm at p)" "keeps op0f_cpuid" "keeps (op0f_imul p)" "keeps (op0f_movx op2 p)"
  "keeps (op0f_xadd p)" "keeps (op0f_bitscan f p)" "keeps (op0f_rdtsc t)"
  unfolding op0f_shxd_def cmpxchg_def cmpxchg8b_def op0f_bt_def op0f_bt_imm_def op0f_cpuid_def
    op0f_imul_def op0f_movx_def op0f_xadd_def op0f_bitscan_def op0f_rdtsc_def Let_def
  by (intro resp)+

text \<open>One-byte opcodes.\<close>

lemma keeps_keepCF [resp]: "keeps f \<Longrightarrow> keeps (keepCF f)"
  unfolding keepCF_def by (intro resp)

lemma keeps_incdec [resp]:
  "(\<And>a b w. keeps (f a b w)) \<Longrightarrow> keeps (op_incdec_reg f r w)"
  "(\<And>a b w. keeps (f a b w)) \<Longrightarrow> keeps (op_incdec_rm f rm w)"
  unfolding op_incdec_reg_def op_incdec_rm_def by (intro resp; assumption)+

lemma keeps_moffs [resp]: "keeps (moffs p)"
  unfolding moffs_def by (intro resp)

lemma keeps_ops1 [resp]:
  "keeps (op_alu op p)" "keeps (op_jcc8 op)" "keeps (op_xchg_eax r)" "keeps op_pusha" "keeps op_popa"
  "keeps (op_imul3 op p)" "keeps (op_group1 op p)" "keeps (op_test w p)" "keeps (op_xchg w p)"
  "keeps (op_mov_store w p)" "keeps (op_mov_load w p)" "keeps (op_mov_sreg op p)" "keeps (op_lea at p)"
  "keeps (op_pop_rm p)" "keeps (op_cbw w)" "keeps (op_cwd w)" "keeps op_sahf" "keeps op_lahf"
  "keeps (op_mov_moffs op p)" "keeps (op_mov_imm op p)" "keeps (op_enter w)" "keeps (op_leave w)"
  "keeps (op_loop op)" "keeps (op_call w)" "keeps (op_ret w)"
  unfolding op_alu_def op_jcc8_def op_xchg_eax_def op_pusha_def op_popa_def op_imul3_def op_group1_def
    op_test_def op_xchg_def op_mov_store_def op_mov_load_def op_mov_sreg_def op_lea_def op_pop_rm_def
    op_cbw_def op_cwd_def op_sahf_def op_lahf_def op_mov_moffs_def op_mov_imm_def op_enter_def
    op_leave_def op_loop_def op_call_def op_ret_def Let_def
  by (intro resp)+

lemma keeps_ops2 [resp]:
  "keeps (op_ret_imm w)" "keeps (op_mul w v)" "keeps (op_imul1 w v)" "keeps (div_store w q r x y lo hi msg)"
  "keeps cnt \<Longrightarrow> keeps (op_shift w p cnt)" "keeps (exec_flags op)"
  unfolding op_ret_imm_def op_mul_def op_imul1_def div_store_def op_shift_def exec_flags_def Let_def
  by (intro resp; assumption)+

lemma keeps_div [resp]: "keeps (op_div w sg v)"
  unfolding op_div_def Let_def by (intro resp)

lemma keeps_groups [resp]: "keeps (op_group3 op p)" "keeps (op_group4 p)" "keeps (op_group5 p)"
  unfolding op_group3_def op_group4_def op_group5_def Let_def by (intro resp)+

lemma keeps_exec_low [resp]: "keeps rest \<Longrightarrow> keeps (exec_low op at p rest)"
  unfolding exec_low_def Let_def by (intro resp)

text \<open>The dispatch, under the hypothesis on the syscall layer.\<close>

definition kernel_keeps :: "('k, 'x) env \<Rightarrow> bool" where
  "kernel_keeps ev \<longleftrightarrow> (\<forall>h. syscalls ev = Some h \<longrightarrow> keeps h)"

lemma keeps_enterKernel: "kernel_keeps ev \<Longrightarrow> keeps (enterKernel ev what)"
  by (auto simp: kernel_keeps_def enterKernel_def intro: resp split: option.splits)

lemma keeps_handle0F:
  assumes "kernel_keeps ev"
  shows "keeps (handle0F ev op2 at p)"
  unfolding handle0F_def op0f_misc_def Let_def by (intro resp keeps_enterKernel assms)

lemma keeps_exec_high:
  assumes "kernel_keeps ev"
  shows "keeps (exec_high ev op at p)"
  unfolding exec_high_def op_int_def Let_def by (intro resp keeps_enterKernel keeps_handle0F assms)

lemma keeps_step:
  assumes "kernel_keeps ev"
  shows "keeps (step ev)"
  unfolding step_def exec_def Let_def by (intro resp keeps_exec_high assms)

lemma step_R:
  assumes "kernel_keeps ev" "step ev s = (r, s')"
  shows "R (mem s) (mem s')"
  using keeps_step [OF assms(1)] assms(2) unfolding keeps_def by (metis snd_conv)

end

end
