(* ===== verification/Cpu_Safety.thy ===== *)
theory Cpu_Safety
  imports Cpu_Memory
begin

text \<open>
  Safety of the interpreter: whatever bytes a guest executes, an instruction keeps the memory
  well-formed, respects page protection, and stays inside its process. Each is an interpretation of
  the locale \<open>store_order\<close> with a preorder on memory states.
\<close>

section \<open>Page protection\<close>

definition protected_step :: "mst \<Rightarrow> mst \<Rightarrow> bool" where
  "protected_step m m' \<longleftrightarrow> (mem_wf m \<longrightarrow> mem_wf m' \<and>
     (\<forall>a. map_option snd (byte_at m' a) = map_option snd (byte_at m a)) \<and>
     (\<forall>a b p. byte_at m a = Some (b, p) \<and> p AND PERM_W \<noteq> PERM_W \<longrightarrow> byte_at m' a = Some (b, p)))"

lemma protected_write8: "protected_step m (snd (write8 a v m))"
proof (cases "\<exists>b p. byte_at m a = Some (b, p) \<and> p AND PERM_W = PERM_W")
  case False
  then have "write8 a v m = (Inl (MemoryFault a ''write''), m)" by (intro write8_fault) blast
  then show ?thesis by (simp add: protected_step_def)
next
  case True
  then obtain b p where bp: "byte_at m a = Some (b, p)" "p AND PERM_W = PERM_W" by blast
  show ?thesis
    unfolding protected_step_def
  proof
    assume "mem_wf m"
    then obtain m' where m': "write8 a v m = (Inr (), m')" "mem_wf m'" "byte_at m' = (byte_at m)(a \<mapsto> (ucast v, p))"
      using write8_ok bp by metis
    then show "mem_wf (snd (write8 a v m)) \<and>
       (\<forall>x. map_option snd (byte_at (snd (write8 a v m)) x) = map_option snd (byte_at m x)) \<and>
       (\<forall>x b p. byte_at m x = Some (b, p) \<and> p AND PERM_W \<noteq> PERM_W \<longrightarrow>
          byte_at (snd (write8 a v m)) x = Some (b, p))"
      using bp by auto
  qed
qed

interpretation protect: store_order protected_step
proof
  show "protected_step m m" for m by (simp add: protected_step_def)
  show "protected_step m (snd (write8 a v m))" for m a v by (rule protected_write8)
  fix m m' m''
  assume mm: "protected_step m m'" "protected_step m' m''"
  show "protected_step m m''"
    unfolding protected_step_def
  proof
    assume "mem_wf m"
    then have 1: "mem_wf m'" "\<forall>a. map_option snd (byte_at m' a) = map_option snd (byte_at m a)"
      "\<forall>a b p. byte_at m a = Some (b, p) \<and> p AND PERM_W \<noteq> PERM_W \<longrightarrow> byte_at m' a = Some (b, p)"
      using mm(1) unfolding protected_step_def by blast+
    then have 2: "mem_wf m''" "\<forall>a. map_option snd (byte_at m'' a) = map_option snd (byte_at m' a)"
      "\<forall>a b p. byte_at m' a = Some (b, p) \<and> p AND PERM_W \<noteq> PERM_W \<longrightarrow> byte_at m'' a = Some (b, p)"
      using mm(2) unfolding protected_step_def by blast+
    show "mem_wf m'' \<and> (\<forall>a. map_option snd (byte_at m'' a) = map_option snd (byte_at m a)) \<and>
       (\<forall>a b p. byte_at m a = Some (b, p) \<and> p AND PERM_W \<noteq> PERM_W \<longrightarrow> byte_at m'' a = Some (b, p))"
      using 1 2 by metis
  qed
qed

section \<open>Process isolation\<close>

text \<open>
  \<open>local_step m m'\<close>: in any world where some process has memory \<open>m\<close>, replacing it by \<open>m'\<close> keeps the
  invariant and every other process's bytes.
\<close>

definition in_world :: "nat \<Rightarrow> world \<Rightarrow> mst \<Rightarrow> world" where
  "in_world i w m = (fst m, (snd w)[i := snd m])"

definition local_step :: "mst \<Rightarrow> mst \<Rightarrow> bool" where
  "local_step m m' \<longleftrightarrow> (\<forall>k w i. world_inv k (in_world i w m) \<and> i < length (snd w) \<longrightarrow>
     world_inv k (in_world i w m') \<and>
     (\<forall>j < length (snd w). j \<noteq> i \<longrightarrow> contents (in_world i w m') j = contents (in_world i w m) j))"

lemma in_world_simps [simp]:
  "fst (in_world i w m) = fst m" "length (snd (in_world i w m)) = length (snd w)"
  "i < length (snd w) \<Longrightarrow> snd (in_world i w m) ! i = snd m"
  "in_world i (in_world i w m) m' = in_world i w m'"
  by (simp_all add: in_world_def)

lemma run_in_world:
  "i < length (snd w) \<Longrightarrow> run_in i f (in_world i w m) = in_world i w (snd (f m))"
  by (simp add: run_in_def in_world_def split: prod.splits)

lemma local_write8: "local_step m (snd (write8 a v m))"
  unfolding local_step_def
proof (intro allI impI)
  fix k w i
  assume w: "world_inv k (in_world i w m) \<and> i < length (snd w)"
  then show "world_inv k (in_world i w (snd (write8 a v m))) \<and>
     (\<forall>j < length (snd w). j \<noteq> i \<longrightarrow> contents (in_world i w (snd (write8 a v m))) j = contents (in_world i w m) j)"
    using isolatedD [OF write8_isolated [of k a v], of "in_world i w m" i] by (simp add: run_in_world)
qed

interpretation local: store_order local_step
proof
  show "local_step m m" for m by (simp add: local_step_def)
  show "local_step m (snd (write8 a v m))" for m a v by (rule local_write8)
  show "local_step m m''" if "local_step m m'" "local_step m' m''" for m m' m''
    using that unfolding local_step_def by (metis (no_types, lifting))
qed

section \<open>Example machine\<close>

text \<open>
  A machine with 16-byte pages: code at 16 (read and execute), data at 32 (read and write), constants
  at 48 (read only), a stack at 64 (read and write).
\<close>

definition demo_memory :: "u8 list \<Rightarrow> mst" where
  "demo_memory code =
     ([(new_Page 16 5)\<lparr>pdata := take 16 (code @ replicate 16 0x90)\<rparr>, new_Page 16 3, new_Page 16 1, new_Page 16 3],
      \<lparr>pageSize = 16, pageShift = 4, pageMask = 15, pages = [(1, 0), (2, 1), (3, 2), (4, 3)], nameMap = [],
       onWrite = None, nextMmap = 0x70000000\<rparr>)"

definition demo_cpu :: "u8 list \<Rightarrow> (nat \<Rightarrow> u32) \<Rightarrow> unit cpu" where
  "demo_cpu code rs = (new_CPU (demo_memory code) () 16)\<lparr>regs := rs\<rparr>"

definition demo_fops :: fpu_ops where
  "demo_fops =
     \<lparr>f_of_f32 = ucast, f_to_f32 = ucast, f_of_int = word_of_int, f_trunc = (\<lambda>x. Some (sint x)),
      f_add = (+), f_sub = (-), f_mul = (*), f_div = (\<lambda>x y. x div y), f_max = max, f_sqrt = id,
      f_lt = (<), f_eq = (=), f_isNaN = (\<lambda>_. False), f_NaN = 0, f_PI = 3, f_log10_2 = 0\<rparr>"

definition demo_env :: "(unit, unit) env" where
  "demo_env = \<lparr>fops = demo_fops, syscalls = None, now = 0\<rparr>"

lemma demo_wf: "mem_wf (demo_memory code)"
  by (auto simp: demo_memory_def mem_wf_def shape_ok_def pages_ok_def store_ok_def jsmap_wf_def
      mask_eq_exp_minus_1 min_def)

section \<open>Properties\<close>



text \<open>
  An instruction stays in its process. If process \<open>i\<close> of a world of processes with copy-on-write
  shared pages executes any instruction, the bytes of every other process are unchanged and the
  reference counts stay consistent.
\<close>

theorem step_isolated_process:
  assumes "world_inv k w" "i < length (snd w)" "mem s = (fst w, snd w ! i)" "step ev s = (r, s')"
    "\<forall>h. syscalls ev = Some h \<longrightarrow> (\<forall>t. local_step (mem t) (mem (snd (h t))))"
  shows "world_inv k (in_world i w (mem s')) \<and>
     (\<forall>j < length (snd w). j \<noteq> i \<longrightarrow> contents (in_world i w (mem s')) j = contents w j)"
proof -
  have "local.kernel_keeps ev"
    using assms(5) by (simp add: local.kernel_keeps_def local.keeps_def)
  then have loc: "local_step (mem s) (mem s')" using assms(4) by (rule local.step_R)
  have "in_world i w (mem s) = w" using assms(2,3) by (simp add: in_world_def)
  then show ?thesis using loc assms(1,2) unfolding local_step_def by metis
qed

theorem step_isolated_process_witness:
  "\<exists>s. mem s = (fst (fork_in 0 tiny_world), snd (fork_in 0 tiny_world) ! 1) \<and>
     contents (in_world 1 (fork_in 0 tiny_world) (mem (snd (step demo_env s)))) 0 16 = Some 0"
proof -
  let ?w = "fork_in 0 tiny_world"
  have len: "length (snd ?w) = 2"
    using fork_in_isolated(2) [OF tiny_world_inv, of 0] by (simp add: tiny_world_def)
  have inv: "world_inv 4 ?w" by (rule fork_in_isolated(1) [OF tiny_world_inv]) (simp add: tiny_world_def)
  define s :: "unit cpu" where "s = new_CPU (fst ?w, snd ?w ! 1) () 16"
  have m: "mem s = (fst ?w, snd ?w ! 1)" by (simp add: s_def new_CPU_def)
  obtain r s' where st: "step demo_env s = (r, s')" by (cases "step demo_env s")
  have "contents (in_world 1 ?w (mem s')) 0 = contents ?w 0"
    using step_isolated_process [OF inv _ m st] len by (simp add: demo_env_def)
  also have "contents ?w 0 16 = contents tiny_world 0 16"
    using fork_in_isolated(3) [OF tiny_world_inv, of 0 0] by (simp add: tiny_world_def)
  moreover have "contents tiny_world 0 16 = Some 0"
    by (simp add: contents_def tiny_world_def byte_at_def tiny_memory_def pageNo_def pageOff_def)
  ultimately show ?thesis using m st by (metis snd_conv)
qed

end
