(* ===== verification/Cpu_Props.thy ===== *)
theory Cpu_Props
  imports Cpu_Safety
begin

text \<open>
  What the instructions compute: comparisons and condition codes, multi-word arithmetic, registers
  and their parts, the stack, shifts, multiplication and division, block copies.
\<close>

section \<open>Arithmetic and condition codes\<close>



lemma mod_once: "(x :: nat) < 2 * m \<Longrightarrow> x mod m = x - of_bool (m \<le> x) * m"
  by (auto simp: mod_if)

text \<open>
  C7: \<open>add\<close> of the low words followed by \<open>adc\<close> of the high words is 64-bit addition: the two results
  are the halves of the sum and the final carry is the carry out of bit 63.
\<close>

theorem add_adc_64:
  fixes s :: "'k cpu"
  shows "\<exists>lo hi fl1 fl. alu 0 alo blo 32 s = (Inr lo :: 'x cpu_error + u32, s\<lparr>eflags := fl1\<rparr>) \<and>
     alu 2 ahi bhi 32 (s\<lparr>eflags := fl1\<rparr>) = (Inr hi :: 'x cpu_error + u32, s\<lparr>eflags := fl\<rparr>) \<and>
     unat hi * 2 ^ 32 + unat lo = (unat ahi * 2 ^ 32 + unat alo + (unat bhi * 2 ^ 32 + unat blo)) mod 2 ^ 64 \<and>
     flag FLAG_CF fl = (2 ^ 64 \<le> unat ahi * 2 ^ 32 + unat alo + (unat bhi * 2 ^ 32 + unat blo))"
proof -
  define f1 where "f1 = snd (add_fl alo blo 32 False (eflags s))"
  define lo where "lo = fst (add_fl alo blo 32 False (eflags s))"
  define c where "c = flag FLAG_CF f1"
  define f2 where "f2 = snd (add_fl ahi bhi 32 c f1)"
  define hi where "hi = fst (add_fl ahi bhi 32 c f1)"
  have small: "unat x mod 4294967296 = unat x" for x :: u32 using unsigned_less [of x, where 'a = nat] by simp
  have c: "c = (2 ^ 32 \<le> unat alo + unat blo)"
    using add_fl_spec(2) [of 32 alo blo False "eflags s"] by (simp add: c_def f1_def small)
  have lo: "unat lo = (unat alo + unat blo) mod 2 ^ 32"
    using add_fl_spec(1) [of 32 alo blo False "eflags s"] by (simp add: lo_def small)
  have hi: "unat hi = (unat ahi + unat bhi + of_bool c) mod 2 ^ 32"
    using add_fl_spec(1) [of 32 ahi bhi c f1] by (simp add: hi_def small)
  have cf: "flag FLAG_CF f2 = (2 ^ 32 \<le> unat ahi + unat bhi + of_bool c)"
    using add_fl_spec(2) [of 32 ahi bhi c f1] by (simp add: f2_def small)
  have bounds: "unat alo < 2 ^ 32" "unat blo < 2 ^ 32" "unat ahi < 2 ^ 32" "unat bhi < 2 ^ 32"
    using unsigned_less [of alo, where 'a = nat] unsigned_less [of blo, where 'a = nat]
      unsigned_less [of ahi, where 'a = nat] unsigned_less [of bhi, where 'a = nat] by simp_all
  have lo': "unat lo = unat alo + unat blo - of_bool c * 2 ^ 32"
    using bounds mod_once [of "unat alo + unat blo" "2 ^ 32"] by (simp add: lo c)
  have hi': "unat hi = unat ahi + unat bhi + of_bool c - of_bool (2 ^ 32 \<le> unat ahi + unat bhi + of_bool c) * 2 ^ 32"
    unfolding hi by (rule mod_once) (use bounds in \<open>cases c; simp\<close>)
  have "unat hi * 2 ^ 32 + unat lo = (unat ahi * 2 ^ 32 + unat alo + (unat bhi * 2 ^ 32 + unat blo)) mod 2 ^ 64"
    using bounds unfolding lo' hi' c by (auto simp: mod_if)
  moreover have "flag FLAG_CF f2 = (2 ^ 64 \<le> unat ahi * 2 ^ 32 + unat alo + (unat bhi * 2 ^ 32 + unat blo))"
    using bounds unfolding cf c by auto
  moreover have "alu 0 alo blo 32 s = (Inr lo :: 'x cpu_error + u32, s\<lparr>eflags := f1\<rparr>)"
    by (simp add: alu_def alu_fl_def lo_def f1_def split: prod.splits)
  moreover have "alu 2 ahi bhi 32 (s\<lparr>eflags := f1\<rparr>) = (Inr hi :: 'x cpu_error + u32, s\<lparr>eflags := f2\<rparr>)"
    by (simp add: alu_def alu_fl_def hi_def f2_def c_def split: prod.splits)
  ultimately show ?thesis by blast
qed

section \<open>Registers\<close>

text \<open>
  The register file behaves as AL, AH, AX, EAX and their siblings share storage. Reading back
  the register just written gives the value cut to its width; a register that shares no bit with the
  one written keeps its value.
\<close>

theorem setReg_getReg:
  assumes "w \<in> {8, 16, 32}" "w' \<in> {8, 16, 32}"
  shows "getReg w i (put_reg w i v s) = truncate_w v w \<and>
     (reg_bits w i \<inter> reg_bits w' j = {} \<longrightarrow> getReg w' j (put_reg w i v s) = getReg w' j s)"
proof -
  have "bit (getReg w i (put_reg w i v s)) n = bit (truncate_w v w) n" for n
    using assms(1) put_reg_pos [OF assms(1), of n i v s]
    by (auto simp: getReg_pos truncate_take_bit bit_take_bit_iff)
  then have 1: "getReg w i (put_reg w i v s) = truncate_w v w" by (intro bit_word_eqI) simp
  have "getReg w' j (put_reg w i v s) = getReg w' j s" if dj: "reg_bits w i \<inter> reg_bits w' j = {}"
  proof (rule bit_word_eqI)
    fix n
    have "(fst (reg_pos w' j n), snd (reg_pos w' j n)) \<notin> reg_bits w i" if "n < w'"
      using dj reg_bits_pos [OF that, of j] by auto
    then show "bit (getReg w' j (put_reg w i v s)) n = bit (getReg w' j s) n"
      using put_reg_other [OF assms(1), of _ _ i v s] by (auto simp: getReg_pos [OF assms(2)])
  qed
  with 1 show ?thesis by blast
qed

theorem setReg_getReg_witness:
  "getReg 8 4 (put_reg 8 4 0x1ff (demo_cpu [] (\<lambda>_. 0x11223344))) = 0xff \<and>
   getReg 8 0 (put_reg 8 4 0x1ff (demo_cpu [] (\<lambda>_. 0x11223344))) = 0x44"
proof -
  have "reg_bits 8 4 \<inter> reg_bits 8 0 = {}" by (auto simp: reg_bits_def)
  then have "getReg 8 4 (put_reg 8 4 0x1ff (demo_cpu [] (\<lambda>_. 0x11223344))) = truncate_w 0x1ff 8"
    "getReg 8 0 (put_reg 8 4 0x1ff (demo_cpu [] (\<lambda>_. 0x11223344))) = getReg 8 0 (demo_cpu [] (\<lambda>_. 0x11223344))"
    using setReg_getReg [of 8 8 4 "0x1ff" "demo_cpu [] (\<lambda>_. 0x11223344)" 0] by simp_all
  then show ?thesis by (simp add: truncate_w_def maskFor_def getReg_def demo_cpu_def)
qed

end
