(* ===== verification/Cpu_Block.thy ===== *)
theory Cpu_Block
  imports Cpu_Props
begin

text \<open>
  Instructions over memory: procedure calls and block copies, on the abstract view of memory as bytes
  with permissions.
\<close>

section \<open>Memory accesses of the CPU\<close>

lemma memOp_ok: "f (mem s) = (Inr x, m) \<Longrightarrow> memOp f s = (Inr x, s\<lparr>mem := m\<rparr>)"
  by (simp add: memOp_def)

lemma memOp_err: "f (mem s) = (Inl e, m) \<Longrightarrow> memOp f s = (Inl (CpuFault e), s\<lparr>mem := m\<rparr>)"
  by (simp add: memOp_def)

lemma read8_ok:
  "byte_at (mem s) a = Some (b, p) \<Longrightarrow> p AND PERM_R = PERM_R \<Longrightarrow> memOp (read8 a) s = (Inr b, s)"
  by (simp add: memOp_def read8_byte_at)

section \<open>Calls\<close>

text \<open>
  C9: a near call and the return from it. If the four bytes below the stack pointer are readable and
  writable, \<open>call\<close> jumps to the displaced address with the return address pushed, and \<open>ret\<close> from
  there comes back to the instruction after the call with every register as it was; memory differs
  from before only in those four bytes.
\<close>

theorem call_ret:
  fixes s :: "'k cpu"
  assumes fetch: "(fetch32 :: ('k, 'x, u32) cpuM) s = (Inr d, s1)" and wf: "mem_wf (mem s1)"
    and sp: "sp = regs s1 REG_ESP"
    and stack: "mapped_with (mem s1) PERM_RW {sp - 4, sp - 4 + 1, sp - 4 + 2, sp - 4 + 3}"
  shows "\<exists>s2 s3. (op_call 32 :: ('k, 'x, unit) cpuM) s = (Inr (), s2) \<and> eip s2 = eip s1 + d \<and>
     regs s2 = (regs s1)(REG_ESP := sp - 4) \<and>
     (op_ret 32 :: ('k, 'x, unit) cpuM) s2 = (Inr (), s3) \<and> eip s3 = eip s1 \<and> regs s3 = regs s1 \<and>
     eflags s3 = eflags s1 \<and> mem_wf (mem s3) \<and>
     (\<forall>a. a \<notin> {sp - 4, sp - 3, sp - 2, sp - 1} \<longrightarrow> byte_at (mem s3) a = byte_at (mem s1) a)"
proof -
  obtain m where m: "write32 (sp - 4) (eip s1) (mem s1) = (Inr (), m)" "mem_wf m"
    "read32 (sp - 4) m = (Inr (eip s1), m)"
    "guest.same_except {sp - 4, sp - 4 + 1, sp - 4 + 2, sp - 4 + 3} (mem s1) m"
    unfolding write32_def read32_def
    using guest.le32_roundtrip [OF wf mapped_RW(2,1) [OF stack], of "eip s1"] by blast
  define s2 where "s2 = s1\<lparr>regs := (regs s1)(REG_ESP := sp - 4), mem := m, eip := eip s1 + d\<rparr>"
  define s3 where "s3 = s2\<lparr>regs := regs s1, eip := eip s1\<rparr>"
  have "(op_call 32 :: ('k, 'x, unit) cpuM) s = (Inr (), s2)"
    using fetch m(1) sp
    by (simp add: op_call_def push_def getR_def setR_def memOp_def jumpRel_def setEip_def sign32_def s2_def)
  moreover have "(op_ret 32 :: ('k, 'x, unit) cpuM) s2 = (Inr (), s3)"
    using m(3) sp by (simp add: op_ret_def pop_def getR_def setR_def memOp_def setEip_def s2_def s3_def)
  moreover have "byte_at m a = byte_at (mem s1) a" if "a \<notin> {sp - 4, sp - 3, sp - 2, sp - 1}" for a
    using that guest_same_exceptD [OF m(4), of a] by simp
  ultimately show ?thesis using m(2) by (auto simp: s2_def s3_def)
qed

theorem call_ret_witness:
  "\<exists>s2 s3. (op_call 32 :: (unit, unit, unit) cpuM) (demo_cpu [8, 0, 0, 0] (\<lambda>_. 72)) = (Inr (), s2) \<and>
     (op_ret 32 :: (unit, unit, unit) cpuM) s2 = (Inr (), s3) \<and> eip s2 = 28 \<and> eip s3 = 20 \<and> regs s3 REG_ESP = 72"
proof -
  let ?s = "demo_cpu [8, 0, 0, 0] (\<lambda>_. 72)"
  let ?s1 = "?s\<lparr>eip := 20\<rparr>"
  have m: "mem ?s = demo_memory [8, 0, 0, 0]" "eip ?s = 16" "regs ?s = (\<lambda>_. 72)"
    by (simp_all add: demo_cpu_def new_CPU_def)
  have rd: "read8exec a (mem t) = (Inr b, mem t)"
    if "mem t = demo_memory [8, 0, 0, 0]" "(a, b) \<in> {(16, 8), (17, 0), (18, 0), (19, 0)}" for t :: "unit cpu" and a b
    using that by (auto simp: read8exec_def demo_memory_def pageNo_def pageOff_def perm_defs)
  have f8: "(fetch8 :: (unit, unit, u32) cpuM) t = (Inr (ucast b), t\<lparr>eip := a + 1\<rparr>)"
    if "mem t = demo_memory [8, 0, 0, 0]" "eip t = a" "(a, b) \<in> {(16, 8), (17, 0), (18, 0), (19, 0)}" for t and a :: u32 and b :: u8
    using rd [OF that(1,3)] that(2) by (simp add: fetch8_def memOp_ok setEip_def)
  have fetch: "(fetch32 :: (unit, unit, u32) cpuM) ?s = (Inr 8, ?s1)"
    using f8 [of ?s 16 8] f8 [of "?s\<lparr>eip := 17\<rparr>" 17 0] f8 [of "?s\<lparr>eip := 18\<rparr>" 18 0] f8 [of "?s\<lparr>eip := 19\<rparr>" 19 0]
    by (simp add: fetch32_def m)
  have "mapped_with (mem ?s1) PERM_RW {72 - 4, 72 - 4 + 1, 72 - 4 + 2, 72 - 4 + 3}"
    by (simp add: m mapped_with_def demo_memory_def byte_at_def pageNo_def pageOff_def perm_defs)
  moreover have "mem_wf (mem ?s1)" by (simp add: m demo_wf)
  ultimately show ?thesis
    using call_ret [OF fetch, of 72] by (auto simp: m)
qed

section \<open>Block copies\<close>

definition src_addr :: "prefix \<Rightarrow> 'k cpu \<Rightarrow> u32" where
  "src_addr p s = regs s REG_ESI + segBase s (dataSeg p)"

definition dst_addr :: "'k cpu \<Rightarrow> u32" where
  "dst_addr s = regs s REG_EDI + segBase s ES"

definition bump :: "nat \<Rightarrow> 'k cpu \<Rightarrow> 'k cpu" where
  "bump n s = s\<lparr>regs := (regs s)(REG_ESI := regs s REG_ESI + word_of_nat n, REG_EDI := regs s REG_EDI + word_of_nat n)\<rparr>"

lemma movsb_iter:
  fixes s :: "'k cpu"
  assumes wf: "mem_wf (mem s)"
    and src: "byte_at (mem s) (src_addr p s) = Some (b, q)" "q AND PERM_R = PERM_R"
    and dst: "byte_at (mem s) (dst_addr s) = Some (b', q')" "q' AND PERM_W = PERM_W"
  shows "\<exists>m. (string_iter 0xa4 8 p 1 :: ('k, 'x, bool) cpuM) s = (Inr False, (bump 1 s)\<lparr>mem := m\<rparr>) \<and> mem_wf m \<and>
     byte_at m = (byte_at (mem s))(dst_addr s \<mapsto> (b, q'))"
proof -
  obtain m where m: "write8 (dst_addr s) (ucast b) (mem s) = (Inr (), m)" "mem_wf m"
    "byte_at m = (byte_at (mem s))(dst_addr s \<mapsto> (ucast (ucast b :: u32), q'))"
    using write8_ok [OF wf dst] by blast
  have uu: "ucast (ucast b :: u32) = b" by (rule bit_word_eqI) (simp add: bit_simps)
  have ne: "REG_ESI \<noteq> REG_EDI" by (simp add: reg_defs)
  have "(string_iter 0xa4 8 p 1 :: ('k, 'x, bool) cpuM) s = (Inr False, (bump 1 s)\<lparr>mem := m\<rparr>)"
    using src m(1) ne
    by (simp add: string_iter_def srcRead_def dstWrite_def applySeg_def memRead_def memWrite_def
        read8_ok memOp_ok advance_def getR_def setR_def bump_def src_addr_def dst_addr_def fun_upd_twist)
  with m uu show ?thesis by (intro exI [of _ m]) simp
qed

text \<open>A source range that stays readable and a destination that stays writable while bytes are copied.\<close>

definition copyable :: "mst \<Rightarrow> u32 \<Rightarrow> u32 \<Rightarrow> nat \<Rightarrow> bool" where
  "copyable m S D n \<longleftrightarrow>
     (\<forall>i < n. \<exists>b q. byte_at m (S + word_of_nat i) = Some (b, q) \<and> q AND PERM_R = PERM_R) \<and>
     (\<forall>i < n. \<exists>b q. byte_at m (D + word_of_nat i) = Some (b, q) \<and> q AND PERM_W = PERM_W) \<and>
     (\<forall>i < n. \<forall>j < n. S + word_of_nat i \<noteq> D + word_of_nat j)"

definition copied :: "mst \<Rightarrow> u32 \<Rightarrow> u32 \<Rightarrow> nat \<Rightarrow> mst \<Rightarrow> bool" where
  "copied m S D n m' \<longleftrightarrow>
     (\<forall>i < n. map_option fst (byte_at m' (D + word_of_nat i)) = map_option fst (byte_at m (S + word_of_nat i))) \<and>
     (\<forall>a. (\<forall>i < n. a \<noteq> D + word_of_nat i) \<longrightarrow> byte_at m' a = byte_at m a) \<and>
     (\<forall>a. map_option snd (byte_at m' a) = map_option snd (byte_at m a))"

lemma word_nat_inj: "i < 2 ^ 32 \<Longrightarrow> j < 2 ^ 32 \<Longrightarrow> (word_of_nat i :: u32) = word_of_nat j \<longleftrightarrow> i = j"
  by (simp add: word_of_nat_eq_iff take_bit_nat_eq_self)

lemma bump_bump: "bump n ((bump 1 s)\<lparr>mem := m\<rparr>) = (bump (Suc n) s)\<lparr>mem := m\<rparr>"
  by (simp add: bump_def reg_defs fun_eq_iff add.assoc)

lemma bump_addr:
  "src_addr p ((bump n s)\<lparr>mem := m\<rparr>) = src_addr p s + word_of_nat n"
  "dst_addr ((bump n s)\<lparr>mem := m\<rparr>) = dst_addr s + word_of_nat n"
  by (simp_all add: src_addr_def dst_addr_def bump_def reg_defs)

lemma copyable_first:
  assumes "copyable m S D (Suc n)"
  shows "\<exists>b q. byte_at m S = Some (b, q) \<and> q AND PERM_R = PERM_R"
    "\<exists>b q. byte_at m D = Some (b, q) \<and> q AND PERM_W = PERM_W"
proof -
  have "\<exists>b q. byte_at m (S + word_of_nat 0) = Some (b, q) \<and> q AND PERM_R = PERM_R"
    "\<exists>b q. byte_at m (D + word_of_nat 0) = Some (b, q) \<and> q AND PERM_W = PERM_W"
    using assms unfolding copyable_def by blast+
  then show "\<exists>b q. byte_at m S = Some (b, q) \<and> q AND PERM_R = PERM_R"
    "\<exists>b q. byte_at m D = Some (b, q) \<and> q AND PERM_W = PERM_W" by simp_all
qed

lemma copyable_step:
  assumes c: "copyable m S D (Suc n)" and n: "Suc n \<le> 2 ^ 32"
    and b: "byte_at m S = Some (b, q)" and d: "byte_at m D = Some (b', q')"
    and m': "byte_at m' = (byte_at m)(D \<mapsto> (b, q'))"
  shows "copyable m' (S + 1) (D + 1) n"
    and "copied m' (S + 1) (D + 1) n m'' \<Longrightarrow> copied m S D (Suc n) m''"
proof -
  have s1: "x + 1 + word_of_nat i = x + word_of_nat (Suc i)" for x :: u32 and i by (simp add: add.assoc)
  have c1: "\<exists>b q. byte_at m (S + word_of_nat i) = Some (b, q) \<and> q AND PERM_R = PERM_R"
    and c2: "\<exists>b q. byte_at m (D + word_of_nat i) = Some (b, q) \<and> q AND PERM_W = PERM_W" if "i < Suc n" for i
    using c that unfolding copyable_def by blast+
  have c3: "S + word_of_nat i \<noteq> D + word_of_nat j" if "i < Suc n" "j < Suc n" for i j
    using c that unfolding copyable_def by blast
  have src_ne: "S + word_of_nat i \<noteq> D" if "i < Suc n" for i
    using c3 [OF that, of 0] by simp
  have dst_ne: "D + word_of_nat (Suc i) \<noteq> D" if "i < n" for i
    using word_nat_inj [of "Suc i" 0] that n by simp
  have e1: "byte_at m' (S + 1 + word_of_nat i) = byte_at m (S + word_of_nat (Suc i))" if "i < n" for i
    using that src_ne [of "Suc i"] unfolding s1 m' by (simp del: of_nat_Suc)
  have e2: "byte_at m' (D + 1 + word_of_nat i) = byte_at m (D + word_of_nat (Suc i))" if "i < n" for i
    using that dst_ne [of i] unfolding s1 m' by (simp del: of_nat_Suc)
  show "copyable m' (S + 1) (D + 1) n"
    unfolding copyable_def
  proof (intro conjI allI impI)
    fix i
    assume i: "i < n"
    show "\<exists>b q. byte_at m' (S + 1 + word_of_nat i) = Some (b, q) \<and> q AND PERM_R = PERM_R"
      unfolding e1 [OF i] using i by (intro c1) simp
    show "\<exists>b q. byte_at m' (D + 1 + word_of_nat i) = Some (b, q) \<and> q AND PERM_W = PERM_W"
      unfolding e2 [OF i] using i by (intro c2) simp
    show "S + 1 + word_of_nat i \<noteq> D + 1 + word_of_nat j" if "j < n" for j
      unfolding s1 using i that by (intro c3) simp_all
  qed
  assume cp: "copied m' (S + 1) (D + 1) n m''"
  have "map_option fst (byte_at m'' (D + word_of_nat i)) = map_option fst (byte_at m (S + word_of_nat i))"
    if "i < Suc n" for i
  proof (cases i)
    case 0
    have "\<forall>j < n. D \<noteq> D + 1 + word_of_nat j" unfolding s1 using dst_ne by (simp del: of_nat_Suc)
    then have "byte_at m'' D = byte_at m' D" using cp unfolding copied_def by blast
    with 0 b m' show ?thesis by simp
  next
    case (Suc j)
    then have j: "j < n" using that by simp
    then have "map_option fst (byte_at m'' (D + 1 + word_of_nat j)) = map_option fst (byte_at m' (S + 1 + word_of_nat j))"
      using cp unfolding copied_def by blast
    also note e1 [OF j]
    finally show ?thesis unfolding s1 Suc .
  qed
  moreover have "byte_at m'' a = byte_at m a" if a: "\<forall>i < Suc n. a \<noteq> D + word_of_nat i" for a
  proof -
    have "\<forall>i < n. a \<noteq> D + 1 + word_of_nat i" using a unfolding s1 by blast
    then have "byte_at m'' a = byte_at m' a" using cp unfolding copied_def by blast
    moreover have "a \<noteq> D" using a by force
    ultimately show ?thesis by (simp add: m')
  qed
  moreover have "map_option snd (byte_at m'' a) = map_option snd (byte_at m a)" for a
    using cp d unfolding copied_def m' by (cases "a = D") auto
  ultimately show "copied m S D (Suc n) m''" unfolding copied_def by blast
qed

lemma movsb_loop:
  fixes s :: "'k cpu"
  assumes "mem_wf (mem s)" "copyable (mem s) (src_addr p s) (dst_addr s) n" "n \<le> 2 ^ 32"
  shows "\<exists>m. (string_loop (string_iter 0xa4 8 p 1) k i n :: ('k, 'x, bool) cpuM) s = (Inr False, (bump n s)\<lparr>mem := m\<rparr>) \<and>
     mem_wf m \<and> copied (mem s) (src_addr p s) (dst_addr s) n m"
  using assms
proof (induction n arbitrary: s i)
  case 0
  then show ?case by (intro exI [of _ "mem s"]) (simp add: bump_def copied_def)
next
  case (Suc n)
  obtain b q where src: "byte_at (mem s) (src_addr p s) = Some (b, q)" "q AND PERM_R = PERM_R"
    using copyable_first(1) [OF Suc.prems(2)] by blast
  obtain b' q' where dst: "byte_at (mem s) (dst_addr s) = Some (b', q')" "q' AND PERM_W = PERM_W"
    using copyable_first(2) [OF Suc.prems(2)] by blast
  obtain m1 where it: "(string_iter 0xa4 8 p 1 :: ('k, 'x, bool) cpuM) s = (Inr False, (bump 1 s)\<lparr>mem := m1\<rparr>)"
    and m1: "mem_wf m1" "byte_at m1 = (byte_at (mem s))(dst_addr s \<mapsto> (b, q'))"
    using movsb_iter [OF Suc.prems(1) src dst] by blast
  let ?s1 = "(bump 1 s)\<lparr>mem := m1\<rparr>"
  note st = copyable_step [OF Suc.prems(2,3) src(1) dst(1) m1(2)]
  have addr: "src_addr p ?s1 = src_addr p s + 1" "dst_addr ?s1 = dst_addr s + 1"
    using bump_addr [where n = 1 and s = s and m = m1] by simp_all
  have n: "n \<le> 2 ^ 32" using Suc.prems(3) by linarith
  have cp1: "copyable (mem ?s1) (src_addr p ?s1) (dst_addr ?s1) n" using st(1) unfolding addr by simp
  have wf1: "mem_wf (mem ?s1)" using m1(1) by simp
  obtain m where m: "(string_loop (string_iter 0xa4 8 p 1) k (i + 1) n :: ('k, 'x, bool) cpuM) ?s1 = (Inr False, (bump n ?s1)\<lparr>mem := m\<rparr>)"
    "mem_wf m" "copied (mem ?s1) (src_addr p ?s1) (dst_addr ?s1) n m"
    using Suc.IH [OF wf1 cp1 n] by blast
  have "copied (mem s) (src_addr p s) (dst_addr s) (Suc n) m"
    using st(2) m(3) unfolding addr by simp
  moreover have "(string_loop (string_iter 0xa4 8 p 1) k i (Suc n) :: ('k, 'x, bool) cpuM) s = (Inr False, (bump (Suc n) s)\<lparr>mem := m\<rparr>)"
    using it m(1) by (simp add: bnd_def bump_bump [simplified])
  ultimately show ?case using m(2) by blast
qed

text \<open>
  C8: \<open>rep movsb\<close> with the direction flag clear copies ECX bytes. If the source range is readable, the
  destination range writable and the two do not overlap, the instruction completes with the source
  bytes at the destination, every other byte and every permission unchanged, ECX zero and ESI and EDI
  moved past the ranges, also when the ranges span pages that have to be copied on write.
\<close>

theorem rep_movsb_copies:
  fixes s :: "'k cpu"
  assumes "mem_wf (mem s)" "rep p \<noteq> NoRep" "\<not> getFlag FLAG_DF s"
    "copyable (mem s) (src_addr p s) (dst_addr s) (unat (regs s REG_ECX))"
  shows "\<exists>s'. (handleStringOp 0xa4 p :: ('k, 'x, unit) cpuM) s = (Inr (), s') \<and> mem_wf (mem s') \<and>
     copied (mem s) (src_addr p s) (dst_addr s) (unat (regs s REG_ECX)) (mem s') \<and>
     regs s' = (regs s)(REG_ECX := 0, REG_ESI := regs s REG_ESI + regs s REG_ECX,
                        REG_EDI := regs s REG_EDI + regs s REG_ECX) \<and> eflags s' = eflags s"
proof -
  let ?n = "unat (regs s REG_ECX)"
  have n: "?n \<le> 2 ^ 32" using unsigned_less [of "regs s REG_ECX", where 'a = nat] by simp
  obtain m where m: "(string_loop (string_iter 0xa4 8 p 1) ?n 0 ?n :: ('k, 'x, bool) cpuM) s = (Inr False, (bump ?n s)\<lparr>mem := m\<rparr>)"
    "mem_wf m" "copied (mem s) (src_addr p s) (dst_addr s) ?n m"
    using movsb_loop [OF assms(1,4) n] by blast
  define s' where "s' = (bump ?n s)\<lparr>mem := m, regs := (regs (bump ?n s))(REG_ECX := 0)\<rparr>"
  have "(handleStringOp 0xa4 p :: ('k, 'x, unit) cpuM) s = (Inr (), s')"
    using assms(2,3) m(1) by (simp add: handleStringOp_def getR_def setR_def whenM_def s'_def Let_def bnd_def)
  moreover have "regs s' = (regs s)(REG_ECX := 0, REG_ESI := regs s REG_ESI + regs s REG_ECX,
      REG_EDI := regs s REG_EDI + regs s REG_ECX)"
    by (simp add: s'_def bump_def reg_defs fun_eq_iff)
  ultimately show ?thesis using m(2,3) by (intro exI [of _ s']) (simp add: s'_def bump_def)
qed

text \<open>The example machine with the constants page copied to the data page.\<close>

definition copy_regs :: "nat \<Rightarrow> u32" where
  "copy_regs = (\<lambda>_. 0)(REG_ECX := 2, REG_ESI := 48, REG_EDI := 32)"

theorem rep_movsb_copies_witness:
  "\<exists>s'. (handleStringOp 0xa4 (prefix0\<lparr>rep := Rep\<rparr>) :: (unit, unit, unit) cpuM) (demo_cpu [] copy_regs) = (Inr (), s') \<and>
     regs s' REG_EDI = 34 \<and> regs s' REG_ECX = 0 \<and> map_option fst (byte_at (mem s') 33) = Some 0"
proof -
  let ?s = "demo_cpu [] copy_regs" and ?p = "prefix0\<lparr>rep := Rep\<rparr>"
  have m: "mem ?s = demo_memory []" "regs ?s = copy_regs" by (simp_all add: demo_cpu_def new_CPU_def)
  have a: "src_addr ?p ?s = 48" "dst_addr ?s = 32" "unat (regs ?s REG_ECX) = 2"
    by (simp_all add: src_addr_def dst_addr_def m copy_regs_def reg_defs demo_cpu_def new_CPU_def)
  have two: "i < 2 \<longleftrightarrow> i = 0 \<or> i = Suc 0" for i :: nat by auto
  have b: "byte_at (demo_memory []) 48 = Some (0, 1)" "byte_at (demo_memory []) 49 = Some (0, 1)"
    "byte_at (demo_memory []) 32 = Some (0, 3)" "byte_at (demo_memory []) 33 = Some (0, 3)"
    by (simp_all add: demo_memory_def byte_at_def pageNo_def pageOff_def)
  have "copyable (mem ?s) (src_addr ?p ?s) (dst_addr ?s) (unat (regs ?s REG_ECX))"
    unfolding a unfolding m by (auto simp: copyable_def b two perm_defs)
  moreover have "\<not> getFlag FLAG_DF ?s"
    by (simp add: getFlag_def flag_def demo_cpu_def new_CPU_def DEFAULT_EFLAGS_def flag_defs)
  moreover have "mem_wf (mem ?s)" by (simp add: m demo_wf)
  ultimately obtain s' where s': "(handleStringOp 0xa4 ?p :: (unit, unit, unit) cpuM) ?s = (Inr (), s')"
    "copied (mem ?s) 48 32 2 (mem s')" "regs s' = (regs ?s)(REG_ECX := 0, REG_ESI := regs ?s REG_ESI + regs ?s REG_ECX,
                        REG_EDI := regs ?s REG_EDI + regs ?s REG_ECX)"
    using rep_movsb_copies [of ?s ?p] unfolding a by auto
  have "map_option fst (byte_at (mem s') (32 + word_of_nat 1)) = map_option fst (byte_at (mem ?s) (48 + word_of_nat 1))"
    using s'(2) unfolding copied_def by (metis one_less_numeral_iff semiring_norm(76))
  then have "map_option fst (byte_at (mem s') 33) = Some 0" by (simp add: m b)
  moreover have "regs s' REG_EDI = 34" "regs s' REG_ECX = 0"
    unfolding s'(3) m by (simp_all add: copy_regs_def reg_defs)
  ultimately show ?thesis using s'(1) by blast
qed

end
