(* ===== verification/Cpu_Arith.thy ===== *)
theory Cpu_Arith
  imports Cpu_Props
begin

text \<open>Shifts, rotates, bit scans, multiplication and division.\<close>

section \<open>Shifts and rotates\<close>

lemma shift_result:
  assumes "w \<le> 32"
  shows "truncate_w (truncate_w x w AND maskFor w) w = take_bit w x"
  using assms by (simp add: truncate_take_bit maskFor_mask take_bit_eq_mask and.assoc)

lemma bit_sval_shift:
  assumes w: "w \<in> {8, 16, 32}"
  shows "bit (signExtend v w) m = bit v (min m (w - 1))"
proof -
  have sgn: "signExtend v w = signed_take_bit (w - 1) (uint v)"
  proof -
    have m8: "x AND 0xff = take_bit 8 x" "x AND 0xffff = take_bit 16 x" for x :: u32
      by (simp_all add: take_bit_eq_mask mask_eq_exp_minus_1)
    have b: "(x AND 0x80 \<noteq> 0) = bit x 7" "(x AND 0x8000 \<noteq> 0) = bit x 15" for x :: u32
      using and_exp [of x 7] and_exp [of x 15] by simp_all
    have st: "signed_take_bit n k = (if bit k n then take_bit (Suc n) k - 2 ^ Suc n else take_bit (Suc n) k)"
      for n and k :: int
      by (simp add: signed_take_bit_eq_take_bit_minus)
    show ?thesis
      using w by (auto simp: signExtend_def Let_def truncate_take_bit s8_def s16_def m8 b st
          bit_simps unsigned_take_bit_eq sint_uint)
  qed
  show ?thesis using w by (auto simp: sgn bit_signed_take_bit_iff bit_simps min.commute)
qed

text \<open>Which bit of the operand ends up in bit \<open>n\<close> of the result, for each group of the ModRM byte.\<close>

definition shift_spec :: "nat \<Rightarrow> nat \<Rightarrow> nat \<Rightarrow> u32 \<Rightarrow> nat \<Rightarrow> bool" where
  "shift_spec g w c v n =
     (if g = 0 then bit v ((n + (w - c mod w)) mod w)
      else if g = 1 then bit v ((n + c) mod w)
      else if g = 2 \<or> g = 4 \<or> g = 6 then c \<le> n \<and> bit v (n - c)
      else if g = 3 \<or> g = 5 then n + c < w \<and> bit v (n + c)
      else bit v (min (n + c) (w - 1)))"

lemma rol_index:
  assumes "n < w" "k < (w :: nat)"
  shows "(n + (w - k)) mod w = (if k \<le> n then n - k else n + w - k)"
proof (cases "k \<le> n")
  case True
  with assms have eq: "n + (w - k) = (n - k) + w" by linarith
  have "(n - k + w) mod w = n - k" using assms by simp
  with True show ?thesis unfolding eq by simp
next
  case False
  with assms have "n + (w - k) = n + w - k" "n + w - k < w" by linarith+
  with False show ?thesis by simp
qed

lemma ror_index:
  assumes "n < w" "k < (w :: nat)"
  shows "(n + k) mod w = (if n + k < w then n + k else n + k - w)"
  using assms by (auto simp: mod_if)

lemma count_bound: "unat (count AND 0x1f :: u32) < 32"
proof -
  have "count AND 0x1f = take_bit 5 count" by (simp add: take_bit_eq_mask mask_eq_exp_minus_1)
  then show ?thesis by (simp add: unat_take_bit_mod)
qed

text \<open>The two halves of a rotation do not overlap.\<close>

lemma rol_bits:
  assumes w: "w \<in> {8, 16, 32}" and c: "c < 32" "c \<noteq> 0" and n: "n < w"
  shows "bit (jshl (take_bit w v) (c mod w) OR jshr (take_bit w v) (w - c mod w)) n =
     bit v ((n + (w - c mod w)) mod w)"
proof -
  have k: "c mod w < w" "c mod w < 32" "0 < w" using w c by auto
  have small: "(w - c mod w) mod 32 = w - c mod w"
    using w c by auto
  have n32: "n < 32" using w n by auto
  show ?thesis
    unfolding rol_index [OF n k(1)] using k n n32
    by (auto simp: jshl_def jshr_def small bit_simps add.commute)
qed

lemma ror_bits:
  assumes w: "w \<in> {8, 16, 32}" and c: "c < 32" "c \<noteq> 0" and n: "n < w"
  shows "bit (jshr (take_bit w v) (c mod w) OR jshl (take_bit w v) (w - c mod w)) n =
     bit v ((n + c) mod w)"
proof -
  have k: "c mod w < w" "c mod w < 32" "0 < w" using w c by auto
  have small: "(w - c mod w) mod 32 = w - c mod w" using w c by auto
  have n32: "n < 32" using w n by auto
  have "n + c mod w - w < w" using k n by linarith
  moreover have "(n + c) mod w = (n + c mod w) mod w" by (simp add: mod_add_right_eq)
  ultimately show ?thesis
    using ror_index [OF n k(1)] k n n32
    by (auto simp: jshl_def jshr_def small bit_simps add.commute)
qed

lemma shiftRotate_bit:
  assumes w: "w \<in> {8, 16, 32}" and g: "g < 8" and c: "c = unat (count AND 0x1f)"
  shows "\<exists>r fl'. shiftRotate_fl w g v count fl = Some (r, fl') \<and> (\<forall>n. bit r n = (n < w \<and> shift_spec g w c v n))"
proof (cases "c = 0")
  case True
  then have "shiftRotate_fl w g v count fl = Some (truncate_w v w, fl)"
    by (simp add: shiftRotate_fl_def flip: c)
  moreover have "bit (truncate_w v w) n = (n < w \<and> shift_spec g w c v n)" for n
    using w True by (auto simp: truncate_take_bit bit_simps shift_spec_def min_def)
  ultimately show ?thesis by blast
next
  case False
  have w32: "w \<le> 32" using w by auto
  have c32: "c < 32" unfolding c by (rule count_bound)
  define V where "V = take_bit w v"
  have V: "truncate_w v w = V" using w32 by (simp add: V_def truncate_take_bit)
  consider "g = 0" | "g = 1" | "g = 2 \<or> g = 4 \<or> g = 6" | "g = 3 \<or> g = 5" | "g = 7" using g by linarith
  then show ?thesis
  proof cases
    case 1
    then have "\<exists>fl'. shiftRotate_fl w g v count fl =
        Some (take_bit w (jshl V (c mod w) OR jshr V (w - c mod w)), fl')"
      using False w32 by (simp add: shiftRotate_fl_def V Let_def shift_result flip: c)
    moreover have "bit (take_bit w (jshl V (c mod w) OR jshr V (w - c mod w))) n = (n < w \<and> shift_spec g w c v n)" for n
      unfolding bit_take_bit_iff V_def shift_spec_def using rol_bits [OF w c32 False, of n v] 1 by argo
    ultimately show ?thesis by blast
  next
    case 2
    then have "\<exists>fl'. shiftRotate_fl w g v count fl =
        Some (take_bit w (jshr V (c mod w) OR jshl V (w - c mod w)), fl')"
      using False w32 by (simp add: shiftRotate_fl_def V Let_def shift_result flip: c)
    moreover have "bit (take_bit w (jshr V (c mod w) OR jshl V (w - c mod w))) n = (n < w \<and> shift_spec g w c v n)" for n
      unfolding bit_take_bit_iff V_def shift_spec_def using ror_bits [OF w c32 False, of n v] 2 by simp argo
    ultimately show ?thesis by blast
  next
    case 3
    then have "\<exists>fl'. shiftRotate_fl w g v count fl = Some (take_bit w (jshl V c), fl')"
      using False w32 by (auto simp: shiftRotate_fl_def shl_fl_def V Let_def shift_result simp flip: c)
    moreover have "bit (take_bit w (jshl V c)) n = (n < w \<and> shift_spec g w c v n)" for n
      using w w32 c32 3 by (auto simp: bit_simps shift_spec_def V_def jshl_def)
    ultimately show ?thesis by blast
  next
    case 4
    then have "\<exists>fl'. shiftRotate_fl w g v count fl = Some (take_bit w (jshr V c), fl')"
      using False w32 by (auto simp: shiftRotate_fl_def shr_fl_def V Let_def shift_result simp flip: c)
    moreover have "bit (take_bit w (jshr V c)) n = (n < w \<and> shift_spec g w c v n)" for n
      using w32 c32 4 by (auto simp: bit_simps shift_spec_def V_def jshr_def add.commute)
    ultimately show ?thesis by blast
  next
    case 5
    then have "\<exists>fl'. shiftRotate_fl w g v count fl = Some (take_bit w (jsar (signExtend V w) c), fl')"
      using False w32 by (auto simp: shiftRotate_fl_def V Let_def shift_result simp flip: c)
    moreover have "bit (take_bit w (jsar (signExtend V w) c)) n = (n < w \<and> shift_spec g w c v n)" for n
      using w w32 c32 5 bit_sval_shift [OF w, of V "n + c"]
      by (auto simp: bit_take_bit_iff bit_drop_bit_eq shift_spec_def V_def jsar_def bit_word_of_int_iff add.commute)
    ultimately show ?thesis by blast
  qed
qed



section \<open>Multiplication and division\<close>

lemma makeBigUint64_eq: "makeBigUint64 lo hi = uint hi * 2 ^ 32 + uint lo"
proof -
  have "push_bit 32 (uint hi) OR uint lo = push_bit 32 (uint hi) + uint lo"
    by (intro disjunctive_add_eq_or [symmetric] bit_eqI) (auto simp: bit_simps dest: bit_imp_le_length)
  then show ?thesis by (simp add: makeBigUint64_def push_bit_eq_mult)
qed

lemma sint_uint_32: "sint (x :: u32) = (if bit x 31 then uint x - 2 ^ 32 else uint x)"
  by (auto simp: sint_uint signed_take_bit_eq_take_bit_minus bit_simps bintr_uint)

lemma makeBigInt64_eq: "makeBigInt64 lo hi = sint hi * 2 ^ 32 + uint lo"
proof -
  let ?v = "uint hi * 2 ^ 32 + uint lo"
  have bounds: "0 \<le> uint lo" "uint lo < 2 ^ 32" "0 \<le> uint hi" "uint hi < 2 ^ 32"
    using unsigned_less [of lo, where 'a = int] unsigned_less [of hi, where 'a = int] by simp_all
  have t: "take_bit 64 ?v = ?v" using bounds by (intro take_bit_int_eq_self) simp_all
  have "bit ?v 63 = bit hi 31"
    unfolding makeBigUint64_eq [symmetric] by (auto simp: makeBigUint64_def bit_simps dest: bit_imp_le_length)
  then show ?thesis
    using t by (simp add: makeBigInt64_def makeBigUint64_eq signed_take_bit_eq_take_bit_minus sint_uint_32 algebra_simps)
qed

lemma js_div_rem:
  assumes "b \<noteq> 0"
  shows "js_quot a b * b + js_rem a b = a" "\<bar>js_rem a b\<bar> < \<bar>b\<bar>" "js_rem a b \<noteq> 0 \<Longrightarrow> sgn (js_rem a b) = sgn a"
proof -
  have "js_quot a b * b + js_rem a b = sgn a * (\<bar>a\<bar> div \<bar>b\<bar> * (sgn b * b) + \<bar>a\<bar> mod \<bar>b\<bar>)"
    by (simp only: js_quot_def js_rem_def algebra_simps)
  also have "sgn b * b = \<bar>b\<bar>" by (simp add: abs_sgn mult.commute)
  also have "\<bar>a\<bar> div \<bar>b\<bar> * \<bar>b\<bar> + \<bar>a\<bar> mod \<bar>b\<bar> = \<bar>a\<bar>" by simp
  also have "sgn a * \<bar>a\<bar> = a" by (simp add: sgn_mult_abs)
  finally show "js_quot a b * b + js_rem a b = a" .
  have pos: "0 \<le> \<bar>a\<bar> mod \<bar>b\<bar>" "\<bar>a\<bar> mod \<bar>b\<bar> < \<bar>b\<bar>" using assms by simp_all
  then show "\<bar>js_rem a b\<bar> < \<bar>b\<bar>" using assms by (auto simp: js_rem_def abs_mult sgn_if)
  assume "js_rem a b \<noteq> 0"
  then have "0 < \<bar>a\<bar> mod \<bar>b\<bar>" using pos(1) by (simp add: js_rem_def less_le)
  then show "sgn (js_rem a b) = sgn a" by (simp add: js_rem_def sgn_mult)
qed

lemma put_regs_32: "put_reg 32 r v s = s\<lparr>regs := (regs s)(r mod 8 := v)\<rparr>"
  by (simp add: put_reg_def Let_def truncate_w_def)

lemma sint_word_of_int: "- (2 ^ 31) \<le> q \<Longrightarrow> q < 2 ^ 31 \<Longrightarrow> sint (word_of_int q :: u32) = q"
  by (simp add: sint_sbintrunc' signed_take_bit_int_eq_self)

lemma uint_word_of_int_32: "0 \<le> q \<Longrightarrow> q < 2 ^ 32 \<Longrightarrow> uint (word_of_int q :: u32) = q"
  by (simp add: uint_word_of_int_eq take_bit_int_eq_self)

text \<open>
  C10: 32-bit division. For a non-zero divisor, \<open>div\<close> and \<open>idiv\<close> either raise the divide error because
  the quotient does not fit, changing nothing, or leave in EAX and EDX the quotient and the remainder
  of EDX:EAX: quotient times divisor plus remainder is the dividend, the remainder is smaller than the
  divisor in magnitude and has the dividend's sign.
\<close>

theorem op_div_32:
  fixes s :: "'k cpu"
  assumes "val \<noteq> 0"
    and D: "D = (if sg then sint (regs s REG_EDX) else uint (regs s REG_EDX)) * 2 ^ 32 + uint (regs s REG_EAX)"
    and v: "v = (\<lambda>x. if sg then sint x else uint (x :: u32))"
  shows "(op_div 32 sg val :: ('k, 'x, unit) cpuM) s = (Inl (CPUError ''divide overflow''), s) \<and>
       (js_quot D (v val) < (if sg then - (2 ^ 31) else 0) \<or> (if sg then 2 ^ 31 else 2 ^ 32) \<le> js_quot D (v val)) \<or>
     (\<exists>q r. (op_div 32 sg val :: ('k, 'x, unit) cpuM) s = (Inr (), s\<lparr>regs := (regs s)(REG_EAX := q, REG_EDX := r)\<rparr>) \<and>
       v q * v val + v r = D \<and> \<bar>v r\<bar> < \<bar>v val\<bar> \<and> (v r \<noteq> 0 \<longrightarrow> sgn (v r) = sgn D))"
proof -
  let ?d = "v val" and ?Q = "js_quot D (v val)" and ?R = "js_rem D (v val)"
  have "sint val \<noteq> 0" using assms(1) by (metis signed_0 signed_word_eqI)
  moreover have "uint val \<noteq> 0" using assms(1) by (metis unsigned_0 unsigned_word_eqI)
  ultimately have d0: "?d \<noteq> 0" by (simp add: v)
  have big: "(if sg then makeBigInt64 (regs s REG_EAX) (regs s REG_EDX) else makeBigUint64 (regs s REG_EAX) (regs s REG_EDX)) = D"
    by (simp add: D makeBigInt64_eq makeBigUint64_eq)
  have step: "(op_div 32 sg val :: ('k, 'x, unit) cpuM) s =
      (if ?Q < (if sg then - (2 ^ 31) else 0) \<or> (if sg then 2 ^ 31 else 2 ^ 32) \<le> ?Q then (Inl (CPUError ''divide overflow''), s)
       else (Inr (), s\<lparr>regs := (regs s)(REG_EAX := word_of_int ?Q, REG_EDX := word_of_int ?R)\<rparr>))"
    using d0 big by (cases sg) (auto simp: op_div_def div_store_def setReg_def put_regs_32 reg_defs v Let_def)
  show ?thesis
  proof (cases "?Q < (if sg then - (2 ^ 31) else 0) \<or> (if sg then 2 ^ 31 else 2 ^ 32) \<le> ?Q")
    case True
    with step show ?thesis by (simp only: if_True simp_thms)
  next
    case False
    have db: "\<bar>?d\<bar> \<le> (if sg then 2 ^ 31 else 2 ^ 32 - 1)"
      using sint_greater_eq [of val] sint_less [of val] unsigned_less [of val, where 'a = int] by (auto simp: v)
    have rb: "- (2 ^ 31) \<le> ?R \<and> ?R < 2 ^ 31" if sg
      using js_div_rem(2) [OF d0, of D] db that by simp linarith
    have ru: "0 \<le> ?R \<and> ?R < 2 ^ 32" if "\<not> sg"
    proof -
      have "0 \<le> D" using that by (simp add: D)
      then have "0 \<le> ?R" using d0 by (auto simp: js_rem_def sgn_if)
      then show ?thesis using js_div_rem(2) [OF d0, of D] db that by simp
    qed
    have vq: "v (word_of_int ?Q) = ?Q"
      using False sint_word_of_int [of ?Q] uint_word_of_int_32 [of ?Q] by (cases sg) (simp_all add: v)
    have vr: "v (word_of_int ?R) = ?R"
      using rb ru sint_word_of_int [of ?R] uint_word_of_int_32 [of ?R] by (cases sg) (simp_all add: v)
    show ?thesis
      using step False js_div_rem [OF d0, of D] vq vr
      by (intro disjI2 exI [of _ "word_of_int ?Q"] exI [of _ "word_of_int ?R"]) (simp only: if_False simp_thms refl, blast)
  qed
qed

theorem op_div_32_witness:
  "\<exists>q r. (op_div 32 True 3 :: (unit, unit, unit) cpuM) (demo_cpu [] (\<lambda>_. - 1)) =
       (Inr (), (demo_cpu [] (\<lambda>_. - 1))\<lparr>regs := (\<lambda>_. - 1)(REG_EAX := q, REG_EDX := r)\<rparr>) \<and>
     sint q * 3 + sint r = - 1 \<and> \<bar>sint r\<bar> < 3"
proof -
  let ?s = "demo_cpu [] (\<lambda>_. - 1)"
  have rs: "regs ?s = (\<lambda>_. - 1)" by (simp add: demo_cpu_def)
  have D: "- 1 = (if True then sint (regs ?s REG_EDX) else uint (regs ?s REG_EDX)) * 2 ^ 32 + uint (regs ?s REG_EAX)"
    by (simp add: rs unsigned_minus_1_eq_mask mask_eq_exp_minus_1)
  have "js_quot (- 1) (sint (3 :: u32)) = 0" by (simp add: js_quot_def)
  then show ?thesis
    using op_div_32 [OF _ D refl, of 3, where 'x = unit] by (auto simp: rs)
qed

end
