(* ===== verification/Io.thy ===== *)
theory Io
  imports Memory
begin

text \<open>
  The byte queue behind standard input, terminals and sockets (\<open>src/io.js\<close>) and the terminal endpoint
  on top of it (\<open>src/pty.js\<close>). A read that has to wait returns a promise; here it returns the number
  of the read, and a promise that is resolved is an entry of \<open>served\<close>, the log of what each read got.
  An immediate read is served at once.
\<close>

section \<open>ByteQueue\<close>

record waiter =
  w_count :: nat
  w_id :: nat

record byte_queue =
  chunks :: "u8 list list"
  qlength :: nat
  waiters :: "waiter list"
  closed :: bool
  next_id :: nat
  served :: "(nat \<times> u8 list) list"

definition empty_queue :: byte_queue where
  "empty_queue = \<lparr>chunks = [], qlength = 0, waiters = [], closed = False, next_id = 0, served = []\<rparr>"

text \<open>The loop of \<open>_take\<close>: \<open>left\<close> is \<open>n - off\<close>, \<open>out\<close> the bytes copied so far.\<close>

fun take_loop :: "u8 list list \<Rightarrow> nat \<Rightarrow> u8 list \<Rightarrow> u8 list \<times> u8 list list" where
  "take_loop [] left out = (out, [])"
| "take_loop (first # rest) left out =
     (if left = 0 then (out, first # rest)
      else let n = min (length first) left in
        if n = length first then take_loop rest (left - n) (out @ first)
        else take_loop (drop n first # rest) (left - n) (out @ take n first))"

definition take_bytes :: "nat \<Rightarrow> byte_queue \<Rightarrow> u8 list \<times> byte_queue" where
  "take_bytes count q =
     (let n = min count (qlength q); (out, cs) = take_loop (chunks q) n []
      in (out, q\<lparr>chunks := cs, qlength := qlength q - n\<rparr>))"

text \<open>\<open>_flush\<close> serves waiting reads while there are bytes, or all of them with nothing once closed.\<close>

fun flush_loop :: "waiter list \<Rightarrow> byte_queue \<Rightarrow> byte_queue" where
  "flush_loop [] q = q\<lparr>waiters := []\<rparr>"
| "flush_loop (w # ws) q =
     (if qlength q > 0 \<or> closed q
      then let (out, q') = (if qlength q > 0 then take_bytes (w_count w) q else ([], q))
           in flush_loop ws (q'\<lparr>served := served q' @ [(w_id w, out)]\<rparr>)
      else q\<lparr>waiters := w # ws\<rparr>)"

definition flush :: "byte_queue \<Rightarrow> byte_queue" where
  "flush q = flush_loop (waiters q) q"

definition queue_push :: "u8 list \<Rightarrow> byte_queue \<Rightarrow> byte_queue" where
  "queue_push bs q =
     (if closed q then q else if bs = [] then q
      else flush (q\<lparr>chunks := chunks q @ [bs], qlength := qlength q + length bs\<rparr>))"

definition queue_close :: "byte_queue \<Rightarrow> byte_queue" where
  "queue_close q = flush (q\<lparr>closed := True\<rparr>)"

datatype read_result = Ready "u8 list" | Pending nat

definition serve_now :: "u8 list \<Rightarrow> byte_queue \<Rightarrow> read_result \<times> byte_queue" where
  "serve_now out q = (Ready out, q\<lparr>next_id := next_id q + 1, served := served q @ [(next_id q, out)]\<rparr>)"

text \<open>A read of 0 bytes is answered without looking at the queue; it does not take part in the log.\<close>

definition queue_read :: "u32 \<Rightarrow> byte_queue \<Rightarrow> read_result \<times> byte_queue" where
  "queue_read count q =
     (if count = 0 then (Ready [], q)
      else if qlength q > 0 then (let (out, q') = take_bytes (unat count) q in serve_now out q')
      else if closed q then serve_now [] q
      else (Pending (next_id q),
            q\<lparr>waiters := waiters q @ [\<lparr>w_count = unat count, w_id = next_id q\<rparr>], next_id := next_id q + 1\<rparr>))"

section \<open>Pty\<close>

record pty =
  pty_input :: byte_queue
  pty_output :: string
  pty_rows :: u32
  pty_cols :: u32
  pty_listeners :: "nat list"
  pty_events :: "(nat \<times> string) list"

definition new_pty :: "u32 \<Rightarrow> u32 \<Rightarrow> pty" where
  "new_pty r c = \<lparr>pty_input = empty_queue, pty_output = [], pty_rows = r, pty_cols = c,
     pty_listeners = [], pty_events = []\<rparr>"

definition writeInput :: "string \<Rightarrow> pty \<Rightarrow> pty" where
  "writeInput text t = t\<lparr>pty_input := queue_push (stringToBytes text) (pty_input t)\<rparr>"

definition sendLine :: "string \<Rightarrow> pty \<Rightarrow> pty" where
  "sendLine text t = t\<lparr>pty_input := queue_push (stringToBytes (text @ [CHR 0x0A])) (pty_input t)\<rparr>"

definition closeInput :: "pty \<Rightarrow> pty" where
  "closeInput t = t\<lparr>pty_input := queue_close (pty_input t)\<rparr>"

definition pty_read :: "u32 \<Rightarrow> pty \<Rightarrow> read_result \<times> pty" where
  "pty_read count t = (let (r, q) = queue_read count (pty_input t) in (r, t\<lparr>pty_input := q\<rparr>))"

text \<open>Calls of the listeners are recorded as events.\<close>

definition pty_write :: "u8 list \<Rightarrow> pty \<Rightarrow> nat \<times> pty" where
  "pty_write bs t =
     (let text = bytesToString bs in
      (length bs, t\<lparr>pty_output := pty_output t @ text,
                    pty_events := pty_events t @ map (\<lambda>cb. (cb, text)) (pty_listeners t)\<rparr>))"

definition onData :: "nat \<Rightarrow> pty \<Rightarrow> pty" where
  "onData cb t = (if cb \<in> set (pty_listeners t) then t else t\<lparr>pty_listeners := pty_listeners t @ [cb]\<rparr>)"

definition offData :: "nat \<Rightarrow> pty \<Rightarrow> pty" where
  "offData cb t = t\<lparr>pty_listeners := filter (\<lambda>x. x \<noteq> cb) (pty_listeners t)\<rparr>"

definition pty_ioctl :: "u32 \<Rightarrow> u32 \<Rightarrow> pty \<Rightarrow> int memM" where
  "pty_ioctl request addr t =
     (if request = 0x5413
      then thn (write16 addr (pty_rows t)) (thn (write16 (addr + 2) (pty_cols t))
             (thn (write16 (addr + 4) 0) (thn (write16 (addr + 6) 0) (ret 0))))
      else ret (- 25))"

text \<open>
  \<open>stripAnsi\<close>: the pattern is ESC, an opening bracket, any number of digits, semicolons and question
  marks, and a letter. The parameter characters are not letters, so the greedy match does not backtrack.
\<close>

definition ansi_param :: "char \<Rightarrow> bool" where
  "ansi_param c \<longleftrightarrow> c \<in> set ''0123456789;?''"

definition ansi_letter :: "char \<Rightarrow> bool" where
  "ansi_letter c \<longleftrightarrow> c \<in> set ''ABCDEFGHIJKLMNOPQRSTUVWXYZabcdefghijklmnopqrstuvwxyz''"

definition ansi_match :: "string \<Rightarrow> string option" where
  "ansi_match s =
     (case s of
        CHR ''['' # s' \<Rightarrow> (case dropWhile ansi_param s' of
            c # rest \<Rightarrow> if ansi_letter c then Some rest else None
          | [] \<Rightarrow> None)
      | _ \<Rightarrow> None)"

function stripAnsi :: "string \<Rightarrow> string" where
  "stripAnsi [] = []"
| "stripAnsi (c # s) =
     (if c = CHR 0x1B then (case ansi_match s of Some rest \<Rightarrow> stripAnsi rest | None \<Rightarrow> c # stripAnsi s)
      else c # stripAnsi s)"
  by pat_completeness auto

lemma ansi_match_length: "ansi_match s = Some rest \<Longrightarrow> length rest < length s"
proof -
  assume a: "ansi_match s = Some rest"
  then obtain s' c where s: "s = CHR ''['' # s'" "dropWhile ansi_param s' = c # rest"
    by (auto simp: ansi_match_def split: list.splits char.splits bool.splits if_splits)
  have "length (dropWhile ansi_param s') \<le> length s'" by (rule length_dropWhile_le)
  with s show ?thesis by simp
qed

termination stripAnsi
  by (relation "measure length") (auto dest: ansi_match_length)

section \<open>The queue is a first-in first-out stream of bytes\<close>

definition content :: "byte_queue \<Rightarrow> u8 list" where
  "content q = concat (chunks q)"

definition queue_inv :: "byte_queue \<Rightarrow> bool" where
  "queue_inv q \<longleftrightarrow> qlength q = length (content q) \<and>
     (waiters q \<noteq> [] \<longrightarrow> qlength q = 0 \<and> \<not> closed q) \<and> (\<forall>w \<in> set (waiters q). 0 < w_count w)"

definition tickets :: "byte_queue \<Rightarrow> nat list" where
  "tickets q = map fst (served q) @ map w_id (waiters q)"

text \<open>What all reads got so far, in the order they were served.\<close>

definition delivered :: "byte_queue \<Rightarrow> u8 list" where
  "delivered q = concat (map snd (served q))"

lemma take_loop_spec:
  "n \<le> length (concat cs) \<Longrightarrow>
   fst (take_loop cs n out) = out @ take n (concat cs) \<and> concat (snd (take_loop cs n out)) = drop n (concat cs)"
proof (induction cs n out rule: take_loop.induct)
  case (2 first rest left out)
  consider "left = 0" | "0 < left" "length first \<le> left" | "0 < left" "left < length first" by linarith
  then show ?case
  proof cases
    case 2
    then have "min (length first) left = length first" by simp
    with 2 "2.IH"(1) "2.prems" show ?thesis by (auto simp: Let_def)
  next
    case 3
    then show ?thesis by (cases "drop left first") (auto simp: Let_def)
  qed simp
qed simp

lemma take_bytes_spec:
  assumes "qlength q = length (content q)" "take_bytes c q = (out, q')"
  shows "out = take c (content q)" "content q' = drop c (content q)" "qlength q' = length (content q')"
    "waiters q' = waiters q" "closed q' = closed q" "next_id q' = next_id q" "served q' = served q"
proof -
  let ?n = "min c (qlength q)"
  obtain o' cs where tl: "take_loop (chunks q) ?n [] = (o', cs)" by (cases "take_loop (chunks q) ?n []")
  have s: "o' = take ?n (content q)" "concat cs = drop ?n (content q)"
    using take_loop_spec [of ?n "chunks q" "[]"] assms(1) tl by (simp_all add: content_def)
  have q': "out = o'" "q' = q\<lparr>chunks := cs, qlength := qlength q - ?n\<rparr>"
    using assms(2) tl by (simp_all add: take_bytes_def)
  have mn: "take ?n (content q) = take c (content q)" "drop ?n (content q) = drop c (content q)"
    using assms(1) by (simp_all add: min_def)
  show "out = take c (content q)" using q'(1) s(1) mn(1) by simp
  show "content q' = drop c (content q)" using q'(2) s(2) mn(2) by (simp add: content_def)
  then show "qlength q' = length (content q')" using q'(2) assms(1) by (simp add: min_def)
  show "waiters q' = waiters q" "closed q' = closed q" "next_id q' = next_id q" "served q' = served q"
    using q'(2) by simp_all
qed

lemma flush_loop_spec:
  assumes "qlength q = length (content q)" "\<forall>w \<in> set ws. 0 < w_count w" "q' = flush_loop ws q"
  shows "delivered q' @ content q' = delivered q @ content q \<and>
     map fst (served q') @ map w_id (waiters q') = map fst (served q) @ map w_id ws \<and>
     queue_inv q' \<and> closed q' = closed q \<and> next_id q' = next_id q"
  using assms
proof (induction ws arbitrary: q)
  case Nil
  then show ?case by (simp add: delivered_def content_def queue_inv_def)
next
  case (Cons w ws)
  show ?case
  proof (cases "qlength q > 0 \<or> closed q")
    case False
    with Cons.prems show ?thesis by (auto simp: delivered_def content_def queue_inv_def)
  next
    case True
    obtain out q1 where t: "(if qlength q > 0 then take_bytes (w_count w) q else ([], q)) = (out, q1)"
      by (cases "if qlength q > 0 then take_bytes (w_count w) q else ([], q)")
    have q1: "out @ content q1 = content q" "qlength q1 = length (content q1)" "closed q1 = closed q"
      "next_id q1 = next_id q" "served q1 = served q"
      using t Cons.prems(1) take_bytes_spec [OF Cons.prems(1), of "w_count w" out q1] by (auto split: if_splits)
    let ?q2 = "q1\<lparr>served := served q1 @ [(w_id w, out)]\<rparr>"
    have q2: "content ?q2 = content q1" "qlength ?q2 = length (content ?q2)" using q1(2) by (simp_all add: content_def)
    have "q' = flush_loop ws ?q2" using Cons.prems(3) True t by (simp split: prod.splits)
    then have "delivered q' @ content q' = delivered ?q2 @ content ?q2 \<and>
       map fst (served q') @ map w_id (waiters q') = map fst (served ?q2) @ map w_id ws \<and>
       queue_inv q' \<and> closed q' = closed ?q2 \<and> next_id q' = next_id ?q2"
      using Cons.prems(2) by (intro Cons.IH q2(2)) simp_all
    then show ?thesis using q1 q2(1) by (simp add: delivered_def)
  qed
qed

datatype queue_op = QPush "u8 list" | QRead u32 | QClose

primrec run_op :: "queue_op \<Rightarrow> byte_queue \<Rightarrow> byte_queue" where
  "run_op (QPush bs) q = queue_push bs q"
| "run_op (QRead c) q = snd (queue_read c q)"
| "run_op QClose q = queue_close q"

definition queue_run :: "queue_op list \<Rightarrow> byte_queue \<Rightarrow> byte_queue" where
  "queue_run ops q = fold run_op ops q"

text \<open>The bytes pushed before the queue was closed.\<close>

fun accepted :: "queue_op list \<Rightarrow> u8 list" where
  "accepted [] = []"
| "accepted (QPush bs # ops) = bs @ accepted ops"
| "accepted (QRead c # ops) = accepted ops"
| "accepted (QClose # ops) = []"

text \<open>One operation: it keeps the invariant and adds to the stream exactly what was pushed.\<close>

definition queue_good :: "byte_queue \<Rightarrow> bool" where
  "queue_good q \<longleftrightarrow> queue_inv q \<and> tickets q = [0..<next_id q]"

lemma push_good:
  assumes "queue_good q"
  shows "queue_good (queue_push bs q) \<and> closed (queue_push bs q) = closed q \<and>
     delivered (queue_push bs q) @ content (queue_push bs q) =
       delivered q @ content q @ (if closed q then [] else bs)"
proof (cases "closed q \<or> bs = []")
  case False
  let ?q1 = "q\<lparr>chunks := chunks q @ [bs], qlength := qlength q + length bs\<rparr>"
  have q: "qlength q = length (content q)" "\<forall>w \<in> set (waiters q). 0 < w_count w"
    using assms by (simp_all add: queue_good_def queue_inv_def)
  have "qlength ?q1 = length (content ?q1)" using q(1) by (simp add: content_def)
  from flush_loop_spec [OF this q(2) refl] show ?thesis
    using False assms by (simp add: queue_push_def flush_def queue_good_def tickets_def content_def delivered_def)
qed (use assms in \<open>auto simp: queue_push_def\<close>)

lemma close_good:
  assumes "queue_good q"
  shows "queue_good (queue_close q) \<and> closed (queue_close q) \<and>
     delivered (queue_close q) @ content (queue_close q) = delivered q @ content q"
proof -
  let ?q1 = "q\<lparr>closed := True\<rparr>"
  have q: "qlength ?q1 = length (content ?q1)" "\<forall>w \<in> set (waiters ?q1). 0 < w_count w"
    using assms by (simp_all add: queue_good_def queue_inv_def content_def)
  from flush_loop_spec [OF q refl] show ?thesis
    using assms by (simp add: queue_close_def flush_def queue_good_def tickets_def content_def delivered_def)
qed

lemma read_good:
  assumes "queue_good q" "queue_read c q = (r, q')"
  shows "queue_good q' \<and> closed q' = closed q \<and> delivered q' @ content q' = delivered q @ content q"
proof -
  have inv: "queue_inv q" and tk: "map fst (served q) @ map w_id (waiters q) = [0..<next_id q]"
    using assms(1) by (simp_all add: queue_good_def tickets_def)
  consider "c = 0" | "c \<noteq> 0" "qlength q > 0" | "c \<noteq> 0" "qlength q = 0" "closed q"
    | "c \<noteq> 0" "qlength q = 0" "\<not> closed q" by linarith
  then show ?thesis
  proof cases
    case 1
    then show ?thesis using assms by (simp add: queue_read_def)
  next
    case 2
    obtain out q1 where t: "take_bytes (unat c) q = (out, q1)" by (cases "take_bytes (unat c) q")
    have q1: "out @ content q1 = content q" "qlength q1 = length (content q1)" "waiters q1 = waiters q"
      "closed q1 = closed q" "next_id q1 = next_id q" "served q1 = served q"
      using take_bytes_spec [OF _ t] inv by (simp_all add: queue_inv_def)
    have w: "waiters q = []" using inv 2 by (auto simp: queue_inv_def)
    have "q' = q1\<lparr>next_id := next_id q1 + 1, served := served q1 @ [(next_id q1, out)]\<rparr>"
      using assms(2) 2 t by (simp add: queue_read_def serve_now_def)
    then show ?thesis
      using q1 w tk inv by (simp add: queue_good_def queue_inv_def tickets_def delivered_def content_def)
  next
    case 3
    have w: "waiters q = []" using inv 3 by (auto simp: queue_inv_def)
    have "q' = q\<lparr>next_id := next_id q + 1, served := served q @ [(next_id q, [])]\<rparr>"
      using assms(2) 3 by (simp add: queue_read_def serve_now_def)
    then show ?thesis
      using w tk inv by (simp add: queue_good_def queue_inv_def tickets_def delivered_def content_def)
  next
    case 4
    have "q' = q\<lparr>waiters := waiters q @ [\<lparr>w_count = unat c, w_id = next_id q\<rparr>], next_id := next_id q + 1\<rparr>"
      using assms(2) 4 by (simp add: queue_read_def)
    moreover have "0 < unat c" using 4 by (simp add: unat_gt_0)
    ultimately show ?thesis
      using tk inv 4 by (auto simp: queue_good_def queue_inv_def tickets_def delivered_def content_def)
  qed
qed

lemma queue_run_good:
  "queue_good q \<Longrightarrow> queue_good (queue_run ops q) \<and>
   delivered (queue_run ops q) @ content (queue_run ops q) =
     delivered q @ content q @ (if closed q then [] else accepted ops)"
proof (induction ops arbitrary: q)
  case Nil
  then show ?case by (simp add: queue_run_def)
next
  case (Cons x ops)
  have IH: "queue_good (run_op x q) \<Longrightarrow> queue_good (queue_run (x # ops) q) \<and>
     delivered (queue_run (x # ops) q) @ content (queue_run (x # ops) q) =
       delivered (run_op x q) @ content (run_op x q) @ (if closed (run_op x q) then [] else accepted ops)"
    using Cons.IH [of "run_op x q"] by (simp add: queue_run_def)
  show ?case
  proof (cases x)
    case (QPush bs)
    then show ?thesis using IH push_good [OF Cons.prems, of bs] by auto
  next
    case (QRead c)
    then show ?thesis using IH read_good [OF Cons.prems, of c] by (cases "queue_read c q") auto
  next
    case QClose
    then show ?thesis using IH close_good [OF Cons.prems] by auto
  qed
qed

text \<open>
  C19: the byte queue is a first-in first-out stream with any number of waiting readers. After any
  sequence of pushes, reads and a close: the bytes handed to the reads, in the order the reads were
  made, followed by the bytes still queued, are exactly the bytes pushed before the close; reads are
  served in the order they were made, none twice and none lost; nobody waits while bytes are queued or
  after the close.
\<close>

theorem queue_fifo:
  "(let q = queue_run ops empty_queue in
      delivered q @ content q = accepted ops \<and>
      map fst (served q) @ map w_id (waiters q) = [0..<next_id q] \<and>
      (waiters q = [] \<or> content q = [] \<and> closed q = False))"
proof -
  have "queue_good empty_queue"
    by (simp add: queue_good_def queue_inv_def tickets_def empty_queue_def content_def)
  from queue_run_good [OF this, of ops] show ?thesis
    by (auto simp: queue_good_def queue_inv_def tickets_def Let_def)
      (simp_all add: empty_queue_def delivered_def content_def)
qed

end
