(* ===== verification/Sync.thy ===== *)
theory Sync
  imports Util
begin

text \<open>
  The waiting primitives of \<open>src/sync.js\<close> (synchronous thenables, blocking slots, the futex table) and
  the signal state of \<open>src/signals.js\<close>. A promise is its number; resolving it is an entry of a log.
\<close>

section \<open>SyncThenable\<close>

text \<open>
  A settled value. \<open>this.error\<close> is tested for truth, so a falsy error counts as success; errors are
  modelled with that test as a parameter. A callback returns a plain value, another thenable, or throws.
\<close>

record ('v, 'e) thenable =
  th_value :: "'v option"
  th_error :: "'e option"

datatype ('v, 'e) callback_result = Plain "'v option" | Thenable "('v, 'e) thenable" | Throws 'e

definition th_resolve :: "('v, 'e) callback_result \<Rightarrow> ('v, 'e) thenable" where
  "th_resolve r = (case r of Plain v \<Rightarrow> \<lparr>th_value = v, th_error = None\<rparr> | Thenable t \<Rightarrow> t
     | Throws e \<Rightarrow> \<lparr>th_value = None, th_error = Some e\<rparr>)"

definition th_then :: "('e \<Rightarrow> bool) \<Rightarrow> ('v option \<Rightarrow> ('v, 'e) callback_result) option \<Rightarrow>
    ('e \<Rightarrow> ('v, 'e) callback_result) option \<Rightarrow> ('v, 'e) thenable \<Rightarrow> ('v, 'e) thenable" where
  "th_then truthy onF onR t =
     (case th_error t of
        Some e \<Rightarrow> if truthy e
          then (case onR of Some g \<Rightarrow> th_resolve (g e) | None \<Rightarrow> \<lparr>th_value = None, th_error = Some e\<rparr>)
          else (case onF of Some f \<Rightarrow> th_resolve (f (th_value t)) | None \<Rightarrow> \<lparr>th_value = th_value t, th_error = None\<rparr>)
      | None \<Rightarrow> (case onF of Some f \<Rightarrow> th_resolve (f (th_value t)) | None \<Rightarrow> \<lparr>th_value = th_value t, th_error = None\<rparr>))"

text \<open>
  \<open>SyncPromise\<close>: what its executor did while the constructor ran. \<open>Unsettled\<close> when it neither resolved
  nor rejected yet; the last call wins the recorded fields. \<open>then\<close> on a settled promise runs the callback at
  once and gives a thenable; on an unsettled one it is the host's \<open>Promise\<close>, here \<open>None\<close>.
\<close>

datatype ('v, 'e) settlement = Unsettled | Fulfilled "'v option" | Rejected 'e

definition new_sync_promise :: "('v, 'e) settlement list \<Rightarrow> ('v, 'e) settlement" where
  "new_sync_promise calls = foldl (\<lambda>s c. if c = Unsettled then s else c) Unsettled calls"

definition sp_then :: "('v option \<Rightarrow> ('v, 'e) callback_result) option \<Rightarrow>
    ('e \<Rightarrow> ('v, 'e) callback_result) option \<Rightarrow> ('v, 'e) settlement \<Rightarrow> ('v, 'e) thenable option" where
  "sp_then onF onR p =
     (case p of
        Unsettled \<Rightarrow> None
      | Fulfilled v \<Rightarrow> Some (case onF of Some f \<Rightarrow> th_resolve (f v) | None \<Rightarrow> \<lparr>th_value = v, th_error = None\<rparr>)
      | Rejected e \<Rightarrow> Some (case onR of Some g \<Rightarrow> th_resolve (g e) | None \<Rightarrow> \<lparr>th_value = None, th_error = Some e\<rparr>))"

section \<open>BlockingSlotPool\<close>

text \<open>The control word of a slot is 0 when free, 1 when allocated, 2 when a result was written.\<close>

record slot_pool =
  slotBytes :: nat
  control :: "nat list"
  slot_data :: "u8 list"

definition new_pool :: "nat \<Rightarrow> nat \<Rightarrow> slot_pool" where
  "new_pool n sz = \<lparr>slotBytes = sz, control = replicate n 0, slot_data = replicate (n * sz) 0\<rparr>"

text \<open>The search from slot \<open>i\<close>; \<open>None\<close> is the throw when every slot is taken.\<close>

fun alloc_from :: "nat list \<Rightarrow> nat \<Rightarrow> nat option" where
  "alloc_from [] i = None"
| "alloc_from (c # cs) i = (if c = 0 then Some i else alloc_from cs (Suc i))"

definition pool_alloc :: "slot_pool \<Rightarrow> (nat \<times> slot_pool) option" where
  "pool_alloc p = (case alloc_from (control p) 0 of
     None \<Rightarrow> None | Some i \<Rightarrow> Some (i, p\<lparr>control := (control p)[i := 1]\<rparr>))"

definition pool_free :: "nat \<Rightarrow> slot_pool \<Rightarrow> slot_pool" where
  "pool_free i p = p\<lparr>control := (control p)[i := 0]\<rparr>"

definition splice_at :: "nat \<Rightarrow> 'a list \<Rightarrow> 'a list \<Rightarrow> 'a list" where
  "splice_at start new xs = take start xs @ new @ drop (start + length new) xs"

definition pool_write :: "nat \<Rightarrow> u8 list \<Rightarrow> slot_pool \<Rightarrow> slot_pool" where
  "pool_write i bs p =
     (let start = i * slotBytes p;
          d = splice_at start (replicate (slotBytes p) 0) (slot_data p)
      in p\<lparr>slot_data := splice_at start (take (slotBytes p) bs) d, control := (control p)[i := 2]\<rparr>)"

definition pool_read :: "nat \<Rightarrow> slot_pool \<Rightarrow> u8 list" where
  "pool_read i p = take (slotBytes p) (drop (i * slotBytes p) (slot_data p))"

section \<open>FutexTable\<close>

record futex_waiter =
  fw_id :: nat
  fw_timer :: bool

record futex_table =
  fwaiters :: "(string, futex_waiter list) jsmap"
  fnext :: nat
  fresolved :: "(nat \<times> int) list"

definition new_futex :: futex_table where
  "new_futex = \<lparr>fwaiters = [], fnext = 0, fresolved = []\<rparr>"

definition fkey :: "u32 \<Rightarrow> string" where
  "fkey addr = to_hex (unat addr)"

definition futex_wait :: "u32 \<Rightarrow> bool \<Rightarrow> futex_table \<Rightarrow> nat \<times> futex_table" where
  "futex_wait addr timed t =
     (let w = \<lparr>fw_id = fnext t, fw_timer = timed\<rparr>;
          l = (case map_of (fwaiters t) (fkey addr) of None \<Rightarrow> [] | Some l \<Rightarrow> l)
      in (fnext t, t\<lparr>fwaiters := AList.update (fkey addr) (l @ [w]) (fwaiters t), fnext := fnext t + 1\<rparr>))"

definition put_list :: "string \<Rightarrow> futex_waiter list \<Rightarrow> futex_table \<Rightarrow> futex_table" where
  "put_list k l t = (if l = [] then t\<lparr>fwaiters := AList.delete k (fwaiters t)\<rparr>
                     else t\<lparr>fwaiters := AList.update k l (fwaiters t)\<rparr>)"

definition futex_remove :: "string \<Rightarrow> nat \<Rightarrow> futex_table \<Rightarrow> futex_table" where
  "futex_remove k i t =
     (case map_of (fwaiters t) k of None \<Rightarrow> t
      | Some l \<Rightarrow> put_list k (filter (\<lambda>w. fw_id w \<noteq> i) l) t)"

text \<open>
  The timer of a waiter fires. Waking a waiter clears its timer, so a timer can only fire while its
  waiter is still listed; the resolution is -ETIMEDOUT.
\<close>

definition futex_timeout :: "u32 \<Rightarrow> nat \<Rightarrow> futex_table \<Rightarrow> futex_table" where
  "futex_timeout addr i t =
     (let l = (case map_of (fwaiters t) (fkey addr) of None \<Rightarrow> [] | Some l \<Rightarrow> l) in
      if \<exists>w \<in> set l. fw_id w = i \<and> fw_timer w
      then (futex_remove (fkey addr) i t)\<lparr>fresolved := fresolved t @ [(i, - 110)]\<rparr>
      else t)"

fun wake_loop :: "nat \<Rightarrow> futex_waiter list \<Rightarrow> (nat \<times> int) list \<Rightarrow> nat \<Rightarrow> nat \<times> futex_waiter list \<times> (nat \<times> int) list" where
  "wake_loop n [] res c = (n, [], res)"
| "wake_loop n (w # ws) res c =
     (if n < c then wake_loop (n + 1) ws (res @ [(fw_id w, 0)]) c else (n, w # ws, res))"

definition futex_wake :: "u32 \<Rightarrow> nat \<Rightarrow> futex_table \<Rightarrow> nat \<times> futex_table" where
  "futex_wake addr c t =
     (case map_of (fwaiters t) (fkey addr) of
        None \<Rightarrow> (0, t)
      | Some l \<Rightarrow> if l = [] then (0, t)
          else let (n, l', res) = wake_loop 0 l (fresolved t) c
               in (n, (put_list (fkey addr) l' t)\<lparr>fresolved := res\<rparr>))"

section \<open>Signals\<close>

datatype signal_action = SigTerminate | SigIgnore | SigCore | SigStop | SigContinue

record signal_state =
  handlers :: "(u32, nat) jsmap"
  sigmask :: "u32 list"
  pending :: "(u32 \<times> nat) list"

definition new_signals :: signal_state where
  "new_signals = \<lparr>handlers = [], sigmask = [], pending = []\<rparr>"

definition setHandler :: "u32 \<Rightarrow> nat \<Rightarrow> signal_state \<Rightarrow> signal_state" where
  "setHandler sg h s = s\<lparr>handlers := AList.update sg h (handlers s)\<rparr>"

definition sig_block :: "u32 \<Rightarrow> signal_state \<Rightarrow> signal_state" where
  "sig_block sg s = (if sg \<in> set (sigmask s) then s else s\<lparr>sigmask := sigmask s @ [sg]\<rparr>)"

definition sig_unblock :: "u32 \<Rightarrow> signal_state \<Rightarrow> signal_state" where
  "sig_unblock sg s = s\<lparr>sigmask := filter (\<lambda>x. x \<noteq> sg) (sigmask s)\<rparr>"

text \<open>A pending signal carries the information object it was queued with, here its number.\<close>

definition sig_enqueue :: "u32 \<Rightarrow> nat \<Rightarrow> signal_state \<Rightarrow> signal_state" where
  "sig_enqueue sg info s = s\<lparr>pending := pending s @ [(sg, info)]\<rparr>"

fun splice_first :: "('a \<Rightarrow> bool) \<Rightarrow> 'a list \<Rightarrow> ('a \<times> 'a list) option" where
  "splice_first P [] = None"
| "splice_first P (x # xs) =
     (if P x then Some (x, xs) else case splice_first P xs of None \<Rightarrow> None | Some (y, ys) \<Rightarrow> Some (y, x # ys))"

definition nextDeliverable :: "signal_state \<Rightarrow> (u32 \<times> nat) option \<times> signal_state" where
  "nextDeliverable s =
     (case splice_first (\<lambda>p. fst p \<notin> set (sigmask s)) (pending s) of
        None \<Rightarrow> (None, s) | Some (p, rest) \<Rightarrow> (Some p, s\<lparr>pending := rest\<rparr>))"

definition defaultAction :: "u32 \<Rightarrow> signal_action" where
  "defaultAction sg =
     (case map_of [(17, SigIgnore), (18, SigContinue), (19, SigStop), (9, SigTerminate)] sg of
        None \<Rightarrow> SigTerminate | Some a \<Rightarrow> a)"

section \<open>Futexes: no wake-up is lost and none is doubled\<close>

text \<open>The waiters of a key, in order: the abstract futex table.\<close>

definition fqueue :: "futex_table \<Rightarrow> string \<Rightarrow> nat list" where
  "fqueue t k = (case map_of (fwaiters t) k of None \<Rightarrow> [] | Some l \<Rightarrow> map fw_id l)"

lemma fqueue_put: "fqueue (put_list k l t) = (fqueue t)(k := map fw_id l)"
  by (auto simp: fqueue_def put_list_def fun_eq_iff)

lemma fqueue_resolved [simp]: "fqueue (t\<lparr>fresolved := r\<rparr>) = fqueue t"
  by (simp add: fqueue_def fun_eq_iff)

lemma wake_loop_spec:
  "wake_loop n l res c = (n + min (c - n) (length l), drop (c - n) l, res @ map (\<lambda>w. (fw_id w, 0)) (take (c - n) l))"
proof (induction n l res c rule: wake_loop.induct)
  case (2 n w ws res c)
  show ?case
  proof (cases "n < c")
    case True
    then obtain m where "c - n = Suc m" "c - (n + 1) = m" by (cases "c - n") auto
    with True 2 show ?thesis by simp
  qed simp
qed simp

lemma futex_wait_spec:
  "fst (futex_wait a tm t) = fnext t" "fqueue (snd (futex_wait a tm t)) = (fqueue t)(fkey a := fqueue t (fkey a) @ [fnext t])"
  "fnext (snd (futex_wait a tm t)) = Suc (fnext t)" "fresolved (snd (futex_wait a tm t)) = fresolved t"
  by (auto simp: futex_wait_def fqueue_def fun_eq_iff Let_def split: option.splits)

lemma fresolved_put [simp]: "fresolved (put_list k l t) = fresolved t" "fnext (put_list k l t) = fnext t"
  by (simp_all add: put_list_def)

lemma fkey_inj: "fkey a = fkey b \<longleftrightarrow> a = b"
  unfolding fkey_def using to_hex_inj by (metis word_unat_eq_iff)

lemma futex_wake_spec:
  "fst (futex_wake a c t) = min c (length (fqueue t (fkey a)))"
  "fqueue (snd (futex_wake a c t)) = (fqueue t)(fkey a := drop c (fqueue t (fkey a)))"
  "fresolved (snd (futex_wake a c t)) = fresolved t @ map (\<lambda>i. (i, 0)) (take c (fqueue t (fkey a)))"
  "fnext (snd (futex_wake a c t)) = fnext t"
proof -
  have "fst (futex_wake a c t) = min c (length (fqueue t (fkey a))) \<and>
     fqueue (snd (futex_wake a c t)) = (fqueue t)(fkey a := drop c (fqueue t (fkey a))) \<and>
     fresolved (snd (futex_wake a c t)) = fresolved t @ map (\<lambda>i. (i, 0)) (take c (fqueue t (fkey a))) \<and>
     fnext (snd (futex_wake a c t)) = fnext t"
  proof (cases "fqueue t (fkey a) = []")
    case True
    then show ?thesis by (auto simp: futex_wake_def fqueue_def fun_eq_iff split: option.splits)
  next
    case False
    then obtain l where "map_of (fwaiters t) (fkey a) = Some l" "l \<noteq> []" "fqueue t (fkey a) = map fw_id l"
      by (auto simp: fqueue_def split: option.splits)
    then show ?thesis
      by (simp add: futex_wake_def wake_loop_spec fqueue_put drop_map take_map comp_def)
  qed
  then show "fst (futex_wake a c t) = min c (length (fqueue t (fkey a)))"
    "fqueue (snd (futex_wake a c t)) = (fqueue t)(fkey a := drop c (fqueue t (fkey a)))"
    "fresolved (snd (futex_wake a c t)) = fresolved t @ map (\<lambda>i. (i, 0)) (take c (fqueue t (fkey a)))"
    "fnext (snd (futex_wake a c t)) = fnext t" by blast+
qed

lemma futex_timeout_spec:
  "futex_timeout a i t = t \<or>
   i \<in> set (fqueue t (fkey a)) \<and>
   fqueue (futex_timeout a i t) = (fqueue t)(fkey a := filter (\<lambda>x. x \<noteq> i) (fqueue t (fkey a))) \<and>
   fresolved (futex_timeout a i t) = fresolved t @ [(i, - 110)] \<and> fnext (futex_timeout a i t) = fnext t"
proof (cases "map_of (fwaiters t) (fkey a)")
  case None
  then show ?thesis by (simp add: futex_timeout_def)
next
  case (Some l)
  show ?thesis
  proof (cases "\<exists>w \<in> set l. fw_id w = i \<and> fw_timer w")
    case True
    have q: "fqueue t (fkey a) = map fw_id l" using Some by (simp add: fqueue_def)
    have "futex_timeout a i t = (put_list (fkey a) (filter (\<lambda>w. fw_id w \<noteq> i) l) t)\<lparr>fresolved := fresolved t @ [(i, - 110)]\<rparr>"
      using Some True by (simp add: futex_timeout_def futex_remove_def)
    moreover have "i \<in> set (map fw_id l)" using True by auto
    ultimately show ?thesis by (simp add: fqueue_put q filter_map comp_def)
  next
    case False
    then have "futex_timeout a i t = t" unfolding futex_timeout_def Some Let_def option.case by (rule if_not_P)
    then show ?thesis by blast
  qed
qed

datatype futex_op = FWait u32 bool | FTimeout u32 nat | FWake u32 nat

primrec run_futex :: "futex_op \<Rightarrow> futex_table \<Rightarrow> futex_table" where
  "run_futex (FWait a tm) t = snd (futex_wait a tm t)"
| "run_futex (FTimeout a i) t = futex_timeout a i t"
| "run_futex (FWake a c) t = snd (futex_wake a c t)"

text \<open>Every wait is in exactly one place: in one queue, or resolved once.\<close>

definition waiting :: "futex_table \<Rightarrow> nat set" where
  "waiting t = (\<Union>k. set (fqueue t k))"

definition futex_inv :: "futex_table \<Rightarrow> bool" where
  "futex_inv t \<longleftrightarrow>
     (\<forall>k. distinct (fqueue t k)) \<and> (\<forall>k k'. k \<noteq> k' \<longrightarrow> set (fqueue t k) \<inter> set (fqueue t k') = {}) \<and>
     distinct (map fst (fresolved t)) \<and> waiting t \<inter> fst ` set (fresolved t) = {} \<and>
     waiting t \<union> fst ` set (fresolved t) = {..<fnext t}"

lemma fqueue_known: "futex_inv t \<Longrightarrow> i \<in> set (fqueue t k) \<Longrightarrow> i < fnext t"
proof -
  assume inv: "futex_inv t" and i: "i \<in> set (fqueue t k)"
  then have "i \<in> waiting t" unfolding waiting_def by blast
  with inv show "i < fnext t" unfolding futex_inv_def by blast
qed

text \<open>The waits at one key and those elsewhere.\<close>

lemma waiting_split: "waiting t = (\<Union>j \<in> - {k}. set (fqueue t j)) \<union> set (fqueue t k)"
  unfolding waiting_def by auto

text \<open>Moving part of one queue to the resolved waits.\<close>

lemma futex_inv_move:
  assumes inv: "futex_inv t" and q: "fqueue t' = (fqueue t)(k := l)" and n: "fnext t' = fnext t"
    and r: "fresolved t' = fresolved t @ map (\<lambda>i. (i, v)) l'"
    and split: "distinct (l @ l')" "set (l @ l') = set (fqueue t k)"
  shows "futex_inv t'"
proof -
  define A where "A = (\<Union>j \<in> - {k}. set (fqueue t j))"
  have A: "A \<inter> set (fqueue t k) = {}" using inv unfolding futex_inv_def A_def by blast
  have t': "waiting t' = A \<union> set l" unfolding waiting_split [of t' k] A_def by (auto simp: q)
  have t: "waiting t = A \<union> set (fqueue t k)" unfolding waiting_split [of t k] A_def ..
  have w: "waiting t = waiting t' \<union> set l'" "waiting t' \<inter> set l' = {}"
    using A split unfolding t t' by auto
  have "set l' \<inter> fst ` set (fresolved t) = {}" using inv w(1) unfolding futex_inv_def by blast
  moreover have "fst ` set (fresolved t') = fst ` set (fresolved t) \<union> set l'" by (force simp: r)
  moreover have "map fst (fresolved t') = map fst (fresolved t) @ l'" by (simp add: r comp_def)
  moreover have "\<forall>j. distinct (fqueue t' j)" using inv split(1) by (simp add: futex_inv_def q)
  moreover have "\<forall>j j'. j \<noteq> j' \<longrightarrow> set (fqueue t' j) \<inter> set (fqueue t' j') = {}"
  proof (intro allI impI)
    fix j j' :: string
    assume ne: "j \<noteq> j'"
    have "set (fqueue t j) \<inter> set (fqueue t j') = {}" using inv ne unfolding futex_inv_def by blast
    moreover have "set (fqueue t' i) \<subseteq> set (fqueue t i)" for i using split(2) by (auto simp: q)
    ultimately show "set (fqueue t' j) \<inter> set (fqueue t' j') = {}" by blast
  qed
  ultimately show ?thesis
    using inv w split(1) unfolding futex_inv_def n by auto
qed

lemma run_futex_inv:
  assumes "futex_inv t"
  shows "futex_inv (run_futex x t)"
proof (cases x)
  case (FWait a tm)
  have fresh: "fnext t \<notin> set (fqueue t k)" for k using fqueue_known [OF assms] by blast
  have "waiting (run_futex x t) = insert (fnext t) (waiting t)"
    by (auto simp: FWait waiting_def futex_wait_spec split: if_splits)
  moreover have "fnext t \<notin> fst ` set (fresolved t)" using assms unfolding futex_inv_def by blast
  moreover have "\<forall>j j'. j \<noteq> j' \<longrightarrow> set (fqueue (run_futex x t) j) \<inter> set (fqueue (run_futex x t) j') = {}"
    using assms fresh by (auto simp: FWait futex_wait_spec futex_inv_def)
  moreover have "\<forall>j. distinct (fqueue (run_futex x t) j)"
    using assms fresh by (auto simp: FWait futex_wait_spec futex_inv_def)
  ultimately show ?thesis
    using assms by (auto simp: FWait futex_wait_spec futex_inv_def lessThan_Suc)
next
  case (FTimeout a i)
  show ?thesis
  proof (cases "futex_timeout a i t = t")
    case False
    have d: "distinct (fqueue t (fkey a))" using assms by (simp add: futex_inv_def)
    show ?thesis
      unfolding FTimeout run_futex.simps
      by (rule futex_inv_move [OF assms, where k = "fkey a" and l' = "[i]" and v = "- 110"])
        (use futex_timeout_spec [of a i t] False d in auto)
  qed (use assms FTimeout in simp)
next
  case (FWake a c)
  have d: "distinct (fqueue t (fkey a))" using assms by (simp add: futex_inv_def)
  have "distinct (drop c (fqueue t (fkey a)) @ take c (fqueue t (fkey a)))"
    using d by (metis append_take_drop_id distinct_append inf_commute)
  moreover have "set (drop c (fqueue t (fkey a)) @ take c (fqueue t (fkey a))) = set (fqueue t (fkey a))"
    by (metis Un_commute append_take_drop_id set_append)
  ultimately show ?thesis
    unfolding FWake run_futex.simps
    by (intro futex_inv_move [OF assms futex_wake_spec(2,4,3)])
qed

text \<open>
  C20: futexes lose no wake-up and deliver none twice. After any sequence of waits, timeouts and
  wake-ups, every wait that was made is either still queued at one address or was resolved, exactly
  once and never both; and a wake-up of \<open>c\<close> waiters at an address resolves the oldest \<open>c\<close> waits there,
  or all of them if there are fewer, touches no other address and returns how many it woke.
\<close>

theorem futex_exactly_once:
  "(let t = fold run_futex ops new_futex; (n, t') = futex_wake a c t in
     distinct (map fst (fresolved t)) \<and> (\<forall>k. distinct (fqueue t k)) \<and>
     waiting t \<inter> fst ` set (fresolved t) = {} \<and> waiting t \<union> fst ` set (fresolved t) = {..<fnext t} \<and>
     n = min c (length (fqueue t (fkey a))) \<and>
     fqueue t' = (fqueue t)(fkey a := drop c (fqueue t (fkey a))) \<and>
     fresolved t' = fresolved t @ map (\<lambda>i. (i, 0)) (take c (fqueue t (fkey a))))"
proof -
  have "futex_inv new_futex" by (simp add: futex_inv_def new_futex_def waiting_def fqueue_def)
  then have "futex_inv (fold run_futex ops t)" if "futex_inv t" for t
    using that by (induction ops arbitrary: t) (simp_all add: run_futex_inv)
  with \<open>futex_inv new_futex\<close> have inv: "futex_inv (fold run_futex ops new_futex)" by blast
  show ?thesis
    using inv futex_wake_spec [of a c "fold run_futex ops new_futex"]
    by (simp add: futex_inv_def Let_def case_prod_unfold)
qed

section \<open>Signals\<close>

lemma splice_first_spec:
  "case splice_first P xs of
     None \<Rightarrow> filter P xs = []
   | Some (y, ys) \<Rightarrow> \<exists>u v. xs = u @ y # v \<and> ys = u @ v \<and> P y \<and> filter P u = []"
proof (induction xs)
  case (Cons x xs)
  show ?case
  proof (cases "P x")
    case True
    then show ?thesis by (auto intro: exI [of _ "[]"])
  next
    case False
    then show ?thesis
      using Cons by (auto split: option.splits intro: exI [of _ "x # u" for u])
        (metis Cons_eq_appendI False filter.simps(2))
  qed
qed simp

text \<open>
  C21: a blocked signal is never delivered and an unblocked one is not starved. \<open>nextDeliverable\<close>
  returns the oldest pending signal that is not blocked and takes exactly that one out, the others
  keeping their order; it returns nothing, and changes nothing, only if every pending signal is blocked.
\<close>

theorem signal_delivery:
  "case nextDeliverable s of
     (None, s') \<Rightarrow> s' = s \<and> filter (\<lambda>p. fst p \<notin> set (sigmask s)) (pending s) = []
   | (Some p, s') \<Rightarrow> \<exists>u v. pending s = u @ p # v \<and> s' = s\<lparr>pending := u @ v\<rparr> \<and>
       fst p \<notin> set (sigmask s) \<and> filter (\<lambda>q. fst q \<notin> set (sigmask s)) u = []"
proof (cases "splice_first (\<lambda>p. fst p \<notin> set (sigmask s)) (pending s)")
  case None
  then show ?thesis
    using splice_first_spec [of "\<lambda>p. fst p \<notin> set (sigmask s)" "pending s"] by (simp add: nextDeliverable_def)
next
  case (Some r)
  obtain p rest where r: "r = (p, rest)" by fastforce
  then obtain u v where "pending s = u @ p # v" "rest = u @ v" "fst p \<notin> set (sigmask s)"
    "filter (\<lambda>q. fst q \<notin> set (sigmask s)) u = []"
    using splice_first_spec [of "\<lambda>p. fst p \<notin> set (sigmask s)" "pending s"] Some by auto
  moreover have "nextDeliverable s = (Some p, s\<lparr>pending := rest\<rparr>)" by (simp add: nextDeliverable_def Some r)
  ultimately show ?thesis by auto
qed

section \<open>Blocking slots\<close>

lemma splice_at_length: "start + length new \<le> length xs \<Longrightarrow> length (splice_at start new xs) = length xs"
  by (simp add: splice_at_def)

lemma splice_at_nth:
  "start + length new \<le> length xs \<Longrightarrow> k < length xs \<Longrightarrow>
   splice_at start new xs ! k = (if start \<le> k \<and> k < start + length new then new ! (k - start) else xs ! k)"
  by (auto simp: splice_at_def nth_append min_def)

lemma slot_bound: "i < n \<Longrightarrow> i * (sz :: nat) + sz \<le> n * sz"
  by (metis Suc_leI add.commute mult_Suc mult_le_mono1)

lemma alloc_from_spec:
  "case alloc_from cs i of
     None \<Rightarrow> 0 \<notin> set cs
   | Some j \<Rightarrow> i \<le> j \<and> j - i < length cs \<and> cs ! (j - i) = 0 \<and> 0 \<notin> set (take (j - i) cs)"
proof (induction cs i rule: alloc_from.induct)
  case (2 c cs i)
  show ?case
  proof (cases "c = 0")
    case False
    show ?thesis
    proof (cases "alloc_from cs (Suc i)")
      case (Some j)
      then have "Suc i \<le> j" "j - Suc i < length cs" "cs ! (j - Suc i) = 0" "0 \<notin> set (take (j - Suc i) cs)"
        using 2 False by auto
      moreover have "j - i = Suc (j - Suc i)" using \<open>Suc i \<le> j\<close> by simp
      ultimately show ?thesis using False Some by simp
    qed (use 2 False in simp)
  qed simp
qed simp

text \<open>
  A blocking slot carries one result at a time and slots do not interfere. Writing a result to a
  slot makes exactly the first \<open>slotBytes\<close> bytes of it, padded with zeros, readable there and marks the
  slot as answered; what any other slot holds and its state are unchanged.
\<close>

theorem slot_write_read:
  assumes "length (control p) = n" "length (slot_data p) = n * slotBytes p" "i < n"
  shows "pool_read i (pool_write i bs p) = take (slotBytes p) (bs @ replicate (slotBytes p) 0) \<and>
     control (pool_write i bs p) ! i = 2 \<and> length (slot_data (pool_write i bs p)) = n * slotBytes p \<and>
     (\<forall>j < n. j \<noteq> i \<longrightarrow> pool_read j (pool_write i bs p) = pool_read j p \<and>
        control (pool_write i bs p) ! j = control p ! j)"
proof -
  let ?sz = "slotBytes p" and ?p' = "pool_write i bs p"
  define d where "d = splice_at (i * ?sz) (replicate ?sz 0) (slot_data p)"
  define d' where "d' = splice_at (i * ?sz) (take ?sz bs) d"
  have b: "j * ?sz + ?sz \<le> n * ?sz" if "j < n" for j using that by (rule slot_bound)
  have len: "length d = n * ?sz" "length d' = n * ?sz"
    using b [OF assms(3)] assms(2) by (simp_all add: d_def d'_def splice_at_length)
  have p': "?p' = p\<lparr>slot_data := d', control := (control p)[i := 2]\<rparr>"
    by (simp add: pool_write_def Let_def d_def d'_def)
  have nth: "d' ! k = (if i * ?sz \<le> k \<and> k < i * ?sz + ?sz
      then (if k - i * ?sz < length bs then bs ! (k - i * ?sz) else 0) else slot_data p ! k)" if "k < n * ?sz" for k
    using that b [OF assms(3)] assms(2) len(1)
    by (auto simp: d'_def splice_at_nth) (auto simp: d_def splice_at_nth)
  have rd: "pool_read j ?p' = map (\<lambda>k. d' ! (j * ?sz + k)) [0..<?sz]" if "j < n" for j
  proof -
    have "j * ?sz \<le> length d'" using b [OF that] len by linarith
    then show ?thesis using b [OF that] len by (intro nth_equalityI) (simp_all add: pool_read_def p' nth_drop)
  qed
  have rd0: "pool_read j p = map (\<lambda>k. slot_data p ! (j * ?sz + k)) [0..<?sz]" if "j < n" for j
  proof -
    have "j * ?sz \<le> length (slot_data p)" using b [OF that] assms(2) by linarith
    then show ?thesis using b [OF that] assms(2) by (intro nth_equalityI) (simp_all add: pool_read_def nth_drop)
  qed
  have "pool_read i ?p' = take ?sz (bs @ replicate ?sz 0)"
    unfolding rd [OF assms(3)] using b [OF assms(3)] by (intro nth_equalityI) (auto simp: nth nth_append)
  moreover have "pool_read j ?p' = pool_read j p" if "j < n" "j \<noteq> i" for j
  proof -
    have "\<not> (i * ?sz \<le> j * ?sz + k \<and> j * ?sz + k < i * ?sz + ?sz)" if "k < ?sz" for k
    proof (cases "j < i")
      case True
      then show ?thesis using slot_bound [OF True, of ?sz] that by linarith
    next
      case False
      then have "i < j" using \<open>j \<noteq> i\<close> by simp
      then show ?thesis using slot_bound [OF \<open>i < j\<close>, of ?sz] by linarith
    qed
    then show ?thesis
      unfolding rd [OF that(1)] rd0 [OF that(1)] using b [OF that(1)] by (intro map_cong refl) (auto simp: nth)
  qed
  ultimately show ?thesis using assms by (simp add: p' len)
qed

theorem slot_write_read_witness:
  "pool_read 1 (pool_write 1 [7] (new_pool 3 2)) = [7, 0] \<and>
   pool_read 0 (pool_write 1 [7] (new_pool 3 2)) = pool_read 0 (new_pool 3 2)"
  using slot_write_read [of "new_pool 3 2" 3 1 "[7]"] by (simp add: new_pool_def numeral_2_eq_2)

end
