(* ===== verification/Orchestration.thy ===== *)
theory Orchestration
  imports Util
begin

text \<open>
  The second actor layer, \<open>src/xstate-orchestration.js\<close>. Its actions mutate the context object in place and
  the default contexts hold maps and arrays that every actor of a machine shares, because a new actor copies
  only the top level of the default context. The shared objects live in a heap, an argument and a result of
  \<open>osend\<close>; contexts hold references into it.
\<close>

section \<open>ActorMachine\<close>

datatype ('c, 'e, 'h) otransition =
    OGoto string
  | OTx "string option" "('c \<Rightarrow> 'e \<Rightarrow> bool) option" "('c \<Rightarrow> 'e \<Rightarrow> 'h \<Rightarrow> 'c \<times> 'h) list"

record ('c, 'e, 'h) omachine =
  om_initial :: string
  om_context :: 'c
  om_states :: "(string, (string, ('c, 'e, 'h) otransition) jsmap) jsmap"
  om_on :: "(string, ('c, 'e, 'h) otransition) jsmap"

record ('c, 'e, 'h) oactor =
  oa_machine :: "('c, 'e, 'h) omachine"
  oa_state :: string
  oa_context :: 'c
  oa_listeners :: "nat list"
  oa_log :: "(nat \<times> string \<times> 'c \<times> 'e option) list"

text \<open>The second argument overrides fields of the default context.\<close>

definition new_oactor :: "('c, 'e, 'h) omachine \<Rightarrow> ('c \<Rightarrow> 'c) \<Rightarrow> ('c, 'e, 'h) oactor" where
  "new_oactor m override = \<lparr>oa_machine = m, oa_state = om_initial m, oa_context = override (om_context m),
     oa_listeners = [], oa_log = []\<rparr>"

definition osubscribe :: "nat \<Rightarrow> ('c, 'e, 'h) oactor \<Rightarrow> ('c, 'e, 'h) oactor" where
  "osubscribe f a =
     (let l = (if f \<in> set (oa_listeners a) then oa_listeners a else oa_listeners a @ [f])
      in a\<lparr>oa_listeners := l, oa_log := oa_log a @ [(f, oa_state a, oa_context a, None)]\<rparr>)"

definition ounsubscribe :: "nat \<Rightarrow> ('c, 'e, 'h) oactor \<Rightarrow> ('c, 'e, 'h) oactor" where
  "ounsubscribe f a = a\<lparr>oa_listeners := filter (\<lambda>g. g \<noteq> f) (oa_listeners a)\<rparr>"

definition oemit :: "'e \<Rightarrow> ('c, 'e, 'h) oactor \<Rightarrow> ('c, 'e, 'h) oactor" where
  "oemit ev a = a\<lparr>oa_log := oa_log a @ map (\<lambda>f. (f, oa_state a, oa_context a, Some ev)) (oa_listeners a)\<rparr>"

definition omatches :: "string \<Rightarrow> ('c, 'e, 'h) oactor \<Rightarrow> bool" where
  "omatches v a \<longleftrightarrow> oa_state a = v"

definition ofind_tx :: "('c, 'e, 'h) omachine \<Rightarrow> string \<Rightarrow> string \<Rightarrow> ('c, 'e, 'h) otransition option" where
  "ofind_tx m v ty =
     (case (case map_of (om_states m) v of None \<Rightarrow> None | Some n \<Rightarrow> map_of n ty) of
        Some t \<Rightarrow> Some t | None \<Rightarrow> map_of (om_on m) ty)"

fun orun_acts :: "('c \<Rightarrow> 'e \<Rightarrow> 'h \<Rightarrow> 'c \<times> 'h) list \<Rightarrow> 'e \<Rightarrow> 'c \<times> 'h \<Rightarrow> 'c \<times> 'h" where
  "orun_acts [] ev ch = ch"
| "orun_acts (f # fs) ev ch = orun_acts fs ev (f (fst ch) ev (snd ch))"

definition osend :: "('e \<Rightarrow> string) \<Rightarrow> 'e \<Rightarrow> ('c, 'e, 'h) oactor \<Rightarrow> 'h \<Rightarrow> ('c, 'e, 'h) oactor \<times> 'h" where
  "osend ty ev a h =
     (case ofind_tx (oa_machine a) (oa_state a) (ty ev) of
        None \<Rightarrow> (a, h)
      | Some t \<Rightarrow>
          let (target, guard, acts) = (case t of OGoto s \<Rightarrow> (Some s, None, []) | OTx s g l \<Rightarrow> (s, g, l)) in
          if (case guard of None \<Rightarrow> False | Some g \<Rightarrow> \<not> g (oa_context a) ev) then (a, h)
          else let (c, h') = orun_acts acts ev (oa_context a, h)
               in (oemit ev (a\<lparr>oa_context := c, oa_state := (case target of Some s \<Rightarrow> s | None \<Rightarrow> oa_state a)\<rparr>), h'))"

section \<open>The machines\<close>

text \<open>Values of event and context objects.\<close>

datatype jsval = JNull | JNum int | JStr string

text \<open>An event object: its fields, \<open>type\<close> included.\<close>

type_synonym jsobj = "(string, jsval) jsmap"

definition js_type :: "jsobj \<Rightarrow> string" where
  "js_type e = (case map_of e ''type'' of Some (JStr t) \<Rightarrow> t | _ \<Rightarrow> [])"

definition js_field :: "string \<Rightarrow> jsobj \<Rightarrow> jsval" where
  "js_field k e = (case map_of e k of Some v \<Rightarrow> v | None \<Rightarrow> JNull)"

definition object_assign :: "jsobj \<Rightarrow> jsobj \<Rightarrow> jsobj" where
  "object_assign c e = fold (\<lambda>(k, v). AList.update k v) e c"

subsection \<open>Kernel\<close>

record kernel_heap =
  kh_maps :: "(jsval, jsobj) jsmap list"
  kh_faults :: "jsobj list list"

record okernel_ctx =
  ok_processes :: nat
  ok_faults :: nat
  ok_bootArgs :: jsobj

definition okernelMachine :: "(okernel_ctx, jsobj, kernel_heap) omachine" where
  "okernelMachine =
     (let fault = (\<lambda>c e h. (c, h\<lparr>kh_faults := (kh_faults h)[ok_faults c := kh_faults h ! ok_faults c @ [e]]\<rparr>)) in
      \<lparr>om_initial = ''idle'', om_context = \<lparr>ok_processes = 0, ok_faults = 0, ok_bootArgs = []\<rparr>,
       om_states =
         [(''idle'', [(''BOOT'', OTx (Some ''booting'') None [\<lambda>c e h. (c\<lparr>ok_bootArgs := e\<rparr>, h)])]),
          (''booting'', [(''READY'', OGoto ''running''), (''FAULT'', OTx (Some ''faulted'') None [fault])]),
          (''running'',
             [(''SPAWN'', OTx None None [\<lambda>c e h. (c, h\<lparr>kh_maps := (kh_maps h)[ok_processes c :=
                  AList.update (js_field ''pid'' e) e (kh_maps h ! ok_processes c)]\<rparr>)]),
              (''EXIT'', OTx None None [\<lambda>c e h. (c, h\<lparr>kh_maps := (kh_maps h)[ok_processes c :=
                  AList.delete (js_field ''pid'' e) (kh_maps h ! ok_processes c)]\<rparr>)]),
              (''FAULT'', OTx (Some ''faulted'') None [fault]), (''SHUTDOWN'', OGoto ''stopped'')]),
          (''faulted'', [(''RESET'', OGoto ''idle'')]),
          (''stopped'', [(''RESET'', OGoto ''idle'')])],
       om_on = []\<rparr>)"

subsection \<open>Process\<close>

definition exit_code :: "jsobj \<Rightarrow> jsval" where
  "exit_code e = (if js_field ''code'' e = JNull then JNum 0 else js_field ''code'' e)"

text \<open>The \<open>fault\<close> field holds the whole event; it is kept beside the flat fields.\<close>

record oprocess_ctx =
  op_fields :: jsobj
  op_fault :: "jsobj option"

definition oprocessMachine :: "(oprocess_ctx, jsobj, unit) omachine" where
  "oprocessMachine =
     (let set_field = (\<lambda>k v c. c\<lparr>op_fields := AList.update k v (op_fields c)\<rparr>);
          exit = (\<lambda>c e h. (set_field ''exitCode'' (exit_code e) c, h)) in
      \<lparr>om_initial = ''new'',
       om_context = \<lparr>op_fields = [(''pid'', JNum 0), (''path'', JStr []), (''exitCode'', JNull), (''signal'', JNull)],
         op_fault = None\<rparr>,
       om_states =
         [(''new'', [(''LOAD'', OTx (Some ''loaded'') None
             [\<lambda>c e h. (c\<lparr>op_fields := object_assign (op_fields c) e\<rparr>, h)])]),
          (''loaded'', [(''RUN'', OGoto ''running''),
             (''EXEC'', OTx None None [\<lambda>c e h. (set_field ''path'' (js_field ''path'' e) c, h)])]),
          (''running'', [(''BLOCK'', OGoto ''blocked''),
             (''SIGNAL'', OTx None None [\<lambda>c e h. (set_field ''signal'' (js_field ''signal'' e) c, h)]),
             (''EXIT'', OTx (Some ''exited'') None [exit]),
             (''FAULT'', OTx (Some ''faulted'') None [\<lambda>c e h. (c\<lparr>op_fault := Some e\<rparr>, h)])]),
          (''blocked'', [(''WAKE'', OGoto ''running''), (''EXIT'', OTx (Some ''exited'') None [exit])]),
          (''exited'', []),
          (''faulted'', [])],
       om_on = []\<rparr>)"

subsection \<open>Scheduler\<close>

record osched_ctx =
  os_queue :: nat
  os_current :: jsval
  os_ticks :: nat

type_synonym queue_heap = "jsval list list"

definition osched_tick :: "osched_ctx \<Rightarrow> queue_heap \<Rightarrow> osched_ctx \<times> queue_heap" where
  "osched_tick c h =
     (case h ! os_queue c of
        [] \<Rightarrow> (c\<lparr>os_ticks := os_ticks c + 1, os_current := JNull\<rparr>, h)
      | p # ps \<Rightarrow> (c\<lparr>os_ticks := os_ticks c + 1, os_current := p\<rparr>,
          h[os_queue c := (if p = JNull then ps else ps @ [p])]))"

definition oschedulerMachine :: "(osched_ctx, jsobj, queue_heap) omachine" where
  "oschedulerMachine =
     \<lparr>om_initial = ''stopped'', om_context = \<lparr>os_queue = 0, os_current = JNull, os_ticks = 0\<rparr>,
      om_states =
        [(''stopped'', [(''START'', OGoto ''running'')]),
         (''running'',
            [(''ENQUEUE'', OTx None None [\<lambda>c e h. (c, h[os_queue c := h ! os_queue c @ [js_field ''pid'' e]])]),
             (''TICK'', OTx None None [\<lambda>c e h. osched_tick c h]), (''STOP'', OGoto ''stopped'')])],
      om_on = []\<rparr>"

subsection \<open>Device\<close>

record odevice_ctx =
  od_name :: jsval
  od_events :: nat

definition odeviceMachine :: "(odevice_ctx, jsobj, jsobj list list) omachine" where
  "odeviceMachine =
     \<lparr>om_initial = ''detached'', om_context = \<lparr>od_name = JStr [], od_events = 0\<rparr>,
      om_states =
        [(''detached'', [(''ATTACH'', OTx (Some ''ready'') None
            [\<lambda>c e h. (c\<lparr>od_name := (if js_field ''name'' e = JNull then od_name c else js_field ''name'' e)\<rparr>, h)])]),
         (''ready'', [(''IO'', OTx (Some ''busy'') None
            [\<lambda>c e h. (c, h[od_events c := h ! od_events c @ [e]])]), (''DETACH'', OGoto ''detached'')]),
         (''busy'', [(''COMPLETE'', OGoto ''ready''), (''FAULT'', OGoto ''faulted'')]),
         (''faulted'', [(''RESET'', OGoto ''ready'')])],
      om_on = []\<rparr>"

section \<open>Facts\<close>

definition osend_all :: "('e \<Rightarrow> string) \<Rightarrow> 'e list \<Rightarrow> ('c, 'e, 'h) oactor \<Rightarrow> 'h \<Rightarrow> ('c, 'e, 'h) oactor \<times> 'h" where
  "osend_all ty evs a h = foldl (\<lambda>(a, h) ev. osend ty ev a h) (a, h) evs"

lemma osend_refused:
  "ofind_tx (oa_machine a) (oa_state a) (ty ev) = None \<Longrightarrow> osend ty ev a h = (a, h)"
  by (simp add: osend_def)

text \<open>Exited and faulted processes ignore every event.\<close>

lemma oprocess_final:
  "oa_machine a = oprocessMachine \<Longrightarrow> oa_state a \<in> {''exited'', ''faulted''} \<Longrightarrow> osend js_type ev a h = (a, h)"
  by (rule osend_refused) (auto simp: ofind_tx_def oprocessMachine_def Let_def)

definition oev :: "string \<Rightarrow> int \<Rightarrow> jsobj" where
  "oev t p = [(''type'', JStr t), (''pid'', JNum p)]"

text \<open>
  Two schedulers created with the default context share one run queue: a process enqueued in the first is
  handed out by a tick of the second.
\<close>

lemma oschedulers_share_queue:
  "(let new = new_oactor oschedulerMachine (\<lambda>c. c);
        (a, h1) = osend_all js_type [oev ''START'' 0, oev ''ENQUEUE'' p] new [[]];
        (b, h2) = osend_all js_type [oev ''START'' 0, oev ''TICK'' 0] new h1
    in os_current (oa_context b) = JNum p)"
  by (simp add: osend_all_def osend_def new_oactor_def oschedulerMachine_def ofind_tx_def oev_def js_type_def
      oemit_def osched_tick_def js_field_def)

end
