(* ===== verification/Machines.thy ===== *)
theory Machines
  imports Util
begin

text \<open>
  The actors of \<open>src/xstate-lite.js\<close> and the kernel, process and scheduler machines of
  \<open>src/machines.js\<close>. A machine is data: for each state the transitions by event type, and the named
  actions. Calls of subscribers are entries of a log.
\<close>

section \<open>Actors\<close>

datatype ('c, 'e) act = ActName string | ActFun "'c \<Rightarrow> 'e \<Rightarrow> 'c option"

text \<open>A transition is a bare target or an object with an optional target and actions.\<close>

datatype ('c, 'e) transition = Goto string | Tx "string option" "('c, 'e) act list"

record ('c, 'e) machine =
  m_initial :: string
  m_states :: "(string, (string, ('c, 'e) transition) jsmap) jsmap"
  m_on :: "(string, ('c, 'e) transition) jsmap"
  m_actions :: "(string, 'c \<Rightarrow> 'e \<Rightarrow> 'c option) jsmap"

datatype actor_status = NotStarted | Running | Stopped

record ('c, 'e) actor =
  a_machine :: "('c, 'e) machine"
  a_value :: string
  a_context :: 'c
  a_subscribers :: "nat list"
  a_status :: actor_status
  a_log :: "(nat \<times> string \<times> 'c \<times> actor_status) list"

definition createActor :: "('c, 'e) machine \<Rightarrow> 'c \<Rightarrow> ('c, 'e) actor" where
  "createActor m c = \<lparr>a_machine = m, a_value = m_initial m, a_context = c, a_subscribers = [],
     a_status = NotStarted, a_log = []\<rparr>"

definition getSnapshot :: "('c, 'e) actor \<Rightarrow> string \<times> 'c \<times> actor_status" where
  "getSnapshot a = (a_value a, a_context a, a_status a)"

definition notify :: "('c, 'e) actor \<Rightarrow> ('c, 'e) actor" where
  "notify a = a\<lparr>a_log := a_log a @ map (\<lambda>f. (f, getSnapshot a)) (a_subscribers a)\<rparr>"

definition actor_start :: "('c, 'e) actor \<Rightarrow> ('c, 'e) actor" where
  "actor_start a = notify (a\<lparr>a_status := Running\<rparr>)"

definition actor_stop :: "('c, 'e) actor \<Rightarrow> ('c, 'e) actor" where
  "actor_stop a = notify (a\<lparr>a_status := Stopped\<rparr>)"

definition subscribe :: "nat \<Rightarrow> ('c, 'e) actor \<Rightarrow> ('c, 'e) actor" where
  "subscribe f a = (let s = (if f \<in> set (a_subscribers a) then a_subscribers a else a_subscribers a @ [f])
     in a\<lparr>a_subscribers := s, a_log := a_log a @ [(f, getSnapshot a)]\<rparr>)"

definition unsubscribe :: "nat \<Rightarrow> ('c, 'e) actor \<Rightarrow> ('c, 'e) actor" where
  "unsubscribe f a = a\<lparr>a_subscribers := filter (\<lambda>g. g \<noteq> f) (a_subscribers a)\<rparr>"

text \<open>An action that is not a function and has no implementation is skipped; one that returns nothing keeps
  the context.\<close>

definition run_act :: "('c, 'e) machine \<Rightarrow> 'e \<Rightarrow> 'c \<Rightarrow> ('c, 'e) act \<Rightarrow> 'c" where
  "run_act m ev c a =
     (case (case a of ActFun f \<Rightarrow> Some f | ActName n \<Rightarrow> map_of (m_actions m) n) of
        None \<Rightarrow> c
      | Some f \<Rightarrow> (case f c ev of None \<Rightarrow> c | Some c' \<Rightarrow> c'))"

definition find_tx :: "('c, 'e) machine \<Rightarrow> string \<Rightarrow> string \<Rightarrow> ('c, 'e) transition option" where
  "find_tx m v ty =
     (case map_of (case map_of (m_states m) v of None \<Rightarrow> [] | Some n \<Rightarrow> n) ty of
        Some t \<Rightarrow> Some t | None \<Rightarrow> map_of (m_on m) ty)"

text \<open>The first argument reads \<open>event.type\<close>. The status is not consulted: a stopped actor still moves.\<close>

definition send :: "('e \<Rightarrow> string) \<Rightarrow> 'e \<Rightarrow> ('c, 'e) actor \<Rightarrow> ('c, 'e) actor" where
  "send ty ev a =
     (case find_tx (a_machine a) (a_value a) (ty ev) of
        None \<Rightarrow> a
      | Some t \<Rightarrow>
          let (target, acts) = (case t of Goto s \<Rightarrow> (Some s, []) | Tx s l \<Rightarrow> (s, l));
              c = foldl (run_act (a_machine a) ev) (a_context a) acts
          in notify (a\<lparr>a_value := (case target of Some s \<Rightarrow> s | None \<Rightarrow> a_value a), a_context := c\<rparr>))"

section \<open>The kernel machine\<close>

record ('p, 'd, 'x) kernel_event =
  ke_type :: string
  ke_pid :: int
  ke_process :: 'p
  ke_devices :: "'d option"
  ke_error :: "'x option"

text \<open>The last error is the event's error, or the event itself when it carries none.\<close>

record ('p, 'd, 'x) kernel_ctx =
  k_processes :: "(int, 'p) jsmap"
  k_devices :: 'd
  k_lastError :: "('x + ('p, 'd, 'x) kernel_event) option"

definition kernel_actions ::
    "'d \<Rightarrow> (string, ('p, 'd, 'x) kernel_ctx \<Rightarrow> ('p, 'd, 'x) kernel_event \<Rightarrow> ('p, 'd, 'x) kernel_ctx option) jsmap" where
  "kernel_actions no_devices =
     [(''boot'', \<lambda>c ev. Some (c\<lparr>k_devices := (case ke_devices ev of Some d \<Rightarrow> d | None \<Rightarrow> k_devices c)\<rparr>)),
      (''spawn'', \<lambda>c ev. Some (c\<lparr>k_processes := AList.update (ke_pid ev) (ke_process ev) (k_processes c)\<rparr>)),
      (''exitProcess'', \<lambda>c ev. Some (c\<lparr>k_processes := AList.delete (ke_pid ev) (k_processes c)\<rparr>)),
      (''recordError'', \<lambda>c ev. Some (c\<lparr>k_lastError :=
          Some (case ke_error ev of Some x \<Rightarrow> Inl x | None \<Rightarrow> Inr ev)\<rparr>)),
      (''reset'', \<lambda>c ev. Some \<lparr>k_processes = [], k_devices = no_devices, k_lastError = None\<rparr>)]"

definition kernelMachine :: "'d \<Rightarrow> (('p, 'd, 'x) kernel_ctx, ('p, 'd, 'x) kernel_event) machine" where
  "kernelMachine no_devices = \<lparr>m_initial = ''idle'',
     m_states =
       [(''idle'', [(''BOOT'', Tx (Some ''running'') [ActName ''boot''])]),
        (''running'', [(''SPAWN'', Tx None [ActName ''spawn'']), (''EXIT'', Tx None [ActName ''exitProcess'']),
           (''FAULT'', Tx (Some ''faulted'') [ActName ''recordError'']), (''SHUTDOWN'', Goto ''stopped'')]),
        (''faulted'', [(''RESET'', Tx (Some ''idle'') [ActName ''reset''])]),
        (''stopped'', [])],
     m_on = [], m_actions = kernel_actions no_devices\<rparr>"

definition createKernelActor :: "'d \<Rightarrow> (('p, 'd, 'x) kernel_ctx, ('p, 'd, 'x) kernel_event) actor" where
  "createKernelActor no_devices = actor_start (createActor (kernelMachine no_devices)
     \<lparr>k_processes = [], k_devices = no_devices, k_lastError = None\<rparr>)"

section \<open>The process machine\<close>

record 'x process_event =
  pe_type :: string
  pe_signal :: "int option"
  pe_code :: "int option"
  pe_error :: "'x option"

record 'x process_ctx =
  p_pid :: int
  p_argv :: "string list"
  p_exitCode :: "int option"
  p_signal :: "int option"
  p_error :: "('x + 'x process_event) option"

definition process_actions :: "(string, 'x process_ctx \<Rightarrow> 'x process_event \<Rightarrow> 'x process_ctx option) jsmap" where
  "process_actions =
     [(''signal'', \<lambda>c ev. Some (c\<lparr>p_signal := pe_signal ev\<rparr>)),
      (''exit'', \<lambda>c ev. Some (c\<lparr>p_exitCode := Some (case pe_code ev of Some n \<Rightarrow> n | None \<Rightarrow> 0)\<rparr>)),
      (''fault'', \<lambda>c ev. Some (c\<lparr>p_error := Some (case pe_error ev of Some x \<Rightarrow> Inl x | None \<Rightarrow> Inr ev)\<rparr>))]"

definition processMachine :: "('x process_ctx, 'x process_event) machine" where
  "processMachine = \<lparr>m_initial = ''created'',
     m_states =
       [(''created'', [(''START'', Goto ''running'')]),
        (''running'', [(''BLOCK'', Goto ''blocked''), (''SIGNAL'', Tx None [ActName ''signal'']),
           (''EXIT'', Tx (Some ''exited'') [ActName ''exit'']), (''FAULT'', Tx (Some ''faulted'') [ActName ''fault''])]),
        (''blocked'', [(''WAKE'', Goto ''running''), (''SIGNAL'', Tx (Some ''running'') [ActName ''signal'']),
           (''EXIT'', Tx (Some ''exited'') [ActName ''exit''])]),
        (''exited'', []),
        (''faulted'', [])],
     m_on = [], m_actions = process_actions\<rparr>"

definition createProcessActor :: "int \<Rightarrow> string list \<Rightarrow> ('x process_ctx, 'x process_event) actor" where
  "createProcessActor pid argv = actor_start (createActor processMachine
     \<lparr>p_pid = pid, p_argv = argv, p_exitCode = None, p_signal = None, p_error = None\<rparr>)"

section \<open>The scheduler machine\<close>

record sched_event =
  se_type :: string
  se_pid :: int

record sched_ctx =
  s_runnable :: "int list"
  s_current :: "int option"
  s_ticks :: nat

definition sched_tick :: "sched_ctx \<Rightarrow> sched_ctx" where
  "sched_tick c =
     (case s_runnable c of
        [] \<Rightarrow> c\<lparr>s_runnable := [], s_current := None, s_ticks := s_ticks c + 1\<rparr>
      | p # ps \<Rightarrow> c\<lparr>s_runnable := ps @ [p], s_current := Some p, s_ticks := s_ticks c + 1\<rparr>)"

definition sched_actions :: "(string, sched_ctx \<Rightarrow> sched_event \<Rightarrow> sched_ctx option) jsmap" where
  "sched_actions =
     [(''enqueue'', \<lambda>c ev. Some (c\<lparr>s_runnable := s_runnable c @ [se_pid ev]\<rparr>)),
      (''tick'', \<lambda>c ev. Some (sched_tick c))]"

definition schedulerMachine :: "(sched_ctx, sched_event) machine" where
  "schedulerMachine = \<lparr>m_initial = ''stopped'',
     m_states =
       [(''stopped'', [(''START'', Goto ''running'')]),
        (''running'', [(''ENQUEUE'', Tx None [ActName ''enqueue'']), (''TICK'', Tx None [ActName ''tick'']),
           (''STOP'', Goto ''stopped'')])],
     m_on = [], m_actions = sched_actions\<rparr>"

definition createSchedulerActor :: "(sched_ctx, sched_event) actor" where
  "createSchedulerActor = actor_start (createActor schedulerMachine
     \<lparr>s_runnable = [], s_current = None, s_ticks = 0\<rparr>)"

section \<open>Lifecycles\<close>

definition send_all :: "('e \<Rightarrow> string) \<Rightarrow> 'e list \<Rightarrow> ('c, 'e) actor \<Rightarrow> ('c, 'e) actor" where
  "send_all ty evs a = foldl (\<lambda>a ev. send ty ev a) a evs"

lemma send_all_simps [simp]:
  "send_all ty [] a = a"
  "send_all ty (ev # evs) a = send_all ty evs (send ty ev a)"
  "send_all ty (evs @ evs') a = send_all ty evs' (send_all ty evs a)"
  by (simp_all add: send_all_def)

lemma notify_fields [simp]:
  "a_machine (notify a) = a_machine a" "a_value (notify a) = a_value a" "a_context (notify a) = a_context a"
  "a_subscribers (notify a) = a_subscribers a" "a_status (notify a) = a_status a"
  by (simp_all add: notify_def)

lemma send_machine [simp]: "a_machine (send ty ev a) = a_machine a"
  by (simp add: send_def Let_def split: option.splits transition.splits prod.splits)

text \<open>An invariant of every step of a system is an invariant of every run; a state that no step leaves is
  never left.\<close>

locale stepper =
  fixes stp :: "'e \<Rightarrow> 's \<Rightarrow> 's" and inv :: "'s \<Rightarrow> bool"
  assumes step_inv: "inv s \<Longrightarrow> inv (stp e s)"
begin

lemma run_inv: "inv s \<Longrightarrow> inv (foldl (\<lambda>s e. stp e s) s es)"
  by (induction es arbitrary: s) (simp_all add: step_inv)

lemma run_stuck:
  assumes "\<And>e. stp e s = s"
  shows "foldl (\<lambda>s e. stp e s) s es = s"
  by (induction es) (simp_all add: assms)

end

subsection \<open>Processes\<close>

definition process_live :: "('x process_ctx, 'x process_event) actor \<Rightarrow> bool" where
  "process_live a \<longleftrightarrow> a_machine a = processMachine \<and>
     a_value a \<in> {''created'', ''running'', ''blocked'', ''exited'', ''faulted''} \<and>
     (p_exitCode (a_context a) \<noteq> None) = (a_value a = ''exited'') \<and>
     (p_error (a_context a) \<noteq> None) = (a_value a = ''faulted'')"

lemma process_tx:
  "find_tx processMachine ''created'' t = (if t = ''START'' then Some (Goto ''running'') else None)"
  "find_tx processMachine ''running'' t =
     (if t = ''BLOCK'' then Some (Goto ''blocked'') else if t = ''SIGNAL'' then Some (Tx None [ActName ''signal''])
      else if t = ''EXIT'' then Some (Tx (Some ''exited'') [ActName ''exit''])
      else if t = ''FAULT'' then Some (Tx (Some ''faulted'') [ActName ''fault'']) else None)"
  "find_tx processMachine ''blocked'' t =
     (if t = ''WAKE'' then Some (Goto ''running'') else if t = ''SIGNAL'' then Some (Tx (Some ''running'') [ActName ''signal''])
      else if t = ''EXIT'' then Some (Tx (Some ''exited'') [ActName ''exit'']) else None)"
  "find_tx processMachine ''exited'' t = None" "find_tx processMachine ''faulted'' t = None"
  by (simp_all add: find_tx_def processMachine_def)

lemma process_act:
  "run_act processMachine ev c (ActName ''signal'') = c\<lparr>p_signal := pe_signal ev\<rparr>"
  "run_act processMachine ev c (ActName ''exit'') =
     c\<lparr>p_exitCode := Some (case pe_code ev of Some n \<Rightarrow> n | None \<Rightarrow> 0)\<rparr>"
  "run_act processMachine ev c (ActName ''fault'') =
     c\<lparr>p_error := Some (case pe_error ev of Some x \<Rightarrow> Inl x | None \<Rightarrow> Inr ev)\<rparr>"
  by (simp_all add: run_act_def processMachine_def process_actions_def)

lemmas process_machine_simps = send_def process_tx process_act

lemma process_initial: "m_initial processMachine = ''created''"
  by (simp add: processMachine_def)

lemma process_send_live: "process_live a \<Longrightarrow> process_live (send pe_type ev a)"
proof -
  assume live: "process_live a"
  then have "a_value a = ''created'' \<or> a_value a = ''running'' \<or> a_value a = ''blocked'' \<or>
      a_value a = ''exited'' \<or> a_value a = ''faulted''"
    by (simp add: process_live_def)
  then show ?thesis
    by (elim disjE) (use live in \<open>simp add: process_live_def process_machine_simps\<close>)+
qed

lemma process_send_final:
  "a_machine a = processMachine \<Longrightarrow> a_value a \<in> {''exited'', ''faulted''} \<Longrightarrow> send pe_type ev a = a"
  by (auto simp: process_machine_simps)

interpretation process_run: stepper "send pe_type" process_live
  by unfold_locales (rule process_send_live)

text \<open>
  C24: life of a process. Whatever events a process actor receives after its creation, it is in one of its five
  states, it has an exit code exactly when it exited and an error exactly when it faulted; once exited or
  faulted no event changes anything: the exit code is final and subscribers are not called again.
\<close>

theorem process_lifecycle:
  assumes "a = send_all pe_type evs (createProcessActor pid argv)"
  shows "a_value a \<in> {''created'', ''running'', ''blocked'', ''exited'', ''faulted''} \<and>
    (p_exitCode (a_context a) \<noteq> None \<longleftrightarrow> a_value a = ''exited'') \<and>
    (p_error (a_context a) \<noteq> None \<longleftrightarrow> a_value a = ''faulted'') \<and>
    (a_value a \<in> {''exited'', ''faulted''} \<longrightarrow> send_all pe_type evs' a = a)"
proof (intro conjI impI)
  have "process_live (createProcessActor pid argv :: ('x process_ctx, 'x process_event) actor)"
    by (simp add: process_live_def createProcessActor_def actor_start_def createActor_def process_initial)
  from process_run.run_inv [OF this, of evs] have live: "process_live a"
    using assms by (simp add: send_all_def)
  then show "a_value a \<in> {''created'', ''running'', ''blocked'', ''exited'', ''faulted''}"
    "p_exitCode (a_context a) \<noteq> None \<longleftrightarrow> a_value a = ''exited''"
    "p_error (a_context a) \<noteq> None \<longleftrightarrow> a_value a = ''faulted''"
    by (simp_all add: process_live_def)
  assume "a_value a \<in> {''exited'', ''faulted''}"
  with live have "send pe_type e a = a" for e
    by (intro process_send_final) (simp_all add: process_live_def)
  then show "send_all pe_type evs' a = a"
    unfolding send_all_def by (rule process_run.run_stuck)
qed

definition pev :: "string \<Rightarrow> int option \<Rightarrow> nat process_event" where
  "pev t c = \<lparr>pe_type = t, pe_signal = None, pe_code = c, pe_error = None\<rparr>"

theorem process_lifecycle_witness:
  "(let a = send_all pe_type [pev ''START'' None, pev ''EXIT'' (Some 3)] (createProcessActor 100 [''sh'']) in
      a_value a = ''exited'' \<and> p_exitCode (a_context a) = Some 3 \<and>
      send_all pe_type [pev ''EXIT'' (Some 9), pev ''FAULT'' None] a = a)"
proof -
  let ?a = "send_all pe_type [pev ''START'' None, pev ''EXIT'' (Some 3)]
      (createProcessActor 100 [''sh'']) :: (nat process_ctx, nat process_event) actor"
  have v: "a_value ?a = ''exited''" "p_exitCode (a_context ?a) = Some 3"
    by (simp_all add: pev_def process_machine_simps process_initial createProcessActor_def actor_start_def createActor_def)
  then show ?thesis
    using process_lifecycle [OF refl, of "[pev ''START'' None, pev ''EXIT'' (Some 3)]" 100 "[''sh'']"
      "[pev ''EXIT'' (Some 9), pev ''FAULT'' None]"] by (simp add: Let_def)
qed

subsection \<open>Fair scheduling\<close>

definition sched_running :: "(sched_ctx, sched_event) actor \<Rightarrow> bool" where
  "sched_running a \<longleftrightarrow> a_machine a = schedulerMachine \<and> a_value a = ''running''"

definition sched_enqueue :: "int \<Rightarrow> sched_event" where
  "sched_enqueue p = \<lparr>se_type = ''ENQUEUE'', se_pid = p\<rparr>"

definition sched_ticked :: sched_event where
  "sched_ticked = \<lparr>se_type = ''TICK'', se_pid = 0\<rparr>"

lemma sched_tx:
  "find_tx schedulerMachine ''stopped'' t = (if t = ''START'' then Some (Goto ''running'') else None)"
  "find_tx schedulerMachine ''running'' t =
     (if t = ''ENQUEUE'' then Some (Tx None [ActName ''enqueue'']) else if t = ''TICK'' then Some (Tx None [ActName ''tick''])
      else if t = ''STOP'' then Some (Goto ''stopped'') else None)"
  by (simp_all add: find_tx_def schedulerMachine_def)

lemma sched_act:
  "run_act schedulerMachine ev c (ActName ''enqueue'') = c\<lparr>s_runnable := s_runnable c @ [se_pid ev]\<rparr>"
  "run_act schedulerMachine ev c (ActName ''tick'') = sched_tick c"
  "m_initial schedulerMachine = ''stopped''"
  by (simp_all add: run_act_def schedulerMachine_def sched_actions_def)

lemmas sched_machine_simps = send_def sched_tx sched_act sched_running_def

lemma sched_send:
  assumes "sched_running a"
  shows "se_type e = ''TICK'' \<Longrightarrow> sched_running (send se_type e a) \<and>
      a_context (send se_type e a) = sched_tick (a_context a)"
    and "se_type e = ''ENQUEUE'' \<Longrightarrow> sched_running (send se_type e a) \<and>
      a_context (send se_type e a) = (a_context a)\<lparr>s_runnable := s_runnable (a_context a) @ [se_pid e]\<rparr>"
  using assms by (simp_all add: sched_machine_simps)

lemma sched_run_prefix:
  assumes "sched_running a" "\<forall>e \<in> set evs. se_type e \<in> {''ENQUEUE'', ''TICK''}"
    "length (filter (\<lambda>e. se_type e = ''TICK'') evs) \<le> length rs" "s_runnable (a_context a) = rs @ tail"
  shows "sched_running (send_all se_type evs a) \<and> (\<exists>tl'. s_runnable (a_context (send_all se_type evs a)) =
    drop (length (filter (\<lambda>e. se_type e = ''TICK'') evs)) rs @ tl')"
  using assms
proof (induction evs arbitrary: a rs tail)
  case (Cons e evs)
  show ?case
  proof (cases "se_type e = ''TICK''")
    case True
    then obtain r rs' where rs: "rs = r # rs'" using Cons.prems(3) by (cases rs) auto
    have "s_runnable (a_context (send se_type e a)) = rs' @ (tail @ [r])"
      using sched_send(1) [OF Cons.prems(1) True] Cons.prems(4) rs by (simp add: sched_tick_def)
    then show ?thesis
      using Cons.IH [of "send se_type e a" rs' "tail @ [r]"] sched_send(1) [OF Cons.prems(1) True]
        Cons.prems(2,3) True rs by simp
  next
    case False
    then have ty: "se_type e = ''ENQUEUE''" using Cons.prems(2) by simp
    then show ?thesis
      using Cons.IH [of "send se_type e a" rs "tail @ [se_pid e]"] sched_send(2) [OF Cons.prems(1) ty]
        Cons.prems(2-4) False by simp
  qed
qed simp

text \<open>
  C23: the scheduler is fair. The process at place \<open>i\<close> of the run queue of a running scheduler gets the CPU at
  the tick after \<open>i\<close> others, whatever processes are enqueued meanwhile, and goes back to the end of the queue.
\<close>

theorem scheduler_fair:
  assumes "sched_running a" "i < length (s_runnable (a_context a))"
    and "\<forall>e \<in> set evs. se_type e \<in> {''ENQUEUE'', ''TICK''}" "length (filter (\<lambda>e. se_type e = ''TICK'') evs) = i"
    and "b = send_all se_type (evs @ [sched_ticked]) a"
  shows "s_current (a_context b) = Some (s_runnable (a_context a) ! i) \<and> sched_running b \<and>
     last (s_runnable (a_context b)) = s_runnable (a_context a) ! i"
proof -
  let ?c = "send_all se_type evs a"
  have "length (filter (\<lambda>e. se_type e = ''TICK'') evs) \<le> length (s_runnable (a_context a))"
    using assms(2,4) by simp
  from sched_run_prefix [OF assms(1,3) this, of "[]"] obtain tail where
    c: "sched_running ?c" "s_runnable (a_context ?c) = drop i (s_runnable (a_context a)) @ tail"
    using assms(4) by auto
  then have "s_runnable (a_context ?c) = s_runnable (a_context a) ! i # drop (Suc i) (s_runnable (a_context a)) @ tail"
    using assms(2) by (simp add: Cons_nth_drop_Suc [symmetric])
  moreover have "b = send se_type sched_ticked ?c" using assms(5) by simp
  ultimately show ?thesis
    using sched_send(1) [OF c(1), of sched_ticked] by (simp add: sched_tick_def sched_ticked_def)
qed

theorem scheduler_fair_witness:
  "(let a = send_all se_type [\<lparr>se_type = ''START'', se_pid = 0\<rparr>, sched_enqueue 7, sched_enqueue 8] createSchedulerActor;
        b = send_all se_type [sched_ticked, sched_enqueue 9, sched_ticked] a
    in s_current (a_context b) = Some 8 \<and> sched_running b \<and> last (s_runnable (a_context b)) = 8)"
proof -
  let ?a = "send_all se_type [\<lparr>se_type = ''START'', se_pid = 0\<rparr>, sched_enqueue 7, sched_enqueue 8] createSchedulerActor"
  have a: "sched_running ?a" "s_runnable (a_context ?a) = [7, 8]"
    by (simp_all add: sched_machine_simps sched_enqueue_def createSchedulerActor_def actor_start_def createActor_def)
  show ?thesis
    using scheduler_fair [OF a(1), of 1 "[sched_ticked, sched_enqueue 9]", OF _ _ _ refl] a(2)
    by (simp add: Let_def sched_ticked_def sched_enqueue_def)
qed

end
