(* ===== verification/Processes.thy ===== *)
theory Processes
  imports Machines "HOL-Library.Multiset"
begin

text \<open>
  The process manager of \<open>src/process-manager.js\<close>. Process records are objects that a run in progress, the
  table of live processes and the table of completed ones share, so they live in a store and are named by
  their index. \<open>run\<close> awaits the emulator: it is two steps, its start and its end, with other operations
  between them. A promise returned by \<open>wait\<close> is a number; resolving it is an entry of \<open>pm_resolved\<close>.
\<close>

section \<open>Process records\<close>

datatype proc_state = PCreated | PRunning | PExited | PFaulted

record run_result =
  exitCode :: "int option"
  killedBySignal :: "int option"

record ('rt, 'x) proc_rec =
  pr_pid :: int
  pr_ppid :: int
  pr_runtime :: 'rt
  pr_argv :: "string list"
  pr_state :: proc_state
  pr_exitCode :: "int option"
  pr_result :: "run_result option"
  pr_error :: "'x option"
  pr_endedAt :: "int option"
  pr_waiters :: "nat list"

record ('rt, 'x, 'v) pm =
  pm_vfs :: "'v option"
  nextPid :: int
  maxProcesses :: nat
  processes :: "(int, nat) jsmap"
  completed :: "(int, nat) jsmap"
  recs :: "('rt, 'x) proc_rec list"
  inflight :: "(int \<times> nat) list"
  next_waiter :: nat
  pm_resolved :: "(nat \<times> nat) list"

definition new_pm :: "'v option \<Rightarrow> int \<Rightarrow> nat \<Rightarrow> ('rt, 'x, 'v) pm" where
  "new_pm v first n = \<lparr>pm_vfs = v, nextPid = first, maxProcesses = n, processes = [], completed = [], recs = [],
     inflight = [], next_waiter = 0, pm_resolved = []\<rparr>"

definition new_rec :: "int \<Rightarrow> int \<Rightarrow> 'rt \<Rightarrow> string list \<Rightarrow> ('rt, 'x) proc_rec" where
  "new_rec pid ppid rt argv = \<lparr>pr_pid = pid, pr_ppid = ppid, pr_runtime = rt, pr_argv = argv, pr_state = PCreated,
     pr_exitCode = None, pr_result = None, pr_error = None, pr_endedAt = None, pr_waiters = []\<rparr>"

text \<open>Shift every waiter out of the record and resolve it with the record.\<close>

definition drain :: "nat \<Rightarrow> ('rt, 'x, 'v) pm \<Rightarrow> ('rt, 'x, 'v) pm" where
  "drain r m = m\<lparr>pm_resolved := pm_resolved m @ map (\<lambda>w. (w, r)) (pr_waiters (recs m ! r)),
     recs := (recs m)[r := (recs m ! r)\<lparr>pr_waiters := []\<rparr>]\<rparr>"

definition complete :: "int \<Rightarrow> nat \<Rightarrow> run_result option \<Rightarrow> ('rt, 'x, 'v) pm \<Rightarrow> ('rt, 'x, 'v) pm" where
  "complete now r res m = drain r (m\<lparr>recs := (recs m)[r := (recs m ! r)\<lparr>pr_state := PExited,
      pr_exitCode := Some (case Option.bind res exitCode of Some c \<Rightarrow> c | None \<Rightarrow> 0),
      pr_result := res, pr_endedAt := Some now\<rparr>]\<rparr>)"

datatype wait_result = NoProcess | Resolved nat | Pending nat

definition rec_wait :: "nat \<Rightarrow> ('rt, 'x, 'v) pm \<Rightarrow> wait_result \<times> ('rt, 'x, 'v) pm" where
  "rec_wait r m =
     (if pr_state (recs m ! r) = PExited then (Resolved r, m)
      else let w = next_waiter m in
        (Pending w, m\<lparr>recs := (recs m)[r := (recs m ! r)\<lparr>pr_waiters := pr_waiters (recs m ! r) @ [w]\<rparr>],
           next_waiter := w + 1\<rparr>))"

section \<open>The manager\<close>

text \<open>
  \<open>allocPid\<close> skips taken numbers. At most as many numbers as there are processes are taken, so the number of
  table entries bounds the search.
\<close>

fun skip_pids :: "nat \<Rightarrow> ('rt, 'x, 'v) pm \<Rightarrow> int \<Rightarrow> int" where
  "skip_pids 0 m p = p"
| "skip_pids (Suc n) m p =
     (if map_of (processes m) p \<noteq> None \<or> map_of (completed m) p \<noteq> None then skip_pids n m (p + 1) else p)"

definition allocPid :: "('rt, 'x, 'v) pm \<Rightarrow> int \<times> ('rt, 'x, 'v) pm" where
  "allocPid m = (let p = skip_pids (length (processes m) + length (completed m)) m (nextPid m)
     in (p, m\<lparr>nextPid := p + 1\<rparr>))"

datatype 'x pm_error = ProcessLimit | NoVfs | NoSuchProcess int | LoadError 'x | NoSnapshotVfs

text \<open>The loader's outcome is an argument: the new runtime or the error it throws.\<close>

definition spawnExecutable :: "(int \<Rightarrow> 'x + 'rt) \<Rightarrow> int \<Rightarrow> string list \<Rightarrow> (('rt, 'x, 'v) pm, 'x pm_error, nat) sem" where
  "spawnExecutable load ppid argv m =
     (if length (processes m) \<ge> maxProcesses m then (Inl ProcessLimit, m)
      else let (pid, m1) = allocPid m in
        case load pid of
          Inl e \<Rightarrow> (Inl (LoadError e), m1)
        | Inr rt \<Rightarrow> (Inr (length (recs m1)),
            m1\<lparr>recs := recs m1 @ [new_rec pid ppid rt argv],
               processes := AList.update pid (length (recs m1)) (processes m1)\<rparr>))"

definition spawn :: "('v \<Rightarrow> int \<Rightarrow> 'x + 'rt) \<Rightarrow> int \<Rightarrow> string list \<Rightarrow> (('rt, 'x, 'v) pm, 'x pm_error, nat) sem" where
  "spawn load ppid argv m =
     (case pm_vfs m of None \<Rightarrow> (Inl NoVfs, m) | Some v \<Rightarrow> spawnExecutable (load v) ppid argv m)"

text \<open>
  \<open>run\<close> up to its \<open>await\<close>: an exited record gives its result at once, otherwise a run is in progress. Its
  continuation holds the pid and the record.
\<close>

definition run_start :: "int \<Rightarrow> (('rt, 'x, 'v) pm, 'x pm_error, run_result option option) sem" where
  "run_start pid m =
     (case map_of (processes m) pid of
        None \<Rightarrow> (Inl (NoSuchProcess pid), m)
      | Some r \<Rightarrow>
          if pr_state (recs m ! r) = PExited then (Inr (Some (pr_result (recs m ! r))), m)
          else (Inr None, m\<lparr>recs := (recs m)[r := (recs m ! r)\<lparr>pr_state := PRunning\<rparr>],
                   inflight := inflight m @ [(pid, r)]\<rparr>))"

definition settle :: "int \<Rightarrow> nat \<Rightarrow> ('rt, 'x, 'v) pm \<Rightarrow> ('rt, 'x, 'v) pm" where
  "settle pid r m = m\<lparr>processes := AList.delete pid (processes m), completed := AList.update pid r (completed m)\<rparr>"

definition run_end :: "int \<Rightarrow> int \<Rightarrow> nat \<Rightarrow> 'x + run_result option \<Rightarrow> ('rt, 'x, 'v) pm \<Rightarrow> ('rt, 'x, 'v) pm" where
  "run_end now pid r out m =
     (let m1 = m\<lparr>inflight := remove1 (pid, r) (inflight m)\<rparr> in
      case out of
        Inr res \<Rightarrow> settle pid r (complete now r res m1)
      | Inl e \<Rightarrow> settle pid r (drain r (m1\<lparr>recs := (recs m1)[r := (recs m1 ! r)\<lparr>pr_state := PFaulted,
            pr_error := Some e, pr_endedAt := Some now\<rparr>]\<rparr>)))"

definition pm_wait :: "int \<Rightarrow> ('rt, 'x, 'v) pm \<Rightarrow> wait_result \<times> ('rt, 'x, 'v) pm" where
  "pm_wait pid m =
     (case (case map_of (processes m) pid of Some r \<Rightarrow> Some r | None \<Rightarrow> map_of (completed m) pid) of
        None \<Rightarrow> (NoProcess, m) | Some r \<Rightarrow> rec_wait r m)"

definition reap :: "int \<Rightarrow> ('rt, 'x, 'v) pm \<Rightarrow> nat option \<times> ('rt, 'x, 'v) pm" where
  "reap pid m =
     (case map_of (completed m) pid of
        None \<Rightarrow> (None, m) | Some r \<Rightarrow> (Some r, m\<lparr>completed := AList.delete pid (completed m)\<rparr>))"

definition pm_signal :: "int \<Rightarrow> int \<Rightarrow> int \<Rightarrow> ('rt, 'x, 'v) pm \<Rightarrow> bool \<times> ('rt, 'x, 'v) pm" where
  "pm_signal now pid sg m =
     (case map_of (processes m) pid of
        None \<Rightarrow> (False, m)
      | Some r \<Rightarrow> (True, settle pid r
          (complete now r (Some \<lparr>exitCode = Some (128 + sg), killedBySignal = Some sg\<rparr>) m)))"

definition pm_row :: "('rt, 'x) proc_rec \<Rightarrow> int \<times> int \<times> proc_state \<times> string list \<times> int option" where
  "pm_row p = (pr_pid p, pr_ppid p, pr_state p, pr_argv p, pr_exitCode p)"

definition pm_list :: "('rt, 'x, 'v) pm \<Rightarrow> (int \<times> int \<times> proc_state \<times> string list \<times> int option) list" where
  "pm_list m = sort_key fst (map (\<lambda>(_, r). pm_row (recs m ! r)) (processes m) @
     map (\<lambda>(_, r). pm_row (recs m ! r)) (completed m))"

text \<open>The serializer and the loader of file-system images are arguments.\<close>

definition snapshotVFS :: "('v \<Rightarrow> 'b) \<Rightarrow> ('rt, 'x, 'v) pm \<Rightarrow> 'x pm_error + 'b" where
  "snapshotVFS ser m = (case pm_vfs m of None \<Rightarrow> Inl NoSnapshotVfs | Some v \<Rightarrow> Inr (ser v))"

definition restoreVFS :: "('b \<Rightarrow> 'v) \<Rightarrow> 'b \<Rightarrow> ('rt, 'x, 'v) pm \<Rightarrow> ('rt, 'x, 'v) pm" where
  "restoreVFS restore b m = m\<lparr>pm_vfs := Some (restore b)\<rparr>"

section \<open>Runs of the manager\<close>

datatype ('rt, 'x) pm_op =
    PSpawn "'x + 'rt" int "string list"
  | PRunStart int
  | PRunEnd int nat "'x + run_result option"
  | PWait int
  | PReap int
  | PSignal int int int

text \<open>\<open>PRunEnd now i out\<close> is the end of the \<open>i\<close>-th run in progress.\<close>

primrec pm_step :: "('rt, 'x) pm_op \<Rightarrow> ('rt, 'x, 'v) pm \<Rightarrow> ('rt, 'x, 'v) pm" where
  "pm_step (PSpawn out ppid argv) m = snd (spawnExecutable (\<lambda>_. out) ppid argv m)"
| "pm_step (PRunStart pid) m = snd (run_start pid m)"
| "pm_step (PRunEnd now i out) m =
     (if i < length (inflight m) then run_end now (fst (inflight m ! i)) (snd (inflight m ! i)) out m else m)"
| "pm_step (PWait pid) m = snd (pm_wait pid m)"
| "pm_step (PReap pid) m = snd (reap pid m)"
| "pm_step (PSignal now pid sg) m = snd (pm_signal now pid sg m)"

definition pm_run :: "('rt, 'x) pm_op list \<Rightarrow> ('rt, 'x, 'v) pm \<Rightarrow> ('rt, 'x, 'v) pm" where
  "pm_run ops m = foldl (\<lambda>m x. pm_step x m) m ops"

definition pids :: "('rt, 'x, 'v) pm \<Rightarrow> int list" where
  "pids m = map pr_pid (recs m)"

definition owned :: "int list \<Rightarrow> (int \<times> nat) set" where
  "owned ps = {(p, r). r < length ps \<and> ps ! r = p}"

definition tables_ok :: "('rt, 'x, 'v) pm \<Rightarrow> bool" where
  "tables_ok m \<longleftrightarrow> jsmap_wf (processes m) \<and> jsmap_wf (completed m) \<and>
     fst ` set (processes m) \<inter> fst ` set (completed m) = {} \<and>
     set (processes m) \<subseteq> owned (pids m) \<and> set (completed m) \<subseteq> owned (pids m) \<and> set (inflight m) \<subseteq> owned (pids m) \<and>
     set (pids m) \<subseteq> {..<nextPid m} \<and> distinct (pids m)"

definition pending_waiters :: "('rt, 'x, 'v) pm \<Rightarrow> nat list" where
  "pending_waiters m = concat (map pr_waiters (recs m))"

definition waiters_ok :: "('rt, 'x, 'v) pm \<Rightarrow> bool" where
  "waiters_ok m \<longleftrightarrow> mset (map fst (pm_resolved m)) + mset (pending_waiters m) = mset [0..<next_waiter m] \<and>
     (\<forall>p \<in> set (recs m). pr_state p = PExited \<longrightarrow> pr_waiters p = [])"

lemma map_upd_same:
  assumes "f y = f (xs ! r)"
  shows "map f (xs[r := y]) = map f xs"
proof (cases "r < length xs")
  case True
  then have "(map f xs)[r := map f xs ! r] = map f xs" by (intro list_update_id)
  then show ?thesis using True assms by (simp add: map_update)
qed (simp add: list_update_beyond)

lemma mset_concat_upd:
  "r < length xs \<Longrightarrow> mset (concat (map f (xs[r := y]))) + mset (f (xs ! r)) = mset (concat (map f xs)) + mset (f y)"
proof (induction xs arbitrary: r)
  case (Cons x xs)
  then show ?case by (cases r) (auto simp: ac_simps)
qed simp

lemma all_upd: "\<forall>p \<in> set xs. P p \<Longrightarrow> P y \<Longrightarrow> \<forall>p \<in> set (xs[r := y]). P p"
  using set_update_subset_insert [of xs r y] by blast

subsection \<open>The tables\<close>

lemma drain_fields [simp]:
  "processes (drain r m) = processes m" "completed (drain r m) = completed m" "inflight (drain r m) = inflight m"
  "nextPid (drain r m) = nextPid m" "next_waiter (drain r m) = next_waiter m" "pids (drain r m) = pids m"
  "length (recs (drain r m)) = length (recs m)"
  by (simp_all add: drain_def pids_def map_upd_same)

lemma complete_fields [simp]:
  "processes (complete now r res m) = processes m" "completed (complete now r res m) = completed m"
  "inflight (complete now r res m) = inflight m" "nextPid (complete now r res m) = nextPid m"
  "next_waiter (complete now r res m) = next_waiter m" "pids (complete now r res m) = pids m"
  "length (recs (complete now r res m)) = length (recs m)"
  by (simp_all add: complete_def) (simp add: pids_def map_upd_same)

lemma length_pids [simp]: "length (pids m) = length (recs m)"
  by (simp add: pids_def)

lemma owned_key: "fst ` owned ps \<subseteq> set ps"
  by (auto simp: owned_def)

lemma owned_append: "owned ps \<subseteq> owned (ps @ [p])" "(p, length ps) \<in> owned (ps @ [p])"
  by (auto simp: owned_def nth_append)

lemma tables_settle:
  assumes "tables_ok m" "(p, r) \<in> owned (pids m)"
  shows "tables_ok (settle p r m)"
proof -
  have t: "set (processes m) \<subseteq> owned (pids m)" "set (completed m) \<subseteq> owned (pids m)"
    "fst ` set (processes m) \<inter> fst ` set (completed m) = {}"
    using assms(1) by (simp_all add: tables_ok_def)
  have "set (AList.update p r (completed m)) \<subseteq> owned (pids m)"
    using set_update_sub [of p r "completed m"] t(2) assms(2) by blast
  moreover have "set (AList.delete p (processes m)) \<subseteq> owned (pids m)"
    using t(1) by (auto simp: set_delete_eq)
  moreover have "fst ` set (AList.delete p (processes m)) \<inter> fst ` set (AList.update p r (completed m)) = {}"
    using t(3) by (auto simp: set_delete_eq keys_update)
  moreover have "pids (settle p r m) = pids m" by (simp add: settle_def pids_def)
  ultimately show ?thesis
    using assms(1) by (simp add: tables_ok_def settle_def)
qed

lemma tables_cong:
  assumes "tables_ok m" "processes m' = processes m" "completed m' = completed m" "set (inflight m') \<subseteq> set (inflight m)"
    "pids m' = pids m" "nextPid m' = nextPid m"
  shows "tables_ok m'"
  using assms(1) subset_trans [OF assms(4)] unfolding tables_ok_def assms(2,3,5,6) by simp

lemma skip_none: "map_of (processes m) p = None \<Longrightarrow> map_of (completed m) p = None \<Longrightarrow> skip_pids n m p = p"
  by (cases n) simp_all

lemma fresh_pid:
  assumes "tables_ok m"
  shows "nextPid m \<notin> fst ` set (processes m)" "nextPid m \<notin> fst ` set (completed m)" "nextPid m \<notin> set (pids m)"
proof -
  show p: "nextPid m \<notin> set (pids m)" using assms by (auto simp: tables_ok_def)
  have t: "set (processes m) \<subseteq> owned (pids m)" "set (completed m) \<subseteq> owned (pids m)"
    using assms by (simp_all add: tables_ok_def)
  have "fst ` set (processes m) \<subseteq> set (pids m)" "fst ` set (completed m) \<subseteq> set (pids m)"
    using image_mono [OF t(1), of fst] image_mono [OF t(2), of fst] owned_key [of "pids m"] by (blast dest: subset_trans)+
  with p show "nextPid m \<notin> fst ` set (processes m)" "nextPid m \<notin> fst ` set (completed m)" by blast+
qed

lemma alloc_next:
  assumes "tables_ok m"
  shows "allocPid m = (nextPid m, m\<lparr>nextPid := nextPid m + 1\<rparr>)"
  using fresh_pid [OF assms] by (simp add: allocPid_def skip_none Let_def map_of_eq_None_iff)

lemma tables_spawn:
  assumes "tables_ok m"
  shows "tables_ok (snd (spawnExecutable load ppid argv m))"
proof -
  have bump: "tables_ok (m\<lparr>nextPid := nextPid m + 1\<rparr>)"
    using assms by (auto simp: tables_ok_def pids_def)
  have new: "tables_ok (m\<lparr>nextPid := nextPid m + 1, recs := recs m @ [new_rec (nextPid m) ppid rt argv],
     processes := AList.update (nextPid m) (length (recs m)) (processes m)\<rparr>)" (is "tables_ok ?m") for rt
  proof -
    have p: "pids ?m = pids m @ [nextPid m]" by (simp add: pids_def new_rec_def)
    have sub: "set (AList.update (nextPid m) (length (recs m)) (processes m)) \<subseteq> owned (pids m @ [nextPid m])"
      "set (completed m) \<subseteq> owned (pids m @ [nextPid m])" "set (inflight m) \<subseteq> owned (pids m @ [nextPid m])"
      using set_update_sub [of "nextPid m" "length (pids m)" "processes m"] assms owned_append [where ps = "pids m"]
      unfolding tables_ok_def length_pids by blast+
    have "set (pids m @ [nextPid m]) \<subseteq> {..<nextPid m + 1}" using assms by (auto simp: tables_ok_def)
    moreover have "fst ` set (AList.update (nextPid m) (length (recs m)) (processes m)) \<inter> fst ` set (completed m) = {}"
      using assms fresh_pid(2) [OF assms] unfolding tables_ok_def keys_update by blast
    ultimately show ?thesis
      using assms fresh_pid(3) [OF assms] sub unfolding tables_ok_def p by simp
  qed
  show ?thesis
    using assms bump new by (simp add: spawnExecutable_def alloc_next split: sum.splits)
qed

lemma tables_entry:
  "tables_ok m \<Longrightarrow> map_of (processes m) p = Some r \<Longrightarrow> (p, r) \<in> owned (pids m)"
  "tables_ok m \<Longrightarrow> map_of (completed m) p = Some r \<Longrightarrow> (p, r) \<in> owned (pids m)"
  unfolding tables_ok_def by (blast dest: map_of_SomeD)+

lemma tables_run_start:
  assumes "tables_ok m"
  shows "tables_ok (snd (run_start p m))"
proof (cases "map_of (processes m) p")
  case (Some r)
  have "tables_ok (m\<lparr>inflight := inflight m @ [(p, r)]\<rparr>)"
    using assms tables_entry(1) [OF assms Some] by (simp add: tables_ok_def pids_def)
  then have "tables_ok (m\<lparr>recs := (recs m)[r := (recs m ! r)\<lparr>pr_state := PRunning\<rparr>], inflight := inflight m @ [(p, r)]\<rparr>)"
    by (rule tables_cong) (simp_all add: pids_def map_upd_same)
  then show ?thesis using Some assms by (simp add: run_start_def)
qed (simp add: run_start_def assms)

lemma tables_run_end:
  assumes "tables_ok m" "(p, r) \<in> set (inflight m)"
  shows "tables_ok (run_end now p r out m)"
proof -
  have own: "(p, r) \<in> owned (pids m)" using assms unfolding tables_ok_def by blast
  let ?m1 = "m\<lparr>inflight := remove1 (p, r) (inflight m)\<rparr>"
  have m1: "tables_ok ?m1" "pids ?m1 = pids m"
    using tables_cong [OF assms(1), of ?m1] set_remove1_subset [of "(p, r)" "inflight m"] by (simp_all add: pids_def)
  show ?thesis
  proof (cases out)
    case (Inl e)
    let ?m2 = "?m1\<lparr>recs := (recs ?m1)[r := (recs ?m1 ! r)\<lparr>pr_state := PFaulted, pr_error := Some e, pr_endedAt := Some now\<rparr>]\<rparr>"
    have m2: "pids ?m2 = pids m" by (simp add: pids_def map_upd_same)
    have "tables_ok (drain r ?m2)" by (rule tables_cong [OF m1(1)]) (simp_all, simp_all add: pids_def map_upd_same)
    then show ?thesis using Inl own m2 by (simp add: run_end_def Let_def tables_settle)
  next
    case (Inr res)
    have "tables_ok (complete now r res ?m1)" by (rule tables_cong [OF m1(1)]) simp_all
    then show ?thesis using Inr own m1(2) by (simp add: run_end_def Let_def tables_settle)
  qed
qed

lemma tables_wait: "tables_ok m \<Longrightarrow> tables_ok (snd (pm_wait p m))"
  by (erule tables_cong; simp add: pm_wait_def rec_wait_def Let_def pids_def map_upd_same split: option.splits)

lemma tables_reap: "tables_ok m \<Longrightarrow> tables_ok (snd (reap p m))"
  by (auto simp: tables_ok_def reap_def set_delete_eq pids_def split: option.splits)

lemma tables_signal: "tables_ok m \<Longrightarrow> tables_ok (snd (pm_signal now p sg m))"
proof (cases "map_of (processes m) p")
  case (Some r)
  assume m: "tables_ok m"
  have "tables_ok (complete now r res m)" for res by (rule tables_cong [OF m]) simp_all
  then show ?thesis using Some tables_entry(1) [OF m Some] by (simp add: pm_signal_def tables_settle)
qed (simp add: pm_signal_def)

subsection \<open>The waiters\<close>

lemma waiters_cong:
  "waiters_ok m \<Longrightarrow> recs m' = recs m \<Longrightarrow> pm_resolved m' = pm_resolved m \<Longrightarrow> next_waiter m' = next_waiter m \<Longrightarrow>
   waiters_ok m'"
  by (simp add: waiters_ok_def pending_waiters_def)

text \<open>A record that is closed hands all its waiters to the log.\<close>

lemma waiters_close:
  assumes "waiters_ok m" "r < length (recs m)" "pr_waiters y = []" "recs m' = (recs m)[r := y]"
    "pm_resolved m' = pm_resolved m @ map (\<lambda>w. (w, r)) (pr_waiters (recs m ! r))" "next_waiter m' = next_waiter m"
  shows "waiters_ok m'"
proof -
  have "mset (pending_waiters m') + mset (pr_waiters (recs m ! r)) = mset (pending_waiters m)"
    using mset_concat_upd [OF assms(2), of pr_waiters y] assms(3,4) by (simp add: pending_waiters_def)
  then have "mset (map fst (pm_resolved m')) + mset (pending_waiters m') =
      mset (map fst (pm_resolved m)) + mset (pending_waiters m)"
    using assms(5) by (simp add: comp_def ac_simps)
  moreover have "\<forall>p \<in> set (recs m'). pr_state p = PExited \<longrightarrow> pr_waiters p = []"
    unfolding assms(4) using assms(1,3) by (intro all_upd) (simp_all add: waiters_ok_def)
  ultimately show ?thesis using assms(1,6) by (simp add: waiters_ok_def)
qed

lemma waiters_complete:
  "waiters_ok m \<Longrightarrow> r < length (recs m) \<Longrightarrow> waiters_ok (complete now r res m)"
  by (rule waiters_close [where r = r and m = m]) (simp_all add: complete_def drain_def)

lemma waiters_fault:
  "waiters_ok m \<Longrightarrow> r < length (recs m) \<Longrightarrow>
   waiters_ok (drain r (m\<lparr>recs := (recs m)[r := (recs m ! r)\<lparr>pr_state := PFaulted, pr_error := Some e, pr_endedAt := Some now\<rparr>]\<rparr>))"
  by (rule waiters_close [where r = r and m = m]) (simp_all add: drain_def)

lemma waiters_settle: "waiters_ok m \<Longrightarrow> waiters_ok (settle p r m)"
  by (erule waiters_cong) (simp_all add: settle_def)

lemma waiters_spawn:
  assumes "waiters_ok m"
  shows "waiters_ok (snd (spawnExecutable load ppid argv m))"
  using assms
  by (auto simp: spawnExecutable_def allocPid_def Let_def waiters_ok_def pending_waiters_def new_rec_def split: sum.splits)

lemma waiters_run_start:
  assumes "waiters_ok m" "tables_ok m"
  shows "waiters_ok (snd (run_start p m))"
proof (cases "map_of (processes m) p")
  case (Some r)
  let ?y = "(recs m ! r)\<lparr>pr_state := PRunning\<rparr>"
  have "map pr_waiters ((recs m)[r := ?y]) = map pr_waiters (recs m)" by (rule map_upd_same) simp
  moreover have "\<forall>p \<in> set ((recs m)[r := ?y]). pr_state p = PExited \<longrightarrow> pr_waiters p = []"
    using assms(1) by (intro all_upd) (simp_all add: waiters_ok_def)
  ultimately show ?thesis using Some assms(1)
    by (simp add: run_start_def waiters_ok_def pending_waiters_def)
qed (simp add: run_start_def assms)

lemma waiters_run_end:
  assumes "waiters_ok m" "tables_ok m" "(p, r) \<in> set (inflight m)"
  shows "waiters_ok (run_end now p r out m)"
proof -
  have r: "r < length (recs m)" using assms(2,3) by (auto simp: tables_ok_def owned_def)
  have "waiters_ok (m\<lparr>inflight := remove1 (p, r) (inflight m)\<rparr>)" by (rule waiters_cong [OF assms(1)]) simp_all
  with r show ?thesis
    using waiters_complete [of "m\<lparr>inflight := remove1 (p, r) (inflight m)\<rparr>" r now]
      waiters_fault [of "m\<lparr>inflight := remove1 (p, r) (inflight m)\<rparr>" r now]
    by (cases out) (simp_all add: run_end_def Let_def waiters_settle)
qed

lemma waiters_wait:
  assumes "waiters_ok m" "tables_ok m"
  shows "waiters_ok (snd (pm_wait p m))"
proof (cases "case map_of (processes m) p of Some r \<Rightarrow> Some r | None \<Rightarrow> map_of (completed m) p")
  case (Some r)
  then have r: "r < length (recs m)"
    using tables_entry [OF assms(2), of p] by (auto simp: owned_def split: option.splits)
  show ?thesis
  proof (cases "pr_state (recs m ! r) = PExited")
    case False
    let ?y = "(recs m ! r)\<lparr>pr_waiters := pr_waiters (recs m ! r) @ [next_waiter m]\<rparr>"
    have "mset (concat (map pr_waiters ((recs m)[r := ?y]))) = add_mset (next_waiter m) (mset (pending_waiters m))"
      using mset_concat_upd [OF r, of pr_waiters ?y] by (simp add: pending_waiters_def)
    moreover have "\<forall>p \<in> set ((recs m)[r := ?y]). pr_state p = PExited \<longrightarrow> pr_waiters p = []"
      using assms(1) False by (intro all_upd) (simp_all add: waiters_ok_def)
    ultimately show ?thesis
      using Some False assms(1) by (simp add: pm_wait_def rec_wait_def Let_def waiters_ok_def pending_waiters_def)
  qed (use Some assms in \<open>simp add: pm_wait_def rec_wait_def\<close>)
qed (use assms in \<open>simp add: pm_wait_def\<close>)

lemma waiters_signal: "waiters_ok m \<Longrightarrow> tables_ok m \<Longrightarrow> waiters_ok (snd (pm_signal now p sg m))"
  using tables_entry(1) [of m p]
  by (auto simp: pm_signal_def owned_def intro!: waiters_settle waiters_complete split: option.splits)

subsection \<open>The invariant of the manager\<close>

definition pm_inv :: "('rt, 'x, 'v) pm \<Rightarrow> bool" where
  "pm_inv m \<longleftrightarrow> tables_ok m \<and> waiters_ok m"

lemma pm_step_inv: "pm_inv m \<Longrightarrow> pm_inv (pm_step x m)"
proof (cases x)
  case (PRunEnd now i out)
  assume "pm_inv m"
  then show ?thesis
    using PRunEnd nth_mem [of i "inflight m"]
    by (auto simp: pm_inv_def intro!: tables_run_end waiters_run_end)
next
  case (PReap p)
  assume "pm_inv m"
  then show ?thesis using PReap tables_reap [of m p]
    by (auto simp: pm_inv_def reap_def elim: waiters_cong split: option.splits)
qed (simp_all add: pm_inv_def tables_spawn tables_run_start tables_wait tables_signal
    waiters_spawn waiters_run_start waiters_wait waiters_signal)

interpretation pm_runs: stepper pm_step pm_inv
  by unfold_locales (rule pm_step_inv)

lemma pm_run_inv: "pm_inv (pm_run ops (new_pm v first n))"
  unfolding pm_run_def
  by (rule pm_runs.run_inv) (simp add: pm_inv_def tables_ok_def waiters_ok_def pending_waiters_def new_pm_def pids_def)

lemma tables_rows:
  assumes "tables_ok m"
  shows "map fst (map (\<lambda>(_, r). pm_row (recs m ! r)) (processes m)) = map fst (processes m)"
    and "map fst (map (\<lambda>(_, r). pm_row (recs m ! r)) (completed m)) = map fst (completed m)"
  using assms by (auto simp: tables_ok_def owned_def pids_def pm_row_def)

lemma distinct_fst_sort: "distinct (map fst (sort_key fst xs)) = distinct (map fst xs)"
  by (rule mset_eq_imp_distinct_iff) simp

text \<open>
  C22: the invariant of the process manager. Whatever spawns, runs, waits, signals and reaps happen, in any order
  and with runs overlapping: no two processes ever get the same pid; no pid is both live and completed; every
  promise handed out by \<open>wait\<close> is either still pending in exactly one record or was resolved exactly once; an
  exited record has no pending waiter; the listing is strictly ascending in the pid.
\<close>

theorem manager_invariant:
  "(let m = pm_run ops (new_pm v first n) in
      distinct (map pr_pid (recs m)) \<and> fst ` set (processes m) \<inter> fst ` set (completed m) = {} \<and>
      mset (map fst (pm_resolved m) @ concat (map pr_waiters (recs m))) = mset [0..<next_waiter m] \<and>
      filter (\<lambda>p. pr_state p = PExited \<and> pr_waiters p \<noteq> []) (recs m) = [] \<and>
      sorted_wrt (<) (map fst (pm_list m)))"
proof -
  define m where "m = pm_run ops (new_pm v first n)"
  have inv: "tables_ok m" "waiters_ok m" using pm_run_inv [of ops v first n] by (simp_all add: pm_inv_def m_def)
  let ?rows = "map (\<lambda>(_, r). pm_row (recs m ! r)) (processes m) @ map (\<lambda>(_, r). pm_row (recs m ! r)) (completed m)"
  have "map fst ?rows = map fst (processes m) @ map fst (completed m)"
    using tables_rows [OF inv(1)] by simp
  moreover have "distinct (map fst (processes m) @ map fst (completed m))"
    using inv(1) by (simp add: tables_ok_def jsmap_wf_def)
  ultimately have "distinct (map fst ?rows)" by (rule ssubst)
  then have "distinct (map fst (pm_list m))"
    by (simp add: pm_list_def distinct_fst_sort del: map_append)
  then have "sorted_wrt (<) (map fst (pm_list m))"
    unfolding strict_sorted_iff by (simp add: pm_list_def del: map_append)
  then show ?thesis
    using inv unfolding m_def [symmetric] Let_def
    by (auto simp: tables_ok_def waiters_ok_def pids_def pending_waiters_def filter_empty_conv)
qed

subsection \<open>Waiting for a process that already faulted\<close>

definition stranded :: "nat \<Rightarrow> nat \<Rightarrow> ('rt, 'x, 'v) pm \<Rightarrow> bool" where
  "stranded r w m \<longleftrightarrow> pm_inv m \<and> r < length (recs m) \<and> w \<in> set (pr_waiters (recs m ! r)) \<and>
     r \<notin> snd ` set (processes m) \<and> r \<notin> snd ` set (inflight m)"

lemma recs_other [simp]: "r \<noteq> s \<Longrightarrow> recs (drain s m) ! r = recs m ! r"
  "r \<noteq> s \<Longrightarrow> recs (complete now s res m) ! r = recs m ! r"
  by (simp_all add: drain_def complete_def)

lemma settle_fields [simp]: "recs (settle p s m) = recs m" "inflight (settle p s m) = inflight m"
  "processes (settle p s m) = AList.delete p (processes m)"
  by (simp_all add: settle_def)

lemma lookup_process_ref: "map_of (processes m) p = Some s \<Longrightarrow> s \<in> snd ` set (processes m)"
  by (force dest: map_of_SomeD)

lemma stranded_end:
  assumes "stranded r w m" "(p, s) \<in> set (inflight m)"
  shows "let m' = run_end now p s out m in r < length (recs m') \<and> w \<in> set (pr_waiters (recs m' ! r)) \<and>
     r \<notin> snd ` set (processes m') \<and> r \<notin> snd ` set (inflight m')"
proof -
  have "r \<noteq> s" using assms by (force simp: stranded_def)
  moreover have "set (remove1 (p, s) (inflight m)) \<subseteq> set (inflight m)" by (rule set_remove1_subset)
  ultimately show ?thesis
    using assms by (cases out) (auto simp: run_end_def Let_def stranded_def set_delete_eq)
qed

lemma stranded_step: "stranded r w m \<Longrightarrow> stranded r w (pm_step x m)"
proof -
  assume st: "stranded r w m"
  let ?m = "pm_step x m"
  have ref: "map_of (processes m) p = Some s \<Longrightarrow> r \<noteq> s" for p s
    using st lookup_process_ref [of m p s] by (auto simp: stranded_def)
  have "r < length (recs ?m) \<and> w \<in> set (pr_waiters (recs ?m ! r)) \<and>
     r \<notin> snd ` set (processes ?m) \<and> r \<notin> snd ` set (inflight ?m)"
  proof (cases x)
    case (PSpawn out ppid argv)
    then show ?thesis
      using st alloc_next [of m] set_update_sub [of "nextPid m" "length (recs m)" "processes m"]
      by (auto simp: stranded_def pm_inv_def spawnExecutable_def nth_append split: sum.splits)
  next
    case (PRunStart p)
    then show ?thesis using st ref [of p]
      by (auto simp: stranded_def run_start_def split: option.splits)
  next
    case (PRunEnd now i out)
    then show ?thesis
      using st stranded_end [OF st, of "fst (inflight m ! i)" "snd (inflight m ! i)" now out] nth_mem [of i "inflight m"]
      by (auto simp: Let_def stranded_def)
  next
    case (PWait p)
    have grow: "w \<in> set (pr_waiters ((recs m)[s := (recs m ! s)\<lparr>pr_waiters := pr_waiters (recs m ! s) @ [k]\<rparr>] ! r))" for s k
      using st by (cases "s = r") (auto simp: stranded_def)
    from PWait show ?thesis using st grow
      by (auto simp: stranded_def pm_wait_def rec_wait_def Let_def split: option.splits)
  next
    case (PReap p)
    then show ?thesis using st by (auto simp: stranded_def reap_def split: option.splits)
  next
    case (PSignal now p sg)
    then show ?thesis using st ref [of p]
      by (auto simp: stranded_def pm_signal_def set_delete_eq split: option.splits)
  qed
  with st show ?thesis using pm_step_inv [of m x] by (simp add: stranded_def)
qed

interpretation stranded_runs: stepper pm_step "stranded r w" for r w
  by unfold_locales (rule stranded_step)

lemma pending_not_resolved:
  assumes "waiters_ok m" "w \<in> set (pending_waiters m)"
  shows "w \<notin> fst ` set (pm_resolved m)"
proof -
  have "mset (map fst (pm_resolved m) @ pending_waiters m) = mset [0..<next_waiter m]"
    using assms(1) by (simp add: waiters_ok_def)
  then have "distinct (map fst (pm_resolved m) @ pending_waiters m)"
    by (metis distinct_upt mset_eq_imp_distinct_iff)
  with assms(2) show ?thesis by auto
qed

text \<open>
  C26: waiting for a process that already faulted never ends. Once a process is in the completed table as
  faulted, with no run of it in progress, \<open>wait\<close> returns a promise that no later operation resolves.
\<close>

theorem wait_on_faulted_hangs:
  assumes "m = pm_run ops0 (new_pm v first n)" "map_of (completed m) pid = Some r"
    and "pr_state (recs m ! r) = PFaulted" "r \<notin> snd ` set (inflight m)"
  shows "fst (pm_wait pid m) = Pending (next_waiter m) \<and>
     next_waiter m \<notin> fst ` set (pm_resolved (pm_run ops (snd (pm_wait pid m))))"
proof -
  have inv: "pm_inv m" using pm_run_inv assms(1) by blast
  then have t: "tables_ok m" by (simp add: pm_inv_def)
  have "pid \<in> fst ` set (completed m)" using map_of_SomeD [OF assms(2)] by force
  then have no: "map_of (processes m) pid = None" using t by (auto simp: tables_ok_def map_of_eq_None_iff)
  have own: "(pid, r) \<in> owned (pids m)" by (rule tables_entry(2) [OF t assms(2)])
  have notp: "r \<notin> snd ` set (processes m)"
  proof
    assume "r \<in> snd ` set (processes m)"
    then obtain q where q: "(q, r) \<in> set (processes m)" by force
    then have "(q, r) \<in> owned (pids m)" using t unfolding tables_ok_def by blast
    then have "q = pid" using own by (auto simp: owned_def)
    with q no show False by (simp add: map_of_eq_None_iff) force
  qed
  let ?m' = "snd (pm_wait pid m)"
  have w: "pm_wait pid m = rec_wait r m" using no assms(2) by (simp add: pm_wait_def)
  have "stranded r (next_waiter m) ?m'"
    using pm_step_inv [OF inv, of "PWait pid"] own notp assms(3,4)
    by (simp add: stranded_def w rec_wait_def Let_def owned_def)
  then have "stranded r (next_waiter m) (pm_run ops ?m')"
    unfolding pm_run_def by (rule stranded_runs.run_inv)
  then have "waiters_ok (pm_run ops ?m')" "next_waiter m \<in> set (pending_waiters (pm_run ops ?m'))"
    by (auto simp: stranded_def pm_inv_def pending_waiters_def)
  then show ?thesis using pending_not_resolved assms(3) by (auto simp: w rec_wait_def Let_def)
qed

theorem wait_on_faulted_hangs_witness:
  "(let m = pm_run [PSpawn (Inr 0) 1 [''a''], PRunStart 100, PRunEnd 5 0 (Inl ''boom'')] (new_pm None 100 256 :: (nat, string, unit) pm)
    in fst (pm_wait 100 m) = Pending 0 \<and> 0 \<notin> fst ` set (pm_resolved (pm_run [PSignal 9 100 15, PWait 100] (snd (pm_wait 100 m)))))"
proof -
  let ?m = "pm_run [PSpawn (Inr 0) 1 [''a''], PRunStart 100, PRunEnd 5 0 (Inl ''boom'')] (new_pm None 100 256 :: (nat, string, unit) pm)"
  have "map_of (completed ?m) 100 = Some 0 \<and> pr_state (recs ?m ! 0) = PFaulted \<and> inflight ?m = [] \<and> next_waiter ?m = 0"
    by code_simp
  then show ?thesis
    using wait_on_faulted_hangs [of ?m, OF refl, of 100 0 "[PSignal 9 100 15, PWait 100]"] by (simp add: Let_def)
qed

text \<open>A process killed by a signal while it runs reports the exit code of its run once that ends.\<close>

lemma signal_exit_overwritten:
  "(let m = pm_run [PSpawn (Inr 0) 1 [''a''], PRunStart 100, PSignal 5 100 15] (new_pm None 100 256 :: (nat, string, unit) pm);
        m' = pm_run [PRunEnd 6 0 (Inr (Some \<lparr>exitCode = Some 0, killedBySignal = None\<rparr>))] m
    in pr_exitCode (recs m ! 0) = Some 143 \<and> pr_exitCode (recs m' ! 0) = Some 0)"
  by code_simp

end
