(* ===== verification/Kernel.thy ===== *)
theory Kernel
  imports Machines
begin

text \<open>
  The kernel facade of \<open>src/kernel.js\<close>: a kernel actor, a scheduler actor and one process actor per loaded
  program, around a runtime. The runtime is used through four operations, a record of functions over its
  state: load a program, read the pid of its syscall layer, run it to its exit code or error, and describe a
  fault. Process actors are objects shared by the two tables, so they live in a store.
\<close>

record ('rt, 'x, 'f) runtime_ops =
  rt_load :: "string \<Rightarrow> string list \<Rightarrow> 'rt \<Rightarrow> ('x + unit) \<times> 'rt"
  rt_pid :: "'rt \<Rightarrow> int"
  rt_run :: "'rt \<Rightarrow> ('x + int) \<times> 'rt"
  rt_fault :: "'rt \<Rightarrow> 'x \<Rightarrow> 'f"

type_synonym 'f proc_actor = "('f process_ctx, 'f process_event) actor"
type_synonym ('d, 'f) kern_actor = "((nat, 'd, 'f) kernel_ctx, (nat, 'd, 'f) kernel_event) actor"

record ('rt, 'd, 'f) kern =
  kernelActor :: "('d, 'f) kern_actor"
  schedulerActor :: "(sched_ctx, sched_event) actor"
  k_runtime :: 'rt
  processActors :: "(int, nat) jsmap"
  actor_store :: "'f proc_actor list"
  k_nextPid :: int

definition kev :: "string \<Rightarrow> int \<Rightarrow> nat \<Rightarrow> (nat, 'd, 'f) kernel_event" where
  "kev t p a = \<lparr>ke_type = t, ke_pid = p, ke_process = a, ke_devices = None, ke_error = None\<rparr>"

definition new_kernel :: "'d \<Rightarrow> 'd option \<Rightarrow> int \<Rightarrow> 'rt \<Rightarrow> ('rt, 'd, 'f) kern" where
  "new_kernel no_devices devices first rt =
     \<lparr>kernelActor = send ke_type ((kev ''BOOT'' 0 0)\<lparr>ke_devices := Some (case devices of Some d \<Rightarrow> d | None \<Rightarrow> no_devices)\<rparr>)
        (createKernelActor no_devices),
      schedulerActor = createSchedulerActor, k_runtime = rt, processActors = [], actor_store = [], k_nextPid = first\<rparr>"

definition send_proc :: "nat \<Rightarrow> 'f process_event \<Rightarrow> ('rt, 'd, 'f) kern \<Rightarrow> ('rt, 'd, 'f) kern" where
  "send_proc i ev k = k\<lparr>actor_store := (actor_store k)[i := send pe_type ev (actor_store k ! i)]\<rparr>"

definition send_kernel :: "(nat, 'd, 'f) kernel_event \<Rightarrow> ('rt, 'd, 'f) kern \<Rightarrow> ('rt, 'd, 'f) kern" where
  "send_kernel ev k = k\<lparr>kernelActor := send ke_type ev (kernelActor k)\<rparr>"

definition proc_ev :: "string \<Rightarrow> 'f process_event" where
  "proc_ev t = \<lparr>pe_type = t, pe_signal = None, pe_code = None, pe_error = None\<rparr>"

definition loadExecutable ::
    "('rt, 'x, 'f) runtime_ops \<Rightarrow> string \<Rightarrow> string list \<Rightarrow> (('rt, 'd, 'f) kern, 'x, int \<times> nat) sem" where
  "loadExecutable ops path argv k =
     (case rt_load ops path argv (k_runtime k) of
        (Inl e, rt) \<Rightarrow> (Inl e, k\<lparr>k_runtime := rt\<rparr>)
      | (Inr _, rt) \<Rightarrow>
          let (pid, nxt) = (if rt_pid ops rt \<noteq> 0 then (rt_pid ops rt, k_nextPid k) else (k_nextPid k, k_nextPid k + 1));
              i = length (actor_store k);
              k1 = k\<lparr>k_runtime := rt, k_nextPid := nxt, actor_store := actor_store k @ [createProcessActor pid argv],
                     processActors := AList.update pid i (processActors k)\<rparr>
          in (Inr (pid, i), send_proc i (proc_ev ''START'') (send_kernel (kev ''SPAWN'' pid i) k1)))"

text \<open>What follows the runtime's return or throw in \<open>run\<close>.\<close>

definition kernel_exited :: "int \<Rightarrow> nat \<Rightarrow> int \<Rightarrow> ('rt, 'd, 'f) kern \<Rightarrow> ('rt, 'd, 'f) kern" where
  "kernel_exited pid i code k =
     send_kernel (kev ''EXIT'' pid 0) (send_proc i ((proc_ev ''EXIT'')\<lparr>pe_code := Some code\<rparr>) k)"

definition kernel_faulted :: "nat \<Rightarrow> 'f \<Rightarrow> ('rt, 'd, 'f) kern \<Rightarrow> ('rt, 'd, 'f) kern" where
  "kernel_faulted i f k =
     send_kernel ((kev ''FAULT'' 0 0)\<lparr>ke_error := Some f\<rparr>) (send_proc i ((proc_ev ''FAULT'')\<lparr>pe_error := Some f\<rparr>) k)"

definition kernel_run ::
    "('rt, 'x, 'f) runtime_ops \<Rightarrow> string \<Rightarrow> string list \<Rightarrow> (('rt, 'd, 'f) kern, 'x, int) sem" where
  "kernel_run ops path argv =
     bnd (loadExecutable ops path argv) (\<lambda>(pid, i) k.
       case rt_run ops (k_runtime k) of
         (Inr code, rt) \<Rightarrow> (Inr code, kernel_exited pid i code (k\<lparr>k_runtime := rt\<rparr>))
       | (Inl e, rt) \<Rightarrow> (Inl e, kernel_faulted i (rt_fault ops rt e) (k\<lparr>k_runtime := rt\<rparr>)))"

definition kernel_signal :: "int \<Rightarrow> int \<Rightarrow> ('rt, 'd, 'f) kern \<Rightarrow> bool \<times> ('rt, 'd, 'f) kern" where
  "kernel_signal pid sg k =
     (case map_of (processActors k) pid of
        None \<Rightarrow> (False, k)
      | Some i \<Rightarrow> (True, send_proc i ((proc_ev ''SIGNAL'')\<lparr>pe_signal := Some sg\<rparr>) k))"

section \<open>Runs of the kernel\<close>

lemma kernel_tx:
  "find_tx (kernelMachine d) ''idle'' t = (if t = ''BOOT'' then Some (Tx (Some ''running'') [ActName ''boot'']) else None)"
  "find_tx (kernelMachine d) ''running'' t =
     (if t = ''SPAWN'' then Some (Tx None [ActName ''spawn'']) else if t = ''EXIT'' then Some (Tx None [ActName ''exitProcess''])
      else if t = ''FAULT'' then Some (Tx (Some ''faulted'') [ActName ''recordError''])
      else if t = ''SHUTDOWN'' then Some (Goto ''stopped'') else None)"
  "find_tx (kernelMachine d) ''faulted'' t = (if t = ''RESET'' then Some (Tx (Some ''idle'') [ActName ''reset'']) else None)"
  "find_tx (kernelMachine d) ''stopped'' t = None"
  by (simp_all add: find_tx_def kernelMachine_def)

lemma kernel_act:
  "run_act (kernelMachine d) ev c (ActName ''boot'') =
     c\<lparr>k_devices := (case ke_devices ev of Some d \<Rightarrow> d | None \<Rightarrow> k_devices c)\<rparr>"
  "run_act (kernelMachine d) ev c (ActName ''spawn'') =
     c\<lparr>k_processes := AList.update (ke_pid ev) (ke_process ev) (k_processes c)\<rparr>"
  "run_act (kernelMachine d) ev c (ActName ''exitProcess'') = c\<lparr>k_processes := AList.delete (ke_pid ev) (k_processes c)\<rparr>"
  "run_act (kernelMachine d) ev c (ActName ''recordError'') =
     c\<lparr>k_lastError := Some (case ke_error ev of Some x \<Rightarrow> Inl x | None \<Rightarrow> Inr ev)\<rparr>"
  "m_initial (kernelMachine d) = ''idle''"
  by (simp_all add: run_act_def kernelMachine_def kernel_actions_def)

lemmas kernel_machine_simps = send_def kernel_tx kernel_act process_tx process_act kev_def proc_ev_def

definition kernel_in :: "string \<Rightarrow> ('rt, 'd, 'f) kern \<Rightarrow> bool" where
  "kernel_in v k \<longleftrightarrow> a_value (kernelActor k) = v \<and> (\<exists>d. a_machine (kernelActor k) = kernelMachine d)"

definition proc_at :: "int \<Rightarrow> ('rt, 'd, 'f) kern \<Rightarrow> 'f proc_actor" where
  "proc_at pid k = actor_store k ! the (map_of (processActors k) pid)"

lemma delete_update: "AList.delete k (AList.update k v m) = AList.delete k m"
  by (induction m) auto

text \<open>What loading leaves: a started process actor under the pid, registered with a running kernel.\<close>

lemma loadExecutable_ok:
  assumes "kernel_in v k" "v \<in> {''running'', ''faulted''}" "rt_load ops path argv (k_runtime k) = (Inr u, rt)"
    and "loadExecutable ops path argv k = (Inr (pid, i), k1)"
  shows "k_runtime k1 = rt \<and> i = length (actor_store k) \<and> length (actor_store k1) = Suc i \<and>
     map_of (processActors k1) pid = Some i \<and> a_machine (actor_store k1 ! i) = processMachine \<and>
     a_value (actor_store k1 ! i) = ''running'' \<and> kernel_in v k1 \<and>
     k_processes (a_context (kernelActor k1)) = (if v = ''running''
       then AList.update pid i (k_processes (a_context (kernelActor k))) else k_processes (a_context (kernelActor k))) \<and>
     k_lastError (a_context (kernelActor k1)) = k_lastError (a_context (kernelActor k)) \<and>
     (v = ''faulted'' \<longrightarrow> kernelActor k1 = kernelActor k)"
  using assms
  by (auto simp: loadExecutable_def Let_def send_proc_def send_kernel_def kernel_in_def kernel_machine_simps
      createProcessActor_def actor_start_def createActor_def process_initial nth_append split: if_splits)

lemma kernel_after:
  assumes "kernel_in v k1" "v \<in> {''running'', ''faulted''}" "map_of (processActors k1) pid = Some i" "i < length (actor_store k1)"
    "a_machine (actor_store k1 ! i) = processMachine" "a_value (actor_store k1 ! i) = ''running''"
  shows "a_value (proc_at pid (kernel_exited pid i code k1)) = ''exited''"
    and "p_exitCode (a_context (proc_at pid (kernel_exited pid i code k1))) = Some code"
    and "kernel_in v (kernel_exited pid i code k1)"
    and "k_processes (a_context (kernelActor (kernel_exited pid i code k1))) =
      (if v = ''running'' then AList.delete pid (k_processes (a_context (kernelActor k1))) else k_processes (a_context (kernelActor k1)))"
    and "a_value (proc_at pid (kernel_faulted i f k1)) = ''faulted''"
    and "p_error (a_context (proc_at pid (kernel_faulted i f k1))) = Some (Inl f)"
    and "kernel_in ''faulted'' (kernel_faulted i f k1)"
    and "v = ''running'' \<Longrightarrow> k_lastError (a_context (kernelActor (kernel_faulted i f k1))) = Some (Inl f)"
    and "v = ''running'' \<Longrightarrow> k_processes (a_context (kernelActor (kernel_faulted i f k1))) = k_processes (a_context (kernelActor k1))"
    and "v = ''faulted'' \<Longrightarrow> kernelActor (kernel_exited pid i code k1) = kernelActor k1 \<and> kernelActor (kernel_faulted i f k1) = kernelActor k1"
  using assms
  by (auto simp: kernel_exited_def kernel_faulted_def send_kernel_def send_proc_def proc_at_def kernel_in_def kernel_machine_simps)


definition demo_ops :: "(int, string, string) runtime_ops" where
  "demo_ops = \<lparr>rt_load = \<lambda>p argv rt. (Inr (), rt), rt_pid = \<lambda>rt. rt, rt_run = \<lambda>rt. (Inr 7, rt + 1), rt_fault = \<lambda>rt e. e\<rparr>"

definition demo_kernel :: "(int, unit, string) kern" where
  "demo_kernel = new_kernel () None 1000 0"

lemma demo_kernel_running: "kernel_in ''running'' demo_kernel" "k_runtime demo_kernel = 0" "k_nextPid demo_kernel = 1000"
  "k_processes (a_context (kernelActor demo_kernel)) = []"
  by (auto simp: demo_kernel_def new_kernel_def kernel_in_def kernel_machine_simps createKernelActor_def
      actor_start_def createActor_def)


text \<open>A faulted kernel is never reset by \<open>XOSKernel\<close>: later programs run but are not registered.\<close>

lemma faulted_kernel_ignores_runs:
  assumes "kernel_in ''faulted'' k"
  shows "kernelActor (snd (kernel_run ops path argv k)) = kernelActor k"
proof (cases "rt_load ops path argv (k_runtime k)")
  case (Pair lr rt)
  show ?thesis
  proof (cases lr)
    case (Inl e)
    then show ?thesis using Pair by (simp add: kernel_run_def loadExecutable_def bnd_def)
  next
    case (Inr u)
    obtain pid i k1 where l: "loadExecutable ops path argv k = (Inr (pid, i), k1)"
      using Pair Inr by (cases "rt_pid ops rt = 0") (simp_all add: loadExecutable_def Let_def)
    note L = loadExecutable_ok [OF assms _ Pair [unfolded Inr] l, simplified]
    let ?k = "\<lambda>rt'. k1\<lparr>k_runtime := rt'\<rparr>"
    have k: "kernel_in ''faulted'' (?k rt')" "map_of (processActors (?k rt')) pid = Some i" "i < length (actor_store (?k rt'))"
      "a_machine (actor_store (?k rt') ! i) = processMachine" "a_value (actor_store (?k rt') ! i) = ''running''" for rt'
      using L by (auto simp: kernel_in_def)
    show ?thesis
      using l L kernel_after(10) [OF k(1) _ k(2-5), simplified]
      by (auto simp: kernel_run_def bnd_def split: prod.splits sum.splits)
  qed
qed

end
