(* ===== verification/Vfs.thy ===== *)
theory Vfs
  imports Util
begin

text \<open>
  The in-memory file system of \<open>src/vfs.js\<close>. Nodes are objects that directories, hard links, open files and
  several file systems share, so they live in a store and are named by their index. The store also holds what
  the code takes from its host: the inode counter of the module, the clock, the depth of recursion the engine
  allows, and the queue of callbacks handed to it. The methods that the class declares and the file replaces
  on the prototype at its end (\<open>rename\<close>, \<open>mkdir\<close>, \<open>rmdir\<close>, \<open>chmod\<close>, \<open>chown\<close>, \<open>truncate\<close>,
  \<open>utimes\<close>, \<open>link\<close>) are modelled as replaced.
\<close>

section \<open>Nodes\<close>

datatype ntype = NFile | NDir | NSymlink | NChar

record vnode =
  vtype :: ntype
  vname :: string
  ino :: nat
  vmode :: u32
  uid :: u32
  gid :: u32
  rdev :: u32
  atime :: int
  mtime :: int
  ctime :: int
  nlink :: "nat option"
  parent :: "nat option"
  children :: "(string, nat) jsmap"
  vdata :: "u8 list"
  target :: string
  device :: string

record heap =
  nodes :: "vnode list"
  nextIno :: nat
  clock :: int
  stack_depth :: nat
  microtasks :: "(nat \<times> string \<times> string) list"

text \<open>The errors thrown: a \<open>VFSError\<close> with its number, a \<open>TypeError\<close> for reading a field of \<open>null\<close>, the
  engine's error when recursion is too deep.\<close>

datatype vfs_error = VErr nat | TypeErr | StackOverflow

type_synonym 'a vfsM = "(heap, vfs_error, 'a) sem"

record vfs =
  root :: nat
  cwd :: string
  watchers :: "(string, nat list) jsmap"

definition default_mode :: "ntype \<Rightarrow> u32" where
  "default_mode t = (case t of NDir \<Rightarrow> S_IFDIR OR 0x1ed | NSymlink \<Rightarrow> S_IFLNK OR 0x1ff
     | NChar \<Rightarrow> S_IFCHR OR 0x1b6 | NFile \<Rightarrow> S_IFREG OR 0x1a4)"

text \<open>File modes are written in hexadecimal: octal 755 is 0x1ed, 777 is 0x1ff, 666 is 0x1b6, 644 is 0x1a4.\<close>

text \<open>\<open>new VNode(type, name, options)\<close>: the argument fills the fields the caller's options give.\<close>

definition blank_node :: "ntype \<Rightarrow> string \<Rightarrow> nat \<Rightarrow> int \<Rightarrow> vnode" where
  "blank_node t name i now = \<lparr>vtype = t, vname = name, ino = i, vmode = default_mode t, uid = 0, gid = 0, rdev = 0,
     atime = now, mtime = now, ctime = now, nlink = None, parent = None, children = [], vdata = [], target = [],
     device = (if t = NChar then ''null'' else [])\<rparr>"

definition new_node :: "ntype \<Rightarrow> string \<Rightarrow> (vnode \<Rightarrow> vnode) \<Rightarrow> nat vfsM" where
  "new_node t name fill h = (Inr (length (nodes h)),
     h\<lparr>nodes := nodes h @ [fill (blank_node t name (nextIno h) (clock h))], nextIno := nextIno h + 1\<rparr>)"

definition nd :: "heap \<Rightarrow> nat \<Rightarrow> vnode" where
  "nd h r = nodes h ! r"

definition mod_node :: "nat \<Rightarrow> (vnode \<Rightarrow> vnode) \<Rightarrow> unit vfsM" where
  "mod_node r f h = (Inr (), h\<lparr>nodes := (nodes h)[r := f (nd h r)]\<rparr>)"

definition set_child :: "nat \<Rightarrow> string \<Rightarrow> nat \<Rightarrow> unit vfsM" where
  "set_child d name r = mod_node d (\<lambda>n. n\<lparr>children := AList.update name r (children n)\<rparr>)"

definition del_child :: "nat \<Rightarrow> string \<Rightarrow> unit vfsM" where
  "del_child d name = mod_node d (\<lambda>n. n\<lparr>children := AList.delete name (children n)\<rparr>)"

definition node_size :: "vnode \<Rightarrow> nat" where
  "node_size n = (case vtype n of NFile \<Rightarrow> length (vdata n) | NSymlink \<Rightarrow> length (stringToBytes (target n))
     | NDir \<Rightarrow> length (children n) * 32 | NChar \<Rightarrow> 0)"

record stat_t =
  st_ino :: nat
  st_mode :: u32
  st_nlink :: nat
  st_uid :: u32
  st_gid :: u32
  st_rdev :: u32
  st_size :: nat
  st_blocks :: nat
  st_atime :: int
  st_mtime :: int
  st_ctime :: int

text \<open>The constant fields \<open>dev\<close> (1) and \<open>blksize\<close> (4096) are left to the reader of the record.\<close>

definition node_stat :: "vnode \<Rightarrow> stat_t" where
  "node_stat n = \<lparr>st_ino = ino n, st_mode = vmode n,
     st_nlink = (case nlink n of Some k \<Rightarrow> k | None \<Rightarrow> if vtype n = NDir then 2 + length (children n) else 1),
     st_uid = uid n, st_gid = gid n, st_rdev = rdev n, st_size = node_size n, st_blocks = (node_size n + 511) div 512,
     st_atime = atime n, st_mtime = mtime n, st_ctime = ctime n\<rparr>"

section \<open>Paths\<close>

definition normalize :: "vfs \<Rightarrow> string \<Rightarrow> string" where
  "normalize v path =
     (if path = [] then cwd v
      else normalizePath (if hd path = CHR ''/'' then path else cwd v @ ''/'' @ path))"

definition path_parts :: "string \<Rightarrow> string list" where
  "path_parts p = filter (\<lambda>s. s \<noteq> []) (split_slash p)"

text \<open>\<open>p.substring(0, p.lastIndexOf("/")) || "/"\<close> and \<open>p.substring(p.lastIndexOf("/") + 1)\<close>.\<close>

definition dirname :: "string \<Rightarrow> string" where
  "dirname p = (let d = join_slash (butlast (split_slash p)) in if d = [] then ''/'' else d)"

definition basename :: "string \<Rightarrow> string" where
  "basename p = last (split_slash p)"

section \<open>Resolution\<close>

record resolve_opts =
  parentForCreate :: bool
  noFollowFinal :: bool

definition follow :: resolve_opts where
  "follow = \<lparr>parentForCreate = False, noFollowFinal = False\<rparr>"

definition nofollow :: resolve_opts where
  "nofollow = \<lparr>parentForCreate = False, noFollowFinal = True\<rparr>"

definition forcreate :: resolve_opts where
  "forcreate = \<lparr>parentForCreate = True, noFollowFinal = False\<rparr>"

definition forcreate_nofollow :: resolve_opts where
  "forcreate_nofollow = \<lparr>parentForCreate = True, noFollowFinal = True\<rparr>"

record resolved =
  r_node :: "nat option"
  r_path :: string
  r_parent :: "nat option"
  r_name :: string

datatype walk_result = WErr nat | WMissing nat string | WFollow string | WDone nat

text \<open>The loop over the components of a normalized path.\<close>

fun walk :: "resolve_opts \<Rightarrow> heap \<Rightarrow> nat \<Rightarrow> string \<Rightarrow> string list \<Rightarrow> walk_result" where
  "walk opts h node cur [] = WDone node"
| "walk opts h node cur (name # rest) =
     (if vtype (nd h node) \<noteq> NDir then WErr 20
      else case map_of (children (nd h node)) name of
        None \<Rightarrow> if parentForCreate opts \<and> rest = [] then WMissing node name else WErr 2
      | Some child \<Rightarrow>
          let cur' = cur @ ''/'' @ name in
          if vtype (nd h child) = NSymlink \<and> \<not> (noFollowFinal opts \<and> rest = [])
          then let t = target (nd h child);
                   tgt = (if t \<noteq> [] \<and> hd t = CHR ''/'' then t else dirname cur' @ ''/'' @ t)
               in WFollow (if rest = [] then tgt else tgt @ ''/'' @ join_slash rest)
          else walk opts h child cur' rest)"

text \<open>\<open>_resolve\<close>, which calls itself at every symbolic link, at most as deep as the engine allows.\<close>

fun resolve_at :: "nat \<Rightarrow> vfs \<Rightarrow> resolve_opts \<Rightarrow> string \<Rightarrow> resolved vfsM" where
  "resolve_at 0 v opts path h = (Inl StackOverflow, h)"
| "resolve_at (Suc d) v opts path h =
     (let p = normalize v path in
      if p = ''/'' then (Inr \<lparr>r_node = Some (root v), r_path = ''/'', r_parent = None, r_name = ''/''\<rparr>, h)
      else case walk opts h (root v) [] (path_parts p) of
        WErr e \<Rightarrow> (Inl (VErr e), h)
      | WMissing dir name \<Rightarrow> (Inr \<lparr>r_node = None, r_path = p, r_parent = Some dir, r_name = name\<rparr>, h)
      | WFollow p' \<Rightarrow> resolve_at d v opts p' h
      | WDone n \<Rightarrow> (Inr \<lparr>r_node = Some n, r_path = p, r_parent = parent (nd h n), r_name = last (path_parts p)\<rparr>, h))"

definition resolve :: "vfs \<Rightarrow> resolve_opts \<Rightarrow> string \<Rightarrow> resolved vfsM" where
  "resolve v opts path h = resolve_at (stack_depth h) v opts path h"

text \<open>A resolved node, a \<open>TypeError\<close> when there is none.\<close>

definition the_ref :: "nat option \<Rightarrow> nat vfsM" where
  "the_ref r = (case r of Some n \<Rightarrow> ret n | None \<Rightarrow> throw TypeErr)"

definition resolve_node :: "vfs \<Rightarrow> resolve_opts \<Rightarrow> string \<Rightarrow> nat vfsM" where
  "resolve_node v opts path = bnd (resolve v opts path) (\<lambda>r. the_ref (r_node r))"

definition get_node :: "nat \<Rightarrow> vnode vfsM" where
  "get_node r = getS (\<lambda>h. nd h r)"

section \<open>Queries\<close>

definition vfs_exists :: "vfs \<Rightarrow> string \<Rightarrow> heap \<Rightarrow> bool" where
  "vfs_exists v path h = (case fst (resolve v follow path h) of Inl _ \<Rightarrow> False | Inr _ \<Rightarrow> True)"

definition vfs_stat :: "vfs \<Rightarrow> resolve_opts \<Rightarrow> string \<Rightarrow> stat_t vfsM" where
  "vfs_stat v opts path = bnd (resolve_node v opts path) (\<lambda>r. getS (\<lambda>h. node_stat (nd h r)))"

definition vfs_lstat :: "vfs \<Rightarrow> string \<Rightarrow> stat_t vfsM" where
  "vfs_lstat v path = vfs_stat v nofollow path"

definition readlink :: "vfs \<Rightarrow> string \<Rightarrow> string vfsM" where
  "readlink v path = bnd (resolve_node v nofollow path) (\<lambda>r. bnd (get_node r) (\<lambda>n.
     if vtype n \<noteq> NSymlink then throw (VErr 22) else ret (target n)))"

definition readFile :: "vfs \<Rightarrow> string \<Rightarrow> u8 list vfsM" where
  "readFile v path = bnd (resolve_node v follow path) (\<lambda>r. bnd (get_node r) (\<lambda>n.
     if vtype n \<noteq> NFile then throw (VErr 21) else ret (vdata n)))"

definition vfs_list :: "vfs \<Rightarrow> string \<Rightarrow> string list vfsM" where
  "vfs_list v path = bnd (resolve_node v follow path) (\<lambda>r. bnd (get_node r) (\<lambda>n.
     if vtype n \<noteq> NDir then throw (VErr 20) else ret (map fst (children n))))"

section \<open>Creation\<close>

fun mkdirp_loop :: "u32 \<Rightarrow> nat \<Rightarrow> string list \<Rightarrow> nat vfsM" where
  "mkdirp_loop mode node [] = ret node"
| "mkdirp_loop mode node (name # rest) =
     bnd (get_node node) (\<lambda>n.
       bnd (case map_of (children n) name of
              Some c \<Rightarrow> ret c
            | None \<Rightarrow> bnd (new_node NDir name (\<lambda>x. x\<lparr>vmode := S_IFDIR OR mode, parent := Some node\<rparr>))
                (\<lambda>c. thn (set_child node name c) (ret c)))
         (\<lambda>c. bnd (get_node c) (\<lambda>cn.
            if vtype cn \<noteq> NDir then throw (VErr 20) else mkdirp_loop mode c rest)))"

definition mkdirp :: "vfs \<Rightarrow> string \<Rightarrow> u32 \<Rightarrow> nat vfsM" where
  "mkdirp v path mode =
     (let p = normalize v path in if p = ''/'' then ret (root v) else mkdirp_loop mode (root v) (path_parts p))"

definition writeFile :: "vfs \<Rightarrow> string \<Rightarrow> u8 list \<Rightarrow> u32 \<Rightarrow> nat vfsM" where
  "writeFile v path data mode =
     (let p = normalize v path; base = basename p in
      bnd (mkdirp v (dirname p) 0x1ed) (\<lambda>dir. bnd (get_node dir) (\<lambda>dn.
        case map_of (children dn) base of
          None \<Rightarrow> bnd (new_node NFile base (\<lambda>x. x\<lparr>vmode := S_IFREG OR mode, vdata := data, parent := Some dir\<rparr>))
            (\<lambda>r. thn (set_child dir base r) (ret r))
        | Some r \<Rightarrow> bnd (get_node r) (\<lambda>n. if vtype n \<noteq> NFile then throw (VErr 21)
            else bnd (getS clock) (\<lambda>now. thn (mod_node r (\<lambda>n. n\<lparr>vdata := data, mtime := now, ctime := now\<rparr>)) (ret r))))))"

definition add_node :: "vfs \<Rightarrow> string \<Rightarrow> ntype \<Rightarrow> (vnode \<Rightarrow> vnode) \<Rightarrow> nat vfsM" where
  "add_node v path t fill =
     (let p = normalize v path; base = basename p in
      bnd (mkdirp v (dirname p) 0x1ed) (\<lambda>dir.
        bnd (new_node t base (\<lambda>x. (fill x)\<lparr>parent := Some dir\<rparr>)) (\<lambda>r. thn (set_child dir base r) (ret r))))"

definition vfs_symlink :: "vfs \<Rightarrow> string \<Rightarrow> string \<Rightarrow> nat vfsM" where
  "vfs_symlink v tgt path = add_node v path NSymlink (\<lambda>x. x\<lparr>target := tgt\<rparr>)"

definition mknod :: "vfs \<Rightarrow> string \<Rightarrow> string \<Rightarrow> u32 \<Rightarrow> u32 \<Rightarrow> nat vfsM" where
  "mknod v path dev mode rd = add_node v path NChar (\<lambda>x. x\<lparr>device := dev, vmode := S_IFCHR OR mode, rdev := rd\<rparr>)"

section \<open>Watches\<close>

definition under_prefix :: "string \<Rightarrow> string \<Rightarrow> bool" where
  "under_prefix prefix p \<longleftrightarrow> p = prefix \<or>
     (let q = (if prefix \<noteq> [] \<and> last prefix = CHR ''/'' then prefix else prefix @ ''/'') in take (length q) p = q)"

definition touch :: "vfs \<Rightarrow> string \<Rightarrow> string \<Rightarrow> unit vfsM" where
  "touch v path ty =
     (let p = normalize v path in
      modS (\<lambda>h. h\<lparr>microtasks := microtasks h @
        concat (map (\<lambda>(prefix, cbs). if under_prefix prefix p then map (\<lambda>cb. (cb, ty, p)) cbs else []) (watchers v))\<rparr>))"

definition watch :: "string \<Rightarrow> nat \<Rightarrow> vfs \<Rightarrow> vfs" where
  "watch path cb v =
     (let p = normalize v path;
          cbs = (case map_of (watchers v) p of None \<Rightarrow> [] | Some l \<Rightarrow> l)
      in v\<lparr>watchers := AList.update p (if cb \<in> set cbs then cbs else cbs @ [cb]) (watchers v)\<rparr>)"

definition unwatch :: "string \<Rightarrow> nat \<Rightarrow> vfs \<Rightarrow> vfs" where
  "unwatch p cb v =
     (case map_of (watchers v) p of None \<Rightarrow> v
      | Some l \<Rightarrow> v\<lparr>watchers := AList.update p (filter (\<lambda>c. c \<noteq> cb) l) (watchers v)\<rparr>)"

section \<open>Mutation\<close>

definition unlink :: "vfs \<Rightarrow> string \<Rightarrow> unit vfsM" where
  "unlink v path = bnd (resolve v nofollow path) (\<lambda>r.
     case r_parent r of
       None \<Rightarrow> throw (VErr 16)
     | Some d \<Rightarrow> bnd (the_ref (r_node r)) (\<lambda>nr. bnd (get_node nr) (\<lambda>n.
         if vtype n = NDir then throw (VErr 21)
         else thn (del_child d (r_name r)) (bnd (getS clock) (\<lambda>now.
           mod_node nr (\<lambda>n. n\<lparr>nlink := (case nlink n of Some (Suc k) \<Rightarrow> Some k | l \<Rightarrow> l), ctime := now\<rparr>))))))"

definition rename :: "vfs \<Rightarrow> string \<Rightarrow> string \<Rightarrow> unit vfsM" where
  "rename v old new = bnd (resolve v nofollow old) (\<lambda>s.
     case r_parent s of
       None \<Rightarrow> throw (VErr 16)
     | Some sd \<Rightarrow> bnd (resolve v forcreate_nofollow new) (\<lambda>t. bnd (the_ref (r_node s)) (\<lambda>n.
         bnd (getS (\<lambda>h. (case r_node t of None \<Rightarrow> False | Some tn \<Rightarrow> vtype (nd h tn) = NDir) \<and> vtype (nd h n) \<noteq> NDir))
           (\<lambda>bad. if bad then throw (VErr 21)
             else thn (del_child sd (r_name s)) (bnd (getS clock) (\<lambda>now.
               thn (mod_node n (\<lambda>x. x\<lparr>vname := r_name t, parent := r_parent t, ctime := now\<rparr>))
                 (bnd (the_ref (r_parent t)) (\<lambda>td. thn (set_child td (r_name t) n)
                   (thn (touch v (r_path s) ''rename'') (touch v (r_path t) ''rename''))))))))))"

definition mkdir :: "vfs \<Rightarrow> string \<Rightarrow> u32 \<Rightarrow> nat vfsM" where
  "mkdir v path mode = bnd (resolve v forcreate path) (\<lambda>r.
     if r_node r \<noteq> None then throw (VErr 17)
     else bnd (the_ref (r_parent r)) (\<lambda>d.
       bnd (new_node NDir (r_name r) (\<lambda>x. x\<lparr>vmode := S_IFDIR OR (mode AND 0x1ff), parent := Some d\<rparr>)) (\<lambda>n.
         thn (set_child d (r_name r) n) (thn (touch v (r_path r) ''mkdir'') (ret n)))))"

definition rmdir :: "vfs \<Rightarrow> string \<Rightarrow> unit vfsM" where
  "rmdir v path = bnd (resolve v nofollow path) (\<lambda>r. bnd (the_ref (r_node r)) (\<lambda>nr. bnd (get_node nr) (\<lambda>n.
     if vtype n \<noteq> NDir then throw (VErr 20)
     else case r_parent r of
       None \<Rightarrow> throw (VErr 16)
     | Some d \<Rightarrow> if children n \<noteq> [] then throw (VErr 39)
         else thn (del_child d (r_name r)) (touch v (r_path r) ''rmdir''))))"

definition change :: "vfs \<Rightarrow> resolve_opts \<Rightarrow> string \<Rightarrow> string \<Rightarrow> (vnode \<Rightarrow> vnode) \<Rightarrow> unit vfsM" where
  "change v opts path ty f = bnd (resolve v opts path) (\<lambda>r. bnd (the_ref (r_node r)) (\<lambda>n. bnd (getS clock) (\<lambda>now.
     thn (mod_node n (\<lambda>x. (f x)\<lparr>ctime := now\<rparr>)) (touch v (r_path r) ty))))"

definition chmod_bits :: "u32 \<Rightarrow> vnode \<Rightarrow> vnode" where
  "chmod_bits mode x = x\<lparr>vmode := (vmode x AND S_IFMT) OR (mode AND 0xfff)\<rparr>"

definition chown_ids :: "int \<Rightarrow> int \<Rightarrow> vnode \<Rightarrow> vnode" where
  "chown_ids u g x =
     (let x1 = (if s32 u \<ge> 0 then x\<lparr>uid := to_u32 u\<rparr> else x) in if s32 g \<ge> 0 then x1\<lparr>gid := to_u32 g\<rparr> else x1)"

definition set_times :: "int \<Rightarrow> int \<Rightarrow> vnode \<Rightarrow> vnode" where
  "set_times a m x = x\<lparr>atime := uint (to_u32 a), mtime := uint (to_u32 m)\<rparr>"

definition chmod :: "vfs \<Rightarrow> string \<Rightarrow> u32 \<Rightarrow> unit vfsM" where
  "chmod v path mode = change v nofollow path ''chmod'' (chmod_bits mode)"

definition chown :: "vfs \<Rightarrow> string \<Rightarrow> int \<Rightarrow> int \<Rightarrow> unit vfsM" where
  "chown v path u g = change v nofollow path ''chown'' (chown_ids u g)"

definition utimes :: "vfs \<Rightarrow> string \<Rightarrow> int \<Rightarrow> int \<Rightarrow> unit vfsM" where
  "utimes v path a m = change v nofollow path ''utimes'' (set_times a m)"

definition resize :: "nat \<Rightarrow> u8 list \<Rightarrow> u8 list" where
  "resize n bs = take n bs @ replicate (n - length bs) 0"

definition truncate_file :: "vfs \<Rightarrow> string \<Rightarrow> int \<Rightarrow> unit vfsM" where
  "truncate_file v path len = bnd (resolve v follow path) (\<lambda>r. bnd (the_ref (r_node r)) (\<lambda>nr. bnd (get_node nr) (\<lambda>n.
     if vtype n \<noteq> NFile then throw (VErr 21)
     else bnd (getS clock) (\<lambda>now.
       thn (mod_node nr (\<lambda>x. x\<lparr>vdata := resize (unat (to_u32 len)) (vdata x), mtime := now, ctime := now\<rparr>))
         (touch v (r_path r) ''truncate'')))))"

definition link :: "vfs \<Rightarrow> string \<Rightarrow> string \<Rightarrow> unit vfsM" where
  "link v old new = bnd (resolve_node v nofollow old) (\<lambda>n. bnd (get_node n) (\<lambda>on.
     if vtype on = NDir then throw (VErr 1)
     else bnd (resolve v forcreate_nofollow new) (\<lambda>t.
       if r_node t \<noteq> None then throw (VErr 17)
       else bnd (the_ref (r_parent t)) (\<lambda>d. thn (set_child d (r_name t) n) (touch v (r_path t) ''link'')))))"

end
