(* ===== verification/Vfs_Files.thy ===== *)
theory Vfs_Files
  imports Vfs
begin

text \<open>
  Open files, \<open>open\<close>, the standard tree and the snapshots of \<open>src/vfs.js\<close>.
\<close>

section \<open>Open flags\<close>

definition O_WRONLY :: u32 where "O_WRONLY = 1"
definition O_RDWR :: u32 where "O_RDWR = 2"
definition O_ACCMODE :: u32 where "O_ACCMODE = 3"
definition O_CREAT :: u32 where "O_CREAT = 0x40"
definition O_EXCL :: u32 where "O_EXCL = 0x80"
definition O_TRUNC :: u32 where "O_TRUNC = 0x200"
definition O_APPEND :: u32 where "O_APPEND = 0x400"
definition O_DIRECTORY :: u32 where "O_DIRECTORY = 0x10000"

lemmas open_flags = O_WRONLY_def O_RDWR_def O_ACCMODE_def O_CREAT_def O_EXCL_def O_TRUNC_def O_APPEND_def
  O_DIRECTORY_def

definition has_flag :: "u32 \<Rightarrow> u32 \<Rightarrow> bool" where
  "has_flag flags f \<longleftrightarrow> flags AND f \<noteq> 0"

section \<open>OpenFile\<close>

record open_file =
  of_node :: nat
  of_path :: string
  of_flags :: u32
  of_offset :: nat
  of_dirOffset :: nat

definition new_open_file :: "nat \<Rightarrow> string \<Rightarrow> u32 \<Rightarrow> open_file vfsM" where
  "new_open_file n path flags = getS (\<lambda>h. \<lparr>of_node = n, of_path = path, of_flags = flags,
     of_offset = (if has_flag flags O_APPEND then node_size (nd h n) else 0), of_dirOffset = 0\<rparr>)"

definition canRead :: "open_file \<Rightarrow> bool" where
  "canRead f \<longleftrightarrow> of_flags f AND O_ACCMODE \<noteq> O_WRONLY"

definition canWrite :: "open_file \<Rightarrow> bool" where
  "canWrite f \<longleftrightarrow> of_flags f AND O_ACCMODE \<noteq> 0"

text \<open>\<open>rng count\<close> are the bytes the host's random generator delivers.\<close>

definition of_read :: "(nat \<Rightarrow> u8 list) \<Rightarrow> nat \<Rightarrow> open_file \<Rightarrow> (u8 list \<times> open_file) vfsM" where
  "of_read rng count f =
     (if \<not> canRead f then throw (VErr 9)
      else bnd (get_node (of_node f)) (\<lambda>n.
        case vtype n of
          NChar \<Rightarrow>
            if device n = ''zero'' then ret (replicate count 0, f)
            else if device n = ''random'' \<or> device n = ''urandom'' then ret (rng count, f)
            else if device n = ''null'' \<or> device n = ''tty'' \<or> device n = ''console'' then ret ([], f)
            else throw (VErr 5)
        | NDir \<Rightarrow> throw (VErr 21)
        | NSymlink \<Rightarrow> throw (VErr 22)
        | NFile \<Rightarrow>
            let fin = min (length (vdata n)) (of_offset f + count);
                out = take (fin - of_offset f) (drop (of_offset f) (vdata n))
            in bnd (getS clock) (\<lambda>now. thn (mod_node (of_node f) (\<lambda>x. x\<lparr>atime := now\<rparr>))
                 (ret (out, f\<lparr>of_offset := fin\<rparr>)))))"

text \<open>The file's bytes after a write at an offset: zeros fill a gap.\<close>

definition splice_bytes :: "nat \<Rightarrow> u8 list \<Rightarrow> u8 list \<Rightarrow> u8 list" where
  "splice_bytes off bs old =
     (let grown = (if off + length bs > length old then old @ replicate (off + length bs - length old) 0 else old)
      in take off grown @ bs @ drop (off + length bs) grown)"

definition of_write :: "u8 list \<Rightarrow> open_file \<Rightarrow> (nat \<times> open_file) vfsM" where
  "of_write bs f =
     (if \<not> canWrite f then throw (VErr 9)
      else bnd (get_node (of_node f)) (\<lambda>n.
        case vtype n of
          NChar \<Rightarrow> ret (length bs, f)
        | NFile \<Rightarrow>
            let off = (if has_flag (of_flags f) O_APPEND then length (vdata n) else of_offset f)
            in bnd (getS clock) (\<lambda>now.
                 thn (mod_node (of_node f) (\<lambda>x. x\<lparr>vdata := splice_bytes off bs (vdata x), mtime := now, ctime := now\<rparr>))
                   (ret (length bs, f\<lparr>of_offset := off + length bs\<rparr>)))
        | _ \<Rightarrow> throw (VErr 21)))"

definition lseek :: "int \<Rightarrow> int \<Rightarrow> open_file \<Rightarrow> (nat \<times> open_file) vfsM" where
  "lseek offset whence f = bnd (get_node (of_node f)) (\<lambda>n.
     if whence \<noteq> 0 \<and> whence \<noteq> 1 \<and> whence \<noteq> 2 then throw (VErr 22)
     else let base = (if whence = 0 then 0 else if whence = 1 then int (of_offset f) else int (node_size n));
              nxt = js_num (base + offset)
          in if nxt < 0 then throw (VErr 22)
             else let o' = unat (to_u32 nxt) in ret (o', f\<lparr>of_offset := o'\<rparr>))"

definition readdir :: "open_file \<Rightarrow> ((string \<times> nat) list \<times> open_file) vfsM" where
  "readdir f = bnd (get_node (of_node f)) (\<lambda>n.
     if vtype n \<noteq> NDir then throw (VErr 20)
     else let entries = (''.'', of_node f) # (''..'', case parent n of Some p \<Rightarrow> p | None \<Rightarrow> of_node f) # children n;
              out = drop (of_dirOffset f) entries
          in ret (out, f\<lparr>of_dirOffset := of_dirOffset f + length out\<rparr>))"

section \<open>Opening\<close>

text \<open>Resolve, or create the file when it is missing and \<open>O_CREAT\<close> is given. The flag tells a new file.\<close>

definition open_resolve :: "vfs \<Rightarrow> string \<Rightarrow> u32 \<Rightarrow> u32 \<Rightarrow> (nat \<times> string \<times> bool) vfsM" where
  "open_resolve v path flags mode h =
     (case resolve v follow path h of
        (Inr r, h1) \<Rightarrow> bnd (the_ref (r_node r)) (\<lambda>n. ret (n, r_path r, False)) h1
      | (Inl e, h1) \<Rightarrow>
          if e = VErr 2 \<and> has_flag flags O_CREAT
          then bnd (resolve v forcreate path) (\<lambda>c. bnd (the_ref (r_parent c)) (\<lambda>d.
                 bnd (new_node NFile (r_name c) (\<lambda>x. x\<lparr>vmode := S_IFREG OR (mode AND 0x1ff), parent := Some d\<rparr>)) (\<lambda>n.
                   thn (set_child d (r_name c) n) (ret (n, r_path c, True))))) h1
          else (Inl e, h1))"

definition vfs_open :: "vfs \<Rightarrow> string \<Rightarrow> u32 \<Rightarrow> u32 \<Rightarrow> open_file vfsM" where
  "vfs_open v path flags mode = bnd (open_resolve v path flags mode) (\<lambda>(n, p, created).
     if \<not> created \<and> has_flag flags O_EXCL \<and> has_flag flags O_CREAT then throw (VErr 17)
     else bnd (get_node n) (\<lambda>x.
       if has_flag flags O_DIRECTORY \<and> vtype x \<noteq> NDir then throw (VErr 20)
       else thn (whenM (has_flag flags O_TRUNC \<and> vtype x = NFile \<and> flags AND O_ACCMODE \<noteq> 0)
                  (mod_node n (\<lambda>y. y\<lparr>vdata := []\<rparr>)))
              (new_open_file n p flags)))"

definition mountFiles :: "vfs \<Rightarrow> (string \<times> u8 list) list \<Rightarrow> string \<Rightarrow> unit vfsM" where
  "mountFiles v files rt = forM files (\<lambda>(path, data).
     thn (writeFile v (normalize (v\<lparr>cwd := rt\<rparr>) path) data 0x1a4) (ret ()))"

section \<open>A new file system\<close>

text \<open>Errors of the symbolic links of the standard tree are swallowed.\<close>

definition try_link :: "vfs \<Rightarrow> string \<times> string \<Rightarrow> unit vfsM" where
  "try_link v = (\<lambda>(l, t) h. if vfs_exists v l h then (Inr (), h) else (Inr (), snd (vfs_symlink v t l h)))"

definition newline :: string where
  "newline = [CHR 0x0A]"

definition tab :: string where
  "tab = [CHR 0x09]"

definition seedStandardTree :: "vfs \<Rightarrow> unit vfsM" where
  "seedStandardTree v =
     thn (forM [''/dev'', ''/proc'', ''/proc/self'', ''/proc/self/fd'', ''/etc'', ''/tmp'', ''/home'', ''/home/user'',
                ''/run'', ''/var'', ''/var/tmp''] (\<lambda>d. thn (mkdirp v d 0x1ed) (ret ())))
     (thn (forM [(''/dev/null'', ''null'', 0x1b6, 0x0103), (''/dev/zero'', ''zero'', 0x1b6, 0x0105),
                 (''/dev/random'', ''random'', 0x1b6, 0x0108), (''/dev/urandom'', ''urandom'', 0x1b6, 0x0109),
                 (''/dev/tty'', ''tty'', 0x1b6, 0x0500), (''/dev/console'', ''console'', 0x180, 0x0501)]
             (\<lambda>(p, d, m, r). thn (mknod v p d m r) (ret ())))
     (thn (forM [(''/dev/stdin'', ''/proc/self/fd/0''), (''/dev/stdout'', ''/proc/self/fd/1''),
                 (''/dev/stderr'', ''/proc/self/fd/2''), (''/proc/self/fd/0'', ''/dev/tty''),
                 (''/proc/self/fd/1'', ''/dev/tty''), (''/proc/self/fd/2'', ''/dev/tty'')] (try_link v))
     (forM [(''/etc/hosts'', ''127.0.0.1 localhost'' @ newline),
            (''/etc/passwd'', ''root:x:0:0:root:/root:/bin/sh'' @ newline @
               ''user:x:1000:1000:user:/home/user:/bin/sh'' @ newline),
            (''/proc/cpuinfo'', ''processor'' @ tab @ '': 0'' @ newline @
               ''model name'' @ tab @ '': CleanRoom JS IA-32 Emulator'' @ newline @
               ''flags'' @ tab @ tab @ '': fpu tsc cx8 cmov mmx sse sse2'' @ newline)]
       (\<lambda>(p, text). thn (writeFile v p (stringToBytes text) 0x1a4) (ret ())))))"

definition new_vfs :: "vfs vfsM" where
  "new_vfs h =
     (let r = length (nodes h);
          v = \<lparr>root = r, cwd = ''/'', watchers = []\<rparr>;
          rn = (blank_node NDir ''/'' 1 (clock h))\<lparr>parent := Some r\<rparr>
      in thn (seedStandardTree v) (ret v) (h\<lparr>nodes := nodes h @ [rn]\<rparr>))"

section \<open>Snapshots\<close>

text \<open>
  The entries of a snapshot. File bytes travel as Base64 text, made and read by the host's \<open>Buffer\<close>: the pair
  of functions \<open>b64\<close>, \<open>unb64\<close>. The binary form is the JSON text of the same entries.
\<close>

record snap_entry =
  sn_path :: string
  sn_type :: ntype
  sn_mode :: u32
  sn_uid :: u32
  sn_gid :: u32
  sn_rdev :: u32
  sn_atime :: int
  sn_mtime :: int
  sn_ctime :: int
  sn_ino :: nat
  sn_data :: "string option"
  sn_target :: "string option"
  sn_device :: "string option"

definition snap_of :: "(u8 list \<Rightarrow> string) \<Rightarrow> string \<Rightarrow> vnode \<Rightarrow> snap_entry" where
  "snap_of b64 path n = \<lparr>sn_path = path, sn_type = vtype n, sn_mode = vmode n, sn_uid = uid n, sn_gid = gid n,
     sn_rdev = rdev n, sn_atime = atime n, sn_mtime = mtime n, sn_ctime = ctime n, sn_ino = ino n,
     sn_data = (if vtype n = NFile then Some (b64 (vdata n)) else None),
     sn_target = (if vtype n = NSymlink then Some (target n) else None),
     sn_device = (if vtype n = NChar then Some (device n) else None)\<rparr>"

text \<open>\<open>_vfsWalk\<close>: depth first, as deep as the engine allows.\<close>

fun vfs_walk :: "(u8 list \<Rightarrow> string) \<Rightarrow> heap \<Rightarrow> nat \<Rightarrow> nat \<Rightarrow> string \<Rightarrow> (vfs_error + snap_entry list)" where
  "vfs_walk b64 h 0 r path = Inl StackOverflow"
| "vfs_walk b64 h (Suc d) r path =
     (let n = nd h r;
          own = (if path \<noteq> ''/'' then [snap_of b64 path n] else [])
      in if vtype n \<noteq> NDir then Inr own
         else foldl (\<lambda>acc (name, c). case acc of Inl e \<Rightarrow> Inl e
             | Inr out \<Rightarrow> (case vfs_walk b64 h d c ((if path = ''/'' then [] else path) @ ''/'' @ name) of
                   Inl e \<Rightarrow> Inl e | Inr es \<Rightarrow> Inr (out @ es))) (Inr own) (children n))"

record vfs_snapshot =
  vs_cwd :: string
  vs_nextIno :: nat
  vs_entries :: "snap_entry list"

definition snapshot :: "(u8 list \<Rightarrow> string) \<Rightarrow> vfs \<Rightarrow> heap \<Rightarrow> vfs_error + vfs_snapshot" where
  "snapshot b64 v h = (case vfs_walk b64 h (stack_depth h) (root v) ''/'' of
     Inl e \<Rightarrow> Inl e | Inr es \<Rightarrow> Inr \<lparr>vs_cwd = cwd v, vs_nextIno = nextIno h, vs_entries = es\<rparr>)"

definition restore_entry :: "(string \<Rightarrow> u8 list) \<Rightarrow> vfs \<Rightarrow> snap_entry \<Rightarrow> unit vfsM" where
  "restore_entry unb64 v e =
     thn (case sn_type e of
            NDir \<Rightarrow> mkdirp v (sn_path e) (sn_mode e AND 0x1ff)
          | NFile \<Rightarrow> writeFile v (sn_path e) (unb64 (case sn_data e of Some s \<Rightarrow> s | None \<Rightarrow> [])) (sn_mode e AND 0x1ff)
          | NSymlink \<Rightarrow> vfs_symlink v (case sn_target e of Some t \<Rightarrow> t | None \<Rightarrow> []) (sn_path e)
          | NChar \<Rightarrow> mknod v (sn_path e) (case sn_device e of Some t \<Rightarrow> t | None \<Rightarrow> ''null'') (sn_mode e AND 0x1ff) (sn_rdev e))
     (bnd (resolve_node v nofollow (sn_path e)) (\<lambda>r.
        mod_node r (\<lambda>n. n\<lparr>vmode := sn_mode e, uid := sn_uid e, gid := sn_gid e, rdev := sn_rdev e,
          atime := sn_atime e, mtime := sn_mtime e, ctime := sn_ctime e,
          ino := (if sn_ino e \<noteq> 0 then sn_ino e else ino n)\<rparr>)))"

definition fromSnapshot :: "(string \<Rightarrow> u8 list) \<Rightarrow> vfs_snapshot \<Rightarrow> vfs vfsM" where
  "fromSnapshot unb64 s = bnd new_vfs (\<lambda>v.
     thn (mod_node (root v) (\<lambda>n. n\<lparr>children := []\<rparr>))
       (thn (forM (vs_entries s) (restore_entry unb64 v)) (ret (v\<lparr>cwd := vs_cwd s\<rparr>))))"

definition loadSnapshot :: "(string \<Rightarrow> u8 list) \<Rightarrow> vfs_snapshot \<Rightarrow> vfs \<Rightarrow> vfs vfsM" where
  "loadSnapshot unb64 s v = bnd (fromSnapshot unb64 s) (\<lambda>w. ret (v\<lparr>root := root w, cwd := cwd w\<rparr>))"

end
