(* ===== verification/Overlay.thy ===== *)
theory Overlay
  imports Vfs_Files
begin

text \<open>
  The overlay file system of \<open>src/overlay-vfs.js\<close>: a base file system that is meant to be read-only, an upper
  one that takes every change, and whiteouts that hide base entries. Both file systems live in one store; the
  whiteouts are the state of the overlay itself.
\<close>

section \<open>State\<close>

record overlay =
  o_base :: vfs
  o_upper :: vfs
  o_cwd :: string

record ostate =
  o_heap :: heap
  whiteouts :: "string list"

type_synonym 'a ovlM = "(ostate, vfs_error, 'a) sem"

definition liftO :: "'a vfsM \<Rightarrow> 'a ovlM" where
  "liftO m s = (case m (o_heap s) of (r, h) \<Rightarrow> (r, s\<lparr>o_heap := h\<rparr>))"

definition new_overlay :: "vfs \<Rightarrow> vfs \<Rightarrow> string option \<Rightarrow> overlay" where
  "new_overlay b u c = (let w = (case c of Some w \<Rightarrow> w | None \<Rightarrow> cwd u)
     in \<lparr>o_base = b\<lparr>cwd := w\<rparr>, o_upper = u\<lparr>cwd := w\<rparr>, o_cwd = w\<rparr>)"

definition o_normalize :: "overlay \<Rightarrow> string \<Rightarrow> string" where
  "o_normalize v path = normalize ((o_upper v)\<lparr>cwd := o_cwd v\<rparr>) path"

definition white :: "overlay \<Rightarrow> string \<Rightarrow> ostate \<Rightarrow> bool" where
  "white v path s \<longleftrightarrow> o_normalize v path \<in> set (whiteouts s)"

definition white_del :: "string \<Rightarrow> unit ovlM" where
  "white_del p = modS (\<lambda>s. s\<lparr>whiteouts := filter (\<lambda>q. q \<noteq> p) (whiteouts s)\<rparr>)"

definition white_add :: "string \<Rightarrow> unit ovlM" where
  "white_add p = modS (\<lambda>s. if p \<in> set (whiteouts s) then s else s\<lparr>whiteouts := whiteouts s @ [p]\<rparr>)"

text \<open>\<open>_existsUpper\<close> and \<open>_existsBase\<close>: any error is \<open>null\<close>.\<close>

definition try_resolve :: "vfs \<Rightarrow> resolve_opts \<Rightarrow> string \<Rightarrow> heap \<Rightarrow> resolved option" where
  "try_resolve v opts path h = (case fst (resolve v opts path h) of Inl _ \<Rightarrow> None | Inr r \<Rightarrow> Some r)"

definition node_in :: "resolved option \<Rightarrow> nat option" where
  "node_in r = Option.bind r r_node"

section \<open>Copy-up\<close>

definition cloneNodeInto :: "vfs \<Rightarrow> string \<Rightarrow> vnode \<Rightarrow> nat vfsM" where
  "cloneNodeInto u path src =
     thn (mkdirp u (dirname path) 0x1ed)
       (case vtype src of
          NDir \<Rightarrow> mkdirp u path (vmode src AND 0xfff)
        | NFile \<Rightarrow> writeFile u path (vdata src) (vmode src AND 0xfff)
        | NSymlink \<Rightarrow> vfs_symlink u (target src) path
        | NChar \<Rightarrow> mknod u path (device src) (vmode src AND 0xfff) (rdev src))"

definition cloneMetadata :: "nat \<Rightarrow> vnode \<Rightarrow> unit vfsM" where
  "cloneMetadata dst src = mod_node dst (\<lambda>n. n\<lparr>vmode := vmode src, uid := uid src, gid := gid src, rdev := rdev src,
     atime := atime src, mtime := mtime src, ctime := ctime src\<rparr>)"

definition copyUp :: "overlay \<Rightarrow> bool \<Rightarrow> string \<Rightarrow> resolved ovlM" where
  "copyUp v nofollow_final path =
     (let p = o_normalize v path; opts = \<lparr>parentForCreate = False, noFollowFinal = nofollow_final\<rparr> in
      bnd (getS (\<lambda>s. try_resolve (o_upper v) opts p (o_heap s))) (\<lambda>up.
        case up of
          Some r \<Rightarrow> ret r
        | None \<Rightarrow>
            thn (white_del p) (bnd (liftO (resolve_node (o_base v) opts p)) (\<lambda>sr. bnd (getS (\<lambda>s. nd (o_heap s) sr)) (\<lambda>src.
              bnd (liftO (cloneNodeInto (o_upper v) p src)) (\<lambda>n.
                thn (liftO (cloneMetadata n src))
                  (getS (\<lambda>s. \<lparr>r_node = Some n, r_path = p, r_parent = parent (nd (o_heap s) n), r_name = basename p\<rparr>))))))))"

section \<open>Lookup\<close>

datatype lookup_result = LNull | LRes resolved

definition lookup_at :: "overlay \<Rightarrow> resolve_opts \<Rightarrow> bool \<Rightarrow> string \<Rightarrow> lookup_result ovlM" where
  "lookup_at v opts allowMissing path =
     (let p = o_normalize v path in
      bnd (getS (\<lambda>s. white v p s)) (\<lambda>w.
        if w then (if parentForCreate opts then bnd (liftO (resolve (o_upper v) opts p)) (\<lambda>r. ret (LRes r))
                   else if allowMissing then ret LNull else throw (VErr 2))
        else bnd (getS (\<lambda>s. (try_resolve (o_upper v) opts p (o_heap s), try_resolve (o_base v) opts p (o_heap s))))
          (\<lambda>(up, bs).
            if node_in up \<noteq> None \<or> parentForCreate opts then ret (case up of None \<Rightarrow> LNull | Some r \<Rightarrow> LRes r)
            else case bs of
              Some r \<Rightarrow> ret (LRes r)
            | None \<Rightarrow> if allowMissing then ret LNull else throw (VErr 2))))"

definition lookup_node :: "overlay \<Rightarrow> resolve_opts \<Rightarrow> string \<Rightarrow> nat ovlM" where
  "lookup_node v opts path = bnd (lookup_at v opts False path) (\<lambda>r.
     case r of LNull \<Rightarrow> throw TypeErr | LRes x \<Rightarrow> liftO (the_ref (r_node x)))"

definition o_exists :: "overlay \<Rightarrow> string \<Rightarrow> ostate \<Rightarrow> bool" where
  "o_exists v path s = (case fst (lookup_at v follow True path s) of Inr (LRes r) \<Rightarrow> r_node r \<noteq> None | _ \<Rightarrow> False)"

definition o_stat :: "overlay \<Rightarrow> resolve_opts \<Rightarrow> string \<Rightarrow> stat_t ovlM" where
  "o_stat v opts path = bnd (lookup_node v opts path) (\<lambda>n. getS (\<lambda>s. node_stat (nd (o_heap s) n)))"

definition o_lstat :: "overlay \<Rightarrow> string \<Rightarrow> stat_t ovlM" where
  "o_lstat v path = o_stat v nofollow path"

definition o_readlink :: "overlay \<Rightarrow> string \<Rightarrow> string ovlM" where
  "o_readlink v path = bnd (lookup_node v nofollow path) (\<lambda>r. bnd (liftO (get_node r)) (\<lambda>n.
     if vtype n \<noteq> NSymlink then throw (VErr 22) else ret (target n)))"

definition o_readFile :: "overlay \<Rightarrow> string \<Rightarrow> u8 list ovlM" where
  "o_readFile v path = bnd (lookup_node v follow path) (\<lambda>r. bnd (liftO (get_node r)) (\<lambda>n.
     if vtype n \<noteq> NFile then throw (VErr 21) else ret (vdata n)))"

section \<open>Changes\<close>

definition o_writeFile :: "overlay \<Rightarrow> string \<Rightarrow> u8 list \<Rightarrow> u32 \<Rightarrow> nat ovlM" where
  "o_writeFile v path data mode = thn (white_del (o_normalize v path)) (liftO (writeFile (o_upper v) path data mode))"

definition o_mkdirp :: "overlay \<Rightarrow> string \<Rightarrow> u32 \<Rightarrow> nat ovlM" where
  "o_mkdirp v path mode = thn (white_del (o_normalize v path)) (liftO (mkdirp (o_upper v) path mode))"

definition o_mkdir :: "overlay \<Rightarrow> string \<Rightarrow> u32 \<Rightarrow> nat ovlM" where
  "o_mkdir v path mode = thn (white_del (o_normalize v path)) (liftO (mkdir (o_upper v) path mode))"

definition o_symlink :: "overlay \<Rightarrow> string \<Rightarrow> string \<Rightarrow> nat ovlM" where
  "o_symlink v tgt path = thn (white_del (o_normalize v path)) (liftO (vfs_symlink (o_upper v) tgt path))"

definition o_mknod :: "overlay \<Rightarrow> string \<Rightarrow> string \<Rightarrow> u32 \<Rightarrow> u32 \<Rightarrow> nat ovlM" where
  "o_mknod v path dev mode rd = thn (white_del (o_normalize v path)) (liftO (mknod (o_upper v) path dev mode rd))"

definition o_change :: "overlay \<Rightarrow> string \<Rightarrow> (vnode \<Rightarrow> vnode) \<Rightarrow> unit ovlM" where
  "o_change v path f = bnd (copyUp v True path) (\<lambda>r. bnd (liftO (the_ref (r_node r))) (\<lambda>n. liftO (mod_node n f)))"

definition o_chmod :: "overlay \<Rightarrow> string \<Rightarrow> u32 \<Rightarrow> unit ovlM" where
  "o_chmod v path mode = o_change v path (chmod_bits mode)"

definition o_chown :: "overlay \<Rightarrow> string \<Rightarrow> int \<Rightarrow> int \<Rightarrow> unit ovlM" where
  "o_chown v path u g = o_change v path (chown_ids u g)"

definition o_utimes :: "overlay \<Rightarrow> string \<Rightarrow> int \<Rightarrow> int \<Rightarrow> unit ovlM" where
  "o_utimes v path a m = o_change v path (set_times a m)"

definition o_truncate :: "overlay \<Rightarrow> string \<Rightarrow> int \<Rightarrow> unit ovlM" where
  "o_truncate v path len = thn (copyUp v False path) (liftO (truncate_file (o_upper v) path len))"

text \<open>An error \<open>ENOENT\<close> of the upper operation is swallowed.\<close>

definition swallow_enoent :: "unit ovlM \<Rightarrow> unit ovlM" where
  "swallow_enoent m s = (case m s of (Inl e, s') \<Rightarrow> (if e = VErr 2 then (Inr (), s') else (Inl e, s')) | (Inr u, s') \<Rightarrow> (Inr u, s'))"

definition hide_base :: "overlay \<Rightarrow> string \<Rightarrow> string \<Rightarrow> unit ovlM" where
  "hide_base v path p = bnd (getS (\<lambda>s. try_resolve (o_base v) nofollow path (o_heap s)))
     (\<lambda>b. whenM (b \<noteq> None) (white_add p))"

definition o_unlink :: "overlay \<Rightarrow> string \<Rightarrow> unit ovlM" where
  "o_unlink v path = (let p = o_normalize v path in
     thn (swallow_enoent (liftO (unlink (o_upper v) p))) (hide_base v p p))"

definition o_rmdir :: "overlay \<Rightarrow> string \<Rightarrow> unit ovlM" where
  "o_rmdir v path = (let p = o_normalize v path in
     thn (swallow_enoent (liftO (rmdir (o_upper v) p))) (hide_base v p p))"

definition o_rename :: "overlay \<Rightarrow> string \<Rightarrow> string \<Rightarrow> unit ovlM" where
  "o_rename v old new = bnd (copyUp v True old) (\<lambda>src.
     thn (white_del (o_normalize v new))
       (thn (liftO (rename (o_upper v) (r_path src) new)) (hide_base v old (o_normalize v old))))"

definition o_link :: "overlay \<Rightarrow> string \<Rightarrow> string \<Rightarrow> unit ovlM" where
  "o_link v old new = thn (copyUp v True old) (liftO (link (o_upper v) old new))"

section \<open>Directories and opening\<close>

definition dir_children :: "heap \<Rightarrow> nat option \<Rightarrow> (string, nat) jsmap" where
  "dir_children h r = (case r of None \<Rightarrow> [] | Some n \<Rightarrow> if vtype (nd h n) = NDir then children (nd h n) else [])"

definition add_names :: "string list \<Rightarrow> string list \<Rightarrow> string list" where
  "add_names old new = foldl (\<lambda>l n. if n \<in> set l then l else l @ [n]) old new"

definition o_list :: "overlay \<Rightarrow> string \<Rightarrow> ostate \<Rightarrow> string list" where
  "o_list v path s =
     (let p = o_normalize v path; h = o_heap s;
          b = node_in (try_resolve (o_base v) follow p h); u = node_in (try_resolve (o_upper v) follow p h)
      in add_names (add_names [] (filter (\<lambda>n. \<not> white v (p @ ''/'' @ n) s) (map fst (dir_children h b))))
           (map fst (dir_children h u)))"

text \<open>The merged directory is a new node of the store, its own parent. A child is looked up in the upper
  node's children, then in the base node's, whatever their types; only directories have children.\<close>

definition mergeDirNode :: "string \<Rightarrow> nat option \<Rightarrow> nat option \<Rightarrow> nat vfsM" where
  "mergeDirNode path u b h =
     (let r = length (nodes h);
          names = add_names (map fst (dir_children h b)) (map fst (dir_children h u));
          entry = (\<lambda>name. case map_of (dir_children h u) name of Some c \<Rightarrow> Some (name, c)
             | None \<Rightarrow> (case map_of (dir_children h b) name of Some c \<Rightarrow> Some (name, c) | None \<Rightarrow> None));
          mode = (case (case u of Some n \<Rightarrow> Some n | None \<Rightarrow> b) of Some n \<Rightarrow> vmode (nd h n) | None \<Rightarrow> S_IFDIR OR 0x1ed);
          name = (if basename path = [] then ''/'' else basename path)
      in new_node NDir name (\<lambda>x. x\<lparr>vmode := mode, parent := Some r, children := List.map_filter entry names\<rparr>) h)"

definition o_open :: "overlay \<Rightarrow> string \<Rightarrow> u32 \<Rightarrow> u32 \<Rightarrow> open_file ovlM" where
  "o_open v path flags mode =
     (let p = o_normalize v path in
      if flags AND O_ACCMODE \<noteq> 0 \<or> has_flag flags (O_CREAT OR O_TRUNC OR O_APPEND) then
        bnd (getS (\<lambda>s. try_resolve (o_upper v) follow p (o_heap s) = None \<and> try_resolve (o_base v) follow p (o_heap s) \<noteq> None))
          (\<lambda>need. thn (if need then thn (copyUp v False p) (ret ()) else ret ())
            (thn (white_del p) (liftO (vfs_open (o_upper v) p flags mode))))
      else
        bnd (getS (\<lambda>s. (node_in (try_resolve (o_upper v) follow p (o_heap s)),
                        if white v p s then None else node_in (try_resolve (o_base v) follow p (o_heap s)), o_heap s)))
          (\<lambda>(u, b, h).
            let is_dir = (\<lambda>r. case r of None \<Rightarrow> False | Some n \<Rightarrow> vtype (nd h n) = NDir) in
            bnd (if is_dir u \<or> is_dir b then bnd (liftO (mergeDirNode p u b)) (\<lambda>n. ret (Some n))
                 else ret (case u of Some n \<Rightarrow> Some n | None \<Rightarrow> b))
              (\<lambda>r. case r of
                 None \<Rightarrow> throw (VErr 2)
               | Some n \<Rightarrow> bnd (liftO (get_node n)) (\<lambda>x.
                   if has_flag flags O_DIRECTORY \<and> vtype x \<noteq> NDir then throw (VErr 20)
                   else liftO (new_open_file n p flags)))))"

definition o_mountFiles :: "overlay \<Rightarrow> (string \<times> u8 list) list \<Rightarrow> string \<Rightarrow> unit ovlM" where
  "o_mountFiles v files rt = liftO (mountFiles (o_upper v) files rt)"

text \<open>Snapshots hold both file systems and the whiteouts.\<close>

record overlay_snapshot =
  os_cwd :: string
  os_base :: vfs_snapshot
  os_upper :: vfs_snapshot
  os_whiteouts :: "string list"

definition o_snapshot :: "(u8 list \<Rightarrow> string) \<Rightarrow> overlay \<Rightarrow> ostate \<Rightarrow> vfs_error + overlay_snapshot" where
  "o_snapshot b64 v s =
     (case snapshot b64 (o_base v) (o_heap s) of Inl e \<Rightarrow> Inl e
      | Inr b \<Rightarrow> (case snapshot b64 (o_upper v) (o_heap s) of Inl e \<Rightarrow> Inl e
          | Inr u \<Rightarrow> Inr \<lparr>os_cwd = o_cwd v, os_base = b, os_upper = u, os_whiteouts = whiteouts s\<rparr>))"

definition o_fromSnapshot :: "(string \<Rightarrow> u8 list) \<Rightarrow> overlay_snapshot \<Rightarrow> heap \<Rightarrow> (vfs_error + overlay) \<times> ostate" where
  "o_fromSnapshot unb64 sn h =
     (case fromSnapshot unb64 (os_base sn) h of
        (Inl e, h1) \<Rightarrow> (Inl e, \<lparr>o_heap = h1, whiteouts = []\<rparr>)
      | (Inr b, h1) \<Rightarrow> (case fromSnapshot unb64 (os_upper sn) h1 of
          (Inl e, h2) \<Rightarrow> (Inl e, \<lparr>o_heap = h2, whiteouts = []\<rparr>)
        | (Inr u, h2) \<Rightarrow> (Inr (new_overlay b u (Some (os_cwd sn))), \<lparr>o_heap = h2, whiteouts = add_names [] (os_whiteouts sn)\<rparr>)))"

end
