(* ===== verification/Vfs_Facts.thy ===== *)
theory Vfs_Facts
  imports Vfs_Files
begin

text \<open>
  The invariant of the node store and that every operation keeps it. The invariant has a parameter: a set of
  frozen nodes that no other node refers to. Operations of a file system outside that set leave it untouched;
  with the empty set this is the plain type invariant.
\<close>

section \<open>The invariant\<close>

definition free :: "nat set \<Rightarrow> nat \<Rightarrow> heap \<Rightarrow> bool" where
  "free B r h \<longleftrightarrow> r < length (nodes h) \<and> r \<notin> B"

definition isdir :: "nat set \<Rightarrow> nat \<Rightarrow> heap \<Rightarrow> bool" where
  "isdir B r h \<longleftrightarrow> free B r h \<and> vtype (nd h r) = NDir"

definition node_ok :: "nat set \<Rightarrow> heap \<Rightarrow> vnode \<Rightarrow> bool" where
  "node_ok B h n \<longleftrightarrow> jsmap_wf (children n) \<and> (\<forall>c \<in> snd ` set (children n). free B c h) \<and>
     (\<forall>p. parent n = Some p \<longrightarrow> isdir B p h) \<and> (vtype n \<noteq> NDir \<longrightarrow> children n = [])"

definition apart :: "nat set \<Rightarrow> heap \<Rightarrow> bool" where
  "apart B h \<longleftrightarrow> B \<subseteq> {..<length (nodes h)} \<and> (\<forall>r. free B r h \<longrightarrow> node_ok B h (nd h r))"

text \<open>The store only grows and no node changes its type.\<close>

definition grows :: "heap \<Rightarrow> heap \<Rightarrow> bool" where
  "grows h h' \<longleftrightarrow> length (nodes h) \<le> length (nodes h') \<and> (\<forall>r < length (nodes h). vtype (nd h' r) = vtype (nd h r)) \<and>
     stack_depth h' = stack_depth h"

definition frozen :: "nat set \<Rightarrow> heap \<Rightarrow> heap \<Rightarrow> bool" where
  "frozen B h h' \<longleftrightarrow> (\<forall>r \<in> B. nd h' r = nd h r)"

text \<open>
  A computation over a state that contains a store is safe: it keeps the invariant, the frozen nodes and every
  node's type, and its result meets a condition. \<open>hp\<close> finds the store in the state.
\<close>

definition safe_on :: "('s \<Rightarrow> heap) \<Rightarrow> nat set \<Rightarrow> (heap \<Rightarrow> bool) \<Rightarrow> ('a \<Rightarrow> heap \<Rightarrow> bool) \<Rightarrow> ('s, 'e, 'a) sem \<Rightarrow> bool" where
  "safe_on hp B P Q m \<longleftrightarrow> (\<forall>s. apart B (hp s) \<and> P (hp s) \<longrightarrow>
     apart B (hp (snd (m s))) \<and> frozen B (hp s) (hp (snd (m s))) \<and> grows (hp s) (hp (snd (m s))) \<and>
     (\<forall>x. fst (m s) = Inr x \<longrightarrow> Q x (hp (snd (m s)))))"

abbreviation safe :: "nat set \<Rightarrow> (heap \<Rightarrow> bool) \<Rightarrow> ('a \<Rightarrow> heap \<Rightarrow> bool) \<Rightarrow> 'a vfsM \<Rightarrow> bool" where
  "safe \<equiv> safe_on (\<lambda>h. h)"

definition persists :: "(heap \<Rightarrow> bool) \<Rightarrow> bool" where
  "persists P \<longleftrightarrow> (\<forall>h h'. grows h h' \<and> P h \<longrightarrow> P h')"

named_theorems safe_intros \<open>safety of operations on the node store\<close>
named_theorems persists_intros \<open>conditions that a growing store keeps\<close>

lemma grows_refl [simp]: "grows h h"
  by (simp add: grows_def)

lemma grows_trans: "grows h h' \<Longrightarrow> grows h' h'' \<Longrightarrow> grows h h''"
  unfolding grows_def by (auto intro: order_trans)

lemma frozen_refl [simp]: "frozen B h h"
  by (simp add: frozen_def)

lemma frozen_trans: "frozen B h h' \<Longrightarrow> frozen B h' h'' \<Longrightarrow> frozen B h h''"
  by (simp add: frozen_def)

lemma free_grows: "grows h h' \<Longrightarrow> free B r h \<Longrightarrow> free B r h'"
  by (auto simp: grows_def free_def)

lemma isdir_grows: "grows h h' \<Longrightarrow> isdir B r h \<Longrightarrow> isdir B r h'"
  by (auto simp: grows_def isdir_def free_def)

lemma persists_free [persists_intros]: "persists (free B r)"
  by (auto simp: persists_def intro: free_grows)

lemma persists_isdir [persists_intros]: "persists (isdir B r)"
  by (auto simp: persists_def intro: isdir_grows)

lemma persists_const [persists_intros]: "persists (\<lambda>h. c)"
  by (simp add: persists_def)

lemma persists_conj [persists_intros]: "persists P \<Longrightarrow> persists Q \<Longrightarrow> persists (\<lambda>h. P h \<and> Q h)"
  by (auto simp: persists_def)

lemma persists_imp [persists_intros]: "persists P \<Longrightarrow> persists (\<lambda>h. c \<longrightarrow> P h)"
  by (auto simp: persists_def)

lemma persists_all [persists_intros]: "(\<And>x. persists (P x)) \<Longrightarrow> persists (\<lambda>h. \<forall>x. P x h)"
  by (auto simp: persists_def)

lemma persists_ball [persists_intros]: "(\<And>x. persists (P x)) \<Longrightarrow> persists (\<lambda>h. \<forall>x \<in> A. P x h)"
  by (auto simp: persists_def)

lemma persistsD: "persists P \<Longrightarrow> grows h h' \<Longrightarrow> P h \<Longrightarrow> P h'"
  by (auto simp: persists_def)

section \<open>Rules\<close>

lemma safe_bnd:
  assumes m: "safe_on hp B P R m" and P: "persists P" and f: "\<And>x. safe_on hp B (\<lambda>h. P h \<and> R x h) Q (f x)"
  shows "safe_on hp B P Q (bnd m f)"
  unfolding safe_on_def
proof (intro allI impI)
  fix s
  assume pre: "apart B (hp s) \<and> P (hp s)"
  obtain x s1 where ms: "m s = (x, s1)" by (cases "m s")
  have s1: "apart B (hp s1)" "frozen B (hp s) (hp s1)" "grows (hp s) (hp s1)" "\<And>y. x = Inr y \<Longrightarrow> R y (hp s1)"
    using m pre ms unfolding safe_on_def by (metis fst_conv snd_conv)+
  have P1: "P (hp s1)" using persistsD [OF P s1(3)] pre by blast
  show "apart B (hp (snd (bnd m f s))) \<and> frozen B (hp s) (hp (snd (bnd m f s))) \<and> grows (hp s) (hp (snd (bnd m f s))) \<and>
      (\<forall>y. fst (bnd m f s) = Inr y \<longrightarrow> Q y (hp (snd (bnd m f s))))"
  proof (cases x)
    case (Inl e)
    then show ?thesis using ms s1 by simp
  next
    case (Inr y)
    then have "apart B (hp s1) \<and> (P (hp s1) \<and> R y (hp s1))" using s1 P1 by blast
    with f [of y] Inr ms s1(2,3) show ?thesis
      unfolding safe_on_def by (auto intro: frozen_trans grows_trans)
  qed
qed

lemma safeD:
  assumes "safe_on hp B P Q m" "apart B (hp s)" "P (hp s)" "m s = (r, s')"
  shows "apart B (hp s')" "frozen B (hp s) (hp s')" "grows (hp s) (hp s')" "r = Inr x \<Longrightarrow> Q x (hp s')"
  using assms unfolding safe_on_def by (metis fst_conv snd_conv)+

lemma safe_thn:
  assumes "safe_on hp B P R m" "persists P" "safe_on hp B P Q k"
  shows "safe_on hp B P Q (thn m k)"
  unfolding thn_def
proof (rule safe_bnd [OF assms(1,2)])
  show "safe_on hp B (\<lambda>h. P h \<and> R x h) Q k" for x using assms(3) by (simp add: safe_on_def)
qed

lemma safe_conseq:
  "safe_on hp B P' Q' m \<Longrightarrow> (\<And>h. P h \<Longrightarrow> P' h) \<Longrightarrow> (\<And>x h. Q' x h \<Longrightarrow> Q x h) \<Longrightarrow> safe_on hp B P Q m"
  by (auto simp: safe_on_def)

lemma safe_ret: "(\<And>h. P h \<Longrightarrow> Q x h) \<Longrightarrow> safe_on hp B P Q (ret x)"
  by (simp add: safe_on_def)

lemma safe_throw: "safe_on hp B P Q (throw e)"
  by (simp add: safe_on_def)

lemma safe_getS: "(\<And>s. apart B (hp s) \<Longrightarrow> P (hp s) \<Longrightarrow> Q (f s) (hp s)) \<Longrightarrow> safe_on hp B P Q (getS f)"
  by (simp add: safe_on_def)

lemma safe_if: "(b \<Longrightarrow> safe_on hp B P Q m) \<Longrightarrow> (\<not> b \<Longrightarrow> safe_on hp B P Q k) \<Longrightarrow> safe_on hp B P Q (if b then m else k)"
  by simp

lemma safe_clock: "safe B P (\<lambda>_ _. True) (getS clock)"
  by (rule safe_getS) simp

lemma safe_the_ref: "(\<And>n h. r = Some n \<Longrightarrow> P h \<Longrightarrow> Q n h) \<Longrightarrow> safe B P Q (the_ref r)"
  by (cases r) (simp_all add: the_ref_def safe_ret safe_throw)

lemma safe_forM:
  assumes "\<And>x. x \<in> set xs \<Longrightarrow> safe_on hp B P (\<lambda>_ _. True) (f x)" "persists P"
  shows "safe_on hp B P (\<lambda>_ _. True) (forM xs f)"
  using assms(1) by (induction xs) (auto intro: safe_ret safe_thn assms(2))

section \<open>Elementary steps\<close>

lemma nd_upd: "nd (h\<lparr>nodes := (nodes h)[r := x]\<rparr>) s = (if s = r \<and> r < length (nodes h) then x else nd h s)"
  by (cases "s = r") (simp_all add: nd_def list_update_beyond)

lemma apart_upd:
  assumes a: "apart B h" and r: "free B r h" and x: "node_ok B h x" "vtype x = vtype (nd h r)"
  shows "apart B (h\<lparr>nodes := (nodes h)[r := x]\<rparr>)" (is "apart B ?h")
proof -
  have fr: "free B s ?h = free B s h" for s by (simp add: free_def)
  have di: "isdir B s ?h = isdir B s h" for s using x(2) by (auto simp: isdir_def fr nd_upd)
  have ok: "node_ok B ?h n = node_ok B h n" for n by (simp add: node_ok_def fr di)
  show ?thesis
    using a x(1) by (auto simp: apart_def fr ok nd_upd)
qed

lemma safe_mod_node:
  assumes "\<And>h. apart B h \<Longrightarrow> P h \<Longrightarrow> free B r h \<and> node_ok B h (f (nd h r)) \<and> vtype (f (nd h r)) = vtype (nd h r)"
    and "\<And>h. P h \<Longrightarrow> Q () (h\<lparr>nodes := (nodes h)[r := f (nd h r)]\<rparr>)"
  shows "safe B P Q (mod_node r f)"
  unfolding safe_on_def
proof (intro allI impI)
  fix h
  assume pre: "apart B h \<and> P h"
  let ?h = "h\<lparr>nodes := (nodes h)[r := f (nd h r)]\<rparr>"
  have r: "free B r h" "node_ok B h (f (nd h r))" "vtype (f (nd h r)) = vtype (nd h r)" using assms(1) pre by blast+
  have "apart B ?h" by (rule apart_upd) (use pre r in auto)
  moreover have "frozen B h ?h" using r(1) by (auto simp: frozen_def nd_upd free_def)
  moreover have "grows h ?h" using r(3) by (auto simp: grows_def nd_upd)
  ultimately show "apart B (snd (mod_node r f h)) \<and> frozen B h (snd (mod_node r f h)) \<and> grows h (snd (mod_node r f h)) \<and>
      (\<forall>x. fst (mod_node r f h) = Inr x \<longrightarrow> Q x (snd (mod_node r f h)))"
    using assms(2) pre by (simp add: mod_node_def)
qed

text \<open>Changes that keep type, children and parent.\<close>

lemma safe_mod_meta [safe_intros]:
  assumes "\<And>h. P h \<Longrightarrow> free B r h" "\<And>n. vtype (f n) = vtype n \<and> children (f n) = children n \<and> parent (f n) = parent n"
  shows "safe B P (\<lambda>_ _. True) (mod_node r f)"
proof (rule safe_mod_node)
  fix h assume h: "apart B h" "P h"
  then have "free B r h" "node_ok B h (nd h r)" using assms(1) by (auto simp: apart_def)
  then show "free B r h \<and> node_ok B h (f (nd h r)) \<and> vtype (f (nd h r)) = vtype (nd h r)"
    using assms(2) by (simp add: node_ok_def)
qed simp

lemma safe_set_child [safe_intros]:
  assumes "\<And>h. P h \<Longrightarrow> isdir B d h \<and> free B r h"
  shows "safe B P (\<lambda>_ _. True) (set_child d name r)"
  unfolding set_child_def
proof (rule safe_mod_node)
  fix h assume h: "apart B h" "P h"
  then have d: "free B d h" "vtype (nd h d) = NDir" "free B r h" "node_ok B h (nd h d)"
    using assms by (auto simp: isdir_def apart_def)
  note set_update_sub [of name r "children (nd h d)"]
  with d show "free B d h \<and> node_ok B h ((nd h d)\<lparr>children := AList.update name r (children (nd h d))\<rparr>) \<and>
      vtype ((nd h d)\<lparr>children := AList.update name r (children (nd h d))\<rparr>) = vtype (nd h d)"
    by (auto simp: node_ok_def)
qed simp

lemma safe_del_child [safe_intros]:
  assumes "\<And>h. P h \<Longrightarrow> free B d h"
  shows "safe B P (\<lambda>_ _. True) (del_child d name)"
  unfolding del_child_def
proof (rule safe_mod_node)
  fix h assume h: "apart B h" "P h"
  then have d: "free B d h" "node_ok B h (nd h d)" using assms by (auto simp: apart_def)
  then show "free B d h \<and> node_ok B h ((nd h d)\<lparr>children := AList.delete name (children (nd h d))\<rparr>) \<and>
      vtype ((nd h d)\<lparr>children := AList.delete name (children (nd h d))\<rparr>) = vtype (nd h d)"
    by (auto simp: node_ok_def set_delete_eq)
qed simp

definition typed :: "nat set \<Rightarrow> ntype \<Rightarrow> nat \<Rightarrow> heap \<Rightarrow> bool" where
  "typed B t r h \<longleftrightarrow> free B r h \<and> vtype (nd h r) = t"

lemma persists_typed [persists_intros]: "persists (typed B t r)"
  unfolding persists_def typed_def by (auto simp: grows_def free_def)

lemma safe_new_node [safe_intros]:
  assumes "\<And>n. vtype (fill n) = vtype n \<and> children (fill n) = children n"
    and "\<And>h n p. P h \<Longrightarrow> parent n = None \<Longrightarrow> parent (fill n) = Some p \<Longrightarrow> isdir B p h"
  shows "safe B P (typed B t) (new_node t name fill)"
  unfolding safe_on_def typed_def
proof (intro allI impI)
  fix h
  assume pre: "apart B h \<and> P h"
  let ?n = "fill (blank_node t name (nextIno h) (clock h))"
  let ?h = "h\<lparr>nodes := nodes h @ [?n], nextIno := Suc (nextIno h)\<rparr>"
  have b: "parent (blank_node t name (nextIno h) (clock h)) = None" by (simp add: blank_node_def)
  have n: "vtype ?n = t" "children ?n = []" using assms(1) by (simp_all add: blank_node_def)
  have np: "isdir B p h" if "parent ?n = Some p" for p using assms(2) [OF _ b that] pre by blast
  have fr: "free B s ?h \<longleftrightarrow> free B s h \<or> s = length (nodes h)" for s
    using pre by (auto simp: free_def apart_def)
  have old: "s < length (nodes h) \<Longrightarrow> nd ?h s = nd h s" and new: "nd ?h (length (nodes h)) = ?n" for s
    by (simp_all add: nd_def nth_append)
  have g: "grows h ?h" using old by (auto simp: grows_def)
  have "node_ok B ?h (nd ?h s)" if "free B s ?h" for s
  proof (cases "s = length (nodes h)")
    case True
    then show ?thesis using n np isdir_grows [OF g] by (simp add: new node_ok_def)
  next
    case False
    then have "free B s h" "nd ?h s = nd h s" using that fr old by (auto simp: free_def)
    with pre have "node_ok B h (nd ?h s)" by (auto simp: apart_def)
    then show ?thesis using free_grows [OF g] isdir_grows [OF g] by (auto simp: node_ok_def)
  qed
  then have "apart B ?h" using pre by (auto simp: apart_def)
  moreover have "frozen B h ?h" using old pre by (auto simp: frozen_def apart_def)
  moreover have "new_node t name fill h = (Inr (length (nodes h)), ?h)" by (simp add: new_node_def)
  ultimately show "apart B (snd (new_node t name fill h)) \<and> frozen B h (snd (new_node t name fill h)) \<and>
      grows h (snd (new_node t name fill h)) \<and> (\<forall>x. fst (new_node t name fill h) = Inr x \<longrightarrow>
        free B x (snd (new_node t name fill h)) \<and> vtype (nd (snd (new_node t name fill h)) x) = t)"
    using g fr new n(1) by simp
qed

text \<open>What reading a node tells that later steps cannot change.\<close>

definition got :: "nat set \<Rightarrow> nat \<Rightarrow> vnode \<Rightarrow> heap \<Rightarrow> bool" where
  "got B r n h \<longleftrightarrow> (\<forall>c \<in> snd ` set (children n). free B c h) \<and> free B r h \<and> vtype (nd h r) = vtype n"

lemma apart_node: "apart B h \<Longrightarrow> free B r h \<Longrightarrow> node_ok B h (nd h r)"
  by (simp add: apart_def)

lemma apart_cong: "nodes h' = nodes h \<Longrightarrow> apart B h' = apart B h"
  by (simp add: apart_def node_ok_def isdir_def free_def nd_def)

lemma persists_got [persists_intros]: "persists (got B r n)"
  unfolding persists_def got_def
  by (auto intro: free_grows simp: grows_def free_def)

lemma safe_get_node [safe_intros]:
  "(\<And>h. P h \<Longrightarrow> free B r h) \<Longrightarrow> safe B P (got B r) (get_node r)"
  unfolding get_node_def by (rule safe_getS) (metis apart_node node_ok_def got_def)

lemma got_child: "got B r n h \<Longrightarrow> map_of (children n) name = Some c \<Longrightarrow> free B c h"
  by (force simp: got_def dest: map_of_SomeD)

lemma got_dir: "got B r n h \<Longrightarrow> vtype n = NDir \<Longrightarrow> isdir B r h"
  by (simp add: got_def isdir_def)

lemma safe_touch [safe_intros]: "safe B P (\<lambda>_ _. True) (touch v path ty)"
  unfolding safe_on_def touch_def Let_def
  by (auto simp: frozen_def grows_def nd_def elim!: apart_cong [THEN iffD2, rotated])

lemma walk_safe:
  assumes "apart B h" "free B node h"
  shows "(walk opts h node cur ps = WDone n \<longrightarrow> free B n h) \<and> (walk opts h node cur ps = WMissing d name \<longrightarrow> isdir B d h)"
  using assms(2)
proof (induction ps arbitrary: node cur)
  case (Cons p ps)
  have "free B c h" if "map_of (children (nd h node)) p = Some c" for c
    using assms(1) Cons.prems that by (force simp: apart_def node_ok_def dest: map_of_SomeD)
  then show ?case
    using Cons by (auto simp: Let_def isdir_def split: option.splits if_splits)
qed auto

definition resolved_ok :: "nat set \<Rightarrow> resolved \<Rightarrow> heap \<Rightarrow> bool" where
  "resolved_ok B r h \<longleftrightarrow> (\<forall>n. r_node r = Some n \<longrightarrow> free B n h) \<and> (\<forall>p. r_parent r = Some p \<longrightarrow> isdir B p h)"

lemma persists_resolved_ok [persists_intros]: "persists (resolved_ok B r)"
  unfolding resolved_ok_def by (intro persists_intros)

lemma resolve_at_safe:
  assumes "apart B h" "isdir B (root v) h"
  shows "snd (resolve_at d v opts path h) = h \<and> (\<forall>r. fst (resolve_at d v opts path h) = Inr r \<longrightarrow> resolved_ok B r h)"
proof (induction d arbitrary: path)
  case (Suc d)
  let ?w = "walk opts h (root v) [] (path_parts (normalize v path))"
  have rt: "free B (root v) h" using assms(2) by (simp add: isdir_def)
  note w = walk_safe [OF assms(1) rt, of opts "[]" "path_parts (normalize v path)"]
  have "isdir B p h" if "?w = WDone n" "parent (nd h n) = Some p" for n p
    using w [of n] that assms(1) by (auto simp: apart_def node_ok_def)
  then show ?case using Suc w rt
    by (auto simp: Let_def resolved_ok_def split: walk_result.splits)
qed simp

lemma safe_resolve [safe_intros]:
  "(\<And>h. P h \<Longrightarrow> isdir B (root v) h) \<Longrightarrow> safe B P (resolved_ok B) (resolve v opts path)"
  unfolding safe_on_def resolve_def using resolve_at_safe by (metis frozen_refl grows_refl)

lemma safe_resolve_node [safe_intros]:
  assumes "\<And>h. P h \<Longrightarrow> isdir B (root v) h" "persists P"
  shows "safe B P (free B) (resolve_node v opts path)"
  unfolding resolve_node_def
  by (rule safe_bnd [OF safe_resolve], rule assms, assumption, rule assms, rule safe_the_ref)
    (auto simp: resolved_ok_def)

section \<open>Operations\<close>

lemma safe_the_ref_ok: "safe B P (\<lambda>n h. r = Some n \<and> P h) (the_ref r)"
  by (rule safe_the_ref) simp

lemma safe_getS_any: "safe_on hp B P (\<lambda>_ _. True) (getS f)"
  by (rule safe_getS) simp

lemma safe_case_option:
  "(x = None \<Longrightarrow> safe_on hp B P Q m) \<Longrightarrow> (\<And>y. x = Some y \<Longrightarrow> safe_on hp B P Q (f y)) \<Longrightarrow>
   safe_on hp B P Q (case x of None \<Rightarrow> m | Some y \<Rightarrow> f y)"
  by (cases x) simp_all

lemma safe_whenM: "(b \<Longrightarrow> safe_on hp B P (\<lambda>_ _. True) m) \<Longrightarrow> safe_on hp B P (\<lambda>_ _. True) (whenM b m)"
  by (simp add: whenM_def safe_ret)

lemmas safe_rules = safe_bnd safe_thn safe_if safe_throw safe_case_option safe_whenM

lemma safe_mkdirp_loop:
  "persists P \<Longrightarrow> (\<And>h. P h \<Longrightarrow> isdir B node h) \<Longrightarrow> safe B P (isdir B) (mkdirp_loop mode node ps)"
proof (induction ps arbitrary: node P)
  case Nil
  then show ?case unfolding mkdirp_loop.simps by (intro safe_ret)
next
  case (Cons p ps)
  let ?make = "bnd (new_node NDir p (\<lambda>x. x\<lparr>vmode := S_IFDIR OR mode, parent := Some node\<rparr>))
      (\<lambda>c. thn (set_child node p c) (ret c))"
  have make: "safe B (\<lambda>h. P h \<and> got B node n h) (free B) (case map_of (children n) p of None \<Rightarrow> ?make | Some c \<Rightarrow> ret c)" for n
    by (rule safe_rules safe_intros persists_intros safe_ret Cons.prems | use Cons.prems got_child in \<open>fastforce simp: typed_def\<close>)+
  show ?case
    unfolding mkdirp_loop.simps
    by (rule make safe_bnd safe_get_node persists_intros Cons.prems(1) safe_if safe_throw Cons.IH
      | use Cons.prems(2) in \<open>fastforce simp: isdir_def got_def\<close>)+
qed

lemma safe_mkdirp [safe_intros]:
  "(\<And>h. P h \<Longrightarrow> isdir B (root v) h) \<Longrightarrow> persists P \<Longrightarrow> safe B P (isdir B) (mkdirp v path mode)"
  by (simp add: mkdirp_def Let_def safe_mkdirp_loop safe_ret)

lemma safe_writeFile [safe_intros]:
  assumes "\<And>h. P h \<Longrightarrow> isdir B (root v) h" "persists P"
  shows "safe B P (free B) (writeFile v path data mode)"
  unfolding writeFile_def Let_def
  by (rule safe_rules safe_intros persists_intros safe_ret safe_clock assms | fastforce simp: isdir_def typed_def intro: assms(1) got_child)+

lemma safe_add_node [safe_intros]:
  assumes "\<And>h. P h \<Longrightarrow> isdir B (root v) h" "persists P" "\<And>n. vtype (fill n) = vtype n \<and> children (fill n) = children n"
  shows "safe B P (free B) (add_node v path t fill)"
  unfolding add_node_def Let_def
  by (rule safe_rules safe_intros persists_intros safe_ret assms | use assms in \<open>fastforce simp: typed_def\<close>)+

lemma safe_symlink [safe_intros]:
  "(\<And>h. P h \<Longrightarrow> isdir B (root v) h) \<Longrightarrow> persists P \<Longrightarrow> safe B P (free B) (vfs_symlink v tgt path)"
  unfolding vfs_symlink_def by (rule safe_add_node) auto

lemma safe_mknod [safe_intros]:
  "(\<And>h. P h \<Longrightarrow> isdir B (root v) h) \<Longrightarrow> persists P \<Longrightarrow> safe B P (free B) (mknod v path dev mode rd)"
  unfolding mknod_def by (rule safe_add_node) auto

lemma safe_unlink [safe_intros]:
  assumes "\<And>h. P h \<Longrightarrow> isdir B (root v) h" "persists P"
  shows "safe B P (\<lambda>_ _. True) (unlink v path)"
  unfolding unlink_def
  by (rule safe_rules safe_intros persists_intros safe_clock safe_the_ref_ok assms | fastforce simp: resolved_ok_def isdir_def intro: assms(1))+

lemma safe_rename_move:
  assumes "\<And>h. P h \<Longrightarrow> free B n h" "\<And>h q. P h \<Longrightarrow> p = Some q \<Longrightarrow> isdir B q h"
  shows "safe B P (\<lambda>_ _. True) (mod_node n (\<lambda>x. x\<lparr>vname := name, parent := p, ctime := now\<rparr>))"
proof (rule safe_mod_node)
  fix h assume "apart B h" "P h"
  then show "free B n h \<and> node_ok B h ((nd h n)\<lparr>vname := name, parent := p, ctime := now\<rparr>) \<and>
      vtype ((nd h n)\<lparr>vname := name, parent := p, ctime := now\<rparr>) = vtype (nd h n)"
    using assms apart_node [of B h n] by (simp add: node_ok_def)
qed simp

lemma safe_rename [safe_intros]:
  assumes "\<And>h. P h \<Longrightarrow> isdir B (root v) h" "persists P"
  shows "safe B P (\<lambda>_ _. True) (rename v old new)"
  unfolding rename_def
  by (rule safe_rename_move safe_rules safe_intros persists_intros safe_clock safe_getS_any safe_the_ref_ok assms
    | fastforce simp: resolved_ok_def isdir_def intro: assms(1))+

lemma safe_mkdir [safe_intros]:
  assumes "\<And>h. P h \<Longrightarrow> isdir B (root v) h" "persists P"
  shows "safe B P (free B) (mkdir v path mode)"
  unfolding mkdir_def
  by (rule safe_rules safe_intros persists_intros safe_ret safe_the_ref_ok assms
    | fastforce simp: resolved_ok_def typed_def intro: assms(1))+

lemma safe_rmdir [safe_intros]:
  assumes "\<And>h. P h \<Longrightarrow> isdir B (root v) h" "persists P"
  shows "safe B P (\<lambda>_ _. True) (rmdir v path)"
  unfolding rmdir_def
  by (rule safe_rules safe_intros persists_intros safe_the_ref_ok assms
    | fastforce simp: resolved_ok_def isdir_def intro: assms(1))+

lemma safe_change [safe_intros]:
  assumes "\<And>h. P h \<Longrightarrow> isdir B (root v) h" "persists P"
    "\<And>n. vtype (f n) = vtype n \<and> children (f n) = children n \<and> parent (f n) = parent n"
  shows "safe B P (\<lambda>_ _. True) (change v opts path ty f)"
  unfolding change_def
  by (rule safe_rules safe_intros persists_intros safe_clock safe_the_ref_ok assms(1,2)
    | fastforce simp: resolved_ok_def assms(3) intro: assms(1))+

lemma meta_fields [simp]:
  "vtype (chmod_bits m n) = vtype n" "children (chmod_bits m n) = children n" "parent (chmod_bits m n) = parent n"
  "vtype (chown_ids u g n) = vtype n" "children (chown_ids u g n) = children n" "parent (chown_ids u g n) = parent n"
  "vtype (set_times a b n) = vtype n" "children (set_times a b n) = children n" "parent (set_times a b n) = parent n"
  by (simp_all add: chmod_bits_def chown_ids_def set_times_def Let_def)

lemma safe_chmod_chown_utimes [safe_intros]:
  assumes "\<And>h. P h \<Longrightarrow> isdir B (root v) h" "persists P"
  shows "safe B P (\<lambda>_ _. True) (chmod v path mode)"
    and "safe B P (\<lambda>_ _. True) (chown v path u g)"
    and "safe B P (\<lambda>_ _. True) (utimes v path a m)"
  unfolding chmod_def chown_def utimes_def by (rule safe_change [OF assms]; simp)+

lemma safe_truncate [safe_intros]:
  assumes "\<And>h. P h \<Longrightarrow> isdir B (root v) h" "persists P"
  shows "safe B P (\<lambda>_ _. True) (truncate_file v path len)"
  unfolding truncate_file_def
  by (rule safe_rules safe_intros persists_intros safe_clock safe_the_ref_ok assms
    | fastforce simp: resolved_ok_def intro: assms(1))+

lemma safe_link [safe_intros]:
  assumes "\<And>h. P h \<Longrightarrow> isdir B (root v) h" "persists P"
  shows "safe B P (\<lambda>_ _. True) (link v old new)"
  unfolding link_def
  by (rule safe_rules safe_intros persists_intros safe_the_ref_ok assms
    | fastforce simp: resolved_ok_def intro: assms(1))+

text \<open>Open files. A handle is writable only when its node is free.\<close>

lemma safe_of_write [safe_intros]:
  assumes "\<And>h. P h \<Longrightarrow> canWrite f \<Longrightarrow> free B (of_node f) h" "persists P"
  shows "safe B P (\<lambda>(k, g) h. g = f\<lparr>of_offset := of_offset g\<rparr>) (of_write bs f)"
proof (cases "canWrite f")
  case True
  have inner: "safe B P (\<lambda>(k, g) h. g = f\<lparr>of_offset := of_offset g\<rparr>) (case vtype n of
      NChar \<Rightarrow> ret (length bs, f)
    | NFile \<Rightarrow> let off = (if has_flag (of_flags f) O_APPEND then length (vdata n) else of_offset f)
        in bnd (getS clock) (\<lambda>now.
             thn (mod_node (of_node f) (\<lambda>x. x\<lparr>vdata := splice_bytes off bs (vdata x), mtime := now, ctime := now\<rparr>))
               (ret (length bs, f\<lparr>of_offset := off + length bs\<rparr>)))
    | _ \<Rightarrow> throw (VErr 21))" if "persists P" "\<And>h. P h \<Longrightarrow> free B (of_node f) h" for n P
    unfolding Let_def
    by (cases "vtype n"; simp only: ntype.case)
      ((rule safe_rules safe_mod_meta safe_clock safe_ret safe_throw persists_intros that | simp)+)
  have fr: "P h \<Longrightarrow> free B (of_node f) h" for h using assms(1) True by blast
  have "safe B (\<lambda>h. P h \<and> got B (of_node f) n h) (\<lambda>(k, g) h. g = f\<lparr>of_offset := of_offset g\<rparr>) (case vtype n of
      NChar \<Rightarrow> ret (length bs, f)
    | NFile \<Rightarrow> let off = (if has_flag (of_flags f) O_APPEND then length (vdata n) else of_offset f)
        in bnd (getS clock) (\<lambda>now.
             thn (mod_node (of_node f) (\<lambda>x. x\<lparr>vdata := splice_bytes off bs (vdata x), mtime := now, ctime := now\<rparr>))
               (ret (length bs, f\<lparr>of_offset := off + length bs\<rparr>)))
    | _ \<Rightarrow> throw (VErr 21))" for n
    by (rule inner) (use fr in \<open>auto intro!: persists_intros assms(2)\<close>)
  then show ?thesis
    unfolding of_write_def by (intro safe_if safe_throw safe_bnd [OF safe_get_node [OF fr] assms(2)])
qed (simp add: of_write_def safe_throw)

lemma safe_open_resolve:
  assumes "\<And>h. P h \<Longrightarrow> isdir B (root v) h" "persists P"
  shows "safe B P (\<lambda>(n, p, c) h. free B n h) (open_resolve v path flags mode)"
proof -
  let ?create = "bnd (resolve v forcreate path) (\<lambda>c. bnd (the_ref (r_parent c)) (\<lambda>d.
      bnd (new_node NFile (r_name c) (\<lambda>x. x\<lparr>vmode := S_IFREG OR (mode AND 0x1ff), parent := Some d\<rparr>)) (\<lambda>n.
        thn (set_child d (r_name c) n) (ret (n, r_path c, True)))))"
  have create: "safe B P (\<lambda>(n, p, c) h. free B n h) ?create"
    by (rule safe_rules safe_intros persists_intros safe_ret safe_the_ref_ok assms
      | fastforce simp: resolved_ok_def typed_def intro: assms(1))+
  have found: "safe B (\<lambda>h. P h \<and> resolved_ok B r h) (\<lambda>(n, p, c) h. free B n h)
      (bnd (the_ref (r_node r)) (\<lambda>n. ret (n, r_path r, False)))" for r
    by (rule safe_rules safe_ret persists_intros safe_the_ref_ok assms | fastforce simp: resolved_ok_def)+
  have eq: "open_resolve v path flags mode h =
      (case fst (resolve v follow path h) of
         Inr r \<Rightarrow> bnd (the_ref (r_node r)) (\<lambda>n. ret (n, r_path r, False)) h
       | Inl e \<Rightarrow> if e = VErr 2 \<and> has_flag flags O_CREAT then ?create h else (Inl e, h))"
    if "apart B h" "P h" for h
    using resolve_at_safe [OF that(1) assms(1) [OF that(2)], of "stack_depth h" follow path]
    by (auto simp: open_resolve_def resolve_def split: prod.splits sum.splits)
  have res: "fst (resolve v follow path h) = Inr r \<Longrightarrow> resolved_ok B r h" if "apart B h" "P h" for h r
    using resolve_at_safe [OF that(1) assms(1) [OF that(2)], of "stack_depth h" follow path] by (simp add: resolve_def)
  show ?thesis
    unfolding safe_on_def
  proof (intro allI impI, elim conjE)
    fix h assume h: "apart B h" "P h"
    show "apart B (snd (open_resolve v path flags mode h)) \<and> frozen B h (snd (open_resolve v path flags mode h)) \<and>
        grows h (snd (open_resolve v path flags mode h)) \<and>
        (\<forall>x. fst (open_resolve v path flags mode h) = Inr x \<longrightarrow>
           (case x of (n, p, c) \<Rightarrow> free B n) (snd (open_resolve v path flags mode h)))"
    proof (cases "fst (resolve v follow path h)")
      case (Inr r)
      then show ?thesis using found [of r] h res [OF h Inr] unfolding eq [OF h] safe_on_def by simp
    next
      case (Inl e)
      then show ?thesis using create h unfolding eq [OF h] safe_on_def by simp
    qed
  qed
qed

lemma safe_open [safe_intros]:
  assumes "\<And>h. P h \<Longrightarrow> isdir B (root v) h" "persists P"
  shows "safe B P (\<lambda>f h. free B (of_node f) h) (vfs_open v path flags mode)"
proof -
  have tail: "safe B (\<lambda>h. P h \<and> free B n h) (\<lambda>f h. free B (of_node f) h)
      (if \<not> c \<and> has_flag flags O_EXCL \<and> has_flag flags O_CREAT then throw (VErr 17)
       else bnd (get_node n) (\<lambda>x.
         if has_flag flags O_DIRECTORY \<and> vtype x \<noteq> NDir then throw (VErr 20)
         else thn (whenM (has_flag flags O_TRUNC \<and> vtype x = NFile \<and> flags AND O_ACCMODE \<noteq> 0)
                    (mod_node n (\<lambda>y. y\<lparr>vdata := []\<rparr>)))
                (new_open_file n p flags)))" for n p c
    unfolding new_open_file_def
    by (rule safe_rules safe_intros persists_intros assms safe_getS | simp)+
  show ?thesis
    unfolding vfs_open_def
    by (rule safe_bnd [OF safe_open_resolve [OF assms] assms(2)]) (use tail in \<open>auto split: prod.splits\<close>)
qed

lemma safe_mountFiles [safe_intros]:
  assumes "\<And>h. P h \<Longrightarrow> isdir B (root v) h" "persists P"
  shows "safe B P (\<lambda>_ _. True) (mountFiles v files rt)"
  unfolding mountFiles_def
  by (rule safe_forM) (auto split: prod.splits intro!: safe_thn [OF safe_writeFile] safe_ret assms)

end
