(* ===== verification/Vfs_Props.thy ===== *)
theory Vfs_Props
  imports Vfs_Facts Machines
begin

text \<open>
  What the file system promises: its tree stays well formed under every operation, and a file that was
  written is read back, with no other file changed.
\<close>

section \<open>The type invariant\<close>

datatype vfs_op =
    VMkdirp string u32 | VWriteFile string "u8 list" u32 | VSymlink string string | VMknod string string u32 u32
  | VUnlink string | VRename string string | VMkdir string u32 | VRmdir string | VChmod string u32
  | VChown string int int | VUtimes string int int | VTruncate string int | VLink string string
  | VMount "(string \<times> u8 list) list" string | VOpen string u32 u32 | VWrite nat "u8 list" | VRead nat nat "nat \<Rightarrow> u8 list"

record fs_state =
  fs_heap :: heap
  fs_handles :: "open_file list"

definition run_unit :: "'a vfsM \<Rightarrow> fs_state \<Rightarrow> fs_state" where
  "run_unit m s = s\<lparr>fs_heap := snd (m (fs_heap s))\<rparr>"

definition run_handle :: "nat \<Rightarrow> (open_file \<Rightarrow> ('a \<times> open_file) vfsM) \<Rightarrow> fs_state \<Rightarrow> fs_state" where
  "run_handle i m s =
     (if i < length (fs_handles s)
      then case m (fs_handles s ! i) (fs_heap s) of
          (Inr (x, f), h) \<Rightarrow> \<lparr>fs_heap = h, fs_handles = (fs_handles s)[i := f]\<rparr>
        | (Inl e, h) \<Rightarrow> s\<lparr>fs_heap := h\<rparr>
      else s)"

primrec fs_step :: "vfs \<Rightarrow> vfs_op \<Rightarrow> fs_state \<Rightarrow> fs_state" where
  "fs_step v (VMkdirp p m) s = run_unit (mkdirp v p m) s"
| "fs_step v (VWriteFile p d m) s = run_unit (writeFile v p d m) s"
| "fs_step v (VSymlink t p) s = run_unit (vfs_symlink v t p) s"
| "fs_step v (VMknod p d m r) s = run_unit (mknod v p d m r) s"
| "fs_step v (VUnlink p) s = run_unit (unlink v p) s"
| "fs_step v (VRename p q) s = run_unit (rename v p q) s"
| "fs_step v (VMkdir p m) s = run_unit (mkdir v p m) s"
| "fs_step v (VRmdir p) s = run_unit (rmdir v p) s"
| "fs_step v (VChmod p m) s = run_unit (chmod v p m) s"
| "fs_step v (VChown p u g) s = run_unit (chown v p u g) s"
| "fs_step v (VUtimes p a m) s = run_unit (utimes v p a m) s"
| "fs_step v (VTruncate p n) s = run_unit (truncate_file v p n) s"
| "fs_step v (VLink p q) s = run_unit (link v p q) s"
| "fs_step v (VMount fs rt) s = run_unit (mountFiles v fs rt) s"
| "fs_step v (VOpen p fl m) s =
     (case vfs_open v p fl m (fs_heap s) of
        (Inr f, h) \<Rightarrow> \<lparr>fs_heap = h, fs_handles = fs_handles s @ [f]\<rparr> | (Inl e, h) \<Rightarrow> s\<lparr>fs_heap := h\<rparr>)"
| "fs_step v (VWrite i bs) s = run_handle i (of_write bs) s"
| "fs_step v (VRead i n rng) s = run_handle i (of_read rng n) s"

definition fs_wf :: "vfs \<Rightarrow> heap \<Rightarrow> bool" where
  "fs_wf v h \<longleftrightarrow> root v < length (nodes h) \<and> vtype (nd h (root v)) = NDir \<and>
     (\<forall>r < length (nodes h). let n = nd h r in
        distinct (map fst (children n)) \<and> (\<forall>c \<in> snd ` set (children n). c < length (nodes h)) \<and>
        (\<forall>p. parent n = Some p \<longrightarrow> p < length (nodes h) \<and> vtype (nd h p) = NDir) \<and>
        (vtype n \<noteq> NDir \<longrightarrow> children n = []))"

lemma fs_wf_apart: "fs_wf v h \<longleftrightarrow> apart {} h \<and> isdir {} (root v) h"
  by (auto simp: fs_wf_def apart_def isdir_def free_def node_ok_def jsmap_wf_def Let_def)

definition fs_good :: "vfs \<Rightarrow> fs_state \<Rightarrow> bool" where
  "fs_good v s \<longleftrightarrow> fs_wf v (fs_heap s) \<and> (\<forall>f \<in> set (fs_handles s). of_node f < length (nodes (fs_heap s)))"

lemma safe_of_read [safe_intros]:
  assumes "\<And>h. P h \<Longrightarrow> free B (of_node f) h" "persists P"
  shows "safe B P (\<lambda>(bs, g) h. g = f\<lparr>of_offset := of_offset g\<rparr>) (of_read rng n f)"
proof -
  have inner: "safe B (\<lambda>h. P h \<and> got B (of_node f) x h) (\<lambda>(bs, g) h. g = f\<lparr>of_offset := of_offset g\<rparr>)
      (case vtype x of
          NChar \<Rightarrow>
            if device x = ''zero'' then ret (replicate n 0, f)
            else if device x = ''random'' \<or> device x = ''urandom'' then ret (rng n, f)
            else if device x = ''null'' \<or> device x = ''tty'' \<or> device x = ''console'' then ret ([], f)
            else throw (VErr 5)
        | NDir \<Rightarrow> throw (VErr 21)
        | NSymlink \<Rightarrow> throw (VErr 22)
        | NFile \<Rightarrow>
            let fin = min (length (vdata x)) (of_offset f + n);
                out = take (fin - of_offset f) (drop (of_offset f) (vdata x))
            in bnd (getS clock) (\<lambda>now. thn (mod_node (of_node f) (\<lambda>x. x\<lparr>atime := now\<rparr>))
                 (ret (out, f\<lparr>of_offset := fin\<rparr>))))" for x
    unfolding Let_def
    by (cases "vtype x"; simp only: ntype.case)
      ((rule safe_rules safe_mod_meta safe_clock safe_ret persists_intros assms | simp add: got_def)+)
  then show ?thesis
    unfolding of_read_def by (intro safe_if safe_throw safe_bnd [OF safe_get_node [OF assms(1)] assms(2)])
qed

lemma fs_good_unit:
  assumes "fs_good v s" "safe {} (isdir {} (root v)) Q m"
  shows "fs_good v (run_unit m s)"
proof -
  obtain r h where mh: "m (fs_heap s) = (r, h)" by (cases "m (fs_heap s)")
  have s: "apart {} (fs_heap s)" "isdir {} (root v) (fs_heap s)" using assms(1) by (simp_all add: fs_good_def fs_wf_apart)
  note h = safeD [OF assms(2), of "fs_heap s", OF s mh]
  have "length (nodes (fs_heap s)) \<le> length (nodes h)" using h(3) by (simp add: grows_def)
  then show ?thesis
    using assms(1) h(1) isdir_grows [OF h(3) s(2)] mh by (fastforce simp: fs_good_def fs_wf_apart run_unit_def)
qed

lemma fs_good_handle:
  assumes s: "fs_good v s"
    and m: "\<And>f. safe {} (free {} (of_node f)) (\<lambda>(x, g) h. g = f\<lparr>of_offset := of_offset g\<rparr>) (m f)"
  shows "fs_good v (run_handle i m s)"
proof (cases "i < length (fs_handles s)")
  case True
  let ?f = "fs_handles s ! i"
  obtain r h where mh: "m ?f (fs_heap s) = (r, h)" by (cases "m ?f (fs_heap s)")
  have f: "of_node ?f < length (nodes (fs_heap s))" using s True by (simp add: fs_good_def)
  then have pre: "apart {} (fs_heap s) \<and> free {} (of_node ?f) (fs_heap s)"
    using s by (simp add: fs_good_def fs_wf_apart free_def)
  note d = safeD [OF m [of ?f], of "fs_heap s", OF pre [THEN conjunct1] pre [THEN conjunct2] mh]
  have h: "apart {} h" "grows (fs_heap s) h" "\<And>x g. r = Inr (x, g) \<Longrightarrow> g = ?f\<lparr>of_offset := of_offset g\<rparr>"
    using d(1,3,4) by auto
  have g: "fs_wf v h" using s h isdir_grows [OF h(2)] by (simp add: fs_good_def fs_wf_apart)
  have le: "length (nodes (fs_heap s)) \<le> length (nodes h)" using h(2) by (simp add: grows_def)
  then have "of_node k < length (nodes h)" if "k \<in> set (fs_handles s)" for k
    using s that by (fastforce simp: fs_good_def)
  moreover have "of_node g < length (nodes h)" if "r = Inr (x, g)" for x g
    using h(3) [OF that] f le by (cases g) (auto dest: arg_cong [where f = of_node])
  ultimately show ?thesis
    using True mh g by (auto simp: run_handle_def fs_good_def split: sum.splits dest!: set_update_subset_insert [THEN subsetD])
qed (simp add: run_handle_def s)

lemma fs_good_open:
  assumes "fs_good v s"
  shows "fs_good v (fs_step v (VOpen p fl m) s)"
proof -
  obtain r h where o: "vfs_open v p fl m (fs_heap s) = (r, h)" by (cases "vfs_open v p fl m (fs_heap s)")
  have "safe {} (isdir {} (root v)) (\<lambda>f h. free {} (of_node f) h) (vfs_open v p fl m)"
    by (intro safe_open persists_intros)
  then have h: "apart {} h" "grows (fs_heap s) h" "\<And>f. r = Inr f \<Longrightarrow> free {} (of_node f) h"
    using assms o unfolding safe_on_def fs_good_def fs_wf_apart by (metis fst_conv snd_conv)+
  then have "fs_wf v h" using assms isdir_grows [OF h(2)] by (simp add: fs_good_def fs_wf_apart)
  moreover have "of_node k < length (nodes h)" if "k \<in> set (fs_handles s)" for k
    using assms that h(2) by (fastforce simp: fs_good_def grows_def)
  ultimately show ?thesis using o h(3) by (cases r) (auto simp: fs_good_def free_def)
qed

lemma fs_good_step: "fs_good v s \<Longrightarrow> fs_good v (fs_step v x s)"
proof (cases x)
  case (VOpen p fl m)
  then show "fs_good v s \<Longrightarrow> ?thesis" using fs_good_open by simp
qed (simp only: fs_step.simps; rule fs_good_unit fs_good_handle, assumption, rule safe_intros;
    (rule persists_intros | assumption))+

interpretation vfs_run: stepper "fs_step v" "fs_good v" for v
  by unfold_locales (rule fs_good_step)

lemma safe_try_link:
  assumes "\<And>h. P h \<Longrightarrow> isdir B (root v) h" "persists P"
  shows "safe B P (\<lambda>_ _. True) (try_link v lt)"
proof -
  obtain l t where lt: "lt = (l, t)" by (cases lt)
  have "safe B P (free B) (vfs_symlink v t l)" by (rule safe_symlink [OF assms])
  then show ?thesis
    unfolding safe_on_def lt try_link_def by simp
qed

lemma safe_any: "safe B P Q m \<Longrightarrow> safe B P (\<lambda>_ _. True) m"
  by (erule safe_conseq) simp_all

lemma safe_seed:
  assumes "\<And>h. P h \<Longrightarrow> isdir B (root v) h" "persists P"
  shows "safe B P (\<lambda>_ _. True) (seedStandardTree v)"
  unfolding seedStandardTree_def
  by (intro safe_thn [where R = "\<lambda>_ _. True"] safe_forM assms(2))
    (auto intro!: safe_try_link assms safe_ret safe_thn [where R = "\<lambda>_ _. True"] safe_any [OF safe_mkdirp [OF assms]]
      safe_any [OF safe_mknod [OF assms]] safe_any [OF safe_writeFile [OF assms]])

lemma new_vfs_wf:
  assumes "apart {} h"
  shows "fs_wf \<lparr>root = length (nodes h), cwd = c, watchers = w\<rparr> (snd (new_vfs h))"
proof -
  let ?r = "length (nodes h)"
  let ?v = "\<lparr>root = ?r, cwd = ''/'', watchers = []\<rparr>"
  let ?h = "h\<lparr>nodes := nodes h @ [(blank_node NDir ''/'' 1 (clock h))\<lparr>parent := Some ?r\<rparr>]\<rparr>"
  have old: "s < ?r \<Longrightarrow> nd ?h s = nd h s" for s by (simp add: nd_def nth_append)
  have new: "vtype (nd ?h ?r) = NDir" "children (nd ?h ?r) = []" "parent (nd ?h ?r) = Some ?r"
    by (simp_all add: nd_def nth_append blank_node_def)
  have d: "isdir {} (root ?v) ?h" using new(1) by (simp add: isdir_def free_def)
  have g: "grows h ?h" using old by (auto simp: grows_def)
  have "node_ok {} ?h (nd ?h s)" if "free {} s ?h" for s
  proof (cases "s = ?r")
    case True
    then show ?thesis using d new unfolding node_ok_def by simp
  next
    case False
    then have "free {} s h" "nd ?h s = nd h s" using that old by (auto simp: free_def)
    then show ?thesis using apart_node [OF assms] free_grows [OF g] isdir_grows [OF g] by (auto simp: node_ok_def)
  qed
  then have a: "apart {} ?h" by (simp add: apart_def)
  have "safe {} (isdir {} (root ?v)) (\<lambda>_ _. True) (thn (seedStandardTree ?v) (ret ?v))"
    by (rule safe_thn [OF safe_seed]) (auto intro: persists_intros safe_ret)
  note t = safeD [OF this, of ?h, OF a d prod.collapse [symmetric]]
  have "snd (new_vfs h) = snd (thn (seedStandardTree ?v) (ret ?v) ?h)" by (simp add: new_vfs_def Let_def)
  then show ?thesis using t(1) isdir_grows [OF t(3) d] by (simp add: fs_wf_apart)
qed

definition empty_heap :: "nat \<Rightarrow> int \<Rightarrow> nat \<Rightarrow> heap" where
  "empty_heap i now depth = \<lparr>nodes = [], nextIno = i, clock = now, stack_depth = depth, microtasks = []\<rparr>"

text \<open>
  C28: the file tree stays well formed. Start from a new file system and apply any sequence of operations,
  through paths and through open files, whether they succeed or throw: every directory entry refers to a node
  of the store and names are distinct, only directories have entries, the recorded parent of a node is a
  directory, and the root stays a directory.
\<close>

theorem vfs_well_formed:
  "fs_wf \<lparr>root = 0, cwd = c, watchers = w\<rparr>
     (fs_heap (foldl (\<lambda>s x. fs_step \<lparr>root = 0, cwd = c, watchers = w\<rparr> x s)
        \<lparr>fs_heap = snd (new_vfs (empty_heap i now depth)), fs_handles = []\<rparr> ops))"
proof -
  let ?v = "\<lparr>root = 0, cwd = c, watchers = w\<rparr>"
  have "apart {} (empty_heap i now depth)" by (simp add: apart_def free_def empty_heap_def)
  from new_vfs_wf [OF this, of c w] have "fs_good ?v \<lparr>fs_heap = snd (new_vfs (empty_heap i now depth)), fs_handles = []\<rparr>"
    by (simp add: fs_good_def empty_heap_def)
  from vfs_run.run_inv [OF this, of ops] show ?thesis by (simp add: fs_good_def)
qed

section \<open>Writing and reading a file\<close>

text \<open>Stores that only gain nodes and entries, with every file's bytes kept.\<close>

definition extends :: "heap \<Rightarrow> heap \<Rightarrow> bool" where
  "extends h h' \<longleftrightarrow> grows h h' \<and> (\<forall>r < length (nodes h). map_of (children (nd h r)) \<subseteq>\<^sub>m map_of (children (nd h' r)) \<and>
     vdata (nd h' r) = vdata (nd h r) \<and> target (nd h' r) = target (nd h r))"

lemma extends_refl [simp]: "extends h h"
  by (simp add: extends_def)

lemma extends_trans: "extends h h' \<Longrightarrow> extends h' h'' \<Longrightarrow> extends h h''"
  unfolding extends_def by (auto intro: grows_trans map_le_trans simp: grows_def)

text \<open>Following entries that are directories.\<close>

fun dirs_at :: "heap \<Rightarrow> nat \<Rightarrow> string list \<Rightarrow> nat option" where
  "dirs_at h node [] = Some node"
| "dirs_at h node (p # ps) = (case map_of (children (nd h node)) p of
     None \<Rightarrow> None | Some c \<Rightarrow> if vtype (nd h c) = NDir then dirs_at h c ps else None)"

lemma walk_dirs:
  assumes "dirs_at h node ps = Some d" "vtype (nd h node) = NDir"
  shows "\<exists>cur'. walk opts h node cur (ps @ qs) = walk opts h d cur' qs"
  using assms
proof (induction ps arbitrary: node cur)
  case (Cons p ps)
  then obtain c where "map_of (children (nd h node)) p = Some c" "vtype (nd h c) = NDir" "dirs_at h c ps = Some d"
    by (auto split: option.splits if_splits)
  then show ?case using Cons by (simp add: Let_def)
qed auto

lemma dirs_at_extends:
  assumes "extends h h'" "apart {} h"
  shows "free {} node h \<Longrightarrow> dirs_at h node ps = Some d \<Longrightarrow> dirs_at h' node ps = Some d"
proof (induction ps arbitrary: node)
  case (Cons p ps)
  then obtain c where c: "map_of (children (nd h node)) p = Some c" "vtype (nd h c) = NDir" "dirs_at h c ps = Some d"
    by (auto split: option.splits if_splits)
  have "free {} c h"
    using apart_node [OF assms(2) Cons.prems(1)] map_of_SomeD [OF c(1)] by (force simp: node_ok_def)
  moreover have "map_of (children (nd h' node)) p = Some c"
    using assms(1) Cons.prems(1) c(1) by (auto simp: extends_def free_def map_le_def dom_def)
  moreover have "vtype (nd h' c) = NDir"
    using assms(1) \<open>free {} c h\<close> c(2) by (auto simp: extends_def grows_def free_def)
  ultimately show ?case using Cons.IH c(3) by simp
qed simp

lemma new_child_extends:
  assumes "apart {} h" "isdir {} node h" "map_of (children (nd h node)) p = None"
    "h1 = snd (new_node t p fill h)" "h2 = snd (set_child node p (length (nodes h)) h1)"
  shows "extends h h2" "map_of (children (nd h2 node)) p = Some (length (nodes h))"
    "nd h2 (length (nodes h)) = fill (blank_node t p (nextIno h) (clock h))" "stack_depth h2 = stack_depth h"
proof -
  have node: "node < length (nodes h)" using assms(2) by (simp add: isdir_def free_def)
  have h2: "nd h2 r = (if r = node then (nd h node)\<lparr>children := AList.update p (length (nodes h)) (children (nd h node))\<rparr>
      else if r = length (nodes h) then fill (blank_node t p (nextIno h) (clock h)) else nd h r)"
    if "r \<le> length (nodes h)" for r
    using that node unfolding assms(4,5)
    by (auto simp: new_node_def set_child_def mod_node_def nd_def nth_append nth_list_update)
  have len: "length (nodes h2) = Suc (length (nodes h))" "stack_depth h2 = stack_depth h"
    unfolding assms(4,5) by (simp_all add: new_node_def set_child_def mod_node_def)
  show "extends h h2"
    unfolding extends_def grows_def using assms(3) by (auto simp: h2 len map_le_def)
  show "map_of (children (nd h2 node)) p = Some (length (nodes h))" using node by (simp add: h2)
  show "nd h2 (length (nodes h)) = fill (blank_node t p (nextIno h) (clock h))" using node by (simp add: h2)
  show "stack_depth h2 = stack_depth h" by (rule len)
qed

lemma new_child_run:
  "bnd (new_node t p fill) (\<lambda>c. thn (set_child node p c) (ret c)) h =
     (Inr (length (nodes h)), snd (set_child node p (length (nodes h)) (snd (new_node t p fill h))))"
  by (simp add: bnd_def thn_def new_node_def set_child_def mod_node_def)

lemma new_child_safe:
  assumes "apart {} h" "isdir {} node h" "\<And>n. vtype (fill n) = vtype n \<and> children (fill n) = children n"
    "\<And>n. parent (fill n) = Some node"
    "h2 = snd (set_child node p (length (nodes h)) (snd (new_node t p fill h)))"
  shows "apart {} h2 \<and> typed {} t (length (nodes h)) h2"
proof -
  have "safe {} (isdir {} node) (typed {} t) (bnd (new_node t p fill) (\<lambda>c. thn (set_child node p c) (ret c)))"
    by (rule safe_rules safe_intros persists_intros safe_ret | use assms(3,4) in \<open>fastforce simp: typed_def\<close>)+
  from safeD [OF this, of h, OF assms(1,2) new_child_run] show ?thesis using assms(5) by blast
qed

lemma mkdirp_loop_dirs:
  "mkdirp_loop mode node ps h = (Inr d, h') \<Longrightarrow> apart {} h \<Longrightarrow> isdir {} node h \<Longrightarrow>
   extends h h' \<and> apart {} h' \<and> isdir {} d h' \<and> dirs_at h' node ps = Some d"
proof (induction ps arbitrary: node h)
  case Nil
  then show ?case by (simp add: ret_def)
next
  case (Cons p ps)
  have step: "extends h h' \<and> apart {} h' \<and> isdir {} d h' \<and> dirs_at h' node (p # ps) = Some d"
    if c: "map_of (children (nd h2 node)) p = Some c" "vtype (nd h2 c) = NDir" "free {} c h2" "apart {} h2" "extends h h2"
      "mkdirp_loop mode c ps h2 = (Inr d, h')" for c h2
  proof -
    have IH: "extends h2 h' \<and> apart {} h' \<and> isdir {} d h' \<and> dirs_at h' c ps = Some d"
      using Cons.IH [OF c(6,4)] c(2,3) by (simp add: isdir_def)
    have "node < length (nodes h2)" using Cons.prems(3) c(5) by (auto simp: isdir_def free_def extends_def grows_def)
    then have "map_of (children (nd h' node)) p = Some c" "vtype (nd h' c) = NDir"
      using IH c(1-3) by (auto simp: extends_def map_le_def dom_def grows_def free_def)
    then show ?thesis using IH extends_trans [OF c(5)] by simp
  qed
  show ?case
  proof (cases "map_of (children (nd h node)) p")
    case (Some c)
    have fr: "free {} c h"
      using apart_node [of "{}" h node] Cons.prems(2,3) map_of_SomeD [OF Some] by (force simp: node_ok_def isdir_def)
    have "vtype (nd h c) = NDir" "mkdirp_loop mode c ps h = (Inr d, h')"
      using Cons.prems(1) Some by (auto simp: get_node_def bnd_def split: if_splits)
    then show ?thesis using step [of h c] Some fr Cons.prems(2) by simp
  next
    case None
    let ?fill = "\<lambda>x. x\<lparr>vmode := S_IFDIR OR mode, parent := Some node\<rparr>"
    let ?c = "length (nodes h)"
    let ?h2 = "snd (set_child node p ?c (snd (new_node NDir p ?fill h)))"
    note e = new_child_extends [OF Cons.prems(2,3) None refl refl, of NDir ?fill]
    have s: "apart {} ?h2 \<and> typed {} NDir ?c ?h2"
      by (rule new_child_safe [OF Cons.prems(2,3) _ _ refl]) simp_all
    have "mkdirp_loop mode ?c ps ?h2 = (Inr d, h')"
      using Cons.prems(1) None s new_child_run [of NDir p ?fill node h]
      by (auto simp: get_node_def bnd_def typed_def split: if_splits)
    then show ?thesis using step [of ?h2 ?c] e(1,2) s by (simp add: typed_def)
  qed
qed

text \<open>Normalized paths and their parts.\<close>

lemma normalize_parts:
  assumes "path \<noteq> []"
  obtains ps where "normalize v path = CHR ''/'' # join_slash ps" "\<forall>p \<in> set ps. clean_part p"
  using norm_parts_clean assms that by (fastforce simp: normalize_def normalizePath_def)

lemma slash_parts:
  assumes "\<forall>p \<in> set ps. clean_part p" "ps \<noteq> []"
  shows "split_slash (CHR ''/'' # join_slash ps) = [] # ps"
proof -
  have "split_slash (join_slash ps) = ps" using assms by (intro split_join_slash) (auto simp: clean_part_def)
  then show ?thesis by simp
qed

lemma clean_path:
  assumes "\<forall>p \<in> set ps. clean_part p"
  shows "path_parts (CHR ''/'' # join_slash ps) = ps"
    and "normalize v (CHR ''/'' # join_slash ps) = CHR ''/'' # join_slash ps"
    and "CHR ''/'' # join_slash ps = ''/'' \<longleftrightarrow> ps = []"
proof -
  have ne: "filter (\<lambda>s. s \<noteq> []) ps = ps" using assms by (intro filter_True) (auto simp: clean_part_def)
  show "path_parts (CHR ''/'' # join_slash ps) = ps"
    using slash_parts [OF assms] ne by (cases "ps = []") (simp_all add: path_parts_def)
  show "normalize v (CHR ''/'' # join_slash ps) = CHR ''/'' # join_slash ps"
    using norm_parts_join [OF assms] by (simp add: normalize_def normalizePath_def)
  show "CHR ''/'' # join_slash ps = ''/'' \<longleftrightarrow> ps = []"
  proof (cases ps)
    case (Cons p qs)
    then have "p \<noteq> []" using assms by (simp add: clean_part_def)
    then have "join_slash ps \<noteq> []" using Cons by (cases qs) auto
    then show ?thesis using Cons by simp
  qed simp
qed

lemma clean_dir_base:
  assumes "\<forall>p \<in> set ps. clean_part p" "ps \<noteq> []"
  shows "dirname (CHR ''/'' # join_slash ps) = CHR ''/'' # join_slash (butlast ps)"
    and "basename (CHR ''/'' # join_slash ps) = last ps"
proof -
  have "join_slash ([] # qs) = CHR ''/'' # join_slash qs" if "qs \<noteq> []" for qs
    using that by (cases qs) simp_all
  then show "dirname (CHR ''/'' # join_slash ps) = CHR ''/'' # join_slash (butlast ps)"
    using slash_parts [OF assms] assms(2) by (cases "butlast ps = []") (simp_all add: dirname_def Let_def)
  show "basename (CHR ''/'' # join_slash ps) = last ps"
    using slash_parts [OF assms] assms(2) by (simp add: basename_def)
qed

lemma mkdirp_dirs:
  assumes "mkdirp v (CHR ''/'' # join_slash qs) mode h = (Inr d, h1)" "\<forall>p \<in> set qs. clean_part p" "fs_wf v h"
  shows "extends h h1 \<and> apart {} h1 \<and> isdir {} d h1 \<and> dirs_at h1 (root v) qs = Some d"
proof (cases "qs = []")
  case True
  have "normalize v ''/'' = ''/''" using clean_path(2) [of "[]" v] by simp
  then show ?thesis
    using assms True by (simp add: mkdirp_def Let_def fs_wf_apart)
next
  case False
  then have "mkdirp_loop mode (root v) qs h = (Inr d, h1)"
    using assms(1) clean_path [OF assms(2)] by (simp add: mkdirp_def Let_def)
  then show ?thesis using mkdirp_loop_dirs assms(3) by (simp add: fs_wf_apart)
qed

lemma readFile_found:
  assumes "normalize v path = CHR ''/'' # join_slash (qs @ [b])" "\<forall>p \<in> set (qs @ [b]). clean_part p"
    and "dirs_at h (root v) qs = Some d" "vtype (nd h (root v)) = NDir" "vtype (nd h d) = NDir"
    and "map_of (children (nd h d)) b = Some r" "vtype (nd h r) = NFile" "0 < stack_depth h"
  shows "readFile v path h = (Inr (vdata (nd h r)), h)"
proof -
  obtain cur' where "walk follow h (root v) [] (qs @ [b]) = walk follow h d cur' [b]"
    using walk_dirs [OF assms(3,4)] by blast
  then have w: "walk follow h (root v) [] (qs @ [b]) = WDone r" using assms(5-7) by (simp add: Let_def)
  obtain k where k: "stack_depth h = Suc k" using assms(8) by (cases "stack_depth h") auto
  have p: "normalize v path \<noteq> ''/''" "path_parts (normalize v path) = qs @ [b]"
    using clean_path [OF assms(2)] assms(1) by simp_all
  show ?thesis
    using p w k assms(7)
    by (simp add: readFile_def resolve_node_def resolve_def bnd_def the_ref_def get_node_def Let_def)
qed

definition others_kept :: "heap \<Rightarrow> nat \<Rightarrow> heap \<Rightarrow> bool" where
  "others_kept h r h' \<longleftrightarrow> (\<forall>q < length (nodes h). q \<noteq> r \<longrightarrow>
     vdata (nd h' q) = vdata (nd h q) \<and> target (nd h' q) = target (nd h q) \<and> vtype (nd h' q) = vtype (nd h q))"

lemma extends_others: "extends h h' \<Longrightarrow> others_kept h r h'"
  by (auto simp: extends_def others_kept_def grows_def)

lemma writeFile_places:
  assumes wf: "fs_wf v h" and w: "writeFile v path data mode h = (Inr r, h')"
    and p: "normalize v path = CHR ''/'' # join_slash (qs @ [b])" "\<forall>p \<in> set (qs @ [b]). clean_part p"
  shows "\<exists>d. dirs_at h' (root v) qs = Some d \<and> vtype (nd h' (root v)) = NDir \<and> vtype (nd h' d) = NDir \<and>
     map_of (children (nd h' d)) b = Some r \<and> vtype (nd h' r) = NFile \<and> vdata (nd h' r) = data \<and>
     stack_depth h' = stack_depth h \<and> others_kept h r h'"
proof -
  have db: "dirname (normalize v path) = CHR ''/'' # join_slash qs" "basename (normalize v path) = b"
    using clean_dir_base [OF p(2)] p(1) by simp_all
  obtain d h1 where m: "mkdirp v (CHR ''/'' # join_slash qs) 0x1ed h = (Inr d, h1)"
    using w unfolding writeFile_def Let_def db by (auto simp: bnd_Inr_iff)
  have qs: "\<forall>p \<in> set qs. clean_part p" using p(2) by simp
  have h1: "extends h h1" "apart {} h1" "isdir {} d h1" "dirs_at h1 (root v) qs = Some d"
    using mkdirp_dirs [OF m qs wf] by blast+
  have g: "grows h h1" using h1(1) by (simp add: extends_def)
  have rt: "free {} (root v) h1" "vtype (nd h1 (root v)) = NDir" "stack_depth h1 = stack_depth h"
    using isdir_grows [OF g, of "{}" "root v"] wf g by (simp_all add: fs_wf_apart isdir_def grows_def)
  show ?thesis
  proof (cases "map_of (children (nd h1 d)) b")
    case None
    let ?fill = "\<lambda>x. x\<lparr>vmode := S_IFREG OR mode, vdata := data, parent := Some d\<rparr>"
    let ?r = "length (nodes h1)"
    let ?h2 = "snd (set_child d b ?r (snd (new_node NFile b ?fill h1)))"
    have e: "r = ?r" "h' = ?h2"
      using w m None new_child_run [of NFile b ?fill d h1] unfolding writeFile_def Let_def db
      by (simp_all add: bnd_def get_node_def)
    note ext = new_child_extends [OF h1(2,3) None refl refl, of NFile ?fill]
    have "dirs_at h' (root v) qs = Some d" using dirs_at_extends [OF ext(1) h1(2) rt(1) h1(4)] e(2) by simp
    moreover have "vtype (nd h' (root v)) = NDir" "vtype (nd h' d) = NDir"
      using ext(1) rt h1(3) unfolding e by (auto simp: extends_def grows_def free_def isdir_def)
    moreover have "others_kept h r h'" using extends_others extends_trans [OF h1(1) ext(1)] e(2) by blast
    ultimately show ?thesis
      using ext(2-4) rt(3) unfolding e by (auto simp: blank_node_def)
  next
    case (Some r0)
    let ?upd = "\<lambda>n. n\<lparr>vdata := data, mtime := clock h1, ctime := clock h1\<rparr>"
    have e: "vtype (nd h1 r0) = NFile" "r = r0" "h' = h1\<lparr>nodes := (nodes h1)[r0 := ?upd (nd h1 r0)]\<rparr>"
      using w m Some unfolding writeFile_def Let_def db
      by (auto simp: bnd_def thn_def get_node_def mod_node_def split: if_splits)
    have fr: "r0 < length (nodes h1)"
      using apart_node [OF h1(2), of d] h1(3) map_of_SomeD [OF Some] by (force simp: node_ok_def isdir_def free_def)
    have nd': "nd h' q = (if q = r0 then ?upd (nd h1 r0) else nd h1 q)" for q
      using fr by (simp add: e(3) nd_upd)
    have sub: "children (nd h' q) = children (nd h1 q)" "vtype (nd h' q) = vtype (nd h1 q)" for q by (simp_all add: nd')
    have walk: "dirs_at h' n ps = dirs_at h1 n ps" for n ps
      by (induction ps arbitrary: n) (simp_all add: sub split: option.splits)
    have "others_kept h r h'" using extends_others [OF h1(1), of r0] e(2) by (simp add: others_kept_def nd')
    moreover have "stack_depth h' = stack_depth h" using e(3) rt(3) by simp
    moreover have "vdata (nd h' r) = data" using e(2) by (simp add: nd')
    ultimately show ?thesis
      using h1(3,4) rt(2) e(1,2) Some by (intro exI [of _ d]) (simp add: walk sub isdir_def)
  qed
qed

text \<open>
  C29: a file that is written is read back. In a well-formed file system, when writing a file at a path other
  than the root succeeds, reading that path gives exactly those bytes, and no file, link target or node type
  that existed before changes except that of the written file.
\<close>

theorem writeFile_readFile:
  assumes "fs_wf v h" "0 < stack_depth h" "path \<noteq> []" "normalize v path \<noteq> ''/''"
    and "writeFile v path data mode h = (Inr r, h')"
  shows "readFile v path h' = (Inr data, h') \<and> others_kept h r h'"
proof -
  obtain ps where ps: "normalize v path = CHR ''/'' # join_slash ps" "\<forall>p \<in> set ps. clean_part p"
    using normalize_parts [OF assms(3)] by blast
  then obtain qs b where qb: "ps = qs @ [b]" using assms(4) by (cases ps rule: rev_cases) auto
  from writeFile_places [OF assms(1,5) ps [unfolded qb]] obtain d where
    d: "dirs_at h' (root v) qs = Some d" "vtype (nd h' (root v)) = NDir" "vtype (nd h' d) = NDir"
      "map_of (children (nd h' d)) b = Some r" "vtype (nd h' r) = NFile" "vdata (nd h' r) = data"
      "stack_depth h' = stack_depth h" "others_kept h r h'" by blast
  show ?thesis using readFile_found [OF ps [unfolded qb] d(1-5)] d(6-8) assms(2) by simp
qed

definition small_fs :: heap where
  "small_fs = \<lparr>nodes = [(blank_node NDir ''/'' 1 7)\<lparr>parent := Some 0, children := [(''a'', 1)]\<rparr>,
      (blank_node NDir ''a'' 2 7)\<lparr>parent := Some 0, children := [(''f'', 2)]\<rparr>,
      (blank_node NFile ''f'' 3 7)\<lparr>parent := Some 1, vdata := [1, 2]\<rparr>],
     nextIno = 1000, clock = 9, stack_depth = 50, microtasks = []\<rparr>"

definition small_vfs :: vfs where
  "small_vfs = \<lparr>root = 0, cwd = ''/'', watchers = []\<rparr>"

lemma small_fs_wf: "fs_wf small_vfs small_fs"
  unfolding fs_wf_def small_vfs_def small_fs_def
  by (auto simp: nd_def blank_node_def less_Suc_eq numeral_eq_Suc Let_def)

theorem writeFile_readFile_witness:
  "(let h' = snd (writeFile small_vfs ''/b/../a/g'' [9, 8] 0x1a4 small_fs)
    in readFile small_vfs ''/b/../a/g'' h' = (Inr [9, 8], h') \<and> vdata (nd h' 2) = [1, 2])"
proof -
  have r: "fst (writeFile small_vfs ''/b/../a/g'' [9, 8] 0x1a4 small_fs) = Inr 3" by code_simp
  have "normalize small_vfs ''/b/../a/g'' \<noteq> ''/''" "0 < stack_depth small_fs" "length (nodes small_fs) = 3"
    "vdata (nd small_fs 2) = [1, 2]" by code_simp+
  then show ?thesis
    using writeFile_readFile [OF small_fs_wf, of "''/b/../a/g''" "[9, 8]" "0x1a4" 3
        "snd (writeFile small_vfs ''/b/../a/g'' [9, 8] 0x1a4 small_fs)"] r
    by (simp add: Let_def others_kept_def prod_eq_iff)
qed

section \<open>Writing through an open file\<close>

lemma length_splice: "length (splice_bytes off bs old) = max (length old) (off + length bs)"
  by (auto simp: splice_bytes_def Let_def)

lemma splice_nth:
  assumes "i < max (length old) (off + length bs)"
  shows "splice_bytes off bs old ! i =
     (if off \<le> i \<and> i < off + length bs then bs ! (i - off) else if i < length old then old ! i else 0)"
proof -
  define grown where "grown = (if off + length bs > length old then old @ replicate (off + length bs - length old) 0 else old)"
  have g: "length grown = max (length old) (off + length bs)" "grown ! i = (if i < length old then old ! i else 0)"
    using assms by (auto simp: grown_def nth_append)
  have "splice_bytes off bs old = take off grown @ bs @ drop (off + length bs) grown"
    by (simp add: splice_bytes_def grown_def Let_def)
  then show ?thesis using g assms by (auto simp: nth_append min_def)
qed

text \<open>
  C30: writing through an open file. When the handle is writable and its node is a regular file: the write
  reports all bytes written and moves the offset behind them; the file is as long as before or as the end of
  the write, whichever is more; the bytes of the written range are the new ones, a gap before it is filled with
  zeros and every other byte is kept. In append mode the range starts at the old end of the file. Seeking back
  and reading on a handle that is also readable gives the written bytes.
\<close>

theorem handle_write:
  assumes "canWrite f" "of_node f < length (nodes h)" "vtype (nd h (of_node f)) = NFile"
    and "old = vdata (nd h (of_node f))" "off = (if has_flag (of_flags f) O_APPEND then length old else of_offset f)"
    and "of_write bs f h = (res, h')" "new = vdata (nd h' (of_node f))"
  shows "res = Inr (length bs, f\<lparr>of_offset := off + length bs\<rparr>) \<and>
     length new = max (length old) (off + length bs) \<and>
     new = map (\<lambda>i. if off \<le> i \<and> i < off + length bs then bs ! (i - off) else if i < length old then old ! i else 0)
       [0..<length new] \<and>
     (canRead f \<longrightarrow> fst (of_read rng (length bs) (f\<lparr>of_offset := off\<rparr>) h') = Inr (bs, f\<lparr>of_offset := off + length bs\<rparr>))"
proof -
  let ?r = "of_node f"
  have h': "res = Inr (length bs, f\<lparr>of_offset := off + length bs\<rparr>)" "new = splice_bytes off bs old"
    "vtype (nd h' ?r) = NFile"
    using assms unfolding of_write_def
    by (auto simp: bnd_def thn_def get_node_def mod_node_def Let_def nd_upd)
  have len: "length new = max (length old) (off + length bs)" by (simp add: h'(2) length_splice)
  have new: "new = map (\<lambda>i. if off \<le> i \<and> i < off + length bs then bs ! (i - off) else if i < length old then old ! i else 0)
       [0..<length new]"
    by (rule nth_equalityI) (auto simp: len h'(2) splice_nth length_splice)
  have "take (length bs) (drop off new) = bs"
  proof (rule nth_equalityI)
    show "length (take (length bs) (drop off new)) = length bs" using len by simp
    fix i assume i: "i < length (take (length bs) (drop off new))"
    then have "take (length bs) (drop off new) ! i = new ! (off + i)" using len by simp
    also have "\<dots> = bs ! i" using i len unfolding h'(2) by (simp add: splice_nth length_splice)
    finally show "take (length bs) (drop off new) ! i = bs ! i" .
  qed
  moreover have "min (length new) (off + length bs) = off + length bs" using len by simp
  ultimately have "canRead f \<Longrightarrow> fst (of_read rng (length bs) (f\<lparr>of_offset := off\<rparr>) h') = Inr (bs, f\<lparr>of_offset := off + length bs\<rparr>)"
    using h'(3) assms(7) by (simp add: of_read_def canRead_def bnd_def thn_def get_node_def mod_node_def Let_def)
  with h'(1) len new show ?thesis by blast
qed

theorem handle_write_witness:
  "(let f = \<lparr>of_node = 2, of_path = ''/a/f'', of_flags = 2, of_offset = 3, of_dirOffset = 0\<rparr>;
        h' = snd (of_write [7, 7] f small_fs)
    in fst (of_write [7, 7] f small_fs) = Inr (2, f\<lparr>of_offset := 5\<rparr>) \<and> vdata (nd h' 2) = [1, 2, 0, 7, 7] \<and>
       fst (of_read (\<lambda>_. []) 2 f h') = Inr ([7, 7], f\<lparr>of_offset := 5\<rparr>))"
proof -
  let ?f = "\<lparr>of_node = 2, of_path = ''/a/f'', of_flags = 2, of_offset = 3, of_dirOffset = 0\<rparr>"
  have pre: "canWrite ?f" "canRead ?f" "of_node ?f < length (nodes small_fs)" "vtype (nd small_fs (of_node ?f)) = NFile"
    "vdata (nd small_fs 2) = [1, 2]" "\<not> has_flag 2 O_APPEND" by code_simp+
  let ?new = "vdata (nd (snd (of_write [7, 7] ?f small_fs)) 2)"
  note T = handle_write [OF pre(1,3,4) refl refl prod.collapse [symmetric] refl, of "[7, 7]" "\<lambda>_. []"]
  have len: "length ?new = 5" using T pre by simp
  have "?new = map (\<lambda>i. if 3 \<le> i \<and> i < 5 then [7, 7] ! (i - 3) else if i < 2 then [1, 2] ! i else 0) [0..<5]"
    using T [THEN conjunct2, THEN conjunct2, THEN conjunct1] pre len by simp
  also have "\<dots> = [1, 2, 0, 7, 7]" by code_simp
  finally show ?thesis using T pre by (simp add: Let_def numeral_2_eq_2 [symmetric])
qed

section \<open>Departures from a file system's contract\<close>

definition linked_fs :: heap where
  "linked_fs = snd (thn (mkdir small_vfs ''/b'' 0x1ff) (thn (link small_vfs ''/a/f'' ''/b/l'')
     (writeFile small_vfs ''/a/l'' [5] 0x1a4)) small_fs)"

text \<open>
  A hard link remembers the directory of its original. Unlinking \<open>/b/l\<close>, a link to \<open>/a/f\<close>, leaves \<open>/b/l\<close> in
  place and removes the unrelated file \<open>/a/l\<close>.
\<close>

lemma unlink_removes_other_file:
  "(let h' = snd (unlink small_vfs ''/b/l'' linked_fs) in
      fst (unlink small_vfs ''/b/l'' linked_fs) = Inr () \<and> vfs_exists small_vfs ''/a/l'' linked_fs \<and>
      \<not> vfs_exists small_vfs ''/a/l'' h' \<and> vfs_exists small_vfs ''/b/l'' h')"
  by code_simp

text \<open>Renaming a directory to the root throws after the directory was removed from its parent.\<close>

lemma rename_to_root_loses:
  "fst (rename small_vfs ''/a'' ''/'' small_fs) = Inl TypeErr \<and>
   \<not> vfs_exists small_vfs ''/a'' (snd (rename small_vfs ''/a'' ''/'' small_fs))"
  by code_simp

text \<open>Renaming a directory over one that is not empty drops the entries of the target.\<close>

lemma rename_over_nonempty:
  "(let h = snd (mkdir small_vfs ''/b'' 0x1ff small_fs); h' = snd (rename small_vfs ''/b'' ''/a'' h)
    in fst (rename small_vfs ''/b'' ''/a'' h) = Inr () \<and> vfs_exists small_vfs ''/a/f'' h \<and> \<not> vfs_exists small_vfs ''/a/f'' h')"
  by code_simp

text \<open>A read behind the end of a file moves the offset back to the end.\<close>

lemma read_past_end_moves_back:
  "(let f = \<lparr>of_node = 2, of_path = ''/a/f'', of_flags = 2, of_offset = 100, of_dirOffset = 0\<rparr>
    in fst (of_read (\<lambda>_. []) 4 f small_fs) = Inr ([], f\<lparr>of_offset := 2\<rparr>))"
  by code_simp

text \<open>A symbolic link to itself exhausts the engine's recursion; it is not reported as a loop.\<close>

lemma symlink_loop_overflows:
  "fst (resolve small_vfs follow ''/s'' (snd (vfs_symlink small_vfs ''/s'' ''/s'' small_fs))) = Inl StackOverflow"
  by code_simp

end
