(* ===== verification/Overlay_Props.thy ===== *)
theory Overlay_Props
  imports Overlay Vfs_Props
begin

text \<open>
  The overlay never changes its base. The base's nodes are a frozen set of the store: every change goes to the
  upper file system, whose nodes never refer to the base. Reading a base file through an open handle still
  stamps its access time.
\<close>

section \<open>Safety of the overlay's operations\<close>

abbreviation safeO :: "nat set \<Rightarrow> (heap \<Rightarrow> bool) \<Rightarrow> ('a \<Rightarrow> heap \<Rightarrow> bool) \<Rightarrow> 'a ovlM \<Rightarrow> bool" where
  "safeO \<equiv> safe_on o_heap"

lemma safe_liftO:
  assumes "safe B P Q m"
  shows "safeO B P Q (liftO m)"
  unfolding safe_on_def
proof (intro allI impI, elim conjE)
  fix s :: ostate assume s: "apart B (o_heap s)" "P (o_heap s)"
  obtain r h where m: "m (o_heap s) = (r, h)" by (cases "m (o_heap s)")
  note d = safeD [OF assms, of "o_heap s", OF s m]
  show "apart B (o_heap (snd (liftO m s))) \<and> frozen B (o_heap s) (o_heap (snd (liftO m s))) \<and>
      grows (o_heap s) (o_heap (snd (liftO m s))) \<and> (\<forall>x. fst (liftO m s) = Inr x \<longrightarrow> Q x (o_heap (snd (liftO m s))))"
    using d m by (simp add: liftO_def)
qed

lemma safe_white [safe_intros]:
  "safeO B P (\<lambda>_ _. True) (white_del p)" "safeO B P (\<lambda>_ _. True) (white_add p)"
  by (simp_all add: safe_on_def white_del_def white_add_def)

lemma resolve_at_pure: "snd (resolve_at d v opts path h) = h"
  by (induction d arbitrary: path) (auto simp: Let_def split: walk_result.splits)

lemma safe_resolve_pure: "safe B P (\<lambda>_ _. True) (resolve_node v opts path)"
proof -
  have "snd (resolve_node v opts path h) = h" for h
    using resolve_at_pure [of "stack_depth h" v opts path h]
    by (auto simp: resolve_node_def resolve_def bnd_def the_ref_def split: prod.splits sum.splits option.splits)
  then show ?thesis by (simp add: safe_on_def)
qed

lemma safe_any_on: "safe_on hp B P Q m \<Longrightarrow> safe_on hp B P (\<lambda>_ _. True) m"
  by (erule safe_conseq) simp_all

lemma safe_cloneNodeInto:
  assumes "\<And>h. P h \<Longrightarrow> isdir B (root u) h" "persists P"
  shows "safe B P (free B) (cloneNodeInto u path src)"
proof -
  have "safe B P (free B) (mkdirp u path m)" for m
    by (rule safe_conseq [OF safe_mkdirp [OF assms]]) (simp_all add: isdir_def)
  then show ?thesis
    unfolding cloneNodeInto_def
    by (intro safe_thn [OF safe_mkdirp [OF assms]] assms(2))
      (auto split: ntype.split intro!: safe_writeFile safe_symlink safe_mknod assms)
qed

lemma safe_try_upper:
  assumes "\<And>h. P h \<Longrightarrow> isdir B (root u) h"
  shows "safeO B P (\<lambda>r h. \<forall>x. r = Some x \<longrightarrow> resolved_ok B x h) (getS (\<lambda>s. try_resolve u opts p (o_heap s)))"
proof (rule safe_getS)
  fix s :: ostate assume "apart B (o_heap s)" "P (o_heap s)"
  then show "\<forall>x. try_resolve u opts p (o_heap s) = Some x \<longrightarrow> resolved_ok B x (o_heap s)"
    using resolve_at_safe [of B "o_heap s" u "stack_depth (o_heap s)" opts p] assms
    by (auto simp: try_resolve_def resolve_def split: sum.splits)
qed

lemma safe_copyUp [safe_intros]:
  assumes "\<And>h. P h \<Longrightarrow> isdir B (root (o_upper v)) h" "persists P"
  shows "safeO B P (resolved_ok B) (copyUp v nf path)"
proof -
  let ?opts = "\<lparr>parentForCreate = False, noFollowFinal = nf\<rparr>"
  let ?p = "o_normalize v path"
  have fresh: "safeO B P (resolved_ok B) (thn (white_del ?p) (bnd (liftO (resolve_node (o_base v) ?opts ?p)) (\<lambda>sr.
      bnd (getS (\<lambda>s. nd (o_heap s) sr)) (\<lambda>src. bnd (liftO (cloneNodeInto (o_upper v) ?p src)) (\<lambda>n.
        thn (liftO (cloneMetadata n src))
          (getS (\<lambda>s. \<lparr>r_node = Some n, r_path = ?p, r_parent = parent (nd (o_heap s) n), r_name = basename ?p\<rparr>)))))))"
    unfolding cloneMetadata_def
  proof (intro safe_thn [OF safe_white(1)] assms(2) safe_bnd [OF safe_liftO [OF safe_resolve_pure]]
      safe_bnd [OF safe_getS_any])
    fix sr src
    let ?P = "\<lambda>h. (P h \<and> True) \<and> True"
    have P: "\<And>h. ?P h \<Longrightarrow> isdir B (root (o_upper v)) h" "persists ?P"
      using assms by (auto intro!: persists_intros)
    show "persists (\<lambda>h. P h \<and> True)" using P(2) by simp
    show "safeO B ?P (resolved_ok B) (bnd (liftO (cloneNodeInto (o_upper v) ?p src)) (\<lambda>n.
        thn (liftO (mod_node n (\<lambda>x. x\<lparr>vmode := vmode src, uid := uid src, gid := gid src, rdev := rdev src,
            atime := atime src, mtime := mtime src, ctime := ctime src\<rparr>)))
          (getS (\<lambda>s. \<lparr>r_node = Some n, r_path = ?p, r_parent = parent (nd (o_heap s) n), r_name = basename ?p\<rparr>))))"
      by (rule safe_bnd [OF safe_liftO [OF safe_cloneNodeInto [OF P]] P(2)] safe_thn safe_liftO safe_mod_meta
            safe_getS persists_intros P(2) assms(2) | force simp: resolved_ok_def dest: apart_node simp: node_ok_def)+
  qed
  show ?thesis
    unfolding copyUp_def Let_def
  proof (rule safe_bnd [OF safe_try_upper [OF assms(1)] assms(2)])
    fix up
    show "safeO B (\<lambda>h. P h \<and> (\<forall>x. up = Some x \<longrightarrow> resolved_ok B x h)) (resolved_ok B) (case up of None \<Rightarrow>
        thn (white_del ?p) (bnd (liftO (resolve_node (o_base v) ?opts ?p)) (\<lambda>sr.
          bnd (getS (\<lambda>s. nd (o_heap s) sr)) (\<lambda>src. bnd (liftO (cloneNodeInto (o_upper v) ?p src)) (\<lambda>n.
            thn (liftO (cloneMetadata n src))
              (getS (\<lambda>s. \<lparr>r_node = Some n, r_path = ?p, r_parent = parent (nd (o_heap s) n), r_name = basename ?p\<rparr>))))))
        | Some r \<Rightarrow> ret r)"
    proof (cases up)
      case None
      then show ?thesis using fresh by simp
    qed (auto intro!: safe_ret)
  qed
qed

section \<open>Changing operations\<close>

text \<open>\<open>up\<close> are the conditions of an operation on the upper file system.\<close>

definition changes_upper :: "nat set \<Rightarrow> overlay \<Rightarrow> 'a ovlM \<Rightarrow> bool" where
  "changes_upper B v m \<longleftrightarrow> safeO B (isdir B (root (o_upper v))) (\<lambda>_ _. True) m"

lemma lift_any: "safe B P Q m \<Longrightarrow> safeO B P (\<lambda>_ _. True) (liftO m)"
  by (rule safe_any_on) (rule safe_liftO)

lemma o_create_upper:
  "changes_upper B v (o_writeFile v p d m)" "changes_upper B v (o_mkdirp v p m)" "changes_upper B v (o_mkdir v p m)"
  "changes_upper B v (o_symlink v t p)" "changes_upper B v (o_mknod v p dv m r)" "changes_upper B v (o_mountFiles v fs rt)"
  unfolding changes_upper_def o_writeFile_def o_mkdirp_def o_mkdir_def o_symlink_def o_mknod_def o_mountFiles_def
  by (rule safe_thn [OF safe_white(1)] lift_any safe_writeFile safe_mkdirp safe_mkdir safe_symlink safe_mknod
      safe_mountFiles persists_intros | assumption)+

lemma o_change_upper:
  assumes "\<And>n. vtype (f n) = vtype n \<and> children (f n) = children n \<and> parent (f n) = parent n"
  shows "changes_upper B v (o_change v p f)"
  unfolding changes_upper_def o_change_def
  by (rule safe_bnd [OF safe_copyUp] safe_bnd [OF safe_liftO [OF safe_the_ref_ok]] lift_any safe_mod_meta
      persists_intros | assumption | fastforce simp: assms resolved_ok_def)+

lemma o_meta_upper:
  "changes_upper B v (o_chmod v p m)" "changes_upper B v (o_chown v p u g)" "changes_upper B v (o_utimes v p a t)"
  unfolding o_chmod_def o_chown_def o_utimes_def by (rule o_change_upper; simp)+

lemma o_truncate_link_upper: "changes_upper B v (o_truncate v p n)" "changes_upper B v (o_link v p q)"
  unfolding changes_upper_def o_truncate_def o_link_def
  by (rule safe_thn [OF safe_copyUp] lift_any safe_truncate safe_link persists_intros | assumption)+

lemma safe_swallow: "safeO B P (\<lambda>_ _. True) m \<Longrightarrow> safeO B P (\<lambda>_ _. True) (swallow_enoent m)"
  unfolding safe_on_def swallow_enoent_def by (auto split: prod.splits sum.splits)

lemma safe_hide_base: "persists P \<Longrightarrow> safeO B P (\<lambda>_ _. True) (hide_base v p q)"
  unfolding hide_base_def by (intro safe_bnd [OF safe_getS_any] safe_whenM safe_white)

lemma o_remove_upper:
  "changes_upper B v (o_unlink v p)" "changes_upper B v (o_rmdir v p)" "changes_upper B v (o_rename v p q)"
  unfolding changes_upper_def o_unlink_def o_rmdir_def o_rename_def Let_def
  by (rule safe_bnd [OF safe_copyUp] safe_thn safe_swallow safe_hide_base safe_white lift_any safe_unlink safe_rmdir
      safe_rename persists_intros | assumption | simp)+

section \<open>Runs of an overlay\<close>

datatype ovl_op =
    OvWriteFile string "u8 list" u32 | OvMkdirp string u32 | OvMkdir string u32 | OvSymlink string string
  | OvMknod string string u32 u32 | OvChmod string u32 | OvChown string int int | OvUtimes string int int
  | OvTruncate string int | OvUnlink string | OvRmdir string | OvRename string string | OvLink string string
  | OvMount "(string \<times> u8 list) list" string | OvOpen string u32 u32 | OvWrite nat "u8 list"
  | OvRead nat nat "nat \<Rightarrow> u8 list"

record ovl_state =
  ov_state :: ostate
  ov_handles :: "open_file list"

definition ov_run :: "'a ovlM \<Rightarrow> ovl_state \<Rightarrow> ovl_state" where
  "ov_run m s = s\<lparr>ov_state := snd (m (ov_state s))\<rparr>"

definition ov_handle :: "nat \<Rightarrow> (open_file \<Rightarrow> ('a \<times> open_file) vfsM) \<Rightarrow> ovl_state \<Rightarrow> ovl_state" where
  "ov_handle i m s =
     (if i < length (ov_handles s)
      then case liftO (m (ov_handles s ! i)) (ov_state s) of
          (Inr (x, f), st) \<Rightarrow> \<lparr>ov_state = st, ov_handles = (ov_handles s)[i := f]\<rparr>
        | (Inl e, st) \<Rightarrow> s\<lparr>ov_state := st\<rparr>
      else s)"

primrec ov_step :: "overlay \<Rightarrow> ovl_op \<Rightarrow> ovl_state \<Rightarrow> ovl_state" where
  "ov_step v (OvWriteFile p d m) s = ov_run (o_writeFile v p d m) s"
| "ov_step v (OvMkdirp p m) s = ov_run (o_mkdirp v p m) s"
| "ov_step v (OvMkdir p m) s = ov_run (o_mkdir v p m) s"
| "ov_step v (OvSymlink t p) s = ov_run (o_symlink v t p) s"
| "ov_step v (OvMknod p d m r) s = ov_run (o_mknod v p d m r) s"
| "ov_step v (OvChmod p m) s = ov_run (o_chmod v p m) s"
| "ov_step v (OvChown p u g) s = ov_run (o_chown v p u g) s"
| "ov_step v (OvUtimes p a m) s = ov_run (o_utimes v p a m) s"
| "ov_step v (OvTruncate p n) s = ov_run (o_truncate v p n) s"
| "ov_step v (OvUnlink p) s = ov_run (o_unlink v p) s"
| "ov_step v (OvRmdir p) s = ov_run (o_rmdir v p) s"
| "ov_step v (OvRename p q) s = ov_run (o_rename v p q) s"
| "ov_step v (OvLink p q) s = ov_run (o_link v p q) s"
| "ov_step v (OvMount fs rt) s = ov_run (o_mountFiles v fs rt) s"
| "ov_step v (OvOpen p fl m) s =
     (case o_open v p fl m (ov_state s) of
        (Inr f, st) \<Rightarrow> \<lparr>ov_state = st, ov_handles = ov_handles s @ [f]\<rparr> | (Inl e, st) \<Rightarrow> s\<lparr>ov_state := st\<rparr>)"
| "ov_step v (OvWrite i bs) s = ov_handle i (of_write bs) s"
| "ov_step v (OvRead i n rng) s = ov_handle i (of_read rng n) s"

definition same_but_atime :: "vnode \<Rightarrow> vnode \<Rightarrow> bool" where
  "same_but_atime a b \<longleftrightarrow> b = a\<lparr>atime := atime b\<rparr>"

text \<open>
  The invariant: \<open>M\<close> are the merged directories that read-only opens left in the store; they refer to the base
  and nothing refers to them. A writable handle is on a node of the upper file system.
\<close>

definition ov_good :: "overlay \<Rightarrow> nat set \<Rightarrow> heap \<Rightarrow> nat set \<Rightarrow> ovl_state \<Rightarrow> bool" where
  "ov_good v B h0 M s \<longleftrightarrow> (let h = o_heap (ov_state s) in
     apart (B \<union> M) h \<and> isdir (B \<union> M) (root (o_upper v)) h \<and> (\<forall>r \<in> B. same_but_atime (nd h0 r) (nd h r)) \<and>
     (\<forall>f \<in> set (ov_handles s). canWrite f \<longrightarrow> free (B \<union> M) (of_node f) h))"

definition ov_inv :: "overlay \<Rightarrow> nat set \<Rightarrow> heap \<Rightarrow> ovl_state \<Rightarrow> bool" where
  "ov_inv v B h0 s \<longleftrightarrow> (\<exists>M. ov_good v B h0 M s)"

lemma same_but_atime_refl [simp]: "same_but_atime a a"
  by (cases a) (simp add: same_but_atime_def)

lemma same_but_atime_upd: "same_but_atime a b \<Longrightarrow> same_but_atime a (b\<lparr>atime := t\<rparr>)"
  unfolding same_but_atime_def by (cases a; cases b) simp

text \<open>The invariant after a safe computation, with the same handles.\<close>

lemma ov_good_heap:
  assumes "ov_good v B h0 M s" "apart (B \<union> M) h" "frozen (B \<union> M) (o_heap (ov_state s)) h" "grows (o_heap (ov_state s)) h"
    "o_heap (ov_state s') = h" "set (ov_handles s') \<subseteq> set (ov_handles s) \<union> F"
    "\<And>f. f \<in> F \<Longrightarrow> canWrite f \<Longrightarrow> free (B \<union> M) (of_node f) h"
  shows "ov_good v B h0 M s'"
proof -
  have "canWrite f \<longrightarrow> free (B \<union> M) (of_node f) h" if "f \<in> set (ov_handles s')" for f
    using that assms(1,6,7) free_grows [OF assms(4)] by (auto simp: ov_good_def Let_def)
  then show ?thesis
    using assms(1-3,5) isdir_grows [OF assms(4)] by (auto simp: ov_good_def Let_def frozen_def)
qed

lemma ov_inv_run:
  assumes "ov_inv v B h0 s" "\<And>C. changes_upper C v m"
  shows "ov_inv v B h0 (ov_run m s)"
proof -
  obtain M where M: "ov_good v B h0 M s" using assms(1) by (auto simp: ov_inv_def)
  obtain r st where m: "m (ov_state s) = (r, st)" by (cases "m (ov_state s)")
  have pre: "apart (B \<union> M) (o_heap (ov_state s))" "isdir (B \<union> M) (root (o_upper v)) (o_heap (ov_state s))"
    using M by (simp_all add: ov_good_def Let_def)
  note d = safeD [OF assms(2) [of "B \<union> M", unfolded changes_upper_def] pre m]
  have "ov_good v B h0 M (ov_run m s)"
    by (rule ov_good_heap [OF M d(1-3), where F = "{}"]) (simp_all add: ov_run_def m)
  then show ?thesis by (auto simp: ov_inv_def)
qed

lemma handle_flags: "g = f\<lparr>of_offset := n\<rparr> \<Longrightarrow> of_node g = of_node f \<and> canWrite g = canWrite f"
  by (simp add: canWrite_def)

lemma ov_inv_write:
  assumes "ov_inv v B h0 s"
  shows "ov_inv v B h0 (ov_handle i (of_write bs) s)"
proof (cases "i < length (ov_handles s)")
  case True
  obtain M where M: "ov_good v B h0 M s" using assms by (auto simp: ov_inv_def)
  let ?f = "ov_handles s ! i" and ?h = "o_heap (ov_state s)"
  let ?P = "\<lambda>h. canWrite ?f \<longrightarrow> free (B \<union> M) (of_node ?f) h"
  have pre: "apart (B \<union> M) ?h" "?P ?h" using M True by (simp_all add: ov_good_def Let_def)
  obtain r h where m: "of_write bs ?f ?h = (r, h)" by (cases "of_write bs ?f ?h")
  have "safe (B \<union> M) ?P (\<lambda>(k, g) h. g = ?f\<lparr>of_offset := of_offset g\<rparr>) (of_write bs ?f)"
    by (rule safe_of_write) (auto intro!: persists_intros)
  note d = safeD [OF this, of ?h, OF pre m]
  have P': "?P h" using pre(2) free_grows [OF d(3)] by blast
  have "ov_good v B h0 M (ov_handle i (of_write bs) s)"
  proof (rule ov_good_heap [OF M d(1-3), where F = "{g. r = Inr (length bs, g) \<or> (\<exists>k. r = Inr (k, g))}"])
    show "o_heap (ov_state (ov_handle i (of_write bs) s)) = h"
      using True m by (auto simp: ov_handle_def liftO_def split: sum.splits)
    show "set (ov_handles (ov_handle i (of_write bs) s)) \<subseteq> set (ov_handles s) \<union> {g. r = Inr (length bs, g) \<or> (\<exists>k. r = Inr (k, g))}"
      using True m set_update_subset_insert [of "ov_handles s" i] by (fastforce simp: ov_handle_def liftO_def split: sum.splits)
    fix g assume g: "g \<in> {g. r = Inr (length bs, g) \<or> (\<exists>k. r = Inr (k, g))}" "canWrite g"
    then obtain k where "r = Inr (k, g)" by blast
    with d(4) have "g = ?f\<lparr>of_offset := of_offset g\<rparr>" by fastforce
    then show "free (B \<union> M) (of_node g) h" using handle_flags g(2) P' by metis
  qed
  then show ?thesis by (auto simp: ov_inv_def)
qed (simp add: ov_handle_def assms)

lemma apart_upd_any:
  assumes "apart C h" "vtype x = vtype (nd h r)" "children x = children (nd h r)" "parent x = parent (nd h r)"
  shows "apart C (h\<lparr>nodes := (nodes h)[r := x]\<rparr>)"
proof -
  let ?h = "h\<lparr>nodes := (nodes h)[r := x]\<rparr>"
  have fr: "free C s ?h = free C s h" for s by (simp add: free_def)
  have f: "vtype (nd ?h s) = vtype (nd h s)" "children (nd ?h s) = children (nd h s)" "parent (nd ?h s) = parent (nd h s)" for s
    using assms(2-4) by (simp_all add: nd_upd)
  show ?thesis using assms(1) by (simp add: apart_def node_ok_def isdir_def fr f)
qed

lemma of_read_effect:
  assumes "of_read rng n f h = (r, h')"
  shows "(h' = h \<or> h' = h\<lparr>nodes := (nodes h)[of_node f := (nd h (of_node f))\<lparr>atime := clock h\<rparr>]\<rparr>) \<and>
     (\<forall>bs g. r = Inr (bs, g) \<longrightarrow> of_node g = of_node f \<and> canWrite g = canWrite f)"
  using assms
  by (auto simp: of_read_def bnd_def thn_def get_node_def mod_node_def Let_def canWrite_def
      split: ntype.splits if_splits)

lemma ov_inv_read:
  assumes "ov_inv v B h0 s"
  shows "ov_inv v B h0 (ov_handle i (of_read rng n) s)"
proof (cases "i < length (ov_handles s)")
  case True
  obtain M where M: "ov_good v B h0 M s" using assms by (auto simp: ov_inv_def)
  let ?f = "ov_handles s ! i" and ?h = "o_heap (ov_state s)"
  obtain r h where m: "of_read rng n ?f ?h = (r, h)" by (cases "of_read rng n ?f ?h")
  note e = of_read_effect [OF m]
  have a: "apart (B \<union> M) h" using M e apart_upd_any by (auto simp: ov_good_def Let_def)
  have fr: "free C q h = free C q ?h" for C q using e by (auto simp: free_def)
  have di: "isdir C q h = isdir C q ?h" for C q using e by (auto simp: isdir_def fr nd_upd split: if_splits)
  have b: "same_but_atime (nd h0 q) (nd h q)" if "q \<in> B" for q
  proof -
    have "same_but_atime (nd h0 q) (nd ?h q)" using M that by (simp add: ov_good_def Let_def)
    then show ?thesis using e same_but_atime_upd by (auto simp: nd_upd)
  qed
  have s': "o_heap (ov_state (ov_handle i (of_read rng n) s)) = h"
    using True m by (auto simp: ov_handle_def liftO_def split: sum.splits)
  have "canWrite f \<longrightarrow> free (B \<union> M) (of_node f) h" if f: "f \<in> set (ov_handles (ov_handle i (of_read rng n) s))" for f
  proof -
    consider "f \<in> set (ov_handles s)" | bs where "r = Inr (bs, f)"
      using True m f set_update_subset_insert [of "ov_handles s" i]
      by (fastforce simp: ov_handle_def liftO_def split: sum.splits)
    then show ?thesis
    proof cases
      case 1
      then show ?thesis using M by (simp add: ov_good_def Let_def fr)
    next
      case 2
      then have "of_node f = of_node ?f" "canWrite f = canWrite ?f" using e by blast+
      then show ?thesis using M True by (simp add: ov_good_def Let_def fr)
    qed
  qed
  then have "ov_good v B h0 M (ov_handle i (of_read rng n) s)"
    using M a b by (simp add: ov_good_def Let_def s' di)
  then show ?thesis by (auto simp: ov_inv_def)
qed (simp add: ov_handle_def assms)

text \<open>Opening for writing goes to the upper file system.\<close>

lemma safe_open_upper:
  assumes "\<And>h. P h \<Longrightarrow> isdir B (root (o_upper v)) h" "persists P"
    and "flags AND O_ACCMODE \<noteq> 0 \<or> has_flag flags (O_CREAT OR O_TRUNC OR O_APPEND)"
  shows "safeO B P (\<lambda>f h. free B (of_node f) h) (o_open v path flags mode)"
proof -
  have need: "safeO B (\<lambda>h. P h \<and> True) (\<lambda>_ _. True) (if b then thn (copyUp v False p) (ret ()) else ret ())" for b p
    using assms by (intro safe_if safe_thn [OF safe_copyUp] safe_ret) auto
  have P: "persists (\<lambda>h. P h \<and> True)" using assms(2) by simp
  show ?thesis
    unfolding o_open_def Let_def
    by (subst if_P [OF assms(3)], rule safe_bnd [OF safe_getS_any assms(2)], rule safe_thn [OF need P],
        rule safe_thn [OF safe_white(1) P], rule safe_liftO, rule safe_open [OF _ P]) (use assms(1) in auto)
qed

text \<open>A node that nothing refers to can join the frozen set.\<close>

lemma apart_new_frozen:
  assumes "apart C h"
  shows "apart (insert (length (nodes h)) C) (h\<lparr>nodes := nodes h @ [x], nextIno := k\<rparr>)" (is "apart ?C ?h")
proof -
  have fr: "free ?C s ?h = free C s h" for s by (auto simp: free_def)
  have old: "free C s h \<Longrightarrow> nd ?h s = nd h s" for s by (simp add: free_def nd_def nth_append)
  have di: "isdir ?C s ?h = isdir C s h" for s using old [of s] by (auto simp: isdir_def fr)
  have "node_ok ?C ?h (nd ?h s)" if "free C s h" for s
    using apart_node [OF assms that] old [OF that] by (simp add: node_ok_def fr di)
  then show ?thesis using assms by (auto simp: apart_def fr)
qed

text \<open>Opening for reading changes nothing, or adds a merged directory.\<close>

lemma open_read_effect:
  assumes "\<not> (flags AND O_ACCMODE \<noteq> 0 \<or> has_flag flags (O_CREAT OR O_TRUNC OR O_APPEND))"
    "o_open v path flags mode s = (r, s')"
  shows "(s' = s \<or> (\<exists>x k. o_heap s' = (o_heap s)\<lparr>nodes := nodes (o_heap s) @ [x], nextIno := k\<rparr>)) \<and>
     (\<forall>f. r = Inr f \<longrightarrow> \<not> canWrite f)"
proof -
  define finish :: "nat option \<Rightarrow> open_file ovlM" where "finish = (\<lambda>r. case r of
       None \<Rightarrow> throw (VErr 2)
     | Some n \<Rightarrow> bnd (liftO (get_node n)) (\<lambda>x. if has_flag flags O_DIRECTORY \<and> vtype x \<noteq> NDir then throw (VErr 20)
         else liftO (new_open_file n (o_normalize v path) flags)))"
  have fin: "snd (finish q t) = t \<and> (\<forall>f. fst (finish q t) = Inr f \<longrightarrow> \<not> canWrite f)" for q t
    using assms(1)
    by (cases q) (auto simp: finish_def liftO_def bnd_def get_node_def new_open_file_def canWrite_def)
  let ?p = "o_normalize v path"
  let ?u = "node_in (try_resolve (o_upper v) follow ?p (o_heap s))"
  let ?b = "if white v ?p s then None else node_in (try_resolve (o_base v) follow ?p (o_heap s))"
  let ?dir = "\<lambda>r. case r of None \<Rightarrow> False | Some n \<Rightarrow> vtype (nd (o_heap s) n) = NDir"
  have o: "o_open v path flags mode s =
      bnd (if ?dir ?u \<or> ?dir ?b then bnd (liftO (mergeDirNode ?p ?u ?b)) (\<lambda>n. ret (Some n))
           else ret (case ?u of Some n \<Rightarrow> Some n | None \<Rightarrow> ?b)) finish s"
    unfolding o_open_def Let_def if_not_P [OF assms(1)] finish_def by (simp add: bnd_def)
  have "\<exists>q t. o_open v path flags mode s = finish q t \<and> (t = s \<or>
      (\<exists>x k. o_heap t = (o_heap s)\<lparr>nodes := nodes (o_heap s) @ [x], nextIno := k\<rparr>))"
  proof (cases "?dir ?u \<or> ?dir ?b")
    case True
    obtain n x k where "liftO (mergeDirNode ?p ?u ?b) s =
        (Inr n, s\<lparr>o_heap := (o_heap s)\<lparr>nodes := nodes (o_heap s) @ [x], nextIno := k\<rparr>\<rparr>)"
      by (simp add: liftO_def mergeDirNode_def new_node_def Let_def)
    then have "o_open v path flags mode s =
        finish (Some n) (s\<lparr>o_heap := (o_heap s)\<lparr>nodes := nodes (o_heap s) @ [x], nextIno := k\<rparr>\<rparr>)"
      using o [unfolded if_P [OF True]] by (simp add: bnd_def)
    then show ?thesis
      by (intro exI [of _ "Some n"] exI [of _ "s\<lparr>o_heap := (o_heap s)\<lparr>nodes := nodes (o_heap s) @ [x], nextIno := k\<rparr>\<rparr>"])
        (simp, blast)
  next
    case False
    show ?thesis
      by (intro exI [of _ "case ?u of Some n \<Rightarrow> Some n | None \<Rightarrow> ?b"] exI [of _ s])
        (simp only: o if_not_P [OF False] bnd_ret_left simp_thms)
  qed
  then show ?thesis using fin assms(2) by (metis fst_conv snd_conv)
qed

lemma ov_inv_open:
  assumes "ov_inv v B h0 s"
  shows "ov_inv v B h0 (ov_step v (OvOpen p fl m) s)"
proof -
  obtain M where M: "ov_good v B h0 M s" using assms by (auto simp: ov_inv_def)
  have pre: "apart (B \<union> M) (o_heap (ov_state s))" "isdir (B \<union> M) (root (o_upper v)) (o_heap (ov_state s))"
    using M by (simp_all add: ov_good_def Let_def)
  obtain r st where o: "o_open v p fl m (ov_state s) = (r, st)" by (cases "o_open v p fl m (ov_state s)")
  let ?s' = "ov_step v (OvOpen p fl m) s"
  have s': "ov_state ?s' = st" "set (ov_handles ?s') \<subseteq> set (ov_handles s) \<union> {f. r = Inr f}"
    using o by (cases r; simp)+
  show ?thesis
  proof (cases "fl AND O_ACCMODE \<noteq> 0 \<or> has_flag fl (O_CREAT OR O_TRUNC OR O_APPEND)")
    case True
    have "safeO (B \<union> M) (isdir (B \<union> M) (root (o_upper v))) (\<lambda>f h. free (B \<union> M) (of_node f) h) (o_open v p fl m)"
      by (rule safe_open_upper [OF _ _ True]) (auto intro: persists_intros)
    note d = safeD [OF this pre o]
    have "ov_good v B h0 M ?s'"
      by (rule ov_good_heap [OF M d(1-3), where F = "{f. r = Inr f}"]) (use s' d(4) in auto)
    then show ?thesis by (auto simp: ov_inv_def)
  next
    case False
    note e = open_read_effect [OF False o]
    have nw: "\<not> canWrite f" if "f \<in> set (ov_handles ?s')" "f \<notin> set (ov_handles s)" for f using e s'(2) that by auto
    from e consider "st = ov_state s"
      | x k where "o_heap st = (o_heap (ov_state s))\<lparr>nodes := nodes (o_heap (ov_state s)) @ [x], nextIno := k\<rparr>" by blast
    then show ?thesis
    proof cases
      case 1
      have "ov_good v B h0 M ?s'"
        using M nw unfolding ov_good_def Let_def s'(1) 1 by blast
      then show ?thesis by (auto simp: ov_inv_def)
    next
      case (2 x k)
      let ?h = "o_heap (ov_state s)" and ?n = "length (nodes (o_heap (ov_state s)))"
      have C: "B \<union> insert ?n M = insert ?n (B \<union> M)" by blast
      have fr: "free (insert ?n (B \<union> M)) q (o_heap st) = free (B \<union> M) q ?h" for q by (auto simp: free_def 2)
      have old: "q < ?n \<Longrightarrow> nd (o_heap st) q = nd ?h q" for q by (simp add: 2 nd_def nth_append)
      have "B \<subseteq> {..<?n}" using pre(1) by (auto simp: apart_def)
      then have "same_but_atime (nd h0 q) (nd (o_heap st) q)" if "q \<in> B" for q
        using M that old [of q] by (auto simp: ov_good_def Let_def)
      moreover have "isdir (insert ?n (B \<union> M)) (root (o_upper v)) (o_heap st)"
        using pre(2) old [of "root (o_upper v)"] by (auto simp: isdir_def fr) (simp add: free_def)
      moreover have "canWrite f \<longrightarrow> free (insert ?n (B \<union> M)) (of_node f) (o_heap st)" if "f \<in> set (ov_handles ?s')" for f
        using M nw [OF that] that by (auto simp: ov_good_def Let_def fr)
      ultimately have "ov_good v B h0 (insert ?n M) ?s'"
        using apart_new_frozen [OF pre(1), where x = x and k = k] unfolding ov_good_def Let_def s'(1) C 2 [symmetric] by blast
      then show ?thesis by (auto simp: ov_inv_def)
    qed
  qed
qed

lemma ov_inv_step: "ov_inv v B h0 s \<Longrightarrow> ov_inv v B h0 (ov_step v x s)"
proof (cases x)
  case (OvOpen p fl m)
  then show "ov_inv v B h0 s \<Longrightarrow> ?thesis" using ov_inv_open by simp
qed (simp only: ov_step.simps; (erule ov_inv_run ov_inv_write ov_inv_read);
    (rule o_create_upper o_meta_upper o_truncate_link_upper o_remove_upper))+

interpretation overlay_run: stepper "ov_step v" "ov_inv v B h0" for v B h0
  by unfold_locales (rule ov_inv_step)

text \<open>
  C27: the base of an overlay is read-only. Let the nodes of the base be a set that the upper file system does
  not refer to. Whatever sequence of overlay operations follows, creating, changing, linking, renaming and
  removing through paths, opening, and reading and writing through the opened handles, every node of the base
  keeps its type, name, entries, bytes, link target, owner and mode; at most its access time changes.
\<close>

theorem overlay_base_unchanged:
  assumes "apart B h0" "isdir B (root (o_upper v)) h0"
    and "s = foldl (\<lambda>s x. ov_step v x s) \<lparr>ov_state = \<lparr>o_heap = h0, whiteouts = ws\<rparr>, ov_handles = []\<rparr> ops"
  shows "\<forall>r \<in> B. nd (o_heap (ov_state s)) r = (nd h0 r)\<lparr>atime := atime (nd (o_heap (ov_state s)) r)\<rparr>"
proof -
  have "ov_good v B h0 {} \<lparr>ov_state = \<lparr>o_heap = h0, whiteouts = ws\<rparr>, ov_handles = []\<rparr>"
    using assms(1,2) by (simp add: ov_good_def)
  then have "ov_inv v B h0 \<lparr>ov_state = \<lparr>o_heap = h0, whiteouts = ws\<rparr>, ov_handles = []\<rparr>"
    unfolding ov_inv_def by blast
  from overlay_run.run_inv [OF this, of ops] have "ov_inv v B h0 s" using assms(3) by simp
  then show ?thesis by (auto simp: ov_inv_def ov_good_def Let_def same_but_atime_def)
qed

text \<open>The small file system as a base, with an empty upper one beside it.\<close>

definition two_fs :: heap where
  "two_fs = small_fs\<lparr>nodes := nodes small_fs @ [(blank_node NDir ''/'' 1 7)\<lparr>parent := Some 3\<rparr>]\<rparr>"

definition small_overlay :: overlay where
  "small_overlay = new_overlay small_vfs \<lparr>root = 3, cwd = ''/'', watchers = []\<rparr> None"

definition over :: ostate where
  "over = \<lparr>o_heap = two_fs, whiteouts = []\<rparr>"

lemma same_fields: "b = a\<lparr>atime := t\<rparr> \<Longrightarrow> vdata b = vdata a \<and> children b = children a"
  by simp

theorem overlay_base_unchanged_witness:
  "(let s = foldl (\<lambda>s x. ov_step small_overlay x s) \<lparr>ov_state = over, ov_handles = []\<rparr>
        [OvChmod ''/a/f'' 0, OvOpen ''/a/f'' 0x201 0, OvWrite 0 [9], OvUnlink ''/a/f'', OvRmdir ''/a'']
    in vdata (nd (o_heap (ov_state s)) 2) = [1, 2] \<and> children (nd (o_heap (ov_state s)) 1) = [(''f'', 2)])"
proof -
  have a: "apart {..<3} two_fs"
    unfolding apart_def two_fs_def small_fs_def
    by (auto simp: free_def isdir_def node_ok_def nd_def blank_node_def less_Suc_eq numeral_eq_Suc)
  have d: "isdir {..<3} (root (o_upper small_overlay)) two_fs"
    by (simp add: isdir_def free_def two_fs_def small_fs_def small_overlay_def new_overlay_def nd_def blank_node_def Let_def)
  have old: "vdata (nd two_fs 2) = [1, 2]" "children (nd two_fs 1) = [(''f'', 2)]" by code_simp+
  define s where "s = foldl (\<lambda>s x. ov_step small_overlay x s) \<lparr>ov_state = over, ov_handles = []\<rparr>
      [OvChmod ''/a/f'' 0, OvOpen ''/a/f'' 0x201 0, OvWrite 0 [9], OvUnlink ''/a/f'', OvRmdir ''/a'']"
  have "\<forall>r \<in> {..<3}. nd (o_heap (ov_state s)) r = (nd two_fs r)\<lparr>atime := atime (nd (o_heap (ov_state s)) r)\<rparr>"
    by (rule overlay_base_unchanged [OF a d]) (rule s_def [unfolded over_def])
  then have "nd (o_heap (ov_state s)) 2 = (nd two_fs 2)\<lparr>atime := atime (nd (o_heap (ov_state s)) 2)\<rparr>"
    "nd (o_heap (ov_state s)) 1 = (nd two_fs 1)\<lparr>atime := atime (nd (o_heap (ov_state s)) 1)\<rparr>" by auto
  from same_fields [OF this(1)] same_fields [OF this(2)] old show ?thesis
    unfolding s_def [symmetric] Let_def by simp
qed

section \<open>Departures from overlay semantics\<close>

text \<open>A whiteout hides only its own path: below a removed base directory the files stay visible.\<close>

lemma removed_directory_still_readable:
  "(let s = snd (o_rmdir small_overlay ''/a'' over) in
      fst (o_rmdir small_overlay ''/a'' over) = Inr () \<and> \<not> o_exists small_overlay ''/a'' s \<and>
      fst (o_readFile small_overlay ''/a/f'' s) = Inr [1, 2])"
  by code_simp

text \<open>Removing a path that does not exist reports success.\<close>

lemma unlink_missing_succeeds: "fst (o_unlink small_overlay ''/nothing'' over) = Inr ()"
  by code_simp

text \<open>Renaming a directory of the base copies the directory without its entries and hides the old one.\<close>

lemma rename_loses_entries:
  "(let s = snd (o_rename small_overlay ''/a'' ''/z'' over) in
      fst (o_rename small_overlay ''/a'' ''/z'' over) = Inr () \<and> o_exists small_overlay ''/z'' s \<and>
      \<not> o_exists small_overlay ''/z/f'' s)"
  by code_simp

text \<open>A removed base entry is hidden from \<open>list\<close> but still returned by reading the opened directory.\<close>

lemma readdir_shows_removed:
  "(let s = snd (o_unlink small_overlay ''/a/f'' over); (f, s') = o_open small_overlay ''/a'' 0 0 s in
      o_list small_overlay ''/a'' s = [] \<and>
      (case f of Inl _ \<Rightarrow> False | Inr g \<Rightarrow> (''f'', 2) \<in> (case fst (readdir g (o_heap s')) of Inl _ \<Rightarrow> {} | Inr (l, _) \<Rightarrow> set l)))"
  by code_simp

end
