(* ===== verification/Tar.thy ===== *)
theory Tar
  imports Vfs_Files
begin

text \<open>
  The tar reader and writer of \<open>src/tar.js\<close>. Header fields are read as JavaScript reads them: octal text goes
  through \<open>parseInt\<close>, so a number can be negative, offsets are then integers that need not advance, and the
  reading loop need not end. The loop is a partial function whose value is \<open>None\<close> when it runs forever.
  Decompression is the host's.
\<close>

section \<open>Text fields\<close>

definition field_text :: "u8 list \<Rightarrow> string" where
  "field_text bs = bytesToString (takeWhile (\<lambda>b. b \<noteq> 0) bs)"

text \<open>White space that \<open>trim\<close> and \<open>parseInt\<close> skip, for text of single-byte characters.\<close>

definition is_space :: "char \<Rightarrow> bool" where
  "is_space c \<longleftrightarrow> c \<in> {CHR 0x09, CHR 0x0A, CHR 0x0B, CHR 0x0C, CHR 0x0D, CHR 0x20}"

definition trim :: "string \<Rightarrow> string" where
  "trim s = rev (dropWhile is_space (rev (dropWhile is_space s)))"

definition oct_digit :: "char \<Rightarrow> bool" where
  "oct_digit c \<longleftrightarrow> c \<in> set ''01234567''"

definition digit_val :: "char \<Rightarrow> nat" where
  "digit_val c = of_char c - 48"

definition digits_val :: "nat \<Rightarrow> string \<Rightarrow> nat" where
  "digits_val base s = foldl (\<lambda>n c. n * base + digit_val c) 0 s"

text \<open>\<open>parseInt(raw, 8) || 0\<close>: an optional sign and the longest run of octal digits; no digits is 0.\<close>

definition parseInt8 :: "string \<Rightarrow> int" where
  "parseInt8 s =
     (let neg = (s \<noteq> [] \<and> hd s = CHR ''-'');
          body = (if s \<noteq> [] \<and> hd s \<in> {CHR ''-'', CHR ''+''} then tl s else s);
          n = int (digits_val 8 (takeWhile oct_digit body))
      in if neg then - n else n)"

definition parseOctal :: "u8 list \<Rightarrow> int" where
  "parseOctal bs = parseInt8 (trim (field_text bs))"

section \<open>Paths\<close>

definition tar_join :: "string \<Rightarrow> string \<Rightarrow> string" where
  "tar_join rt path =
     (let r = normalizePath rt; p = normalizePath path in
      if r = ''/'' then p else if p = ''/'' then r else normalizePath (r @ ''/'' @ tl p))"

definition isGzip :: "u8 list \<Rightarrow> bool" where
  "isGzip bs \<longleftrightarrow> length bs \<ge> 2 \<and> bs ! 0 = 0x1f \<and> bs ! 1 = 0x8b"

text \<open>\<open>gunzipBytes\<close>: \<open>inflate\<close> is the host's decompressor, absent in some hosts.\<close>

definition gunzipBytes :: "(u8 list \<Rightarrow> u8 list) option \<Rightarrow> u8 list \<Rightarrow> string + u8 list" where
  "gunzipBytes inflate bs =
     (if \<not> isGzip bs then Inr bs
      else case inflate of Some f \<Rightarrow> Inr (f bs) | None \<Rightarrow> Inl ''gzip rootfs support requires DecompressionStream'')"

definition deviceNameFromPath :: "string \<Rightarrow> string" where
  "deviceNameFromPath p =
     (if p = ''/dev/null'' then ''null'' else if p = ''/dev/zero'' then ''zero'' else if p = ''/dev/random'' then ''random''
      else if p = ''/dev/urandom'' then ''urandom'' else if p = ''/dev/tty'' \<or> p = ''/dev/console'' then ''tty''
      else ''device'')"

section \<open>Reading\<close>

text \<open>\<open>subarray(b, e)\<close>: a negative index counts from the end, an index past the end is the end.\<close>

definition js_index :: "nat \<Rightarrow> int \<Rightarrow> nat" where
  "js_index len i = (if i < 0 then nat (int len + i) else min (nat i) len)"

definition subarray :: "int \<Rightarrow> int \<Rightarrow> 'a list \<Rightarrow> 'a list" where
  "subarray b e xs = (let i = js_index (length xs) b; j = js_index (length xs) e in take (j - i) (drop i xs))"

record tar_entry =
  te_path :: string
  te_mode :: int
  te_uid :: int
  te_gid :: int
  te_size :: int
  te_mtime :: int
  te_checksum :: int
  te_checksumValid :: bool
  te_typeflag :: char
  te_linkname :: string
  te_magic :: string
  te_uname :: string
  te_gname :: string
  te_devmajor :: int
  te_devminor :: int
  te_data :: "u8 list"

text \<open>The sum over the header with the checksum field read as spaces; missing bytes make it \<open>NaN\<close>, here \<open>None\<close>.\<close>

definition tar_sum :: "u8 list \<Rightarrow> int option" where
  "tar_sum h = (if length h < 512 then None
     else Some (sum_list (map (\<lambda>i. if 148 \<le> i \<and> i < 156 then 0x20 else uint (h ! i)) [0..<512])))"

definition header_empty :: "u8 list \<Rightarrow> bool" where
  "header_empty h \<longleftrightarrow> length h = 512 \<and> (\<forall>b \<in> set h. b = 0)"

definition typeflag_of :: "u8 list \<Rightarrow> char" where
  "typeflag_of h = (if 156 < length h then char_of (unat (h ! 156)) else CHR 0x00)"

definition entry_of :: "u8 list \<Rightarrow> string option \<Rightarrow> string option \<Rightarrow> u8 list \<Rightarrow> tar_entry" where
  "entry_of h longName longLink data =
     (let mode = parseOctal (subarray 100 108 h);
          checksum = parseOctal (subarray 148 156 h);
          prefix = field_text (subarray 345 500 h);
          short = field_text (subarray 0 100 h);
          name = (case longName of Some n \<Rightarrow> if n \<noteq> [] then n else if prefix \<noteq> [] then prefix @ ''/'' @ short else short
             | None \<Rightarrow> if prefix \<noteq> [] then prefix @ ''/'' @ short else short);
          link0 = field_text (subarray 157 257 h);
          lnk = (case longLink of Some n \<Rightarrow> if n \<noteq> [] then n else link0 | None \<Rightarrow> link0)
      in \<lparr>te_path = normalizePath name, te_mode = (if mode = 0 then 0x1a4 else mode),
          te_uid = parseOctal (subarray 108 116 h), te_gid = parseOctal (subarray 116 124 h),
          te_size = parseOctal (subarray 124 136 h), te_mtime = parseOctal (subarray 136 148 h), te_checksum = checksum,
          te_checksumValid = (checksum = 0 \<or> tar_sum h = Some checksum), te_typeflag = typeflag_of h, te_linkname = lnk,
          te_magic = field_text (subarray 257 263 h), te_uname = field_text (subarray 265 297 h),
          te_gname = field_text (subarray 297 329 h), te_devmajor = parseOctal (subarray 329 337 h),
          te_devminor = parseOctal (subarray 337 345 h), te_data = data\<rparr>)"

text \<open>A pending long name is cleared when it is used; an empty one is not used and stays.\<close>

definition keep_pending :: "string option \<Rightarrow> string option" where
  "keep_pending p = (case p of Some n \<Rightarrow> if n \<noteq> [] then None else p | None \<Rightarrow> None)"

definition next_off :: "int \<Rightarrow> int \<Rightarrow> int" where
  "next_off off sz = off + 512 + (- ((- sz) div 512)) * 512"

partial_function (option) parse_loop ::
    "u8 list \<Rightarrow> int \<Rightarrow> string option \<Rightarrow> string option \<Rightarrow> tar_entry list \<Rightarrow> tar_entry list option" where
  "parse_loop bs off longName longLink acc =
     (if off + 512 > int (length bs) then Some acc
      else let h = subarray off (off + 512) bs in
        if header_empty h then Some acc
        else let size = parseOctal (subarray 124 136 h);
                 data = subarray (off + 512) (min (off + 512 + size) (int (length bs))) bs;
                 off' = next_off off size
             in if typeflag_of h = CHR ''L'' then parse_loop bs off' (Some (field_text data)) longLink acc
                else if typeflag_of h = CHR ''K'' then parse_loop bs off' longName (Some (field_text data)) acc
                else parse_loop bs off' (keep_pending longName) (keep_pending longLink)
                       (acc @ [entry_of h longName longLink data]))"

definition parseTarEntries :: "u8 list \<Rightarrow> tar_entry list option" where
  "parseTarEntries bs = parse_loop bs 0 None None []"

section \<open>Mounting\<close>

record mount_opts =
  mo_root :: string
  mo_strip :: bool
  mo_ignore :: bool

definition is_package_meta :: "string \<Rightarrow> bool" where
  "is_package_meta p \<longleftrightarrow> p = ''/.PKGINFO'' \<or> p = ''/.SIGN'' \<or> take 9 p = ''/.INSTALL''"

definition mode_or :: "u32 \<Rightarrow> u32 \<Rightarrow> u32" where
  "mode_or m d = (if m = 0 then d else m)"

text \<open>\<open>None\<close> is an unsupported type, skipped. A hard link is deferred: nothing is created here.\<close>

definition mount_node :: "vfs \<Rightarrow> string \<Rightarrow> tar_entry \<Rightarrow> unit vfsM option" where
  "mount_node v tgt e =
     (let t = te_typeflag e; mode = word_of_int (te_mode e) AND 0xfff; unit = (\<lambda>m. thn m (ret ()));
          parents = unit (mkdirp v (dirname tgt) 0x1ed) in
      if t = CHR ''5'' then Some (unit (mkdirp v tgt (mode_or mode 0x1ed)))
      else if t = CHR ''2'' then Some (thn parents (unit (vfs_symlink v (te_linkname e) tgt)))
      else if t = CHR ''1'' then Some (ret ())
      else if t = CHR ''3'' \<or> t = CHR ''4'' then Some (thn parents (unit (mknod v tgt (deviceNameFromPath tgt) (mode_or mode 0x1b6)
             (push_bit 8 (word_of_int (te_devmajor e) AND 0xfff) OR (word_of_int (te_devminor e) AND 0xff)))))
      else if t = CHR ''6'' then Some (thn parents (unit (mknod v tgt ''fifo'' (mode_or mode 0x1b6) 0)))
      else if t = CHR ''0'' \<or> t = CHR 0x00 then Some (thn parents (unit (writeFile v tgt (te_data e) (mode_or mode 0x1a4))))
      else None)"

definition stamp_entry :: "vfs \<Rightarrow> string \<Rightarrow> tar_entry \<Rightarrow> unit vfsM" where
  "stamp_entry v tgt e = bnd (resolve_node v nofollow tgt) (\<lambda>r.
     mod_node r (\<lambda>n. (n\<lparr>uid := to_u32 (te_uid e), gid := to_u32 (te_gid e)\<rparr>)
       \<lparr>atime := (if te_mtime e \<noteq> 0 then uint (to_u32 (te_mtime e)) else atime n),
        mtime := (if te_mtime e \<noteq> 0 then uint (to_u32 (te_mtime e)) else mtime n),
        ctime := (if te_mtime e \<noteq> 0 then uint (to_u32 (te_mtime e)) else ctime n)\<rparr>))"

text \<open>\<open>try\<close> around one entry: the error is dropped when errors are ignored. The value counts mounted entries.\<close>

definition guarded :: "bool \<Rightarrow> unit vfsM \<Rightarrow> nat vfsM" where
  "guarded ignore m h = (case m h of
     (Inr _, h') \<Rightarrow> (Inr 1, h') | (Inl e, h') \<Rightarrow> if ignore then (Inr 0, h') else (Inl e, h'))"

definition mount_entry :: "vfs \<Rightarrow> mount_opts \<Rightarrow> tar_entry \<Rightarrow> nat vfsM" where
  "mount_entry v opts e =
     (if mo_strip opts \<and> is_package_meta (te_path e) then ret 0
      else let tgt = tar_join (mo_root opts) (te_path e) in
        case mount_node v tgt e of
          None \<Rightarrow> ret 0
        | Some m \<Rightarrow> guarded (mo_ignore opts) (thn m (stamp_entry v tgt e)))"

definition is_deferred :: "mount_opts \<Rightarrow> tar_entry \<Rightarrow> bool" where
  "is_deferred opts e \<longleftrightarrow> te_typeflag e = CHR ''1'' \<and> \<not> (mo_strip opts \<and> is_package_meta (te_path e))"

definition mount_link :: "vfs \<Rightarrow> mount_opts \<Rightarrow> tar_entry \<Rightarrow> nat vfsM" where
  "mount_link v opts e =
     guarded (mo_ignore opts) (link v (tar_join (mo_root opts) (te_linkname e)) (tar_join (mo_root opts) (te_path e)))"

fun sumM :: "'a list \<Rightarrow> ('a \<Rightarrow> nat vfsM) \<Rightarrow> nat vfsM" where
  "sumM [] f = ret 0"
| "sumM (x # xs) f = bnd (f x) (\<lambda>n. bnd (sumM xs f) (\<lambda>k. ret (n + k)))"

text \<open>\<open>None\<close> when reading the archive runs forever.\<close>

definition mountTar :: "vfs \<Rightarrow> mount_opts \<Rightarrow> u8 list \<Rightarrow> (nat \<times> tar_entry list) vfsM option" where
  "mountTar v opts bs =
     (case parseTarEntries bs of
        None \<Rightarrow> None
      | Some es \<Rightarrow> Some (bnd (sumM es (mount_entry v opts)) (\<lambda>n.
          bnd (sumM (filter (is_deferred opts) es) (mount_link v opts)) (\<lambda>k. ret (n + k, es)))))"

section \<open>Writing\<close>

fun to_oct :: "nat \<Rightarrow> string" where
  "to_oct n = (if n < 8 then [char_of (48 + n)] else to_oct (n div 8) @ [char_of (48 + n mod 8)])"

declare to_oct.simps [simp del]

definition put_bytes :: "nat \<Rightarrow> u8 list \<Rightarrow> u8 list \<Rightarrow> u8 list" where
  "put_bytes off bs buf = take off buf @ bs @ drop (off + length bs) buf"

definition writeString :: "nat \<Rightarrow> nat \<Rightarrow> string \<Rightarrow> u8 list \<Rightarrow> u8 list" where
  "writeString off len s buf = put_bytes off (take len (stringToBytes s)) buf"

definition last_n :: "nat \<Rightarrow> 'a list \<Rightarrow> 'a list" where
  "last_n n xs = drop (length xs - n) xs"

definition writeOctal :: "nat \<Rightarrow> nat \<Rightarrow> nat \<Rightarrow> u8 list \<Rightarrow> u8 list" where
  "writeOctal off len n buf =
     writeString off len (last_n (len - 1) (padStart (len - 1) (CHR ''0'') (to_oct n)) @ [CHR 0x00]) buf"

record tar_file =
  tf_path :: string
  tf_data :: "u8 list"
  tf_mode :: nat
  tf_type :: char
  tf_uid :: nat
  tf_gid :: nat
  tf_mtime :: nat
  tf_linkname :: string

definition tar_data :: "tar_file \<Rightarrow> u8 list" where
  "tar_data f = (if tf_type f = CHR ''5'' then [] else tf_data f)"

definition tar_header0 :: "tar_file \<Rightarrow> u8 list" where
  "tar_header0 f =
     (let p = dropWhile (\<lambda>c. c = CHR ''/'') (tf_path f);
          h1 = writeString 0 100 p (replicate 512 0);
          h2 = writeOctal 100 8 (tf_mode f) h1;
          h3 = writeOctal 108 8 (tf_uid f) h2;
          h4 = writeOctal 116 8 (tf_gid f) h3;
          h5 = writeOctal 124 12 (length (tar_data f)) h4;
          h6 = writeOctal 136 12 (tf_mtime f) h5;
          h7 = put_bytes 148 (replicate 8 0x20) h6;
          h8 = put_bytes 156 [word_of_nat (of_char (tf_type f))] h7;
          h9 = (if tf_linkname f \<noteq> [] then writeString 157 100 (tf_linkname f) h8 else h8);
          h10 = writeString 257 6 ''ustar'' h9
      in writeString 263 2 ''00'' h10)"

definition tar_header :: "tar_file \<Rightarrow> u8 list" where
  "tar_header f =
     (let h = tar_header0 f; s = sum_list (map unat h)
      in writeString 148 8 (padStart 6 (CHR ''0'') (to_oct s) @ [CHR 0x00, CHR '' '']) h)"

definition tar_chunk :: "tar_file \<Rightarrow> u8 list" where
  "tar_chunk f = tar_header f @ tar_data f @ replicate ((512 - length (tar_data f) mod 512) mod 512) 0"

definition createTar :: "tar_file list \<Rightarrow> u8 list" where
  "createTar fs = concat (map tar_chunk fs) @ replicate 1024 0"

end
