(* ===== verification/Tar_Props.thy ===== *)
theory Tar_Props
  imports Tar Vfs_Props
begin

text \<open>
  What the tar code promises: an archive that \<open>createTar\<close> wrote is read back, and reading ends on every archive
  whose size fields are not negative.
\<close>

section \<open>Octal numbers\<close>

lemma oct_char: "d < 8 \<Longrightarrow> oct_digit (char_of (48 + d :: nat))"
proof -
  have "\<forall>d \<in> set [0..<8]. oct_digit (char_of (48 + d :: nat))" by code_simp
  then show "d < 8 \<Longrightarrow> ?thesis" by simp
qed

lemma digit_val_char: "d < 8 \<Longrightarrow> digit_val (char_of (48 + d :: nat)) = d"
  by (simp add: digit_val_def)

lemma digits_val_append: "digits_val b (s @ [c]) = digits_val b s * b + digit_val c"
  by (simp add: digits_val_def)

lemma to_oct_digits: "c \<in> set (to_oct n) \<Longrightarrow> oct_digit c"
  by (induction n rule: to_oct.induct) (subst (asm) (2) to_oct.simps, auto intro: oct_char split: if_splits)

lemma to_oct_val: "digits_val 8 (to_oct n) = n"
proof (induction n rule: to_oct.induct)
  case (1 n)
  then show ?case
    by (subst to_oct.simps) (auto simp: digits_val_append digit_val_char, simp add: digits_val_def digit_val_char)
qed

lemma to_oct_length: "n < 8 ^ k \<Longrightarrow> 0 < k \<Longrightarrow> length (to_oct n) \<le> k"
proof (induction n arbitrary: k rule: to_oct.induct)
  case (1 n)
  show ?case
  proof (cases "n < 8")
    case False
    then obtain j where j: "k = Suc j" "0 < j" using 1(2,3) by (cases k; cases "k - 1") auto
    have "length (to_oct (n div 8)) \<le> j" using 1(1) [OF False, of j] 1(2) j by (simp add: div_less_iff_less_mult mult.commute)
    then show ?thesis using False j by (subst to_oct.simps) simp
  qed (use 1(3) in \<open>simp add: to_oct.simps [of n]\<close>)
qed

lemma to_oct_nonempty [simp]: "to_oct n \<noteq> []"
  by (subst to_oct.simps) simp

lemma pad_val: "digits_val 8 (padStart k (CHR ''0'') s) = digits_val 8 s"
proof -
  have "foldl (\<lambda>n c. n * 8 + digit_val c) 0 (replicate j (CHR ''0'')) = 0" for j
    by (induction j) (simp_all add: digit_val_def)
  then show ?thesis by (simp add: padStart_def digits_val_def)
qed

definition oct_text :: "nat \<Rightarrow> nat \<Rightarrow> string" where
  "oct_text k n = padStart k (CHR ''0'') (to_oct n)"

lemma oct_text:
  assumes "n < 8 ^ k" "0 < k"
  shows "length (oct_text k n) = k" "\<forall>c \<in> set (oct_text k n). oct_digit c" "digits_val 8 (oct_text k n) = n"
  using to_oct_length [OF assms] to_oct_digits [of _ n]
  by (auto simp: oct_text_def padStart_def pad_val [unfolded padStart_def] to_oct_val) (simp add: oct_digit_def)

lemma digit_props: "oct_digit c \<Longrightarrow> \<not> is_space c \<and> c \<noteq> CHR ''-'' \<and> c \<noteq> CHR ''+'' \<and> c \<noteq> CHR 0x00"
  by (auto simp: oct_digit_def is_space_def)

lemma field_text_stop:
  assumes "\<forall>c \<in> set s. c \<noteq> CHR 0x00"
  shows "field_text (stringToBytes s @ 0 # rest) = s" "field_text (stringToBytes s) = s"
proof -
  have "word_of_nat (of_char c) \<noteq> (0 :: u8)" if "c \<noteq> CHR 0x00" for c
  proof
    assume "word_of_nat (of_char c) = (0 :: u8)"
    then have "unat (word_of_nat (of_char c) :: u8) = 0" by simp
    then have "(of_char c :: nat) = 0" by (simp add: unat_of_nat)
    then have "c = char_of (0 :: nat)" by (metis char_of_char)
    with that show False by (simp add: char_of_def)
  qed
  then have "\<forall>b \<in> set (stringToBytes s). b \<noteq> 0" using assms by (auto simp: stringToBytes_def)
  then show "field_text (stringToBytes s @ 0 # rest) = s" "field_text (stringToBytes s) = s"
    by (simp_all add: field_text_def takeWhile_append2 takeWhile_eq_all_conv [THEN iffD2])
qed

lemma trim_digits:
  assumes "\<forall>c \<in> set s. oct_digit c"
  shows "trim s = s"
proof -
  have "dropWhile is_space xs = xs" if "\<forall>c \<in> set xs. oct_digit c" for xs
    using that digit_props by (cases xs) auto
  then show ?thesis using assms by (simp add: trim_def)
qed

lemma parseOctal_digits:
  assumes "\<forall>c \<in> set s. oct_digit c" "s \<noteq> []"
  shows "parseOctal (stringToBytes s @ 0 # rest) = int (digits_val 8 s)"
proof -
  have ft: "field_text (stringToBytes s @ 0 # rest) = s" using assms digit_props by (intro field_text_stop) blast
  have "oct_digit (hd s)" using assms by simp
  then have hd: "hd s \<noteq> CHR ''-''" "hd s \<noteq> CHR ''+''" using digit_props by blast+
  have tw: "takeWhile oct_digit s = s" using assms takeWhile_eq_all_conv by blast
  have "parseInt8 s = int (digits_val 8 s)" using hd by (simp add: parseInt8_def Let_def tw)
  then show ?thesis by (simp add: parseOctal_def ft trim_digits [OF assms(1)])
qed

lemma parseOctal_zeros: "parseOctal (replicate n 0) = 0"
  by (cases n) (simp_all add: parseOctal_def field_text_def trim_def parseInt8_def digits_val_def bytesToString_def Let_def)

lemma field_text_zeros: "field_text (replicate n 0) = []"
  by (cases n) (simp_all add: field_text_def bytesToString_def)

section \<open>The header\<close>

definition fld :: "nat \<Rightarrow> u8 list \<Rightarrow> u8 list" where
  "fld n bs = bs @ replicate (n - length bs) 0"

definition octf :: "nat \<Rightarrow> nat \<Rightarrow> u8 list" where
  "octf k n = stringToBytes (oct_text (k - 1) n) @ [0]"

lemma length_fld [simp]: "length bs \<le> n \<Longrightarrow> length (fld n bs) = n"
  by (simp add: fld_def)

lemma length_octf: "n < 8 ^ (k - 1) \<Longrightarrow> 1 < k \<Longrightarrow> length (octf k n) = k"
  using oct_text(1) [of n "k - 1"] by (simp add: octf_def)

lemma put_field:
  "length xs = off \<Longrightarrow> length b \<le> n \<Longrightarrow> put_bytes off b (xs @ replicate n 0 @ zs) = xs @ fld n b @ zs"
  by (simp add: put_bytes_def fld_def)

lemma put_over: "length xs = off \<Longrightarrow> length ys = length b \<Longrightarrow> put_bytes off b (xs @ ys @ zs) = xs @ b @ zs"
  by (simp add: put_bytes_def)

lemma writeOctal_eq:
  assumes "n < 8 ^ (k - 1)" "1 < k" "length xs = off"
  shows "writeOctal off k n (xs @ replicate k 0 @ zs) = xs @ octf k n @ zs"
proof -
  have l: "length (oct_text (k - 1) n) = k - 1" using oct_text(1) [of n "k - 1"] assms by simp
  then have "last_n (k - 1) (padStart (k - 1) (CHR ''0'') (to_oct n)) = oct_text (k - 1) n"
    by (simp add: last_n_def oct_text_def)
  moreover have "stringToBytes [CHR 0x00] = [0]" by (simp add: stringToBytes_def)
  ultimately have "writeOctal off k n (xs @ replicate k 0 @ zs) = put_bytes off (octf k n) (xs @ replicate k 0 @ zs)"
    using l assms(2) by (simp add: writeOctal_def writeString_def octf_def stringToBytes_def)
  then show ?thesis using put_over [OF assms(3), of "replicate k 0" "octf k n"] length_octf [OF assms(1,2)] by simp
qed

definition plain_text :: "string \<Rightarrow> nat \<Rightarrow> bool" where
  "plain_text s n \<longleftrightarrow> length s \<le> n \<and> (\<forall>c \<in> set s. c \<noteq> CHR 0x00)"

definition rel_path :: "tar_file \<Rightarrow> string" where
  "rel_path f = dropWhile (\<lambda>c. c = CHR ''/'') (tf_path f)"

text \<open>The files \<open>createTar\<close> can represent.\<close>

definition tar_ok :: "tar_file \<Rightarrow> bool" where
  "tar_ok f \<longleftrightarrow> rel_path f \<noteq> [] \<and> plain_text (rel_path f) 100 \<and> plain_text (tf_linkname f) 100 \<and>
     0 < tf_mode f \<and> tf_mode f < 8 ^ 7 \<and> tf_uid f < 8 ^ 7 \<and> tf_gid f < 8 ^ 7 \<and>
     length (tar_data f) < 8 ^ 11 \<and> tf_mtime f < 8 ^ 11 \<and> tf_type f \<noteq> CHR ''L'' \<and> tf_type f \<noteq> CHR ''K''"

definition front :: "tar_file \<Rightarrow> u8 list" where
  "front f = fld 100 (stringToBytes (rel_path f)) @ octf 8 (tf_mode f) @ octf 8 (tf_uid f) @ octf 8 (tf_gid f) @
     octf 12 (length (tar_data f)) @ octf 12 (tf_mtime f)"

definition rear :: "tar_file \<Rightarrow> u8 list" where
  "rear f = [word_of_nat (of_char (tf_type f))] @ fld 100 (stringToBytes (tf_linkname f)) @
     fld 6 (stringToBytes ''ustar'') @ stringToBytes ''00'' @ replicate 247 0"

lemma front_lengths:
  assumes "tar_ok f"
  shows "length (fld 100 (stringToBytes (rel_path f))) = 100" "length (octf 8 (tf_mode f)) = 8"
    "length (octf 8 (tf_uid f)) = 8" "length (octf 8 (tf_gid f)) = 8" "length (octf 12 (length (tar_data f))) = 12"
    "length (octf 12 (tf_mtime f)) = 12" "length (fld 100 (stringToBytes (tf_linkname f))) = 100"
    "length (front f) = 148" "length (rear f) = 356"
proof -
  show l: "length (fld 100 (stringToBytes (rel_path f))) = 100" "length (octf 8 (tf_mode f)) = 8"
    "length (octf 8 (tf_uid f)) = 8" "length (octf 8 (tf_gid f)) = 8" "length (octf 12 (length (tar_data f))) = 12"
    "length (octf 12 (tf_mtime f)) = 12" "length (fld 100 (stringToBytes (tf_linkname f))) = 100"
    using assms by (simp_all add: tar_ok_def plain_text_def length_octf)
  show "length (front f) = 148" by (simp add: front_def l)
  show "length (rear f) = 356" by (simp add: rear_def l)
qed

lemma zeros_split: "replicate 512 (0 :: u8) = replicate 100 0 @ replicate 8 0 @ replicate 8 0 @ replicate 8 0 @
    replicate 12 0 @ replicate 12 0 @ replicate 8 0 @ replicate 1 0 @ replicate 100 0 @ replicate 6 0 @ replicate 2 0 @ replicate 247 0"
  unfolding replicate_add [symmetric] by simp

lemma header0_layout:
  assumes "tar_ok f"
  shows "tar_header0 f = front f @ replicate 8 0x20 @ rear f"
proof -
  note L = front_lengths [OF assms]
  have ok: "tf_mode f < 8 ^ (8 - 1)" "tf_uid f < 8 ^ (8 - 1)" "tf_gid f < 8 ^ (8 - 1)"
    "length (tar_data f) < 8 ^ (12 - 1)" "tf_mtime f < 8 ^ (12 - 1)" "length (stringToBytes (rel_path f)) \<le> 100"
    "length (stringToBytes (tf_linkname f)) \<le> 100"
    using assms by (simp_all add: tar_ok_def plain_text_def)
  let ?P = "fld 100 (stringToBytes (rel_path f))" and ?M = "octf 8 (tf_mode f)" and ?U = "octf 8 (tf_uid f)"
    and ?G = "octf 8 (tf_gid f)" and ?S = "octf 12 (length (tar_data f))" and ?T = "octf 12 (tf_mtime f)"
    and ?F = "[word_of_nat (of_char (tf_type f))] :: u8 list" and ?K = "fld 100 (stringToBytes (tf_linkname f))"
  let ?z = "\<lambda>n. replicate n 0 :: u8 list"
  have 1: "writeString 0 100 (rel_path f) (?z 512) = ?P @ ?z 8 @ ?z 8 @ ?z 8 @ ?z 12 @ ?z 12 @ ?z 8 @ ?z 1 @ ?z 100 @ ?z 6 @ ?z 2 @ ?z 247"
    using put_field [of "[]" 0 "stringToBytes (rel_path f)" 100] ok(6) unfolding zeros_split writeString_def by simp
  have 2: "writeOctal 100 8 (tf_mode f) (?P @ ?z 8 @ zs) = ?P @ ?M @ zs" for zs
    using writeOctal_eq [OF ok(1), of ?P 100] L by simp
  have 3: "writeOctal 108 8 (tf_uid f) (?P @ ?M @ ?z 8 @ zs) = ?P @ ?M @ ?U @ zs" for zs
    using writeOctal_eq [OF ok(2), of "?P @ ?M" 108] L by simp
  have 4: "writeOctal 116 8 (tf_gid f) (?P @ ?M @ ?U @ ?z 8 @ zs) = ?P @ ?M @ ?U @ ?G @ zs" for zs
    using writeOctal_eq [OF ok(3), of "?P @ ?M @ ?U" 116] L by simp
  have 5: "writeOctal 124 12 (length (tar_data f)) (?P @ ?M @ ?U @ ?G @ ?z 12 @ zs) = ?P @ ?M @ ?U @ ?G @ ?S @ zs" for zs
    using writeOctal_eq [OF ok(4), of "?P @ ?M @ ?U @ ?G" 124] L by simp
  have 6: "writeOctal 136 12 (tf_mtime f) (?P @ ?M @ ?U @ ?G @ ?S @ ?z 12 @ zs) = front f @ zs" for zs
    using writeOctal_eq [OF ok(5), of "?P @ ?M @ ?U @ ?G @ ?S" 136] L by (simp add: front_def)
  let ?sp = "replicate 8 0x20 :: u8 list"
  have 7: "put_bytes 148 ?sp (front f @ ?z 8 @ zs) = front f @ ?sp @ zs" for zs
    using put_over [of "front f" 148 "?z 8" ?sp] L by simp
  have 8: "put_bytes 156 ?F (front f @ ?sp @ ?z 1 @ zs) = front f @ ?sp @ ?F @ zs" for zs
    using put_over [of "front f @ ?sp" 156 "?z 1" ?F] L by simp
  have K0: "tf_linkname f = [] \<Longrightarrow> ?K = ?z 100" by (simp add: fld_def stringToBytes_def)
  have 9: "writeString 157 100 (tf_linkname f) (front f @ ?sp @ ?F @ ?z 100 @ zs) = front f @ ?sp @ ?F @ ?K @ zs" for zs
    using put_field [of "front f @ ?sp @ ?F" 157 "stringToBytes (tf_linkname f)" 100] L ok(7)
    by (simp add: writeString_def)
  have 10: "writeString 257 6 ''ustar'' (front f @ ?sp @ ?F @ ?K @ ?z 6 @ zs) = front f @ ?sp @ ?F @ ?K @ fld 6 (stringToBytes ''ustar'') @ zs" for zs
    using put_field [of "front f @ ?sp @ ?F @ ?K" 257 "stringToBytes ''ustar''" 6] L
    by (simp add: writeString_def)
  have 11: "writeString 263 2 ''00'' (front f @ ?sp @ ?F @ ?K @ fld 6 (stringToBytes ''ustar'') @ ?z 2 @ ?z 247) = front f @ ?sp @ rear f"
    using put_over [of "front f @ ?sp @ ?F @ ?K @ fld 6 (stringToBytes ''ustar'')" 263 "?z 2" "stringToBytes ''00''"] L
    by (simp add: writeString_def rear_def)
  have 12: "(if tf_linkname f \<noteq> [] then writeString 157 100 (tf_linkname f) (front f @ ?sp @ ?F @ ?z 100 @ zs)
      else front f @ ?sp @ ?F @ ?z 100 @ zs) = front f @ ?sp @ ?F @ ?K @ zs" for zs
    using 9 [of zs] K0 by auto
  show ?thesis unfolding tar_header0_def Let_def rel_path_def [symmetric] 1 2 3 4 5 6 7 8 12 10 11 ..
qed

definition tar_total :: "tar_file \<Rightarrow> nat" where
  "tar_total f = sum_list (map unat (tar_header0 f))"

definition sumf :: "tar_file \<Rightarrow> u8 list" where
  "sumf f = stringToBytes (oct_text 6 (tar_total f)) @ [0, 0x20]"

lemma tar_total_bound:
  assumes "tar_ok f"
  shows "tar_total f < 8 ^ 6"
proof -
  have "length (tar_header0 f) = 512" using front_lengths [OF assms] by (simp add: header0_layout [OF assms])
  moreover have "sum_list (map unat xs) \<le> length xs * 255" for xs :: "u8 list"
  proof (induction xs)
    case (Cons x xs)
    have "unat x < 256" using unsigned_less [of x, where 'a = nat] by simp
    then show ?case using Cons by simp
  qed simp
  from this [of "tar_header0 f"] show ?thesis using calculation by (simp add: tar_total_def)
qed

lemma header_layout:
  assumes "tar_ok f"
  shows "tar_header f = front f @ sumf f @ rear f" "length (sumf f) = 8"
proof -
  have l: "length (oct_text 6 (tar_total f)) = 6" using oct_text(1) tar_total_bound [OF assms] by simp
  show s: "length (sumf f) = 8" by (simp add: sumf_def l)
  have "stringToBytes (padStart 6 (CHR ''0'') (to_oct (tar_total f)) @ [CHR 0x00, CHR '' '']) = sumf f"
    by (simp add: sumf_def oct_text_def stringToBytes_def)
  then have "tar_header f = put_bytes 148 (sumf f) (front f @ replicate 8 0x20 @ rear f)"
    using s header0_layout [OF assms] by (simp add: tar_header_def tar_total_def Let_def writeString_def)
  then show "tar_header f = front f @ sumf f @ rear f"
    using put_over [of "front f" 148 "replicate 8 0x20" "sumf f"] front_lengths [OF assms] s by simp
qed

section \<open>Reading a written header\<close>

lemma subarray_mid:
  assumes "xs = pre @ y @ suf" "a = int (length pre)" "b = a + int (length y)"
  shows "subarray a b xs = y"
proof -
  have "js_index (length xs) a = length pre" "js_index (length xs) b = length pre + length y"
    using assms by (simp_all add: js_index_def nat_add_distrib)
  then show ?thesis using assms(1) by (simp add: subarray_def)
qed

lemma padding_split: "replicate 247 (0 :: u8) =
    replicate 32 0 @ replicate 32 0 @ replicate 8 0 @ replicate 8 0 @ replicate 155 0 @ replicate 12 0"
  unfolding replicate_add [symmetric] by simp

lemma parseOctal_text:
  assumes "n < 8 ^ k" "0 < k"
  shows "parseOctal (stringToBytes (oct_text k n) @ 0 # rest) = int n"
proof -
  have "oct_text k n \<noteq> []" using oct_text(1) [OF assms] assms(2) by auto
  then show ?thesis using parseOctal_digits [OF oct_text(2) [OF assms]] oct_text(3) [OF assms] by simp
qed

lemma parseOctal_octf: "n < 8 ^ (k - 1) \<Longrightarrow> 1 < k \<Longrightarrow> parseOctal (octf k n) = int n"
  using parseOctal_text [of n "k - 1" "[]"] by (simp add: octf_def)

lemma field_text_fld: "plain_text s n \<Longrightarrow> field_text (fld n (stringToBytes s)) = s"
  using field_text_stop(1) [of s "replicate (n - length s - 1) 0"] field_text_stop(2) [of s]
  by (cases "n - length s") (auto simp: fld_def plain_text_def)

definition parsed :: "tar_file \<Rightarrow> tar_entry" where
  "parsed f = \<lparr>te_path = normalizePath (rel_path f), te_mode = int (tf_mode f), te_uid = int (tf_uid f),
     te_gid = int (tf_gid f), te_size = int (length (tar_data f)), te_mtime = int (tf_mtime f),
     te_checksum = int (tar_total f), te_checksumValid = True, te_typeflag = tf_type f, te_linkname = tf_linkname f,
     te_magic = ''ustar'', te_uname = [], te_gname = [], te_devmajor = 0, te_devminor = 0, te_data = tar_data f\<rparr>"

lemma header_length: "tar_ok f \<Longrightarrow> length (tar_header f) = 512"
  using header_layout [of f] front_lengths [of f] by simp

lemma header_fields:
  assumes "tar_ok f"
  shows "subarray 0 100 (tar_header f) = fld 100 (stringToBytes (rel_path f))"
    "subarray 100 108 (tar_header f) = octf 8 (tf_mode f)" "subarray 108 116 (tar_header f) = octf 8 (tf_uid f)"
    "subarray 116 124 (tar_header f) = octf 8 (tf_gid f)" "subarray 124 136 (tar_header f) = octf 12 (length (tar_data f))"
    "subarray 136 148 (tar_header f) = octf 12 (tf_mtime f)" "subarray 148 156 (tar_header f) = sumf f"
    "subarray 157 257 (tar_header f) = fld 100 (stringToBytes (tf_linkname f))"
    "subarray 257 263 (tar_header f) = fld 6 (stringToBytes ''ustar'')" "subarray 265 297 (tar_header f) = replicate 32 0"
    "subarray 297 329 (tar_header f) = replicate 32 0" "subarray 329 337 (tar_header f) = replicate 8 0"
    "subarray 337 345 (tar_header f) = replicate 8 0" "subarray 345 500 (tar_header f) = replicate 155 0"
    "tar_header f ! 156 = word_of_nat (of_char (tf_type f))"
proof -
  note L = front_lengths [OF assms] header_layout(2) [OF assms]
  let ?F = "[word_of_nat (of_char (tf_type f))] :: u8 list"
  let ?A = "front f @ sumf f @ ?F" and ?K = "fld 100 (stringToBytes (tf_linkname f))"
    and ?Z = "fld 6 (stringToBytes ''ustar'')" and ?V = "stringToBytes ''00''"
  have H: "tar_header f = fld 100 (stringToBytes (rel_path f)) @ octf 8 (tf_mode f) @ octf 8 (tf_uid f) @ octf 8 (tf_gid f) @
     octf 12 (length (tar_data f)) @ octf 12 (tf_mtime f) @ sumf f @ rear f"
    by (simp add: header_layout(1) [OF assms] front_def)
  have R: "tar_header f = ?A @ ?K @ ?Z @ ?V @ replicate 32 0 @ replicate 32 0 @ replicate 8 0 @ replicate 8 0 @
      replicate 155 0 @ replicate 12 0"
    unfolding header_layout(1) [OF assms] rear_def padding_split by simp
  show "subarray 0 100 (tar_header f) = fld 100 (stringToBytes (rel_path f))"
    by (rule subarray_mid [where pre = "[]"]) (use H L in simp_all)
  show "subarray 100 108 (tar_header f) = octf 8 (tf_mode f)"
    by (rule subarray_mid [where pre = "fld 100 (stringToBytes (rel_path f))"]) (use H L in simp_all)
  show "subarray 108 116 (tar_header f) = octf 8 (tf_uid f)"
    by (rule subarray_mid [where pre = "fld 100 (stringToBytes (rel_path f)) @ octf 8 (tf_mode f)"]) (use H L in simp_all)
  show "subarray 116 124 (tar_header f) = octf 8 (tf_gid f)"
    by (rule subarray_mid [where pre = "fld 100 (stringToBytes (rel_path f)) @ octf 8 (tf_mode f) @ octf 8 (tf_uid f)"])
      (use H L in simp_all)
  show "subarray 124 136 (tar_header f) = octf 12 (length (tar_data f))"
    by (rule subarray_mid [where pre = "fld 100 (stringToBytes (rel_path f)) @ octf 8 (tf_mode f) @ octf 8 (tf_uid f) @
        octf 8 (tf_gid f)"]) (use H L in simp_all)
  show "subarray 136 148 (tar_header f) = octf 12 (tf_mtime f)"
    by (rule subarray_mid [where pre = "fld 100 (stringToBytes (rel_path f)) @ octf 8 (tf_mode f) @ octf 8 (tf_uid f) @
        octf 8 (tf_gid f) @ octf 12 (length (tar_data f))"]) (use H L in simp_all)
  show "subarray 148 156 (tar_header f) = sumf f"
    by (rule subarray_mid [where pre = "front f"]) (use header_layout(1) [OF assms] L in simp_all)
  show "subarray 157 257 (tar_header f) = ?K" by (rule subarray_mid [where pre = ?A]) (use R L in simp_all)
  show "subarray 257 263 (tar_header f) = ?Z" by (rule subarray_mid [where pre = "?A @ ?K"]) (use R L in simp_all)
  show "subarray 265 297 (tar_header f) = replicate 32 0"
    by (rule subarray_mid [where pre = "?A @ ?K @ ?Z @ ?V"]) (use R L in simp_all)
  show "subarray 297 329 (tar_header f) = replicate 32 0"
    by (rule subarray_mid [where pre = "?A @ ?K @ ?Z @ ?V @ replicate 32 0"]) (use R L in simp_all)
  show "subarray 329 337 (tar_header f) = replicate 8 0"
    by (rule subarray_mid [where pre = "?A @ ?K @ ?Z @ ?V @ replicate 32 0 @ replicate 32 0"]) (use R L in simp_all)
  show "subarray 337 345 (tar_header f) = replicate 8 0"
    by (rule subarray_mid [where pre = "?A @ ?K @ ?Z @ ?V @ replicate 32 0 @ replicate 32 0 @ replicate 8 0"])
      (use R L in simp_all)
  show "subarray 345 500 (tar_header f) = replicate 155 0"
    by (rule subarray_mid [where pre = "?A @ ?K @ ?Z @ ?V @ replicate 32 0 @ replicate 32 0 @ replicate 8 0 @ replicate 8 0"])
      (use R L in simp_all)
  show "tar_header f ! 156 = word_of_nat (of_char (tf_type f))"
    using header_layout(1) [OF assms] L by (simp add: nth_append rear_def)
qed

lemma tar_sum_header:
  assumes "tar_ok f"
  shows "tar_sum (tar_header f) = Some (int (tar_total f))"
proof -
  note L = front_lengths [OF assms] header_layout(2) [OF assms]
  have "map (\<lambda>i. if 148 \<le> i \<and> i < 156 then 0x20 else uint (tar_header f ! i)) [0..<512] = map uint (tar_header0 f)"
  proof (rule nth_equalityI)
    fix i assume "i < length (map (\<lambda>i. if 148 \<le> i \<and> i < 156 then 0x20 else uint (tar_header f ! i)) [0..<512])"
    then have i: "i < 512" by simp
    then have "map (\<lambda>i. if 148 \<le> i \<and> i < 156 then 0x20 else uint (tar_header f ! i)) [0..<512] ! i =
        (if 148 \<le> i \<and> i < 156 then 0x20 else uint (tar_header f ! i))"
      by (subst nth_map) (simp_all del: upt_conv_Nil)
    also have "\<dots> = uint ((front f @ replicate 8 0x20 @ rear f) ! i)"
    proof -
      consider "i < 148" | "148 \<le> i" "i < 156" | "156 \<le> i" by linarith
      then show ?thesis
      proof cases
        case 2
        then have "i - 148 < 8" by linarith
        with 2 show ?thesis using L by (simp add: nth_append)
      next
        case 3
        then have "\<not> i - 148 < 8" by linarith
        with 3 show ?thesis using L by (simp add: header_layout(1) [OF assms] nth_append)
      qed (use L in \<open>simp add: header_layout(1) [OF assms] nth_append\<close>)
    qed
    also have "\<dots> = map uint (tar_header0 f) ! i" unfolding header0_layout [OF assms] using i L by (subst nth_map) simp_all
    finally show "map (\<lambda>i. if 148 \<le> i \<and> i < 156 then 0x20 else uint (tar_header f ! i)) [0..<512] ! i = map uint (tar_header0 f) ! i" .
  qed (use L in \<open>simp add: header0_layout [OF assms]\<close>)
  moreover have "sum_list (map uint xs) = int (sum_list (map unat xs))" for xs :: "u8 list"
    by (induction xs) simp_all
  ultimately show ?thesis using header_length [OF assms] by (simp add: tar_sum_def tar_total_def)
qed

lemma typeflag_header: "tar_ok f \<Longrightarrow> typeflag_of (tar_header f) = tf_type f"
  by (simp add: typeflag_of_def header_length header_fields(15) unat_of_nat)

lemma entry_of_header:
  assumes "tar_ok f"
  shows "entry_of (tar_header f) None None (tar_data f) = parsed f"
proof -
  have ok: "tf_mode f < 8 ^ (8 - 1)" "tf_uid f < 8 ^ (8 - 1)" "tf_gid f < 8 ^ (8 - 1)"
    "length (tar_data f) < 8 ^ (12 - 1)" "tf_mtime f < 8 ^ (12 - 1)" "plain_text (rel_path f) 100" "plain_text (tf_linkname f) 100"
    "0 < tf_mode f" using assms by (simp_all add: tar_ok_def)
  have s: "parseOctal (sumf f) = int (tar_total f)"
    using parseOctal_text [OF tar_total_bound [OF assms], of "[0x20]"] by (simp add: sumf_def)
  have u: "field_text (fld 6 (stringToBytes ''ustar'')) = ''ustar''"
    by (rule field_text_fld) (simp add: plain_text_def)
  show ?thesis
    using ok(8) by (simp add: entry_of_def Let_def header_fields [OF assms] typeflag_header [OF assms] tar_sum_header [OF assms]
      parseOctal_octf [OF ok(1)] parseOctal_octf [OF ok(2)] parseOctal_octf [OF ok(3)] parseOctal_octf [OF ok(4)]
      parseOctal_octf [OF ok(5)] field_text_fld [OF ok(6)] field_text_fld [OF ok(7)] s u field_text_zeros parseOctal_zeros
      parsed_def)
qed

section \<open>Reading a written archive\<close>

lemma zero_neq_numeral_u8: "(0x75 :: u8) \<noteq> 0"
  by simp

lemma header_not_empty:
  assumes "tar_ok f"
  shows "\<not> header_empty (tar_header f)"
proof -
  have "0x75 \<in> set (rear f)" by (simp add: rear_def fld_def stringToBytes_def)
  then have "0x75 \<in> set (tar_header f)" by (simp add: header_layout(1) [OF assms])
  then show ?thesis unfolding header_empty_def by (metis zero_neq_numeral_u8)
qed

lemma next_off_chunk:
  assumes "tar_ok f"
  shows "next_off (int k) (int (length (tar_data f))) = int (k + length (tar_chunk f))"
proof -
  let ?n = "length (tar_data f)"
  have "(- ((- int ?n) div 512)) * 512 = int (?n + (512 - ?n mod 512) mod 512)"
  proof (cases "?n mod 512 = 0")
    case True
    then have "int ?n mod 512 = 0" by presburger
    moreover from this have "int ?n div 512 * 512 = int ?n" using div_mult_mod_eq [of "int ?n" 512] by linarith
    ultimately show ?thesis using True by (simp add: zdiv_zminus1_eq_if)
  next
    case False
    then have "int ?n mod 512 \<noteq> 0" by presburger
    then have "(- ((- int ?n) div 512)) * 512 = int ?n div 512 * 512 + 512" by (simp add: zdiv_zminus1_eq_if)
    moreover have "(512 - ?n mod 512) mod 512 = 512 - ?n mod 512" using False by simp
    moreover have "int ?n div 512 * 512 + int ?n mod 512 = int ?n" by (rule div_mult_mod_eq)
    moreover have "int (512 - ?n mod 512) = 512 - int ?n mod 512" by (simp add: of_nat_diff zmod_int)
    ultimately show ?thesis by linarith
  qed
  then show ?thesis using header_length [OF assms] by (simp add: next_off_def tar_chunk_def)
qed

lemma parse_loop_written:
  assumes "\<forall>f \<in> set fs. tar_ok f"
  shows "parse_loop (pre @ createTar fs) (int (length pre)) None None acc = Some (acc @ map parsed fs)"
  using assms
proof (induction fs arbitrary: pre acc)
  case Nil
  let ?bs = "pre @ createTar []"
  have "subarray (int (length pre)) (int (length pre) + 512) ?bs = replicate 512 0"
    by (rule subarray_mid [where pre = pre and suf = "replicate 512 0"])
      (simp_all add: createTar_def replicate_add [symmetric])
  moreover have "header_empty (replicate 512 0)" by (simp add: header_empty_def)
  moreover have "int (length ?bs) = int (length pre) + 1024" by (simp add: createTar_def)
  ultimately show ?case by (subst parse_loop.simps) simp
next
  case (Cons f fs)
  have ok: "tar_ok f" using Cons.prems by simp
  note hl = header_length [OF ok]
  let ?pad = "replicate ((512 - length (tar_data f) mod 512) mod 512) 0 :: u8 list"
  let ?bs = "pre @ createTar (f # fs)"
  have bs: "?bs = pre @ tar_header f @ tar_data f @ ?pad @ createTar fs"
    by (simp add: createTar_def tar_chunk_def)
  have bs': "?bs = (pre @ tar_chunk f) @ createTar fs" by (simp add: createTar_def)
  have h: "subarray (int (length pre)) (int (length pre) + 512) ?bs = tar_header f"
    by (rule subarray_mid [OF bs]) (simp_all add: hl)
  have d: "subarray (int (length pre) + 512) (min (int (length pre) + 512 + int (length (tar_data f)))
      (int (length pre + length (createTar (f # fs))))) ?bs = tar_data f"
    unfolding length_append [symmetric] by (rule subarray_mid [where pre = "pre @ tar_header f" and suf = "?pad @ createTar fs"]) (simp_all add: bs hl)
  have sz: "parseOctal (subarray 124 136 (tar_header f)) = int (length (tar_data f))"
    using parseOctal_octf [of "length (tar_data f)" 12] ok by (simp add: header_fields(5) [OF ok] tar_ok_def)
  have tf: "tf_type f \<noteq> CHR ''L''" "tf_type f \<noteq> CHR ''K''" using ok by (simp_all add: tar_ok_def)
  have fits: "\<not> int (length pre) + 512 > int (length ?bs)" by (simp add: bs hl)
  have "parse_loop ?bs (int (length pre)) None None acc =
      parse_loop ?bs (int (length (pre @ tar_chunk f))) None None (acc @ [parsed f])"
    using tf fits by (subst parse_loop.simps)
      (simp only: Let_def h sz d header_not_empty [OF ok] typeflag_header [OF ok] entry_of_header [OF ok]
        next_off_chunk [OF ok] keep_pending_def option.simps if_False length_append simp_thms)
  also have "\<dots> = Some (acc @ map parsed (f # fs))"
    unfolding bs' using Cons.IH [of "pre @ tar_chunk f" "acc @ [parsed f]"] Cons.prems by simp
  finally show ?case .
qed

text \<open>
  C31: An archive that \<open>createTar\<close> wrote is read back by \<open>parseTarEntries\<close>: reading ends and gives, in order, one
  entry per file with the file's normalised path, mode, owner, times, type, link name and data, and a valid checksum,
  for files whose names fit the 100-byte fields and whose numbers fit their octal fields.
\<close>

theorem createTar_parse:
  assumes "\<forall>f \<in> set fs. tar_ok f"
  shows "parseTarEntries (createTar fs) = Some (map parsed fs)"
  using parse_loop_written [OF assms, of "[]" "[]"] by (simp add: parseTarEntries_def)

definition sample_file :: tar_file where
  "sample_file = \<lparr>tf_path = ''/etc/motd'', tf_data = [104, 105], tf_mode = 0x1a4, tf_type = CHR ''0'', tf_uid = 0,
     tf_gid = 7, tf_mtime = 99, tf_linkname = []\<rparr>"

lemma sample_ok: "tar_ok sample_file"
  by (simp add: tar_ok_def sample_file_def rel_path_def plain_text_def tar_data_def)

theorem createTar_parse_witness:
  "\<exists>es. parseTarEntries (createTar [sample_file, sample_file]) = Some es \<and> map te_data es = [[104, 105], [104, 105]] \<and>
     map te_path es = [''/etc/motd'', ''/etc/motd''] \<and> map te_gid es = [7, 7]"
proof -
  note sample_ok
  then have "parseTarEntries (createTar [sample_file, sample_file]) = Some (map parsed [sample_file, sample_file])"
    using createTar_parse [of "[sample_file, sample_file]"] by simp
  moreover have "normalizePath (rel_path sample_file) = ''/etc/motd''" by code_simp
  moreover have "te_data (parsed sample_file) = [104, 105]" "te_gid (parsed sample_file) = 7"
    by (simp_all add: parsed_def sample_file_def tar_data_def)
  moreover have "te_path (parsed sample_file) = normalizePath (rel_path sample_file)" by (simp add: parsed_def)
  ultimately show ?thesis by simp
qed

section \<open>When reading ends\<close>

definition size_field :: "u8 list \<Rightarrow> int \<Rightarrow> int" where
  "size_field bs off = parseOctal (subarray 124 136 (subarray off (off + 512) bs))"

lemma parse_loop_ends:
  assumes "\<forall>k. 512 * int k + 512 \<le> int (length bs) \<longrightarrow> 0 \<le> size_field bs (512 * int k)" "0 \<le> off" "off mod 512 = 0"
  shows "\<exists>es. parse_loop bs off ln ll acc = Some es"
  using assms(2,3)
proof (induction "nat (int (length bs) - off)" arbitrary: off ln ll acc rule: less_induct)
  case less
  show ?case
  proof (cases "off + 512 > int (length bs) \<or> header_empty (subarray off (off + 512) bs)")
    case True
    then show ?thesis by (subst parse_loop.simps) (auto simp: Let_def)
  next
    case False
    let ?n = "next_off off (size_field bs off)"
    obtain k where k: "off = 512 * int k" using less.prems by (metis dvd_imp_mod_0 dvd_def mod_0_imp_dvd zero_le_mult_iff zero_le_numeral nonneg_int_cases not_numeral_le_zero)
    have "0 \<le> size_field bs off" using assms(1) [rule_format, of k] False k by simp
    then have "(- size_field bs off) div 512 \<le> 0" by simp
    then have n: "off + 512 \<le> ?n" by (simp add: next_off_def)
    then have "nat (int (length bs) - ?n) < nat (int (length bs) - off)" "0 \<le> ?n" using False less.prems by linarith+
    moreover have "?n = 512 * (int k + 1 - (- size_field bs off) div 512)" by (simp add: next_off_def k)
    then have "?n mod 512 = 0" by (simp only: mod_mult_self1_is_0)
    ultimately have "\<exists>es. parse_loop bs ?n ln' ll' acc' = Some es" for ln' ll' acc' by (rule less.hyps)
    then show ?thesis using False by (subst parse_loop.simps) (simp add: Let_def size_field_def)
  qed
qed

text \<open>
  C32: Reading an archive ends whenever no 512-byte block of it holds a negative number in its size field; the loop has
  no other way to run forever, whatever the bytes are.
\<close>

theorem parseTarEntries_terminates:
  assumes "\<forall>k. 512 * int k + 512 \<le> int (length bs) \<longrightarrow> 0 \<le> size_field bs (512 * int k)"
  shows "\<exists>es. parseTarEntries bs = Some es"
  unfolding parseTarEntries_def using parse_loop_ends [OF assms, of 0] by simp

theorem parseTarEntries_terminates_witness:
  "\<exists>es. parseTarEntries (tar_header sample_file) = Some es"
proof (rule parseTarEntries_terminates, intro allI impI)
  fix k assume "512 * int k + 512 \<le> int (length (tar_header sample_file))"
  then have k: "k = 0" using header_length [OF sample_ok] by simp
  have "subarray 0 512 (tar_header sample_file) = tar_header sample_file"
    by (rule subarray_mid [where pre = "[]" and suf = "[]"]) (simp_all add: header_length [OF sample_ok])
  then have "size_field (tar_header sample_file) 0 = parseOctal (octf 12 (length (tar_data sample_file)))"
    by (simp add: size_field_def header_fields(5) [OF sample_ok])
  also have "\<dots> = 2" using parseOctal_octf [of "length (tar_data sample_file)" 12] by (simp add: tar_data_def sample_file_def)
  finally show "0 \<le> size_field (tar_header sample_file) (512 * int k)" by (simp add: k)
qed

text \<open>
  A size field of \<open>-1000\<close> in octal, that is minus one block, moves the reader back to the header it has just read, and
  it never ends: the partial function has no value there.
\<close>

lemma stuck_size: "parseOctal (stringToBytes ''-00000001000'') = -512"
  by code_simp

definition stuck_header :: "u8 list" where
  "stuck_header = replicate 124 1 @ stringToBytes ''-00000001000'' @ replicate 376 1"

lemma stuck_loop:
  assumes "parse_loop bs off ln ll acc = Some es" "off = 0" "bs = stuck_header"
  shows False
proof -
  have l: "length stuck_header = 512" by (simp add: stuck_header_def)
  have h: "subarray 0 512 stuck_header = stuck_header"
    by (rule subarray_mid [where pre = "[]" and suf = "[]"]) (simp_all add: l)
  have "subarray 124 136 stuck_header = stringToBytes ''-00000001000''"
    by (rule subarray_mid [where pre = "replicate 124 1"]) (simp_all only: stuck_header_def, simp_all)
  then have sz: "parseOctal (subarray 124 136 stuck_header) = -512" by (simp only: stuck_size)
  have n: "next_off 0 (-512) = 0" by (simp add: next_off_def)
  have "stuck_header ! 156 = 1" by (simp add: stuck_header_def nth_append)
  then have t: "typeflag_of stuck_header = char_of (1 :: nat)" by (simp add: typeflag_of_def l)
  have e: "\<not> header_empty stuck_header" by (simp add: header_empty_def stuck_header_def)
  have c: "char_of (1 :: nat) \<noteq> CHR ''L''" "char_of (1 :: nat) \<noteq> CHR ''K''" by code_simp+
  show False using assms
  proof (induction rule: parse_loop.raw_induct [rotated 1, consumes 1])
    case (1 loop bs off ln ll acc es)
    then show ?case by (auto simp: Let_def h sz n t e l c split: if_splits)
  qed
qed

lemma negative_size_never_ends: "parseTarEntries stuck_header = None"
  using stuck_loop [of stuck_header 0 None None "[]"] by (cases "parseTarEntries stuck_header") (auto simp: parseTarEntries_def)

text \<open>
  A hard-link entry is stamped with its owner before it is linked, so its node is looked up while it does not exist yet:
  the mount fails although the archive is well formed and the link's source is there.
\<close>

definition link_entry :: tar_entry where
  "link_entry = \<lparr>te_path = ''/b'', te_mode = 0x1a4, te_uid = 0, te_gid = 0, te_size = 0, te_mtime = 0, te_checksum = 0,
     te_checksumValid = True, te_typeflag = CHR ''1'', te_linkname = ''/a/f'', te_magic = ''ustar'', te_uname = [],
     te_gname = [], te_devmajor = 0, te_devminor = 0, te_data = []\<rparr>"

lemma hard_link_rejected:
  "fst (mount_entry small_vfs \<lparr>mo_root = ''/'', mo_strip = False, mo_ignore = False\<rparr> link_entry small_fs) = Inl (VErr 2)"
  "fst (mount_link small_vfs \<lparr>mo_root = ''/'', mo_strip = False, mo_ignore = False\<rparr> link_entry small_fs) = Inr 1"
  by code_simp+

end
