(* ===== verification/Network.thy ===== *)
theory Network
  imports Vfs
begin

text \<open>
  Sockets and the name server of \<open>src/network.js\<close>. Connections and HTTP exchanges are made by the host (\<open>fetch\<close>,
  \<open>WebSocket\<close>): an asynchronous method returns what is known when its synchronous part ends, and the part after a
  host call is a definition of its own, applied to the host's answer.
\<close>

section \<open>Numbers and addresses as text\<close>

fun to_dec :: "nat \<Rightarrow> string" where
  "to_dec n = (if n < 10 then [char_of (48 + n)] else to_dec (n div 10) @ [char_of (48 + n mod 10)])"

declare to_dec.simps [simp del]

definition dec_digit :: "char \<Rightarrow> bool" where
  "dec_digit c \<longleftrightarrow> c \<in> set ''0123456789''"

definition dec_val :: "string \<Rightarrow> nat" where
  "dec_val s = foldl (\<lambda>n c. n * 10 + (of_char c - 48)) 0 s"

fun split_dot :: "string \<Rightarrow> string list" where
  "split_dot [] = [[]]"
| "split_dot (c # s) =
     (if c = CHR ''.'' then [] # split_dot s
      else case split_dot s of [] \<Rightarrow> [[c]] | p # ps \<Rightarrow> (c # p) # ps)"

fun join_dot :: "string list \<Rightarrow> string" where
  "join_dot [] = []"
| "join_dot [p] = p"
| "join_dot (p # q # ps) = p @ CHR ''.'' # join_dot (q # ps)"

text \<open>\<open>Number(x) & 0xff\<close> of a part: decimal digits, anything else is \<open>NaN\<close>, which \<open>&\<close> makes 0.\<close>

definition byte_of_text :: "string \<Rightarrow> u8" where
  "byte_of_text s = (if \<forall>c \<in> set s. dec_digit c then word_of_nat (dec_val s) else 0)"

definition ipv4ToBytes :: "string \<Rightarrow> u8 list" where
  "ipv4ToBytes ip = map byte_of_text (split_dot ip)"

definition bytesToIPv4 :: "u8 list \<Rightarrow> string" where
  "bytesToIPv4 bs = join_dot (map (\<lambda>b. to_dec (unat b)) (take 4 bs))"

section \<open>VirtualDNS\<close>

record virtual_dns =
  dns_next :: nat
  hostToIp :: "(string, string) jsmap"
  ipToHost :: "(string, string) jsmap"
  dns_prefix :: string

definition new_dns :: "nat \<Rightarrow> (string, string) jsmap \<Rightarrow> string \<Rightarrow> virtual_dns" where
  "new_dns firstHost hosts prefix = \<lparr>dns_next = firstHost, hostToIp = hosts,
     ipToHost = foldl (\<lambda>m (h, ip). AList.update ip h m) [] hosts, dns_prefix = prefix\<rparr>"

definition lower :: "char \<Rightarrow> char" where
  "lower c = (if 65 \<le> (of_char c :: nat) \<and> (of_char c :: nat) \<le> 90 then char_of (of_char c + 32 :: nat) else c)"

definition dotted_quad :: "string \<Rightarrow> bool" where
  "dotted_quad s \<longleftrightarrow> length (split_dot s) = 4 \<and> (\<forall>p \<in> set (split_dot s). p \<noteq> [] \<and> (\<forall>c \<in> set p. dec_digit c))"

definition dns_resolve :: "string \<Rightarrow> virtual_dns \<Rightarrow> string \<times> virtual_dns" where
  "dns_resolve name d =
     (let host = map lower name in
      if host = [] then (''0.0.0.0'', d)
      else if dotted_quad host then (host, d)
      else case map_of (hostToIp d) host of
        Some ip \<Rightarrow> (ip, d)
      | None \<Rightarrow> let ip = dns_prefix d @ ''.'' @ to_dec (dns_next d)
          in (ip, d\<lparr>dns_next := dns_next d + 1, hostToIp := AList.update host ip (hostToIp d),
                    ipToHost := AList.update ip host (ipToHost d)\<rparr>))"

definition dns_reverse :: "virtual_dns \<Rightarrow> string \<Rightarrow> string" where
  "dns_reverse d ip = (case map_of (ipToHost d) ip of Some h \<Rightarrow> h | None \<Rightarrow> ip)"

text \<open>\<open>parseQName\<close>: the labels and the position after them; \<open>None\<close> is the throw on a compressed name.\<close>

function qname_loop :: "u8 list \<Rightarrow> nat \<Rightarrow> string list \<Rightarrow> (string list \<times> nat) option" where
  "qname_loop packet p labels =
     (if p < length packet
      then let len = packet ! p in
        if len = 0 then Some (labels, p + 1)
        else if len AND 0xc0 \<noteq> 0 then None
        else qname_loop packet (p + 1 + unat len) (labels @ [bytesToString (take (unat len) (drop (p + 1) packet))])
      else Some (labels, p))"
  by pat_completeness auto

termination
  by (relation "measure (\<lambda>(packet, p, labels). length packet - p)") auto

declare qname_loop.simps [simp del]

definition parseQName :: "u8 list \<Rightarrow> nat \<Rightarrow> (string \<times> nat) option" where
  "parseQName packet off = map_option (\<lambda>(labels, p). (join_dot labels, p)) (qname_loop packet off [])"

text \<open>A byte read past the end is \<open>undefined\<close>, which \<open><<\<close> and \<open>|\<close> make 0.\<close>

definition byte_or0 :: "u8 list \<Rightarrow> nat \<Rightarrow> u8" where
  "byte_or0 bs i = (if i < length bs then bs ! i else 0)"

definition buildResponse :: "u8 list \<Rightarrow> virtual_dns \<Rightarrow> u8 list \<times> virtual_dns" where
  "buildResponse q d =
     (if length q < 12 then ([], d)
      else case parseQName q 12 of
        None \<Rightarrow> ([], d)
      | Some (name, nxt) \<Rightarrow>
          let qtype = unat (byte_or0 q nxt) * 256 + unat (byte_or0 q (nxt + 1));
              question = take (nxt + 4 - 12) (drop 12 q);
              header = [q ! 0, q ! 1, 0x81, 0x80, 0, 1, 0, if qtype = 1 then 1 else 0, 0, 0, 0, 0];
              (ip, d') = (if qtype = 1 then dns_resolve name d else ([], d));
              answer = (if qtype = 1 then [0xc0, 0x0c, 0, 1, 0, 1, 0, 0, 0, 60, 0, 4] @ ipv4ToBytes ip else [])
          in (header @ question @ answer, d'))"

section \<open>Byte queues\<close>

fun takeBytes :: "u8 list list \<Rightarrow> nat \<Rightarrow> u8 list \<times> u8 list list" where
  "takeBytes [] n = ([], [])"
| "takeBytes (first # q) n =
     (if n = 0 then ([], first # q)
      else if length first \<le> n
        then let (out, q') = takeBytes q (n - length first) in (first @ out, q')
        else (take n first, drop n first # q))"

section \<open>SocketHandle\<close>

definition AF_INET :: u32 where "AF_INET = 2"
definition SOCK_STREAM :: u32 where "SOCK_STREAM = 1"
definition SOCK_DGRAM :: u32 where "SOCK_DGRAM = 2"

record sockaddr =
  sa_family :: u32
  sa_port :: nat
  sa_ip :: string

text \<open>A waiter is a promise, by its number, with the count its reader asked for; a connection is the host's.\<close>

record socket =
  so_domain :: u32
  so_type :: u32
  so_protocol :: u32
  recvQueue :: "u8 list list"
  so_waiters :: "(nat \<times> nat) list"
  connected :: bool
  peer :: "sockaddr option"
  conn :: "nat option"
  httpBuffer :: "u8 list"
  so_closed :: bool
  lastFrom :: sockaddr

definition dns_server :: sockaddr where
  "dns_server = \<lparr>sa_family = AF_INET, sa_port = 53, sa_ip = ''10.0.2.3''\<rparr>"

definition new_socket :: "u32 \<Rightarrow> u32 \<Rightarrow> u32 \<Rightarrow> socket" where
  "new_socket domain ty protocol = \<lparr>so_domain = domain, so_type = ty AND 0xf, so_protocol = protocol, recvQueue = [],
     so_waiters = [], connected = False, peer = None, conn = None, httpBuffer = [], so_closed = False,
     lastFrom = dns_server\<rparr>"

text \<open>The network a socket uses: which of its optional methods are there, and what the host answers at once.\<close>

record network =
  has_openTcp :: bool
  has_exchangeHttp :: bool
  net_reverse :: "(string \<Rightarrow> string) option"
  conn_hasData :: "nat \<Rightarrow> bool"

datatype host_call =
    OpenTcp string nat
  | TcpSend nat "u8 list"
  | TcpRecv nat nat
  | ExchangeHttp string nat "u8 list"

datatype 'v async = Resolved 'v | Rejects vfs_error | Waits nat | OnHost host_call

text \<open>\<open>_enqueue\<close> also gives the promises it resolves, with their values.\<close>

definition so_enqueue :: "u8 list \<Rightarrow> socket \<Rightarrow> socket \<times> (nat \<times> u8 list) list" where
  "so_enqueue bs s =
     (case so_waiters s of
        [] \<Rightarrow> (s\<lparr>recvQueue := recvQueue s @ [bs]\<rparr>, [])
      | (p, count) # ws \<Rightarrow>
          if length bs \<le> count then (s\<lparr>so_waiters := ws\<rparr>, [(p, bs)])
          else (s\<lparr>so_waiters := ws, recvQueue := drop count bs # recvQueue s\<rparr>, [(p, take count bs)]))"

definition host_of :: "network option \<Rightarrow> string \<Rightarrow> string" where
  "host_of net ip = (case net of Some n \<Rightarrow> (case net_reverse n of Some f \<Rightarrow> f ip | None \<Rightarrow> ip) | None \<Rightarrow> ip)"

definition so_connect :: "network option \<Rightarrow> sockaddr option \<Rightarrow> socket \<Rightarrow> nat async \<times> socket" where
  "so_connect net addr s =
     (if so_domain s \<noteq> AF_INET then (Rejects (VErr 97), s)
      else let s' = s\<lparr>peer := addr, connected := True\<rparr> in
        if so_type s = SOCK_STREAM \<and> (case net of Some n \<Rightarrow> has_openTcp n | None \<Rightarrow> False)
        then (case addr of
                None \<Rightarrow> (Rejects TypeErr, s')
              | Some a \<Rightarrow> (OnHost (OpenTcp (host_of net (sa_ip a)) (sa_port a)), s'))
        else (Resolved 0, s'))"

definition so_connected :: "nat \<Rightarrow> socket \<Rightarrow> nat \<times> socket" where
  "so_connected c s = (0, s\<lparr>conn := Some c\<rparr>)"

text \<open>Closing resolves every waiter with no bytes.\<close>

definition so_close :: "socket \<Rightarrow> socket \<times> (nat \<times> u8 list) list" where
  "so_close s = (s\<lparr>so_closed := True, so_waiters := []\<rparr>, map (\<lambda>(p, count). (p, [])) (so_waiters s))"

text \<open>The test \<open>/\r?\n\r?\n/\<close> for the end of the header of a request.\<close>

fun header_end :: "u8 list \<Rightarrow> bool" where
  "header_end [] = False"
| "header_end (b # rest) = (take 2 (b # rest) = [10, 10] \<or> take 3 (b # rest) = [10, 13, 10] \<or> header_end rest)"

definition so_send :: "network option \<Rightarrow> u8 list \<Rightarrow> socket \<Rightarrow> nat async \<times> socket" where
  "so_send net bs s =
     (if \<not> connected s \<and> peer s = None then (Rejects (VErr 107), s)
      else case conn s of
        Some c \<Rightarrow> (OnHost (TcpSend c bs), s)
      | None \<Rightarrow>
          if so_type s = SOCK_STREAM \<and> (case net of Some n \<Rightarrow> has_exchangeHttp n | None \<Rightarrow> False)
          then let buf = httpBuffer s @ bs; s' = s\<lparr>httpBuffer := buf\<rparr> in
            if header_end buf
            then (case peer s of
                    None \<Rightarrow> (Rejects TypeErr, s')
                  | Some a \<Rightarrow> (OnHost (ExchangeHttp (host_of net (sa_ip a)) (sa_port a) buf), s'))
            else (Resolved (length bs), s')
          else (Resolved (length bs), s))"

definition so_response :: "u8 list \<Rightarrow> socket \<Rightarrow> socket \<times> (nat \<times> u8 list) list" where
  "so_response response s = so_enqueue response (s\<lparr>httpBuffer := []\<rparr>)"

text \<open>\<open>recv\<close>, given the number of the promise it would return.\<close>

definition so_recv :: "nat \<Rightarrow> nat \<Rightarrow> socket \<Rightarrow> u8 list async \<times> socket" where
  "so_recv p count s =
     (if recvQueue s \<noteq> [] then let (out, q) = takeBytes (recvQueue s) count in (Resolved out, s\<lparr>recvQueue := q\<rparr>)
      else case conn s of
        Some c \<Rightarrow> (OnHost (TcpRecv c count), s)
      | None \<Rightarrow> if so_closed s then (Resolved [], s)
          else (Waits p, s\<lparr>so_waiters := so_waiters s @ [(p, count)]\<rparr>))"

definition so_hasData :: "network option \<Rightarrow> socket \<Rightarrow> bool" where
  "so_hasData net s \<longleftrightarrow> recvQueue s \<noteq> [] \<or> so_closed s \<or>
     (case conn s of Some c \<Rightarrow> (case net of Some n \<Rightarrow> conn_hasData n c | None \<Rightarrow> False) | None \<Rightarrow> False)"

text \<open>\<open>sendto\<close>: a datagram to port 53 is answered by the name server of the network.\<close>

definition so_sendto :: "network option \<Rightarrow> virtual_dns option \<Rightarrow> u8 list \<Rightarrow> sockaddr option \<Rightarrow> socket \<Rightarrow>
    nat async \<times> socket \<times> virtual_dns option \<times> (nat \<times> u8 list) list" where
  "so_sendto net dns bs addr s =
     (if so_type s \<noteq> SOCK_DGRAM then let (r, s') = so_send net bs s in (r, s', dns, [])
      else case (addr, dns) of
        (Some a, Some d) \<Rightarrow>
          if sa_port a = 53
          then let (out, d') = buildResponse bs d; (s', res) = so_enqueue out (s\<lparr>lastFrom := dns_server\<rparr>)
               in (Resolved (length bs), s', Some d', res)
          else (Resolved (length bs), s, dns, [])
      | _ \<Rightarrow> (Resolved (length bs), s, dns, []))"

end
