(* ===== verification/Sys.thy ===== *)
theory Sys
  imports Cpu_Step Vfs_Files Network Sync
begin

text \<open>
  The state of the Linux system-call layer of \<open>src/syscalls.js\<close>: file handles, the descriptor table and the
  helpers of \<open>LinuxSyscalls\<close>. Handles are objects that descriptors share (\<open>dup\<close>, \<open>fork\<close>), so they are in a
  store. The layer works on the memory of the CPU it is called from, which is the memory it was made with. What it
  takes from its host is collected in a record. A promise is described by what is known when the synchronous part of
  a call ends.
\<close>

section \<open>Handles\<close>

datatype handle =
    HStdin
  | HStdout
  | HStderr
  | HFile open_file
  | HEvent int u32
  | HEpoll "(u32, u32 \<times> u32) jsmap"
  | HPipe nat bool bool
  | HSocket socket

record thread_area =
  ta_entry :: u32
  ta_base :: u32
  ta_limit :: u32
  ta_flags :: u32

record sigaction =
  sg_handler :: u32
  sg_mask :: u32
  sg_flags :: u32
  sg_restorer :: u32

record trace_record =
  tr_nr :: u32
  tr_args :: "u32 list"
  tr_eip :: u32
  tr_ret :: u32

record sys_state =
  sy_heap :: heap
  sy_vfs :: vfs
  sy_output :: string
  sy_stderr :: string
  sy_stdin :: "u8 list"
  sy_stdinOffset :: nat
  sy_handles :: "handle list"
  sy_pipes :: "u8 list list"
  sy_fd :: "(nat, nat) jsmap"
  sy_nextFd :: nat
  sy_cwd :: string
  sy_brk :: u32
  sy_pid :: u32
  sy_ppid :: u32
  sy_uid :: u32
  sy_gid :: u32
  sy_mmapMin :: u32
  sy_mmapMax :: u32
  sy_threadArea :: thread_area
  sy_futex :: futex_table
  sy_signalActions :: "(u32, sigaction) jsmap"
  sy_umask :: u32
  sy_clearChildTid :: "u32 option"
  sy_dns :: "virtual_dns option"
  sy_nextPromise :: nat
  sy_resolved :: "(nat \<times> u8 list) list"
  sy_trace :: bool
  sy_syscallTrace :: "trace_record list"

text \<open>The constructor. \<open>umask\<close> is \<open>undefined\<close> at first and read as octal 022.\<close>

definition new_syscalls :: "heap \<Rightarrow> vfs \<Rightarrow> string \<Rightarrow> u32 \<Rightarrow> u32 \<Rightarrow> u32 \<Rightarrow> sys_state" where
  "new_syscalls h v stdin brk pid ppid = \<lparr>sy_heap = h, sy_vfs = v, sy_output = [], sy_stderr = [],
     sy_stdin = stringToBytes stdin, sy_stdinOffset = 0, sy_handles = [HStdin, HStdout, HStderr], sy_pipes = [],
     sy_fd = [(0, 0), (1, 1), (2, 2)], sy_nextFd = 3, sy_cwd = ''/'', sy_brk = brk, sy_pid = pid, sy_ppid = ppid,
     sy_uid = 1000, sy_gid = 1000, sy_mmapMin = 0x40000000, sy_mmapMax = 0xb0000000,
     sy_threadArea = \<lparr>ta_entry = 6, ta_base = 0, ta_limit = 0xfffff, ta_flags = 0x51\<rparr>, sy_futex = new_futex,
     sy_signalActions = [], sy_umask = 0x12, sy_clearChildTid = None, sy_dns = None, sy_nextPromise = 0,
     sy_resolved = [], sy_trace = False, sy_syscallTrace = []\<rparr>"

section \<open>Outcomes\<close>

text \<open>
  A handle method returns at once or gives a promise. A pending call says what it waits for and what is done with the
  value: \<open>PRead\<close> stores bytes at an address, \<open>PReadv\<close> goes on with the next vector, \<open>PRecvfrom\<close> also stores the
  sender's address.
\<close>

datatype 'v outcome = Now 'v | Promise "'v async"

datatype pending =
    PNum "nat async"
  | PRead "u8 list async" u32
  | PReadv "u8 list async" nat u32 nat nat nat
  | PWritev nat "nat async list"
  | PRecvfrom "u8 list async" nat u32
  | PTimer nat
  | PFutex nat
  | PHost nat

datatype sys_ret = Val u32 | Pending pending

datatype sys_trap =
    ProcessExit int
  | ExecveTrap string "string list" "string list"
  | AsyncSyscallPending pending "trace_record option"
  | Thrown vfs_error
  | UnterminatedCString u32

type_synonym 'a sysM = "(sys_state, sys_trap, 'a) cpuM"
type_synonym sysc = "sys_state cpu"

record sys_env =
  rng :: "nat \<Rightarrow> u8 list"
  date_ms :: int
  net :: "network option"
  stdinReader :: "(nat \<Rightarrow> u8 list outcome) option"
  onExecve :: "(string \<Rightarrow> string list \<Rightarrow> string list \<Rightarrow> sys_ret sysM) option"
  onFork :: "(string \<Rightarrow> sys_ret sysM) option"
  onWait4 :: "(int \<Rightarrow> u32 \<Rightarrow> u32 \<Rightarrow> u32 \<Rightarrow> sys_ret sysM) option"

definition kget :: "(sys_state \<Rightarrow> 'a) \<Rightarrow> 'a sysM" where
  "kget f = getS (\<lambda>s. f (kern s))"

definition kmod :: "(sys_state \<Rightarrow> sys_state) \<Rightarrow> unit sysM" where
  "kmod f = modS (\<lambda>s. s\<lparr>kern := f (kern s)\<rparr>)"

definition fail :: "nat \<Rightarrow> 'a sysM" where
  "fail e = throw (Trap (Thrown (VErr e)))"

text \<open>An operation of the file system inside the layer.\<close>

definition vfsOp :: "(vfs \<Rightarrow> 'a vfsM) \<Rightarrow> 'a sysM" where
  "vfsOp f = (\<lambda>s. case f (sy_vfs (kern s)) (sy_heap (kern s)) of
     (Inl e, h) \<Rightarrow> (Inl (Trap (Thrown e)), s\<lparr>kern := (kern s)\<lparr>sy_heap := h\<rparr>\<rparr>)
   | (Inr x, h) \<Rightarrow> (Inr x, s\<lparr>kern := (kern s)\<lparr>sy_heap := h\<rparr>\<rparr>))"

definition nowSeconds :: "int sysM" where
  "nowSeconds = kget (\<lambda>k. clock (sy_heap k))"

section \<open>Descriptors\<close>

text \<open>\<open>while (this.fd.has(n)) n++\<close>\<close>

function free_fd :: "(nat, nat) jsmap \<Rightarrow> nat \<Rightarrow> nat" where
  "free_fd m n = (if map_of m n \<noteq> None then free_fd m (n + 1) else n)"
  by pat_completeness auto

termination
proof (relation "measure (\<lambda>(m, n). card {k \<in> fst ` set m. n \<le> k})")
  fix m :: "(nat, nat) jsmap" and n :: nat
  assume "map_of m n \<noteq> None"
  then have "n \<in> fst ` set m" by (metis map_of_eq_None_iff)
  moreover have "n \<notin> {k \<in> fst ` set m. n + 1 \<le> k}" by simp
  moreover have "{k \<in> fst ` set m. n + 1 \<le> k} \<subseteq> {k \<in> fst ` set m. n \<le> k}" by auto
  ultimately have "{k \<in> fst ` set m. n + 1 \<le> k} \<subset> {k \<in> fst ` set m. n \<le> k}" by blast
  then have "card {k \<in> fst ` set m. n + 1 \<le> k} < card {k \<in> fst ` set m. n \<le> k}" by (intro psubset_card_mono) auto
  then show "((m, n + 1), (m, n)) \<in> measure (\<lambda>(m, n). card {k \<in> fst ` set m. n \<le> k})" by simp
qed simp

declare free_fd.simps [simp del]

text \<open>\<open>allocFd\<close>; no caller passes the preferred descriptor.\<close>

definition allocFd :: "nat \<Rightarrow> nat sysM" where
  "allocFd h = bnd (kget (\<lambda>k. free_fd (sy_fd k) (sy_nextFd k))) (\<lambda>n.
     thn (kmod (\<lambda>k. k\<lparr>sy_fd := AList.update n h (sy_fd k), sy_nextFd := n + 1\<rparr>)) (ret n))"

definition newHandle :: "handle \<Rightarrow> nat sysM" where
  "newHandle h = bnd (kget (\<lambda>k. length (sy_handles k))) (\<lambda>r.
     thn (kmod (\<lambda>k. k\<lparr>sy_handles := sy_handles k @ [h]\<rparr>)) (ret r))"

definition openHandle :: "handle \<Rightarrow> nat sysM" where
  "openHandle h = bnd (newHandle h) allocFd"

definition getFd :: "u32 \<Rightarrow> nat sysM" where
  "getFd n = bnd (kget (\<lambda>k. map_of (sy_fd k) (unat n))) (\<lambda>r. case r of None \<Rightarrow> fail 9 | Some h \<Rightarrow> ret h)"

definition hget :: "nat \<Rightarrow> handle sysM" where
  "hget r = kget (\<lambda>k. sy_handles k ! r)"

definition hset :: "nat \<Rightarrow> handle \<Rightarrow> unit sysM" where
  "hset r h = kmod (\<lambda>k. k\<lparr>sy_handles := (sy_handles k)[r := h]\<rparr>)"

definition resolve_all :: "(nat \<times> u8 list) list \<Rightarrow> unit sysM" where
  "resolve_all res = kmod (\<lambda>k. k\<lparr>sy_resolved := sy_resolved k @ res\<rparr>)"

text \<open>\<open>h.close?.()\<close>: only sockets have the method.\<close>

definition h_close :: "nat \<Rightarrow> unit sysM" where
  "h_close r = bnd (hget r) (\<lambda>h. case h of
     HSocket s \<Rightarrow> (let (s', res) = so_close s in thn (hset r (HSocket s')) (resolve_all res))
   | _ \<Rightarrow> ret ())"

definition closeFd :: "u32 \<Rightarrow> u32 sysM" where
  "closeFd n = (if n \<le> 2 then ret 0
     else bnd (getFd n) (\<lambda>r. thn (h_close r)
       (thn (kmod (\<lambda>k. k\<lparr>sy_fd := AList.delete (unat n) (sy_fd k)\<rparr>)) (ret 0))))"

section \<open>Handle methods\<close>

definition readStdin :: "sys_env \<Rightarrow> nat \<Rightarrow> u8 list outcome sysM" where
  "readStdin ev count = (case stdinReader ev of
     Some f \<Rightarrow> ret (f count)
   | None \<Rightarrow> bnd (kget (\<lambda>k. take (min count (length (sy_stdin k) - sy_stdinOffset k)) (drop (sy_stdinOffset k) (sy_stdin k))))
       (\<lambda>out. thn (kmod (\<lambda>k. k\<lparr>sy_stdinOffset := sy_stdinOffset k + length out\<rparr>)) (ret (Now out))))"

definition fresh_promise :: "nat sysM" where
  "fresh_promise = bnd (kget sy_nextPromise) (\<lambda>p. thn (kmod (\<lambda>k. k\<lparr>sy_nextPromise := p + 1\<rparr>)) (ret p))"

definition h_read :: "sys_env \<Rightarrow> nat \<Rightarrow> nat \<Rightarrow> u8 list outcome sysM" where
  "h_read ev r count = bnd (hget r) (\<lambda>h. case h of
     HStdin \<Rightarrow> readStdin ev count
   | HStdout \<Rightarrow> fail 9
   | HStderr \<Rightarrow> fail 9
   | HFile f \<Rightarrow> bnd (vfsOp (\<lambda>_. of_read (rng ev) count f)) (\<lambda>(out, f'). thn (hset r (HFile f')) (ret (Now out)))
   | HEvent v fl \<Rightarrow> if count < 8 then fail 22
       else thn (hset r (HEvent 0 fl)) (ret (Now (le_bytes 8 (word_of_int v :: u64))))
   | HEpoll _ \<Rightarrow> fail 22
   | HPipe p rd wr \<Rightarrow> if \<not> rd then fail 9
       else bnd (kget (\<lambda>k. sy_pipes k ! p)) (\<lambda>buf.
         thn (kmod (\<lambda>k. k\<lparr>sy_pipes := (sy_pipes k)[p := drop count buf]\<rparr>)) (ret (Now (take count buf))))
   | HSocket s \<Rightarrow> bnd fresh_promise (\<lambda>p. let (a, s') = so_recv p count s in
       thn (hset r (HSocket s')) (ret (Promise a))))"

definition h_write :: "sys_env \<Rightarrow> nat \<Rightarrow> u8 list \<Rightarrow> nat outcome sysM" where
  "h_write ev r bs = bnd (hget r) (\<lambda>h. case h of
     HStdin \<Rightarrow> fail 9
   | HStdout \<Rightarrow> thn (kmod (\<lambda>k. k\<lparr>sy_output := sy_output k @ bytesToString bs\<rparr>)) (ret (Now (length bs)))
   | HStderr \<Rightarrow> thn (kmod (\<lambda>k. k\<lparr>sy_stderr := sy_stderr k @ bytesToString bs\<rparr>)) (ret (Now (length bs)))
   | HFile f \<Rightarrow> bnd (vfsOp (\<lambda>_. of_write bs f)) (\<lambda>(n, f'). thn (hset r (HFile f')) (ret (Now n)))
   | HEvent v fl \<Rightarrow> if length bs < 8 then fail 22
       else thn (hset r (HEvent (v + uint (of_le_bytes (take 8 bs) :: u64)) fl)) (ret (Now 8))
   | HEpoll _ \<Rightarrow> fail 22
   | HPipe p rd wr \<Rightarrow> if \<not> wr then fail 9
       else thn (kmod (\<lambda>k. k\<lparr>sy_pipes := (sy_pipes k)[p := sy_pipes k ! p @ bs]\<rparr>)) (ret (Now (length bs)))
   | HSocket s \<Rightarrow> (let (a, s') = so_send (net ev) bs s in thn (hset r (HSocket s')) (ret (Promise a))))"

definition h_lseek :: "nat \<Rightarrow> int \<Rightarrow> u32 \<Rightarrow> nat sysM" where
  "h_lseek r off whence = bnd (hget r) (\<lambda>h. case h of
     HFile f \<Rightarrow> bnd (vfsOp (\<lambda>_. lseek off (uint whence) f)) (\<lambda>(n, f'). thn (hset r (HFile f')) (ret n))
   | _ \<Rightarrow> fail 29)"

text \<open>The status of a handle that is not a file: the constant fields of the source's object.\<close>

definition special_stat :: "nat \<Rightarrow> u32 \<Rightarrow> u32 \<Rightarrow> u32 \<Rightarrow> u32 \<Rightarrow> nat \<Rightarrow> int \<Rightarrow> stat_t" where
  "special_stat i mode u g rd sz nowS = \<lparr>st_ino = i, st_mode = mode, st_nlink = 1, st_uid = u, st_gid = g, st_rdev = rd,
     st_size = sz, st_blocks = 0, st_atime = nowS, st_mtime = nowS, st_ctime = nowS\<rparr>"

definition h_stat :: "nat \<Rightarrow> stat_t sysM" where
  "h_stat r = bnd (hget r) (\<lambda>h. bnd nowSeconds (\<lambda>nowS. bnd (kget id) (\<lambda>k. ret (case h of
     HStdin \<Rightarrow> special_stat 10 (S_IFCHR OR 0x1b6) 0 0 0x0500 0 nowS
   | HStdout \<Rightarrow> special_stat 11 (S_IFCHR OR 0x1b6) 0 0 0x0500 0 nowS
   | HStderr \<Rightarrow> special_stat 12 (S_IFCHR OR 0x1b6) 0 0 0x0500 0 nowS
   | HFile f \<Rightarrow> node_stat (nd (sy_heap k) (of_node f))
   | HEvent _ _ \<Rightarrow> special_stat 8000 (S_IFIFO OR 0x1b6) 0 0 0 0 nowS
   | HEpoll _ \<Rightarrow> special_stat 8100 (S_IFIFO OR 0x180) 0 0 0 0 nowS
   | HPipe p _ _ \<Rightarrow> special_stat 99 (S_IFIFO OR 0x1b6) 0 0 0 (length (sy_pipes k ! p)) nowS
   | HSocket _ \<Rightarrow> special_stat 7000 (S_IFSOCK OR 0x1ff) (sy_uid k) (sy_gid k) 0 0 nowS))))"

text \<open>\<open>h.readdir\<close>: event, epoll and pipe handles do not have it.\<close>

definition h_readdir :: "nat \<Rightarrow> ((string \<times> nat) list \<times> nat) sysM" where
  "h_readdir r = bnd (hget r) (\<lambda>h. case h of
     HFile f \<Rightarrow> bnd (vfsOp (\<lambda>_. readdir f)) (\<lambda>(es, f'). thn (hset r (HFile f')) (ret (es, of_dirOffset f')))
   | HEvent _ _ \<Rightarrow> throw (Trap (Thrown TypeErr))
   | HEpoll _ \<Rightarrow> throw (Trap (Thrown TypeErr))
   | HPipe _ _ _ \<Rightarrow> throw (Trap (Thrown TypeErr))
   | _ \<Rightarrow> fail 20)"

text \<open>\<open>h.hasData?.()\<close>: only event descriptors and sockets have the method.\<close>

definition h_hasData :: "sys_env \<Rightarrow> handle \<Rightarrow> bool" where
  "h_hasData ev h = (case h of HEvent v _ \<Rightarrow> v \<noteq> 0 | HSocket s \<Rightarrow> so_hasData (net ev) s | _ \<Rightarrow> False)"

definition h_path :: "handle \<Rightarrow> string option" where
  "h_path h = (case h of HFile f \<Rightarrow> Some (of_path f) | _ \<Rightarrow> None)"

definition h_node :: "handle \<Rightarrow> nat option" where
  "h_node h = (case h of HFile f \<Rightarrow> Some (of_node f) | _ \<Rightarrow> None)"

section \<open>EpollHandle\<close>

definition epoll_ctl :: "nat \<Rightarrow> (u32, u32 \<times> u32) jsmap \<Rightarrow> u32 \<Rightarrow> u32 \<Rightarrow> u32 \<Rightarrow> u32 sysM" where
  "epoll_ctl r interests op fd addr =
     (if op = 2 then thn (hset r (HEpoll (AList.delete fd interests))) (ret 0)
      else bnd (memOp (read32 addr)) (\<lambda>events. bnd (memOp (read32 (addr + 4))) (\<lambda>data.
        thn (hset r (HEpoll (AList.update fd (events, data) interests))) (ret 0))))"

definition epoll_ready :: "sys_env \<Rightarrow> sys_state \<Rightarrow> u32 \<Rightarrow> u32 \<Rightarrow> u32" where
  "epoll_ready ev k fd events = (case map_of (sy_fd k) (unat fd) of
     None \<Rightarrow> 0x20
   | Some r \<Rightarrow> (if events AND 1 \<noteq> 0 \<and> (fd = 0 \<or> h_hasData ev (sy_handles k ! r)) then 1 else 0) OR (events AND 4))"

fun epoll_loop :: "sys_env \<Rightarrow> u32 \<Rightarrow> nat \<Rightarrow> nat \<Rightarrow> (u32, u32 \<times> u32) jsmap \<Rightarrow> nat sysM" where
  "epoll_loop ev addr mx n [] = ret n"
| "epoll_loop ev addr mx n ((fd, events, data) # rest) =
     (if n \<ge> mx then ret n
      else bnd (kget (\<lambda>k. epoll_ready ev k fd events)) (\<lambda>ready.
        if ready = 0 then epoll_loop ev addr mx n rest
        else let base = addr + word_of_nat (n * 12) in
          thn (memOp (write32 base ready)) (thn (memOp (write32 (base + 4) data)) (thn (memOp (write32 (base + 8) 0))
            (epoll_loop ev addr mx (n + 1) rest)))))"

end
