(* ===== verification/Sys_Calls.thy ===== *)
theory Sys_Calls
  imports Sys
begin

text \<open>
  The helpers of \<open>LinuxSyscalls\<close> in \<open>src/syscalls.js\<close>: paths read from memory, the structures written to it, memory
  mapping, directory entries, polling and sockets.
\<close>

section \<open>Results\<close>

definition num :: "nat sysM \<Rightarrow> sys_ret sysM" where
  "num m = bnd m (\<lambda>n. ret (Val (word_of_nat n)))"

definition word :: "u32 sysM \<Rightarrow> sys_ret sysM" where
  "word m = bnd m (\<lambda>v. ret (Val v))"

definition ok :: "'a sysM \<Rightarrow> sys_ret sysM" where
  "ok m = thn m (ret (Val 0))"

definition retErr :: "nat \<Rightarrow> sys_ret sysM" where
  "retErr n = ret (Val (errno (int n)))"

definition wr8 :: "u32 \<Rightarrow> u32 \<Rightarrow> unit sysM" where "wr8 a v = memOp (write8 a v)"
definition wr16 :: "u32 \<Rightarrow> u32 \<Rightarrow> unit sysM" where "wr16 a v = memOp (write16 a v)"
definition wr32 :: "u32 \<Rightarrow> u32 \<Rightarrow> unit sysM" where "wr32 a v = memOp (write32 a v)"
definition wrBytes :: "u32 \<Rightarrow> u8 list \<Rightarrow> unit sysM" where "wrBytes a bs = memOp (writeBytes a bs)"
definition rd32 :: "u32 \<Rightarrow> u32 sysM" where "rd32 a = memOp (read32 a)"

definition wrZeros :: "u32 \<Rightarrow> nat \<Rightarrow> unit sysM" where
  "wrZeros a n = forM [0..<n] (\<lambda>i. wr8 (a + word_of_nat i) 0)"

text \<open>A structure: 32-bit fields by offset.\<close>

definition wrFields :: "u32 \<Rightarrow> (nat \<times> u32) list \<Rightarrow> unit sysM" where
  "wrFields a fs = forM fs (\<lambda>(off, v). wr32 (a + word_of_nat off) v)"

definition protToPerm :: "u32 \<Rightarrow> u32" where
  "protToPerm prot = (let p = prot AND 7 in if p = 0 then PERM_RW else p)"

definition modeToDType :: "u32 \<Rightarrow> u32" where
  "modeToDType mode =
     (let t = mode AND 0xf000 in
      if t = S_IFDIR then 4 else if t = S_IFCHR then 2 else if t = S_IFLNK then 10 else if t = S_IFREG then 8 else 0)"

text \<open>\<open>(n + a - 1) & ~(a - 1)\<close>, for a power of two.\<close>

definition align_to :: "nat \<Rightarrow> nat \<Rightarrow> nat" where
  "align_to n a = (n + a - 1) div a * a"

section \<open>Paths\<close>

definition sys_path :: "u32 \<Rightarrow> string sysM" where
  "sys_path addr = bnd (memOp (cstring_loop addr 0 (2 ^ 20) [])) (\<lambda>r.
     case r of None \<Rightarrow> throw (Trap (UnterminatedCString addr)) | Some bs \<Rightarrow> ret (bytesToString bs))"

definition absolute :: "string \<Rightarrow> u32 \<Rightarrow> bool" where
  "absolute p dirfd \<longleftrightarrow> p \<noteq> [] \<and> hd p = CHR ''/'' \<or> sint dirfd = -100"

definition sys_atPath :: "u32 \<Rightarrow> u32 \<Rightarrow> string sysM" where
  "sys_atPath dirfd addr = bnd (sys_path addr) (\<lambda>p.
     if absolute p dirfd then ret p
     else bnd (getFd dirfd) (\<lambda>r. bnd (hget r) (\<lambda>h. bnd (kget sy_cwd) (\<lambda>c.
       let base = (case h_path h of Some b \<Rightarrow> b | None \<Rightarrow> c);
           stem = (if base \<noteq> [] \<and> last base = CHR ''/'' then butlast base else base)
       in ret (stem @ ''/'' @ p)))))"

definition pathAt_base :: "u32 \<Rightarrow> sys_state \<Rightarrow> string" where
  "pathAt_base dirfd k = (case map_of (sy_fd k) (unat dirfd) of
     Some r \<Rightarrow> (case sy_handles k ! r of
         HFile f \<Rightarrow> if of_path f \<noteq> [] \<and> vtype (nd (sy_heap k) (of_node f)) = NDir then of_path f else sy_cwd k
       | _ \<Rightarrow> sy_cwd k)
   | None \<Rightarrow> sy_cwd k)"

definition sys_pathAt :: "u32 \<Rightarrow> u32 \<Rightarrow> string sysM" where
  "sys_pathAt dirfd addr = bnd (sys_path addr) (\<lambda>p.
     if absolute p dirfd then ret p
     else kget (\<lambda>k. normalize ((sy_vfs k)\<lparr>cwd := pathAt_base dirfd k\<rparr>) p))"

text \<open>\<open>_readCStringArray\<close>: at most 4096 pointers.\<close>

fun cstring_array :: "u32 \<Rightarrow> nat \<Rightarrow> string list sysM" where
  "cstring_array ptr 0 = ret []"
| "cstring_array ptr (Suc n) = bnd (rd32 ptr) (\<lambda>p.
     if p = 0 then ret []
     else bnd (sys_path p) (\<lambda>s. bnd (cstring_array (ptr + 4) n) (\<lambda>rest. ret (s # rest))))"

definition readCStringArray :: "u32 \<Rightarrow> string list sysM" where
  "readCStringArray ptr = (if ptr = 0 then ret [] else cstring_array ptr 4096)"

section \<open>The files under proc\<close>

definition stat_line :: "int \<Rightarrow> nat \<Rightarrow> string \<Rightarrow> nat \<Rightarrow> string" where
  "stat_line ms pid name ppid =
     to_dec pid @ '' ('' @ name @ '') R '' @ to_dec ppid @ '' '' @ to_dec pid @ '' '' @ to_dec pid @
     '' 0 0 0 0 0 0 0 1 1 0 0 20 0 1 0 '' @ to_dec (nat (max 1 (ms div 10))) @
     '' 1048576 256 4294967295 134512640 134520000 3221225472 0 0 0 0 0 0 0 0 0 17 0 0 0 0 0 0'' @ newline"

definition four_ids :: "nat \<Rightarrow> string" where
  "four_ids n = concat (replicate 4 (tab @ to_dec n))"

definition status_text :: "nat \<Rightarrow> nat \<Rightarrow> nat \<Rightarrow> string \<Rightarrow> nat \<Rightarrow> string" where
  "status_text u g pid name ppid =
     ''Name:'' @ tab @ name @ newline @ ''State:'' @ tab @ ''R (running)'' @ newline @ ''Tgid:'' @ tab @ to_dec pid @ newline @
     ''Pid:'' @ tab @ to_dec pid @ newline @ ''PPid:'' @ tab @ to_dec ppid @ newline @ ''Uid:'' @ four_ids u @ newline @
     ''Gid:'' @ four_ids g @ newline @ ''Threads:'' @ tab @ ''1'' @ newline @ ''VmSize:'' @ tab @ ''1024 kB'' @ newline @
     ''VmRSS:'' @ tab @ ''256 kB'' @ newline"

definition put_text :: "vfs \<Rightarrow> string \<Rightarrow> string \<Rightarrow> unit vfsM" where
  "put_text v path text = thn (writeFile v path (stringToBytes text) 0x1a4) (ret ())"

definition proc_dir :: "vfs \<Rightarrow> int \<Rightarrow> string \<Rightarrow> nat \<Rightarrow> nat \<Rightarrow> nat \<Rightarrow> nat \<Rightarrow> unit vfsM" where
  "proc_dir v ms maps u g ppid pid =
     (let d = ''/proc/'' @ to_dec pid; name = (if pid = 1 then ''init'' else ''sh''); pp = (if pid = 1 then 0 else ppid) in
      thn (mkdirp v (d @ ''/fd'') 0x1ed)
      (thn (put_text v (d @ ''/stat'') (stat_line ms pid name pp))
      (thn (put_text v (d @ ''/status'') (status_text u g pid name pp))
      (thn (put_text v (d @ ''/cmdline'') (name @ [CHR 0x00]))
      (thn (put_text v (d @ ''/comm'') (name @ newline))
      (thn (put_text v (d @ ''/maps'') maps)
      (thn (try_link v (d @ ''/exe'', ''/bin/sh''))
        (forM [''0'', ''1'', ''2''] (\<lambda>f. try_link v (d @ ''/fd/'' @ f, ''/dev/tty'')))))))))) "

definition refresh_files :: "int \<Rightarrow> string \<Rightarrow> sys_state \<Rightarrow> unit vfsM" where
  "refresh_files ms maps k =
     (let v = sy_vfs k; pid = unat (sy_pid k); ppid = unat (sy_ppid k); u = unat (sy_uid k); g = unat (sy_gid k) in
      thn (mkdirp v ''/proc/self/fd'' 0x1ed)
      (thn (forM [1, pid] (proc_dir v ms maps u g ppid))
      (thn (put_text v ''/proc/self/maps'' maps)
      (thn (put_text v ''/proc/self/stat'' (stat_line ms pid ''sh'' ppid))
      (thn (put_text v ''/proc/self/status'' (status_text u g pid ''sh'' ppid))
      (thn (put_text v ''/proc/uptime'' (to_dec (nat (ms div 1000)) @ ''.00 0.00'' @ newline))
      (thn (put_text v ''/proc/loadavg'' (''0.00 0.00 0.00 1/2 100'' @ newline))
        (put_text v ''/proc/stat'' (''cpu  1 0 1 100 0 0 0 0 0 0'' @ newline @ ''cpu0 1 0 1 100 0 0 0 0 0 0'' @ newline @
           ''intr 0'' @ newline @ ''ctxt 1'' @ newline @ ''btime 1'' @ newline @ ''processes 2'' @ newline @
           ''procs_running 1'' @ newline @ ''procs_blocked 0'' @ newline)))))))))"

text \<open>An error ends the work and is dropped.\<close>

definition refreshProcFiles :: "sys_env \<Rightarrow> unit sysM" where
  "refreshProcFiles ev = modS (\<lambda>s.
     s\<lparr>kern := (kern s)\<lparr>sy_heap := snd (refresh_files (date_ms ev) (formatMaps (mem s)) (kern s) (sy_heap (kern s)))\<rparr>\<rparr>)"

section \<open>Reading and writing\<close>

definition readInto :: "sys_env \<Rightarrow> u32 \<Rightarrow> u32 \<Rightarrow> u32 \<Rightarrow> sys_ret sysM" where
  "readInto ev fd addr count = bnd (getFd fd) (\<lambda>r. bnd (h_read ev r (unat count)) (\<lambda>o1. case o1 of
     Promise a \<Rightarrow> ret (Pending (PRead a addr))
   | Now bs \<Rightarrow> thn (wrBytes addr bs) (ret (Val (word_of_nat (length bs))))))"

text \<open>The argument of \<open>write\<close> is evaluated after the descriptor is looked up.\<close>

definition writeFrom :: "sys_env \<Rightarrow> u32 \<Rightarrow> u32 \<Rightarrow> u32 \<Rightarrow> sys_ret sysM" where
  "writeFrom ev fd addr count = bnd (getFd fd) (\<lambda>r. bnd (memOp (readBytes addr (unat count))) (\<lambda>bs.
     bnd (h_write ev r bs) (\<lambda>o1. case o1 of
       Promise a \<Rightarrow> ret (Pending (PNum a)) | Now n \<Rightarrow> ret (Val (word_of_nat n)))))"

fun readv_loop :: "sys_env \<Rightarrow> u32 \<Rightarrow> u32 \<Rightarrow> nat \<Rightarrow> nat \<Rightarrow> nat \<Rightarrow> sys_ret sysM" where
  "readv_loop ev fd iov i 0 tot = ret (Val (word_of_nat tot))"
| "readv_loop ev fd iov i (Suc left) tot =
     bnd (rd32 (iov + word_of_nat (i * 8))) (\<lambda>base. bnd (rd32 (iov + word_of_nat (i * 8) + 4)) (\<lambda>len.
     bnd (getFd fd) (\<lambda>r. bnd (h_read ev r (unat len)) (\<lambda>o1. case o1 of
       Promise a \<Rightarrow> ret (Pending (PReadv a (unat fd) iov i left tot))
     | Now bs \<Rightarrow> thn (wrBytes base bs) (bnd (rd32 (iov + word_of_nat (i * 8) + 4)) (\<lambda>len'.
         if length bs < unat len' then ret (Val (word_of_nat (tot + length bs)))
         else readv_loop ev fd iov (i + 1) left (tot + length bs)))))))"

fun writev_loop :: "sys_env \<Rightarrow> nat \<Rightarrow> u32 \<Rightarrow> nat \<Rightarrow> nat \<Rightarrow> nat \<Rightarrow> nat async list \<Rightarrow> sys_ret sysM" where
  "writev_loop ev r iov i 0 tot ps = ret (if ps = [] then Val (word_of_nat tot) else Pending (PWritev tot ps))"
| "writev_loop ev r iov i (Suc left) tot ps =
     bnd (rd32 (iov + word_of_nat (i * 8))) (\<lambda>base. bnd (rd32 (iov + word_of_nat (i * 8) + 4)) (\<lambda>len.
     bnd (memOp (readBytes base (unat len))) (\<lambda>bs. bnd (h_write ev r bs) (\<lambda>o1. case o1 of
       Promise a \<Rightarrow> writev_loop ev r iov (i + 1) left tot (ps @ [a])
     | Now n \<Rightarrow> writev_loop ev r iov (i + 1) left (tot + n) ps))))"

text \<open>
  \<open>pread\<close> and \<open>pwrite\<close>: the offset is set, the transfer made and the offset put back, unless the transfer throws.
\<close>

definition h_offset :: "handle \<Rightarrow> nat" where
  "h_offset h = (case h of HFile f \<Rightarrow> of_offset f | _ \<Rightarrow> 0)"

definition set_offset :: "nat \<Rightarrow> nat \<Rightarrow> unit sysM" where
  "set_offset r off = bnd (hget r) (\<lambda>h. case h of HFile f \<Rightarrow> hset r (HFile (f\<lparr>of_offset := off\<rparr>)) | _ \<Rightarrow> ret ())"

definition at_offset :: "u32 \<Rightarrow> u32 \<Rightarrow> sys_ret sysM \<Rightarrow> sys_ret sysM" where
  "at_offset fd off m = bnd (getFd fd) (\<lambda>r. bnd (hget r) (\<lambda>h.
     thn (set_offset r (unat off)) (bnd m (\<lambda>v. thn (set_offset r (h_offset h)) (ret v)))))"

definition fillRandom :: "sys_env \<Rightarrow> u32 \<Rightarrow> u32 \<Rightarrow> sys_ret sysM" where
  "fillRandom ev addr count = thn (wrBytes addr (rng ev (unat count))) (ret (Val (word_of_nat (length (rng ev (unat count))))))"

section \<open>Structures\<close>

definition writeStatx :: "u32 \<Rightarrow> stat_t \<Rightarrow> unit sysM" where
  "writeStatx addr st =
     (let ts = (\<lambda>off sec. [(off, word_of_int sec), (off + 4, 0), (off + 8, 0), (off + 12, 0)]) in
      thn (wrZeros addr 256)
      (thn (wrFields addr [(0, 0x17ff), (4, 4096), (16, word_of_nat (st_nlink st)), (20, st_uid st), (24, st_gid st)])
      (thn (wr16 (addr + 28) (st_mode st AND 0xffff))
        (wrFields addr ([(32, word_of_nat (st_ino st)), (36, 0), (40, word_of_nat (st_size st)),
           (44, word_of_nat (st_size st div 2 ^ 32)), (48, word_of_nat (st_blocks st)),
           (52, word_of_nat (st_blocks st div 2 ^ 32))] @ ts 56 (st_atime st) @ ts 72 (st_mtime st) @ ts 88 (st_ctime st))))))"

definition writeStat32 :: "u32 \<Rightarrow> stat_t \<Rightarrow> unit sysM" where
  "writeStat32 addr st =
     thn (wrZeros addr 64) (thn (wr16 addr 1) (thn (wr16 (addr + 4) (word_of_nat (st_ino st)))
     (thn (wr32 (addr + 8) (st_mode st)) (thn (wr16 (addr + 12) (word_of_nat (st_nlink st)))
     (thn (wr16 (addr + 14) (st_uid st)) (thn (wr16 (addr + 16) (st_gid st)) (thn (wr16 (addr + 18) (st_rdev st))
       (wrFields addr [(20, word_of_nat (st_size st)), (24, 4096), (28, word_of_nat (st_blocks st)),
         (32, word_of_int (st_atime st)), (40, word_of_int (st_mtime st)), (48, word_of_int (st_ctime st))]))))))))"

definition writeStat64 :: "u32 \<Rightarrow> stat_t \<Rightarrow> unit sysM" where
  "writeStat64 addr st =
     thn (wrZeros addr 96) (wrFields addr
       [(0, 1), (4, 0), (12, word_of_nat (st_ino st)), (16, st_mode st), (20, word_of_nat (st_nlink st)), (24, st_uid st),
        (28, st_gid st), (32, st_rdev st), (36, 0), (44, word_of_nat (st_size st)), (48, word_of_nat (st_size st div 2 ^ 32)),
        (52, 4096), (56, word_of_nat (st_blocks st)), (60, word_of_nat (st_blocks st div 2 ^ 32)),
        (64, word_of_int (st_atime st)), (68, 0), (72, word_of_int (st_mtime st)), (76, 0), (80, word_of_int (st_ctime st)),
        (84, 0), (88, word_of_nat (st_ino st)), (92, 0)])"

definition uts_fields :: "string list" where
  "uts_fields = [''Linux'', ''cheerpx-cleanroom'', ''6.1.0-emulated'', ''#1 CleanRoom'', ''i686'', ''localdomain'']"

definition writeUtsname :: "u32 \<Rightarrow> unit sysM" where
  "writeUtsname addr = forM (zip [0..<6] uts_fields) (\<lambda>(i, f).
     let off = addr + word_of_nat (i * 65) in thn (wrZeros off 65) (wrBytes off (take 64 (stringToBytes f))))"

definition writeTimeval :: "sys_env \<Rightarrow> u32 \<Rightarrow> unit sysM" where
  "writeTimeval ev addr = thn (wr32 addr (word_of_int (date_ms ev div 1000)))
     (wr32 (addr + 4) (word_of_int (date_ms ev mod 1000 * 1000)))"

definition writeTimespec :: "sys_env \<Rightarrow> u32 \<Rightarrow> unit sysM" where
  "writeTimespec ev addr = thn (wr32 addr (word_of_int (date_ms ev div 1000)))
     (wr32 (addr + 4) (word_of_int (date_ms ev mod 1000 * 1000000)))"

definition readTimespecMs :: "u32 \<Rightarrow> nat option sysM" where
  "readTimespecMs addr = (if addr = 0 then ret None
     else bnd (rd32 addr) (\<lambda>sec. bnd (rd32 (addr + 4)) (\<lambda>nsec.
       ret (Some (unat sec * 1000 + (unat nsec + 999999) div 1000000)))))"

definition timespecSeconds :: "u32 \<Rightarrow> int sysM" where
  "timespecSeconds addr = (if addr \<noteq> 0 then bnd (rd32 addr) (\<lambda>v. ret (uint v)) else nowSeconds)"

definition writeSigaction :: "u32 \<Rightarrow> sigaction \<Rightarrow> unit sysM" where
  "writeSigaction addr a = whenM (addr \<noteq> 0) (thn (wrZeros addr 16)
     (wrFields addr [(0, sg_handler a), (4, sg_mask a), (8, sg_flags a), (12, sg_restorer a)]))"

definition no_action :: sigaction where
  "no_action = \<lparr>sg_handler = 0, sg_mask = 0, sg_flags = 0, sg_restorer = 0\<rparr>"

definition readSigaction :: "u32 \<Rightarrow> sigaction sysM" where
  "readSigaction addr = (if addr = 0 then ret no_action
     else bnd (rd32 addr) (\<lambda>h. bnd (rd32 (addr + 4)) (\<lambda>m. bnd (rd32 (addr + 8)) (\<lambda>f. bnd (rd32 (addr + 12)) (\<lambda>r.
       ret \<lparr>sg_handler = h, sg_mask = m, sg_flags = f, sg_restorer = r\<rparr>)))))"

definition sys_mknod :: "string \<Rightarrow> u32 \<Rightarrow> u32 \<Rightarrow> sys_ret sysM" where
  "sys_mknod path mode dev =
     (let t = mode AND 0xf000; m = mode AND 0xfff in
      if t = 0x4000 then ok (vfsOp (\<lambda>v. mkdir v path m))
      else if t = 0xa000 then retErr 22
      else if t = 0x1000 then ok (vfsOp (\<lambda>v. mknod v path ''fifo'' m dev))
      else if t = 0x2000 \<or> t = 0x6000 then ok (vfsOp (\<lambda>v. mknod v path ''null'' m dev))
      else ok (vfsOp (\<lambda>v. writeFile v path [] (if m = 0 then 0x1a4 else m))))"

definition sys_fcntl :: "u32 \<Rightarrow> u32 \<Rightarrow> sys_ret sysM" where
  "sys_fcntl fd cmd = bnd (getFd fd) (\<lambda>r. if cmd = 0 then num (allocFd r) else ret (Val 0))"

section \<open>Memory mapping\<close>

definition region_name :: "int \<Rightarrow> string" where
  "region_name fd = (if fd = -1 then ''[anon]'' else ''[fd:'' @ (if fd < 0 then ''-'' else []) @ to_dec (nat \<bar>fd\<bar>) @ '']'')"

definition sys_mmap :: "u32 \<Rightarrow> u32 \<Rightarrow> u32 \<Rightarrow> u32 \<Rightarrow> int \<Rightarrow> nat \<Rightarrow> sys_ret sysM" where
  "sys_mmap addr len prot flags fd offset =
     (if len = 0 then retErr 22
      else let perm = protToPerm prot; fixed = flags AND 0x10 \<noteq> 0 in
        bnd (kget id) (\<lambda>k.
        bnd (if fixed \<and> addr \<noteq> 0 then ret addr else memOp (findFreeRegion len (sy_mmapMin k) (sy_mmapMax k))) (\<lambda>a.
        thn (memOp (map_mem a (uint len) (PermNum perm) (region_name fd)))
        (thn (case (if fd < 0 then None else map_of (sy_fd k) (nat fd)) of
                None \<Rightarrow> ret ()
              | Some r \<Rightarrow> (case h_node (sy_handles k ! r) of
                    None \<Rightarrow> ret ()
                  | Some n \<Rightarrow>
                      if vtype (nd (sy_heap k) n) = NFile
                      then thn (memOp (mprotect a (uint len) (PermNum (PERM_RW OR PERM_X))))
                             (thn (wrBytes a (take (unat len) (drop offset (vdata (nd (sy_heap k) n)))))
                               (memOp (mprotect a (uint len) (PermNum perm))))
                      else ret ()))
          (ret (Val a))))))"

section \<open>Directories\<close>

fun dents64_loop :: "u32 \<Rightarrow> nat \<Rightarrow> nat \<Rightarrow> nat \<Rightarrow> (string \<times> nat) list \<Rightarrow> nat sysM" where
  "dents64_loop dirp count dirOff off [] = ret off"
| "dents64_loop dirp count dirOff off ((nm, n) # es) =
     (let name = stringToBytes nm; reclen = align_to (19 + length name + 1) 8; base = dirp + word_of_nat off in
      if off + reclen > count then ret off
      else bnd (kget (\<lambda>k. node_stat (nd (sy_heap k) n))) (\<lambda>st.
        thn (wrFields base [(0, word_of_nat (st_ino st)), (4, 0), (8, word_of_nat dirOff), (12, 0)])
        (thn (wr16 (base + 16) (word_of_nat reclen)) (thn (wr8 (base + 18) (modeToDType (st_mode st)))
        (thn (wrBytes (base + 19) name) (thn (wr8 (base + 19 + word_of_nat (length name)) 0)
        (thn (forM [19 + length name + 1..<reclen] (\<lambda>i. wr8 (base + word_of_nat i) 0))
          (dents64_loop dirp count dirOff (off + reclen) es))))))))"

definition getdents64 :: "u32 \<Rightarrow> u32 \<Rightarrow> u32 \<Rightarrow> sys_ret sysM" where
  "getdents64 fd dirp count = bnd (getFd fd) (\<lambda>r. bnd (h_readdir r) (\<lambda>(es, dirOff).
     num (dents64_loop dirp (unat count) dirOff 0 es)))"

fun dents_loop :: "u32 \<Rightarrow> nat \<Rightarrow> nat \<Rightarrow> nat \<Rightarrow> (string \<times> nat) list \<Rightarrow> nat sysM" where
  "dents_loop dirp count dirOff off [] = ret off"
| "dents_loop dirp count dirOff off ((nm, n) # es) =
     (let name = stringToBytes nm; reclen = align_to (10 + length name + 1 + 1) 4; base = dirp + word_of_nat off in
      if off + reclen > count then ret off
      else bnd (kget (\<lambda>k. node_stat (nd (sy_heap k) n))) (\<lambda>st.
        thn (wrFields base [(0, word_of_nat (st_ino st)), (4, word_of_nat dirOff)])
        (thn (wr16 (base + 8) (word_of_nat reclen)) (thn (wrBytes (base + 10) name)
        (thn (wr8 (base + 10 + word_of_nat (length name)) 0)
        (thn (wr8 (base + word_of_nat reclen - 1) (modeToDType (st_mode st)))
          (dents_loop dirp count dirOff (off + reclen) es)))))))"

definition getdents :: "u32 \<Rightarrow> u32 \<Rightarrow> u32 \<Rightarrow> sys_ret sysM" where
  "getdents fd dirp count = bnd (getFd fd) (\<lambda>r. bnd (h_readdir r) (\<lambda>(es, dirOff).
     num (dents_loop dirp (unat count) dirOff 0 es)))"

section \<open>Waiting for descriptors\<close>

definition fd_handle :: "sys_state \<Rightarrow> nat \<Rightarrow> handle option" where
  "fd_handle k fd = map_option (\<lambda>r. sy_handles k ! r) (map_of (sy_fd k) fd)"

definition poll_events :: "sys_env \<Rightarrow> sys_state \<Rightarrow> int \<Rightarrow> u32 \<Rightarrow> u32" where
  "poll_events ev k fd events =
     (if fd < 0 then 0
      else case fd_handle k (nat fd) of
        None \<Rightarrow> 0x20
      | Some h \<Rightarrow> (if events AND 1 \<noteq> 0 \<and> (h_hasData ev h \<or> fd = 0) then 1 else 0) OR (events AND 4))"

fun poll_loop :: "sys_env \<Rightarrow> u32 \<Rightarrow> nat \<Rightarrow> nat \<Rightarrow> nat \<Rightarrow> nat sysM" where
  "poll_loop ev addr i 0 ready = ret ready"
| "poll_loop ev addr i (Suc left) ready =
     (let base = addr + word_of_nat (i * 8) in
      bnd (rd32 base) (\<lambda>fd. bnd (memOp (read16 (base + 4))) (\<lambda>events. bnd (kget (\<lambda>k. poll_events ev k (sint fd) events)) (\<lambda>re.
        thn (wr16 (base + 6) re) (poll_loop ev addr (i + 1) left (if re \<noteq> 0 then ready + 1 else ready))))))"

definition sys_poll :: "sys_env \<Rightarrow> u32 \<Rightarrow> u32 \<Rightarrow> sys_ret sysM" where
  "sys_poll ev addr nfds = num (poll_loop ev addr 0 (unat nfds) 0)"

definition bit_word :: "u32 \<Rightarrow> nat \<Rightarrow> u32" where
  "bit_word base fd = base + word_of_nat (fd div 32 * 4)"

definition getBit :: "u32 \<Rightarrow> nat \<Rightarrow> bool sysM" where
  "getBit base fd = (if base = 0 then ret False
     else bnd (rd32 (bit_word base fd)) (\<lambda>w. ret (drop_bit (fd mod 32) w AND 1 \<noteq> 0)))"

definition setBit :: "u32 \<Rightarrow> nat \<Rightarrow> unit sysM" where
  "setBit base fd = whenM (base \<noteq> 0) (bnd (rd32 (bit_word base fd)) (\<lambda>w.
     wr32 (bit_word base fd) (w OR push_bit (fd mod 32) 1)))"

definition clearAll :: "u32 \<Rightarrow> nat \<Rightarrow> unit sysM" where
  "clearAll base words = whenM (base \<noteq> 0) (forM [0..<words] (\<lambda>i. wr32 (base + word_of_nat (i * 4)) 0))"

fun wanted_loop :: "u32 \<Rightarrow> u32 \<Rightarrow> nat list \<Rightarrow> (nat list \<times> nat list) sysM" where
  "wanted_loop rset wset [] = ret ([], [])"
| "wanted_loop rset wset (fd # fds) =
     bnd (getBit rset fd) (\<lambda>r. bnd (getBit wset fd) (\<lambda>w. bnd (wanted_loop rset wset fds) (\<lambda>(rs, ws).
       ret (if r then fd # rs else rs, if w then fd # ws else ws))))"

fun mark_loop :: "(sys_state \<Rightarrow> nat \<Rightarrow> bool) \<Rightarrow> u32 \<Rightarrow> nat list \<Rightarrow> nat sysM" where
  "mark_loop P base [] = ret 0"
| "mark_loop P base (fd # fds) = bnd (kget (\<lambda>k. P k fd)) (\<lambda>b.
     if b then thn (setBit base fd) (bnd (mark_loop P base fds) (\<lambda>n. ret (n + 1))) else mark_loop P base fds)"

definition sys_select :: "sys_env \<Rightarrow> u32 \<Rightarrow> u32 \<Rightarrow> u32 \<Rightarrow> u32 \<Rightarrow> sys_ret sysM" where
  "sys_select ev nfds rset wset eset =
     (let words = (unat nfds + 31) div 32 in
      bnd (wanted_loop rset wset [0..<unat nfds]) (\<lambda>(rs, ws).
      thn (clearAll rset words) (thn (clearAll wset words) (thn (clearAll eset words)
      (bnd (mark_loop (\<lambda>k fd. case fd_handle k fd of None \<Rightarrow> False | Some h \<Rightarrow> fd = 0 \<or> h_hasData ev h) rset rs) (\<lambda>n.
       bnd (mark_loop (\<lambda>k fd. fd_handle k fd \<noteq> None) wset ws) (\<lambda>m. ret (Val (word_of_nat (n + m)))))))))) "

section \<open>Sockets\<close>

definition readSockaddrIn :: "u32 \<Rightarrow> sockaddr option sysM" where
  "readSockaddrIn addr = (if addr = 0 then ret None
     else bnd (memOp (read16 addr)) (\<lambda>fam. bnd (memOp (mapMs [addr + 2, addr + 3, addr + 4, addr + 5, addr + 6, addr + 7] read8)) (\<lambda>bs.
       ret (Some \<lparr>sa_family = fam, sa_port = unat (bs ! 0) * 256 + unat (bs ! 1), sa_ip = bytesToIPv4 (drop 2 bs)\<rparr>))))"

definition writeSockaddrIn :: "u32 \<Rightarrow> sockaddr option \<Rightarrow> unit sysM" where
  "writeSockaddrIn addr value = (case value of
     None \<Rightarrow> ret ()
   | Some a \<Rightarrow> whenM (addr \<noteq> 0) (let parts = ipv4ToBytes (if sa_ip a = [] then ''0.0.0.0'' else sa_ip a) in
       thn (wr16 addr AF_INET) (thn (wr8 (addr + 2) (word_of_nat (sa_port a div 256 mod 256)))
       (thn (wr8 (addr + 3) (word_of_nat (sa_port a mod 256)))
       (thn (forM [0..<4] (\<lambda>i. wr8 (addr + 4 + word_of_nat i) (ucast (byte_or0 parts i))))
         (forM [8..<16] (\<lambda>i. wr8 (addr + word_of_nat i) 0)))))))"

text \<open>A socket by descriptor; other handles give -ENOTSOCK.\<close>

definition with_socket :: "u32 \<Rightarrow> (nat \<Rightarrow> socket \<Rightarrow> sys_ret sysM) \<Rightarrow> sys_ret sysM" where
  "with_socket fd f = bnd (getFd fd) (\<lambda>r. bnd (hget r) (\<lambda>h. case h of HSocket s \<Rightarrow> f r s | _ \<Rightarrow> retErr 88))"

definition store_len :: "u32 \<Rightarrow> unit sysM" where
  "store_len p = whenM (p \<noteq> 0) (wr32 p 16)"

definition sock_connect :: "sys_env \<Rightarrow> u32 \<Rightarrow> nat \<Rightarrow> socket \<Rightarrow> sys_ret sysM" where
  "sock_connect ev addr r s = bnd (readSockaddrIn addr) (\<lambda>a.
     let (res, s') = so_connect (net ev) a s in thn (hset r (HSocket s')) (ret (Pending (PNum res))))"

definition sock_sendto :: "sys_env \<Rightarrow> u8 list \<Rightarrow> u32 \<Rightarrow> nat \<Rightarrow> socket \<Rightarrow> sys_ret sysM" where
  "sock_sendto ev bs addr r s = bnd (if addr \<noteq> 0 then readSockaddrIn addr else ret None) (\<lambda>a. bnd (kget sy_dns) (\<lambda>d.
     let (res, s', d', settled) = so_sendto (net ev) d bs a s in
     thn (hset r (HSocket s')) (thn (kmod (\<lambda>k. k\<lparr>sy_dns := d'\<rparr>)) (thn (resolve_all settled) (ret (Pending (PNum res)))))))"

definition sock_recvfrom :: "u32 \<Rightarrow> u32 \<Rightarrow> nat \<Rightarrow> socket \<Rightarrow> sys_ret sysM" where
  "sock_recvfrom args len r s = bnd fresh_promise (\<lambda>p. let (a, s') = so_recv p (unat len) s in
     thn (hset r (HSocket s')) (ret (Pending (PRecvfrom a r args))))"

text \<open>Every argument is read from memory where it is used, those of \<open>recvfrom\<close> when its promise is resolved.\<close>

definition socketCall :: "sys_env \<Rightarrow> u32 \<Rightarrow> u32 \<Rightarrow> sys_ret sysM" where
  "socketCall ev sub args =
     (let arg = (\<lambda>i. rd32 (args + word_of_nat (i * 4))) in
      if sub = 1 then bnd (arg 0) (\<lambda>d. bnd (arg 1) (\<lambda>t. bnd (arg 2) (\<lambda>p. num (openHandle (HSocket (new_socket d t p))))))
      else if sub = 2 then ret (Val 0)
      else if sub = 3 then bnd (arg 0) (\<lambda>fd. with_socket fd (\<lambda>r s. bnd (arg 1) (\<lambda>a. sock_connect ev a r s)))
      else if sub = 4 \<or> sub = 5 \<or> sub = 8 then retErr 95
      else if sub = 6 then bnd (arg 0) (\<lambda>fd. with_socket fd (\<lambda>_ _. bnd (arg 1) (\<lambda>a. thn
        (writeSockaddrIn a (Some \<lparr>sa_family = AF_INET, sa_port = 0, sa_ip = ''0.0.0.0''\<rparr>)) (bnd (arg 2) (\<lambda>p. ok (store_len p))))))
      else if sub = 7 then bnd (arg 0) (\<lambda>fd. with_socket fd (\<lambda>_ s. if peer s = None then retErr 107
        else bnd (arg 1) (\<lambda>a. thn (writeSockaddrIn a (peer s)) (bnd (arg 2) (\<lambda>p. ok (store_len p))))))
      else if sub = 9 then bnd (arg 1) (\<lambda>a. bnd (arg 2) (\<lambda>n. bnd (memOp (readBytes a (unat n))) (\<lambda>bs. bnd (arg 0) (\<lambda>fd.
        bnd (getFd fd) (\<lambda>r. bnd (h_write ev r bs) (\<lambda>o1. case o1 of
          Promise p \<Rightarrow> ret (Pending (PNum p)) | Now m \<Rightarrow> ret (Val (word_of_nat m))))))))
      else if sub = 10 then bnd (arg 0) (\<lambda>fd. bnd (arg 1) (\<lambda>a. bnd (arg 2) (readInto ev fd a)))
      else if sub = 11 then bnd (arg 0) (\<lambda>fd. with_socket fd (\<lambda>r s. bnd (arg 1) (\<lambda>b. bnd (arg 2) (\<lambda>n.
        bnd (memOp (readBytes b (unat n))) (\<lambda>bs. bnd (arg 4) (\<lambda>a. sock_sendto ev bs a r s))))))
      else if sub = 12 then bnd (arg 0) (\<lambda>fd. with_socket fd (\<lambda>r s. bnd (arg 2) (\<lambda>n. sock_recvfrom args n r s)))
      else if sub = 13 then bnd (arg 0) (\<lambda>fd. bnd (getFd fd) (\<lambda>r. ok (h_close r)))
      else if sub = 14 then ret (Val 0)
      else if sub = 15 then bnd (arg 3) (\<lambda>p. thn (whenM (p \<noteq> 0) (wr32 p 0)) (bnd (arg 4) (\<lambda>q. ok (whenM (q \<noteq> 0) (wr32 q 4)))))
      else retErr 38)"

end
