(* ===== verification/Sys_Dispatch.thy ===== *)
theory Sys_Dispatch
  imports Sys_Calls
begin

text \<open>
  \<open>dispatch\<close> and \<open>handle\<close> of \<open>src/syscalls.js\<close>: the system calls by number, the way a call ends (a value for EAX, an
  error number, a promise or a trap) and what is done when a promise is resolved. Cases of the switch that belong
  together are one definition each; the table keeps one entry per number.
\<close>

record sargs =
  a1 :: u32
  a2 :: u32
  a3 :: u32
  a4 :: u32
  a5 :: u32
  a6 :: u32

type_synonym handler = "sys_env \<Rightarrow> sargs \<Rightarrow> sys_ret sysM"

section \<open>Processes\<close>

definition sys_exit :: handler where
  "sys_exit ev a = throw (Trap (ProcessExit (sint (a1 a))))"

definition sys_fork :: "string \<Rightarrow> handler" where
  "sys_fork kind ev a = (case onFork ev of Some f \<Rightarrow> f kind | None \<Rightarrow> retErr 38)"

definition thread_flags :: u32 where
  "thread_flags = 0x100 OR 0x200 OR 0x400 OR 0x10000 OR 0x20000 OR 0x40000 OR 0x80000"

definition sys_clone :: handler where
  "sys_clone ev a = (if a1 a AND thread_flags \<noteq> 0 then retErr 38 else sys_fork ''clone'' ev a)"

definition sys_wait :: "u32 \<Rightarrow> u32 \<Rightarrow> handler" where
  "sys_wait opts rusage ev a = (case onWait4 ev of Some f \<Rightarrow> f (sint (a1 a)) (a2 a) opts rusage | None \<Rightarrow> retErr 10)"

definition sys_execve :: handler where
  "sys_execve ev a = bnd (sys_path (a1 a)) (\<lambda>path. bnd (readCStringArray (a2 a)) (\<lambda>argv. bnd (readCStringArray (a3 a)) (\<lambda>envp.
     case onExecve ev of Some f \<Rightarrow> f path argv envp | None \<Rightarrow> throw (Trap (ExecveTrap path argv envp)))))"

definition sys_get :: "(sys_state \<Rightarrow> u32) \<Rightarrow> handler" where
  "sys_get f ev a = word (kget f)"

definition sys_zero :: handler where
  "sys_zero ev a = ret (Val 0)"

definition sys_setuid :: handler where
  "sys_setuid ev a = ok (kmod (\<lambda>k. k\<lparr>sy_uid := a1 a\<rparr>))"

definition sys_setgid :: handler where
  "sys_setgid ev a = ok (kmod (\<lambda>k. k\<lparr>sy_gid := a1 a\<rparr>))"

definition sys_umask :: handler where
  "sys_umask ev a = bnd (kget sy_umask) (\<lambda>old. thn (kmod (\<lambda>k. k\<lparr>sy_umask := a1 a AND 0x1ff\<rparr>)) (ret (Val old)))"

definition sys_rt_sigaction :: handler where
  "sys_rt_sigaction ev a =
     thn (whenM (a3 a \<noteq> 0) (bnd (kget (\<lambda>k. map_of (sy_signalActions k) (a1 a))) (\<lambda>old.
       writeSigaction (a3 a) (case old of Some x \<Rightarrow> x | None \<Rightarrow> no_action))))
     (ok (whenM (a2 a \<noteq> 0) (bnd (readSigaction (a2 a)) (\<lambda>x.
       kmod (\<lambda>k. k\<lparr>sy_signalActions := AList.update (a1 a) x (sy_signalActions k)\<rparr>)))))"

definition sys_set_tid_address :: handler where
  "sys_set_tid_address ev a =
     thn (whenM (a1 a \<noteq> 0) (kmod (\<lambda>k. k\<lparr>sy_clearChildTid := Some (a1 a)\<rparr>))) (word (kget sy_pid))"

definition sys_set_thread_area :: handler where
  "sys_set_thread_area ev a = bnd (rd32 (a1 a)) (\<lambda>e0.
     let e = (if e0 = 0xffffffff then 6 else e0) in
     thn (whenM (e0 = 0xffffffff) (wr32 (a1 a) e))
     (bnd (rd32 (a1 a + 4)) (\<lambda>base. bnd (rd32 (a1 a + 8)) (\<lambda>limit. bnd (rd32 (a1 a + 12)) (\<lambda>flags.
       thn (kmod (\<lambda>k. k\<lparr>sy_threadArea := \<lparr>ta_entry = e, ta_base = base, ta_limit = limit, ta_flags = flags\<rparr>\<rparr>))
         (ok (modS (\<lambda>s. s\<lparr>segBase := (segBase s)(GS := base), sregs := (sregs s)(GS := (push_bit 3 e OR 3) AND 0xffff)\<rparr>))))))))"

definition sys_get_thread_area :: handler where
  "sys_get_thread_area ev a = bnd (kget sy_threadArea) (\<lambda>t.
     ok (wrFields (a1 a) [(0, ta_entry t), (4, ta_base t), (8, ta_limit t), (12, ta_flags t)]))"

definition sys_futex :: handler where
  "sys_futex ev a =
     (let op = a2 a AND 0x7f; wake = (\<lambda>n. bnd (kget (\<lambda>k. futex_wake (a1 a) n (sy_futex k))) (\<lambda>(c, t).
            thn (kmod (\<lambda>k. k\<lparr>sy_futex := t\<rparr>)) (ret (Val (word_of_nat c)))));
          n = (if a3 a = 0 then 1 else unat (a3 a)) in
      if op = 0 then bnd (rd32 (a1 a)) (\<lambda>v.
        if v \<noteq> a3 a then retErr 11
        else bnd (readTimespecMs (a4 a)) (\<lambda>ms. bnd (kget (\<lambda>k. futex_wait (a1 a) (ms \<noteq> None) (sy_futex k))) (\<lambda>(w, t).
          thn (kmod (\<lambda>k. k\<lparr>sy_futex := t\<rparr>)) (ret (Pending (PFutex w))))))
      else if op = 1 \<or> op = 3 \<or> op = 4 then wake n
      else ret (Val 0))"

section \<open>Files by path\<close>

definition sys_open :: handler where
  "sys_open ev a = thn (refreshProcFiles ev) (bnd (sys_path (a1 a)) (\<lambda>path.
     bnd (vfsOp (\<lambda>v. vfs_open v path (a2 a) (a3 a))) (\<lambda>f. num (openHandle (HFile f)))))"

definition sys_openat :: handler where
  "sys_openat ev a = thn (refreshProcFiles ev) (bnd (sys_pathAt (a1 a) (a2 a)) (\<lambda>path.
     bnd (vfsOp (\<lambda>v. vfs_open v path (a3 a) (a4 a))) (\<lambda>f. num (openHandle (HFile f)))))"

definition sys_creat :: handler where
  "sys_creat ev a = bnd (sys_path (a1 a)) (\<lambda>path.
     bnd (vfsOp (\<lambda>v. vfs_open v path (O_CREAT OR O_WRONLY OR O_TRUNC) (a2 a))) (\<lambda>f. num (openHandle (HFile f))))"

text \<open>A file-system operation on one path, by address or relative to a directory descriptor.\<close>

definition on_path :: "(string \<Rightarrow> vfs \<Rightarrow> 'a vfsM) \<Rightarrow> u32 \<Rightarrow> sys_ret sysM" where
  "on_path f addr = bnd (sys_path addr) (\<lambda>p. ok (vfsOp (f p)))"

definition on_pathAt :: "(string \<Rightarrow> vfs \<Rightarrow> 'a vfsM) \<Rightarrow> u32 \<Rightarrow> u32 \<Rightarrow> sys_ret sysM" where
  "on_pathAt f dirfd addr = bnd (sys_pathAt dirfd addr) (\<lambda>p. ok (vfsOp (f p)))"

definition node_at :: "u32 \<Rightarrow> u32 \<Rightarrow> string \<Rightarrow> vfs \<Rightarrow> nat vfsM" where
  "node_at mode dev p v = (if mode AND 0xf000 = S_IFCHR then mknod v p ''null'' (mode AND 0x1ff) dev
     else writeFile v p [] (mode AND 0x1ff))"

definition set_cwd :: "string \<Rightarrow> unit sysM" where
  "set_cwd p = kmod (\<lambda>k. k\<lparr>sy_cwd := p, sy_vfs := (sy_vfs k)\<lparr>cwd := p\<rparr>\<rparr>)"

definition sys_chdir :: handler where
  "sys_chdir ev a = bnd (sys_path (a1 a)) (\<lambda>q. bnd (kget (\<lambda>k. normalize ((sy_vfs k)\<lparr>cwd := sy_cwd k\<rparr>) q)) (\<lambda>p.
     bnd (vfsOp (\<lambda>v. vfs_stat v follow p)) (\<lambda>st.
       if st_mode st AND 0xf000 \<noteq> S_IFDIR then retErr 20 else ok (set_cwd p))))"

definition sys_fchdir :: handler where
  "sys_fchdir ev a = bnd (getFd (a1 a)) (\<lambda>r. bnd (hget r) (\<lambda>h. case h_path h of
     None \<Rightarrow> retErr 20
   | Some p \<Rightarrow> if p = [] then retErr 20
       else bnd (h_stat r) (\<lambda>st. if st_mode st AND 0xf000 \<noteq> S_IFDIR then retErr 20 else ok (set_cwd p))))"

definition sys_utime :: handler where
  "sys_utime ev a = bnd nowSeconds (\<lambda>t. on_path (\<lambda>p v. utimes v p t t) (a1 a))"

definition sys_utimensat :: "u32 \<Rightarrow> handler" where
  "sys_utimensat gap ev a = bnd (sys_pathAt (a1 a) (a2 a)) (\<lambda>p.
     bnd (if a3 a \<noteq> 0 then timespecSeconds (a3 a) else nowSeconds) (\<lambda>at.
     bnd (if a3 a \<noteq> 0 then timespecSeconds (a3 a + gap) else ret at) (\<lambda>mt.
       ok (vfsOp (\<lambda>v. utimes v p at mt)))))"

text \<open>\<open>access\<close>: the error number of a failed lookup is the value; \<open>handle\<close> would make the same of it.\<close>

definition access_at :: "string sysM \<Rightarrow> sys_ret sysM" where
  "access_at path = (\<lambda>s. case bnd path (\<lambda>p. ok (vfsOp (\<lambda>v. vfs_stat v follow p))) s of
     (Inl (Trap (Thrown (VErr e))), s') \<Rightarrow> (Inr (Val (errno (int e))), s')
   | r \<Rightarrow> r)"

definition stat_at :: "(u32 \<Rightarrow> stat_t \<Rightarrow> unit sysM) \<Rightarrow> u32 \<Rightarrow> string sysM \<Rightarrow> resolve_opts \<Rightarrow> sys_ret sysM" where
  "stat_at wr buf path opts = bnd path (\<lambda>p. bnd (vfsOp (\<lambda>v. vfs_stat v opts p)) (\<lambda>st. ok (wr buf st)))"

definition readlink_at :: "string sysM \<Rightarrow> u32 \<Rightarrow> u32 \<Rightarrow> sys_ret sysM" where
  "readlink_at path buf sz = bnd path (\<lambda>p. bnd (vfsOp (\<lambda>v. readlink v p)) (\<lambda>t.
     let bs = take (unat sz) (stringToBytes t) in thn (wrBytes buf bs) (ret (Val (word_of_nat (length bs))))))"

section \<open>Files by descriptor\<close>

definition sys_dup :: handler where
  "sys_dup ev a = bnd (getFd (a1 a)) (\<lambda>r. num (allocFd r))"

definition sys_dup2 :: handler where
  "sys_dup2 ev a = bnd (getFd (a1 a)) (\<lambda>r.
     thn (kmod (\<lambda>k. k\<lparr>sy_fd := AList.update (unat (a2 a)) r (sy_fd k)\<rparr>)) (ret (Val (a2 a))))"

definition sys_dup3 :: handler where
  "sys_dup3 ev a = (if a1 a = a2 a then retErr 22 else sys_dup2 ev a)"

definition sys_pipe :: handler where
  "sys_pipe ev a = bnd (kget (\<lambda>k. length (sy_pipes k))) (\<lambda>p.
     thn (kmod (\<lambda>k. k\<lparr>sy_pipes := sy_pipes k @ [[]]\<rparr>))
     (bnd (openHandle (HPipe p True False)) (\<lambda>r. bnd (openHandle (HPipe p False True)) (\<lambda>w.
       thn (wr32 (a1 a) (word_of_nat r)) (ok (wr32 (a1 a + 4) (word_of_nat w)))))))"

definition sys_lseek :: handler where
  "sys_lseek ev a = bnd (getFd (a1 a)) (\<lambda>r. num (h_lseek r (sint (a2 a)) (a3 a)))"

definition sys_llseek :: handler where
  "sys_llseek ev a = bnd (getFd (a1 a)) (\<lambda>r.
     bnd (h_lseek r (js_num (push_bit 32 (uint (a2 a)) OR uint (a3 a))) (a5 a)) (\<lambda>pos.
       thn (wr32 (a4 a) (word_of_nat pos)) (ok (wr32 (a4 a + 4) 0))))"

definition node_of_fd :: "u32 \<Rightarrow> nat option sysM" where
  "node_of_fd fd = bnd (getFd fd) (\<lambda>r. bnd (hget r) (\<lambda>h. ret (h_node h)))"

definition sys_ftruncate :: handler where
  "sys_ftruncate ev a = bnd (node_of_fd (a1 a)) (\<lambda>n. bnd (kget sy_heap) (\<lambda>h. case n of
     None \<Rightarrow> retErr 22
   | Some r \<Rightarrow> if vtype (nd h r) \<noteq> NFile then retErr 22
       else ok (vfsOp (\<lambda>_. mod_node r (\<lambda>x. x\<lparr>vdata := resize (unat (a2 a)) (vdata x)\<rparr>)))))"

definition on_fd_node :: "(vnode \<Rightarrow> vnode) \<Rightarrow> u32 \<Rightarrow> sys_ret sysM" where
  "on_fd_node f fd = bnd (node_of_fd fd) (\<lambda>n. case n of None \<Rightarrow> ret (Val 0) | Some r \<Rightarrow> ok (vfsOp (\<lambda>_. mod_node r f)))"

definition sys_fchown :: handler where
  "sys_fchown ev a = on_fd_node (chown_ids (sint (a2 a)) (sint (a3 a))) (a1 a)"

definition sys_ioctl :: handler where
  "sys_ioctl ev a =
     (if a2 a = 0x5401 then ok (wrZeros (a3 a) 44)
      else if a2 a = 0x5413 then thn (wr16 (a3 a) 24) (thn (wr16 (a3 a + 2) 80) (thn (wr16 (a3 a + 4) 0) (ok (wr16 (a3 a + 6) 0))))
      else retErr 25)"

definition with_epoll :: "u32 \<Rightarrow> (nat \<Rightarrow> (u32, u32 \<times> u32) jsmap \<Rightarrow> sys_ret sysM) \<Rightarrow> sys_ret sysM" where
  "with_epoll fd f = bnd (getFd fd) (\<lambda>r. bnd (hget r) (\<lambda>h. case h of HEpoll is \<Rightarrow> f r is | _ \<Rightarrow> retErr 22))"

definition sys_epoll_ctl :: handler where
  "sys_epoll_ctl ev a = with_epoll (a1 a) (\<lambda>r is. word (epoll_ctl r is (a2 a) (a3 a) (a4 a)))"

definition sys_epoll_wait :: handler where
  "sys_epoll_wait ev a = with_epoll (a1 a) (\<lambda>r is. num (epoll_loop ev (a2 a) (unat (a3 a)) 0 is))"

definition sys_eventfd :: "u32 \<Rightarrow> u32 \<Rightarrow> sys_ret sysM" where
  "sys_eventfd init flags = num (openHandle (HEvent (uint init) flags))"

section \<open>Memory and time\<close>

definition sys_brk :: handler where
  "sys_brk ev a = bnd (kget sy_brk) (\<lambda>b.
     if a1 a = 0 then ret (Val b)
     else thn (if a1 a > b then thn (memOp (map_mem b (uint (a1 a) - uint b) (PermNum PERM_RW) ''[heap]'')) (ret ()) else ret ())
            (thn (kmod (\<lambda>k. k\<lparr>sy_brk := a1 a\<rparr>)) (ret (Val (a1 a)))))"

definition sys_old_mmap :: handler where
  "sys_old_mmap ev a = (let p = a1 a in
     bnd (rd32 p) (\<lambda>x. bnd (rd32 (p + 4)) (\<lambda>len. bnd (rd32 (p + 8)) (\<lambda>prot. bnd (rd32 (p + 12)) (\<lambda>flags.
     bnd (rd32 (p + 16)) (\<lambda>fd. bnd (rd32 (p + 20)) (\<lambda>off. sys_mmap x len prot flags (sint fd) (unat off))))))))"

definition sys_mremap :: handler where
  "sys_mremap ev a = (let n = (if a3 a \<noteq> 0 then a3 a else a2 a) in
     bnd (kget id) (\<lambda>k. bnd (memOp (findFreeRegion n (sy_mmapMin k) (sy_mmapMax k))) (\<lambda>x.
       thn (memOp (map_mem x (uint n) (PermNum PERM_RW) ''[mremap]'')) (ret (Val x)))))"

definition sys_time :: handler where
  "sys_time ev a = bnd nowSeconds (\<lambda>t. thn (whenM (a1 a \<noteq> 0) (wr32 (a1 a) (word_of_int t))) (ret (Val (word_of_int t))))"

definition sys_gettimeofday :: handler where
  "sys_gettimeofday ev a = thn (writeTimeval ev (a1 a)) (ok (whenM (a2 a \<noteq> 0) (wrFields (a2 a) [(0, 0), (4, 0)])))"

definition sys_nanosleep :: handler where
  "sys_nanosleep ev a = bnd (readTimespecMs (a1 a)) (\<lambda>ms. ret (Pending (PTimer (case ms of Some n \<Rightarrow> n | None \<Rightarrow> 0))))"

definition sys_statfs :: "u32 \<Rightarrow> sys_ret sysM" where
  "sys_statfs buf = thn (wrZeros buf 84) (ok (wrFields buf [(0, 0xef53), (4, 4096)]))"

definition rlimit_at :: "u32 \<Rightarrow> unit sysM" where
  "rlimit_at p = wrFields p [(0, 0x7fffffff), (4, 0x7fffffff)]"

definition sys_getcwd :: handler where
  "sys_getcwd ev a = bnd (kget (\<lambda>k. stringToBytes (sy_cwd k) @ [0])) (\<lambda>bs.
     if length bs > unat (a2 a) then retErr 34 else thn (wrBytes (a1 a) bs) (ret (Val (a1 a))))"

section \<open>The switch\<close>

definition process_calls :: "(nat \<times> handler) list" where
  "process_calls =
     [(1, sys_exit), (2, sys_fork ''fork''), (7, sys_wait 0 0), (11, sys_execve), (20, sys_get sy_pid), (23, sys_setuid),
      (24, sys_get sy_uid), (37, sys_zero), (46, sys_setgid), (47, sys_get sy_gid), (49, sys_get sy_uid), (50, sys_get sy_gid),
      (57, sys_zero), (60, sys_umask), (64, sys_get sy_ppid), (65, sys_get sy_pid), (66, sys_get sy_pid),
      (114, \<lambda>ev a. sys_wait (a3 a) (a4 a) ev a), (119, sys_zero), (120, sys_clone), (126, sys_zero), (131, sys_zero),
      (132, sys_get sy_pid), (158, sys_zero), (172, sys_zero), (173, sys_zero), (174, sys_rt_sigaction), (175, sys_zero),
      (190, sys_fork ''vfork''), (199, sys_get sy_uid), (200, sys_get sy_gid), (201, sys_get sy_uid), (202, sys_get sy_gid),
      (203, sys_zero), (204, sys_zero), (224, sys_get sy_pid), (240, sys_futex), (243, sys_set_thread_area),
      (244, sys_get_thread_area), (252, sys_exit), (258, sys_set_tid_address), (311, sys_zero),
      (312, \<lambda>ev a. thn (whenM (a1 a \<noteq> 0) (wr32 (a1 a) 0)) (ok (whenM (a2 a \<noteq> 0) (wr32 (a2 a) 0)))), (422, sys_futex)]"

definition path_calls :: "(nat \<times> handler) list" where
  "path_calls =
     [(5, sys_open), (8, sys_creat), (10, \<lambda>ev a. on_path (\<lambda>p v. unlink v p) (a1 a)), (12, sys_chdir),
      (14, \<lambda>ev a. on_path (node_at (a2 a) (a3 a)) (a1 a)), (15, \<lambda>ev a. on_path (\<lambda>p v. chmod v p (a2 a)) (a1 a)),
      (16, \<lambda>ev a. on_path (\<lambda>p v. chown v p (sint (a2 a)) (sint (a3 a))) (a1 a)),
      (18, \<lambda>ev a. stat_at writeStat32 (a2 a) (sys_path (a1 a)) follow), (30, sys_utime),
      (33, \<lambda>ev a. access_at (sys_path (a1 a))),
      (38, \<lambda>ev a. bnd (sys_path (a1 a)) (\<lambda>p. on_path (\<lambda>q v. rename v p q) (a2 a))),
      (39, \<lambda>ev a. on_path (\<lambda>p v. mkdir v p (a2 a)) (a1 a)), (40, \<lambda>ev a. on_path (\<lambda>p v. rmdir v p) (a1 a)),
      (83, \<lambda>ev a. bnd (sys_path (a1 a)) (\<lambda>t. on_path (\<lambda>p v. vfs_symlink v t p) (a2 a))),
      (85, \<lambda>ev a. readlink_at (sys_path (a1 a)) (a2 a) (a3 a)),
      (92, \<lambda>ev a. on_path (\<lambda>p v. truncate_file v p (uint (a2 a))) (a1 a)),
      (106, \<lambda>ev a. stat_at writeStat32 (a2 a) (sys_path (a1 a)) follow),
      (107, \<lambda>ev a. stat_at writeStat32 (a2 a) (sys_path (a1 a)) nofollow), (183, sys_getcwd),
      (195, \<lambda>ev a. thn (refreshProcFiles ev) (stat_at writeStat64 (a2 a) (sys_path (a1 a)) follow)),
      (196, \<lambda>ev a. stat_at writeStat64 (a2 a) (sys_path (a1 a)) nofollow),
      (198, \<lambda>ev a. on_path (\<lambda>p v. chown v p (sint (a2 a)) (sint (a3 a))) (a1 a))]"

definition at_calls :: "(nat \<times> handler) list" where
  "at_calls =
     [(295, sys_openat), (296, \<lambda>ev a. on_pathAt (\<lambda>p v. mkdir v p (a3 a)) (a1 a) (a2 a)),
      (297, \<lambda>ev a. on_pathAt (node_at (a3 a) (a4 a)) (a1 a) (a2 a)),
      (298, \<lambda>ev a. on_pathAt (\<lambda>p v. chown v p (sint (a3 a)) (sint (a4 a))) (a1 a) (a2 a)), (299, sys_zero),
      (300, \<lambda>ev a. stat_at writeStat64 (a4 a) (sys_pathAt (a1 a) (a2 a)) (if a5 a AND 0x100 \<noteq> 0 then nofollow else follow)),
      (301, \<lambda>ev a. on_pathAt (\<lambda>p v. if a3 a AND 0x200 \<noteq> 0 then rmdir v p else unlink v p) (a1 a) (a2 a)),
      (302, \<lambda>ev a. bnd (sys_pathAt (a1 a) (a2 a)) (\<lambda>p. on_pathAt (\<lambda>q v. rename v p q) (a3 a) (a4 a))),
      (303, \<lambda>ev a. bnd (sys_pathAt (a1 a) (a2 a)) (\<lambda>p. on_pathAt (\<lambda>q v. link v p q) (a3 a) (a4 a))),
      (304, \<lambda>ev a. bnd (sys_path (a1 a)) (\<lambda>t. on_pathAt (\<lambda>p v. vfs_symlink v t p) (a2 a) (a3 a))),
      (305, \<lambda>ev a. readlink_at (sys_pathAt (a1 a) (a2 a)) (a3 a) (a4 a)),
      (306, \<lambda>ev a. on_pathAt (\<lambda>p v. chmod v p (a3 a)) (a1 a) (a2 a)),
      (307, \<lambda>ev a. access_at (sys_pathAt (a1 a) (a2 a))), (320, sys_utimensat 8),
      (383, \<lambda>ev a. stat_at writeStatx (a5 a) (sys_pathAt (a1 a) (a2 a)) follow), (412, sys_utimensat 16)]"

definition fd_calls :: "(nat \<times> handler) list" where
  "fd_calls =
     [(3, \<lambda>ev a. readInto ev (a1 a) (a2 a) (a3 a)), (4, \<lambda>ev a. writeFrom ev (a1 a) (a2 a) (a3 a)),
      (6, \<lambda>ev a. word (closeFd (a1 a))), (19, sys_lseek), (41, sys_dup), (42, sys_pipe), (54, sys_ioctl),
      (55, \<lambda>ev a. sys_fcntl (a1 a) (a2 a)), (63, sys_dup2), (93, sys_ftruncate),
      (94, \<lambda>ev a. on_fd_node (chmod_bits (a2 a)) (a1 a)), (95, sys_fchown), (102, \<lambda>ev a. socketCall ev (a1 a) (a2 a)),
      (108, \<lambda>ev a. bnd (getFd (a1 a)) (\<lambda>r. bnd (h_stat r) (\<lambda>st. ok (writeStat32 (a2 a) st)))), (118, sys_zero),
      (133, sys_fchdir), (140, sys_llseek), (141, \<lambda>ev a. getdents (a1 a) (a2 a) (a3 a)),
      (142, \<lambda>ev a. sys_select ev (a1 a) (a2 a) (a3 a) (a4 a)), (143, sys_zero),
      (145, \<lambda>ev a. readv_loop ev (a1 a) (a2 a) 0 (unat (a3 a)) 0),
      (146, \<lambda>ev a. bnd (getFd (a1 a)) (\<lambda>r. writev_loop ev r (a2 a) 0 (unat (a3 a)) 0 [])),
      (168, \<lambda>ev a. sys_poll ev (a1 a) (a2 a)),
      (180, \<lambda>ev a. at_offset (a1 a) (a4 a) (readInto ev (a1 a) (a2 a) (a3 a))),
      (181, \<lambda>ev a. at_offset (a1 a) (a4 a) (writeFrom ev (a1 a) (a2 a) (a3 a))),
      (197, \<lambda>ev a. bnd (getFd (a1 a)) (\<lambda>r. bnd (h_stat r) (\<lambda>st. ok (writeStat64 (a2 a) st)))),
      (220, \<lambda>ev a. getdents64 (a1 a) (a2 a) (a3 a)), (221, sys_zero), (254, \<lambda>ev a. num (openHandle (HEpoll []))),
      (255, sys_epoll_ctl), (256, sys_epoll_wait), (308, \<lambda>ev a. sys_select ev (a1 a) (a2 a) (a3 a) (a4 a)),
      (309, \<lambda>ev a. sys_poll ev (a1 a) (a2 a)), (319, sys_epoll_wait), (322, \<lambda>ev a. sys_eventfd (a1 a) (a2 a)),
      (323, \<lambda>ev a. sys_eventfd (a1 a) 0), (328, \<lambda>ev a. sys_eventfd (a1 a) (a2 a)),
      (329, \<lambda>ev a. num (openHandle (HEpoll []))), (330, \<lambda>ev a. num (openHandle (HEpoll []))), (331, sys_dup3), (332, sys_pipe),
      (413, \<lambda>ev a. sys_select ev (a1 a) (a2 a) (a3 a) (a4 a)), (414, \<lambda>ev a. sys_poll ev (a1 a) (a2 a))]"

definition memory_calls :: "(nat \<times> handler) list" where
  "memory_calls =
     [(13, sys_time), (45, sys_brk), (76, \<lambda>ev a. ok (rlimit_at (a2 a))), (78, sys_gettimeofday), (90, sys_old_mmap),
      (91, \<lambda>ev a. ok (memOp (unmap (a1 a) (uint (a2 a)) False))), (122, \<lambda>ev a. ok (writeUtsname (a1 a))),
      (125, \<lambda>ev a. ok (memOp (mprotect (a1 a) (uint (a2 a)) (PermNum (protToPerm (a3 a)))))), (144, sys_zero),
      (162, sys_nanosleep), (163, sys_mremap), (191, \<lambda>ev a. ok (rlimit_at (a2 a))),
      (192, \<lambda>ev a. sys_mmap (a1 a) (a2 a) (a3 a) (a4 a) (sint (a5 a)) (unat (a6 a) * 4096)),
      (265, \<lambda>ev a. ok (writeTimespec ev (a2 a))), (266, \<lambda>ev a. ok (wrFields (a2 a) [(0, 0), (4, 1)])),
      (268, \<lambda>ev a. sys_statfs (a3 a)), (269, \<lambda>ev a. sys_statfs (a2 a)),
      (340, \<lambda>ev a. let p = (if a4 a \<noteq> 0 then a4 a else a3 a) in ok (whenM (p \<noteq> 0) (rlimit_at p))),
      (355, \<lambda>ev a. fillRandom ev (a1 a) (a2 a)), (403, \<lambda>ev a. ok (writeTimespec ev (a2 a))),
      (406, \<lambda>ev a. ok (wrFields (a2 a) [(0, 0), (4, 1), (8, 0), (12, 0)]))]"

definition sys_table :: "(nat \<times> handler) list" where
  "sys_table = process_calls @ path_calls @ at_calls @ fd_calls @ memory_calls"

definition dispatch :: "sys_env \<Rightarrow> u32 \<Rightarrow> sargs \<Rightarrow> sys_ret sysM" where
  "dispatch ev nr a = (case map_of sys_table (unat nr) of Some h \<Rightarrow> h ev a | None \<Rightarrow> retErr 38)"

section \<open>Entry and completion\<close>

definition args_of :: "sysc \<Rightarrow> sargs" where
  "args_of s = \<lparr>a1 = regs s REG_EBX, a2 = regs s REG_ECX, a3 = regs s REG_EDX, a4 = regs s REG_ESI, a5 = regs s REG_EDI,
     a6 = regs s REG_EBP\<rparr>"

definition trace_of :: "sysc \<Rightarrow> trace_record option" where
  "trace_of s = (if sy_trace (kern s)
     then Some \<lparr>tr_nr = regs s REG_EAX, tr_args = [regs s REG_EBX, regs s REG_ECX, regs s REG_EDX, regs s REG_ESI,
       regs s REG_EDI, regs s REG_EBP], tr_eip = eip s, tr_ret = 0\<rparr> else None)"

definition finish :: "trace_record option \<Rightarrow> u32 \<Rightarrow> unit sysM" where
  "finish tr v = thn (case tr of None \<Rightarrow> ret ()
       | Some t \<Rightarrow> kmod (\<lambda>k. k\<lparr>sy_syscallTrace := sy_syscallTrace k @ [t\<lparr>tr_ret := v\<rparr>]\<rparr>)) (setR REG_EAX v)"

definition handle :: "sys_env \<Rightarrow> unit sysM" where
  "handle ev s = (let tr = trace_of s in
     case dispatch ev (regs s REG_EAX) (args_of s) s of
       (Inr (Val v), s') \<Rightarrow> finish tr v s'
     | (Inr (Pending p), s') \<Rightarrow> (Inl (Trap (AsyncSyscallPending p tr)), s')
     | (Inl (Trap (Thrown (VErr e))), s') \<Rightarrow> finish tr (errno (int e)) s'
     | (Inl x, s') \<Rightarrow> (Inl x, s'))"

text \<open>What a promise is resolved with.\<close>

datatype answer = ANum int | ABytes "u8 list" | ANums "nat list" | ARejected vfs_error

text \<open>The bytes, the sender's address and its length, at the addresses the arguments of \<open>recvfrom\<close> give.\<close>

definition store_from :: "nat \<Rightarrow> u32 \<Rightarrow> u8 list \<Rightarrow> unit sysM" where
  "store_from r args bs = bnd (rd32 (args + 4)) (\<lambda>buf. thn (wrBytes buf bs)
     (bnd (rd32 (args + 16)) (\<lambda>p. bnd (hget r) (\<lambda>h.
       thn (case h of HSocket s \<Rightarrow> writeSockaddrIn p (Some (lastFrom s)) | _ \<Rightarrow> ret ())
         (bnd (rd32 (args + 20)) store_len)))))"

text \<open>
  The function given to \<open>then\<close>. A vector read that is not complete goes on, and can wait again. A promise that is
  rejected with a \<open>VFSError\<close> becomes its number; a timer and a futex are never rejected.
\<close>

definition resume :: "sys_env \<Rightarrow> pending \<Rightarrow> answer \<Rightarrow> sys_ret sysM" where
  "resume ev p v = (case (p, v) of
     (_, ARejected e) \<Rightarrow> throw (Trap (Thrown e))
   | (PNum _, ANum n) \<Rightarrow> ret (Val (word_of_int n))
   | (PRead _ addr, ABytes bs) \<Rightarrow> thn (wrBytes addr bs) (ret (Val (word_of_nat (length bs))))
   | (PReadv _ fd iov i left tot, ABytes bs) \<Rightarrow>
       bnd (rd32 (iov + word_of_nat (i * 8))) (\<lambda>base. thn (wrBytes base bs)
         (bnd (rd32 (iov + word_of_nat (i * 8) + 4)) (\<lambda>len.
           if length bs < unat len then ret (Val (word_of_nat (tot + length bs)))
           else readv_loop ev (word_of_nat fd) iov (i + 1) left (tot + length bs))))
   | (PWritev tot _, ANums ns) \<Rightarrow> ret (Val (word_of_nat (tot + sum_list ns)))
   | (PRecvfrom _ r args, ABytes bs) \<Rightarrow>
       thn (store_from r args bs) (ret (Val (word_of_nat (length bs))))
   | (PTimer _, _) \<Rightarrow> ret (Val 0)
   | (PFutex _, ANum n) \<Rightarrow> ret (Val (if n = -110 then errno 110 else 0))
   | (PHost _, ANum n) \<Rightarrow> ret (Val (word_of_int n))
   | _ \<Rightarrow> throw (Trap (Thrown TypeErr)))"

definition complete :: "sys_env \<Rightarrow> pending \<Rightarrow> trace_record option \<Rightarrow> answer \<Rightarrow> unit sysM" where
  "complete ev p tr v s = (case resume ev p v s of
     (Inr (Val x), s') \<Rightarrow> finish tr x s'
   | (Inr (Pending p'), s') \<Rightarrow> (Inl (Trap (AsyncSyscallPending p' tr)), s')
   | (Inl (Trap (Thrown (VErr e))), s') \<Rightarrow> setR REG_EAX (errno (int e)) s'
   | (Inl x, s') \<Rightarrow> (Inl x, s'))"

text \<open>The layer as the CPU sees it.\<close>

definition sys_cpu_env :: "fpu_ops \<Rightarrow> sys_env \<Rightarrow> (sys_state, sys_trap) env" where
  "sys_cpu_env fo ev = \<lparr>fops = fo, syscalls = Some (handle ev), now = date_ms ev\<rparr>"

end
