(* ===== verification/Sys_Memory.thy ===== *)
theory Sys_Memory
  imports Sys_Dispatch Cpu_Safety
begin

text \<open>
  What the system-call layer can do to memory. The locale \<open>mapping_order\<close> extends the interface between CPU and
  memory by the operations that only the layer uses; every preorder on memories that respects them is respected by
  every system call. It is interpreted with the isolation of processes, which discharges for the modelled layer the
  hypothesis the isolation of instructions makes about it.
\<close>

locale mapping_order = store_order +
  assumes R_map: "R m (snd (map_mem a l p nm m))"
    and R_unmap: "R m (snd (unmap a l ign m))"
    and R_mprotect: "R m (snd (mprotect a l p m))"
begin

lemma mresp_maps [resp]:
  "mresp (map_mem a l p nm)" "mresp (unmap a l ign)" "mresp (mprotect a l p)" "mresp (findFreeRegion n lo hi)"
  by (simp_all add: mresp_def R_map R_unmap R_mprotect)
    (auto simp: findFreeRegion_def Let_def R_refl split: option.splits)

lemma mresp_if: "mresp f \<Longrightarrow> mresp g \<Longrightarrow> mresp (if b then f else g)"
  by simp

lemma mresp_cstring [resp]: "mresp (cstring_loop a i n acc)"
  by (induction n arbitrary: i acc) (auto simp only: cstring_loop.simps intro!: resp mresp_if)

lemma keeps_cases [resp]:
  "(\<And>f. keeps (hf f)) \<Longrightarrow> (\<And>v fl. keeps (he v fl)) \<Longrightarrow> (\<And>m. keeps (hp m)) \<Longrightarrow> (\<And>p r w. keeps (hq p r w)) \<Longrightarrow>
   (\<And>s. keeps (hs s)) \<Longrightarrow> keeps hi \<Longrightarrow> keeps ho \<Longrightarrow> keeps hx \<Longrightarrow>
   keeps (case h of HStdin \<Rightarrow> hi | HStdout \<Rightarrow> ho | HStderr \<Rightarrow> hx | HFile f \<Rightarrow> hf f | HEvent v fl \<Rightarrow> he v fl
     | HEpoll m \<Rightarrow> hp m | HPipe p r w \<Rightarrow> hq p r w | HSocket s \<Rightarrow> hs s)"
  by (cases h) simp_all

lemma keeps_outcome [resp]:
  "(\<And>x. keeps (f x)) \<Longrightarrow> (\<And>a. keeps (g a)) \<Longrightarrow> keeps (case x of Now x \<Rightarrow> f x | Promise a \<Rightarrow> g a)"
  by (cases x) simp_all

lemma keeps_kernel [resp]:
  "keeps (kget f)" "keeps (kmod g)" "keeps (fail e)" "keeps (vfsOp op)"
  by (auto simp: kget_def kmod_def fail_def vfsOp_def keeps_def R_refl split: prod.splits sum.splits)

lemma keeps_modK [resp]: "keeps (modS (\<lambda>s. s\<lparr>kern := f s\<rparr>))"
  by (simp add: keeps_def R_refl)

lemma keeps_base [resp]:
  "keeps nowSeconds" "keeps (allocFd r)" "keeps (newHandle h)" "keeps (openHandle h)" "keeps (getFd n)" "keeps (hget r)"
  "keeps (hset r h)" "keeps (resolve_all l)" "keeps (h_close r)" "keeps (closeFd n)" "keeps (readStdin ev c)" "keeps fresh_promise"
  unfolding nowSeconds_def allocFd_def newHandle_def openHandle_def getFd_def hget_def hset_def resolve_all_def h_close_def
    closeFd_def readStdin_def fresh_promise_def Let_def
  by (intro resp)+

lemma keeps_handles [resp]:
  "keeps (h_read ev r c)" "keeps (h_write ev r bs)" "keeps (h_lseek r o1 w)" "keeps (h_stat r)" "keeps (h_readdir r)"
  unfolding h_read_def h_write_def h_lseek_def h_stat_def h_readdir_def Let_def by (intro resp)+

lemma keeps_epoll [resp]: "keeps (epoll_ctl r is op fd a)" "keeps (epoll_loop ev a mx n is)"
proof -
  show "keeps (epoll_ctl r is op fd a)" unfolding epoll_ctl_def by (intro resp)
  show "keeps (epoll_loop ev a mx n is)"
  proof (induction "is" arbitrary: n)
    case (Cons e es)
    obtain fd events data where "e = (fd, events, data)" by (cases e)
    then show ?case using Cons by (auto simp only: epoll_loop.simps Let_def intro!: resp)
  qed (simp only: epoll_loop.simps resp)
qed

lemma keeps_results [resp]:
  "keeps m \<Longrightarrow> keeps (num m)" "keeps m' \<Longrightarrow> keeps (word m')" "keeps m'' \<Longrightarrow> keeps (ok m'')" "keeps (retErr e)"
  unfolding num_def word_def ok_def retErr_def by (intro resp; assumption?)+

lemma keeps_writes [resp]:
  "keeps (wr8 a v)" "keeps (wr16 a v)" "keeps (wr32 a v)" "keeps (wrBytes a bs)" "keeps (rd32 a)" "keeps (wrZeros a n)"
  "keeps (wrFields a fs)"
  unfolding wr8_def wr16_def wr32_def wrBytes_def rd32_def wrZeros_def wrFields_def by (intro resp)+

lemma keeps_paths [resp]:
  "keeps (sys_path a)" "keeps (sys_atPath d a)" "keeps (sys_pathAt d a)" "keeps (cstring_array p n)" "keeps (readCStringArray p)"
proof -
  show p: "keeps (sys_path a)" for a unfolding sys_path_def by (intro resp)
  show "keeps (sys_atPath d a)" "keeps (sys_pathAt d a)" unfolding sys_atPath_def sys_pathAt_def Let_def by (intro resp p)+
  show c: "keeps (cstring_array p n)" for p n
    by (induction n arbitrary: p) (auto simp only: cstring_array.simps intro!: resp p)
  show "keeps (readCStringArray p)" unfolding readCStringArray_def by (intro resp c)
qed

lemma keeps_transfers [resp]:
  "keeps (refreshProcFiles ev)" "keeps (readInto ev fd a c)" "keeps (writeFrom ev fd a c)" "keeps (set_offset r o1)"
  "keeps (fillRandom ev a c)"
  unfolding refreshProcFiles_def readInto_def writeFrom_def set_offset_def fillRandom_def by (intro resp)+

lemma keeps_vectors [resp]: "keeps (readv_loop ev fd iov i n t)" "keeps (writev_loop ev r iov i n t ps)"
proof -
  show "keeps (readv_loop ev fd iov i n t)"
    by (induction n arbitrary: i t) (auto simp only: readv_loop.simps intro!: resp)
  show "keeps (writev_loop ev r iov i n t ps)"
    by (induction n arbitrary: i t ps) (auto simp only: writev_loop.simps intro!: resp)
qed

lemma keeps_at_offset [resp]: "keeps m \<Longrightarrow> keeps (at_offset fd o1 m)"
  unfolding at_offset_def by (intro resp)

lemma keeps_structures [resp]:
  "keeps (writeStatx a st)" "keeps (writeStat32 a st)" "keeps (writeStat64 a st)" "keeps (writeUtsname a)"
  "keeps (writeTimeval ev a)" "keeps (writeTimespec ev a)" "keeps (readTimespecMs a)" "keeps (timespecSeconds a)"
  "keeps (writeSigaction a x)" "keeps (readSigaction a)" "keeps (sys_mknod path mode dev)" "keeps (sys_fcntl fd cmd)"
  unfolding writeStatx_def writeStat32_def writeStat64_def writeUtsname_def writeTimeval_def writeTimespec_def
    readTimespecMs_def timespecSeconds_def writeSigaction_def readSigaction_def sys_mknod_def sys_fcntl_def Let_def
  by (intro resp)+

lemma keeps_mmap [resp]: "keeps (sys_mmap a len prot fl fd off)"
  unfolding sys_mmap_def Let_def by (intro resp)

lemma keeps_dents [resp]:
  "keeps (dents64_loop d c do o1 es)" "keeps (dents_loop d c do o1 es)" "keeps (getdents64 fd d c')" "keeps (getdents fd d c')"
proof -
  show 1: "keeps (dents64_loop d c do o1 es)" for d c do o1 es
  proof (induction es arbitrary: o1)
    case (Cons e es)
    then show ?case by (cases e) (auto simp only: dents64_loop.simps Let_def intro!: resp)
  qed (simp only: dents64_loop.simps resp)
  show 2: "keeps (dents_loop d c do o1 es)" for d c do o1 es
  proof (induction es arbitrary: o1)
    case (Cons e es)
    then show ?case by (cases e) (auto simp only: dents_loop.simps Let_def intro!: resp)
  qed (simp only: dents_loop.simps resp)
  show "keeps (getdents64 fd d c')" "keeps (getdents fd d c')"
    unfolding getdents64_def getdents_def by (intro resp 1 2)+
qed

lemma keeps_waiting [resp]:
  "keeps (sys_poll ev a n)" "keeps (sys_select ev n' rs ws es)"
proof -
  have "keeps (poll_loop ev a i n t)" for i n t
    by (induction n arbitrary: i t) (auto simp only: poll_loop.simps Let_def intro!: resp)
  then show "keeps (sys_poll ev a n)" unfolding sys_poll_def by (intro resp)
  have g: "keeps (getBit b fd)" "keeps (setBit b fd)" "keeps (clearAll b w)" for b fd w
    unfolding getBit_def setBit_def clearAll_def by (intro resp)+
  have "keeps (wanted_loop a b fds)" for a b fds by (induction fds) (auto simp only: wanted_loop.simps intro!: resp g)
  moreover have "keeps (mark_loop P b fds)" for P b fds by (induction fds) (auto simp only: mark_loop.simps intro!: resp g)
  ultimately show "keeps (sys_select ev n' rs ws es)" unfolding sys_select_def Let_def by (intro resp g)
qed

lemma keeps_sockets [resp]: "keeps (socketCall ev sub args)"
proof -
  have s: "keeps (readSockaddrIn a)" "keeps (writeSockaddrIn a v)" "keeps (store_len a)" for a v
    unfolding readSockaddrIn_def writeSockaddrIn_def store_len_def Let_def by (intro resp)+
  have w: "keeps (with_socket fd f)" if "\<And>r s. keeps (f r s)" for fd f
    unfolding with_socket_def by (intro resp that)
  have c: "keeps (sock_connect ev a r s)" "keeps (sock_sendto ev bs a r s)" "keeps (sock_recvfrom args n r s)" for a r s bs n
    unfolding sock_connect_def sock_sendto_def sock_recvfrom_def Let_def by (intro resp s)+
  show ?thesis unfolding socketCall_def Let_def by (intro resp s w c)
qed

text \<open>What is assumed of the host's hooks: they respect the preorder too.\<close>

definition hooks_keep :: "sys_env \<Rightarrow> bool" where
  "hooks_keep ev \<longleftrightarrow> (\<forall>f p av en. onExecve ev = Some f \<longrightarrow> keeps (f p av en)) \<and>
     (\<forall>f kind. onFork ev = Some f \<longrightarrow> keeps (f kind)) \<and> (\<forall>f i a b c. onWait4 ev = Some f \<longrightarrow> keeps (f i a b c))"

lemma keeps_hooks:
  assumes "hooks_keep ev"
  shows "keeps (sys_fork kind ev a)" "keeps (sys_clone ev a)" "keeps (sys_wait o1 ru ev a)" "keeps (sys_execve ev a)"
proof -
  show f: "keeps (sys_fork kind ev a)" for kind
    using assms by (auto simp: sys_fork_def hooks_keep_def split: option.splits intro!: resp)
  show "keeps (sys_clone ev a)" unfolding sys_clone_def by (intro resp f)
  show "keeps (sys_wait o1 ru ev a)" using assms by (auto simp: sys_wait_def hooks_keep_def split: option.splits intro!: resp)
  have x: "keeps (case onExecve ev of Some f \<Rightarrow> f p av en | None \<Rightarrow> throw (Trap (ExecveTrap p av en)))" for p av en
    using assms by (cases "onExecve ev") (simp_all add: hooks_keep_def keeps_def R_refl)
  show "keeps (sys_execve ev a)" unfolding sys_execve_def by (intro keeps_bnd keeps_paths x)
qed

lemma keeps_process [resp]:
  "keeps (sys_exit ev a)" "keeps (sys_get f ev a)" "keeps (sys_zero ev a)" "keeps (sys_setuid ev a)" "keeps (sys_setgid ev a)"
  "keeps (sys_umask ev a)" "keeps (sys_rt_sigaction ev a)" "keeps (sys_set_tid_address ev a)" "keeps (sys_get_thread_area ev a)"
  "keeps (sys_futex ev a)"
  unfolding sys_exit_def sys_get_def sys_zero_def sys_setuid_def sys_setgid_def sys_umask_def sys_rt_sigaction_def
    sys_set_tid_address_def sys_get_thread_area_def sys_futex_def Let_def
  by (intro resp)+

lemma keeps_set_thread_area [resp]: "keeps (sys_set_thread_area ev a)"
proof -
  have "keeps (modS (\<lambda>s. s\<lparr>segBase := f s, sregs := g s\<rparr>))" for f g :: "sysc \<Rightarrow> segname \<Rightarrow> u32"
    by (rule keeps_modS) simp
  then show ?thesis unfolding sys_set_thread_area_def Let_def by (intro resp)
qed

lemma keeps_path_calls [resp]:
  "keeps (on_path f a)" "keeps (on_pathAt f d a)" "keeps (sys_open ev b)" "keeps (sys_openat ev b)" "keeps (sys_creat ev b)"
  "keeps (set_cwd p)" "keeps (sys_chdir ev b)" "keeps (sys_fchdir ev b)" "keeps (sys_utime ev b)" "keeps (sys_utimensat g ev b)"
  "keeps (sys_getcwd ev b)"
  unfolding on_path_def on_pathAt_def sys_open_def sys_openat_def sys_creat_def set_cwd_def sys_chdir_def sys_fchdir_def
    sys_utime_def sys_utimensat_def sys_getcwd_def
  by (intro resp)+

lemma keeps_catch:
  assumes "keeps m"
  shows "keeps (\<lambda>s. case m s of (Inl (Trap (Thrown (VErr e))), s') \<Rightarrow> (Inr (f e), s') | r \<Rightarrow> r)"
  using assms unfolding keeps_def
  by (auto split: prod.splits sum.splits cpu_error.splits sys_trap.splits vfs_error.splits) (metis snd_conv)+

lemma keeps_at [resp]:
  "keeps path \<Longrightarrow> keeps (access_at path)" "keeps path \<Longrightarrow> (\<And>a st. keeps (wr a st)) \<Longrightarrow> keeps (stat_at wr b path opts)"
  "keeps path \<Longrightarrow> keeps (readlink_at path b n)"
  unfolding access_at_def stat_at_def readlink_at_def Let_def by (intro keeps_catch resp; assumption)+

lemma keeps_fd_calls [resp]:
  "keeps (sys_dup ev a)" "keeps (sys_dup2 ev a)" "keeps (sys_dup3 ev a)" "keeps (sys_pipe ev a)" "keeps (sys_lseek ev a)"
  "keeps (sys_llseek ev a)" "keeps (node_of_fd fd)" "keeps (sys_ftruncate ev a)" "keeps (on_fd_node f fd)" "keeps (sys_fchown ev a)"
  "keeps (sys_ioctl ev a)" "keeps (sys_epoll_ctl ev a)" "keeps (sys_epoll_wait ev a)" "keeps (sys_eventfd i f')"
  unfolding sys_dup_def sys_dup2_def sys_dup3_def sys_pipe_def sys_lseek_def sys_llseek_def node_of_fd_def sys_ftruncate_def
    on_fd_node_def sys_fchown_def sys_ioctl_def sys_epoll_ctl_def sys_epoll_wait_def with_epoll_def sys_eventfd_def
  by (intro resp)+

lemma keeps_memory_calls [resp]:
  "keeps (sys_brk ev a)" "keeps (sys_old_mmap ev a)" "keeps (sys_mremap ev a)" "keeps (sys_time ev a)" "keeps (sys_gettimeofday ev a)"
  "keeps (sys_nanosleep ev a)" "keeps (sys_statfs b)" "keeps (rlimit_at p)"
  unfolding sys_brk_def sys_old_mmap_def sys_mremap_def sys_time_def sys_gettimeofday_def sys_nanosleep_def sys_statfs_def
    rlimit_at_def Let_def
  by (intro resp)+

lemma table_keeps:
  assumes "hooks_keep ev" "(n, h) \<in> set sys_table"
  shows "keeps (h ev a)"
proof -
  have "(n, h) \<in> set process_calls \<or> (n, h) \<in> set path_calls \<or> (n, h) \<in> set at_calls \<or> (n, h) \<in> set fd_calls \<or>
      (n, h) \<in> set memory_calls" using assms(2) by (auto simp: sys_table_def)
  then show ?thesis
  proof (elim disjE)
    assume "(n, h) \<in> set process_calls"
    then show ?thesis unfolding process_calls_def
      by (simp only: list.set insert_iff empty_iff prod.inject simp_thms) (elim disjE conjE; hypsubst; intro resp keeps_hooks assms)
  next
    assume "(n, h) \<in> set path_calls"
    then show ?thesis unfolding path_calls_def
      by (simp only: list.set insert_iff empty_iff prod.inject simp_thms) (elim disjE conjE; hypsubst; intro resp)
  next
    assume "(n, h) \<in> set at_calls"
    then show ?thesis unfolding at_calls_def
      by (simp only: list.set insert_iff empty_iff prod.inject simp_thms) (elim disjE conjE; hypsubst; intro resp)
  next
    assume "(n, h) \<in> set fd_calls"
    then show ?thesis unfolding fd_calls_def
      by (simp only: list.set insert_iff empty_iff prod.inject simp_thms) (elim disjE conjE; hypsubst; intro resp)
  next
    assume "(n, h) \<in> set memory_calls"
    then show ?thesis unfolding memory_calls_def Let_def
      by (simp only: list.set insert_iff empty_iff prod.inject simp_thms) (elim disjE conjE; hypsubst; intro resp)
  qed
qed

lemma keeps_dispatch:
  assumes "hooks_keep ev"
  shows "keeps (dispatch ev nr a)"
proof (cases "map_of sys_table (unat nr)")
  case (Some h)
  then show ?thesis using table_keeps [OF assms map_of_SomeD] by (simp add: dispatch_def)
qed (simp only: dispatch_def option.simps resp)

lemma keeps_handle:
  assumes "hooks_keep ev"
  shows "keeps (handle ev)"
proof -
  have f: "mem (snd (finish tr v s)) = mem s" for tr v and s :: sysc
    by (cases tr) (simp_all add: finish_def kmod_def setR_def)
  have "R (mem s) (mem (snd (handle ev s)))" for s
  proof -
    obtain r s' where d: "dispatch ev (regs s REG_EAX) (args_of s) s = (r, s')" by fastforce
    then have "R (mem s) (mem s')" using keeps_dispatch [OF assms] unfolding keeps_def by (metis snd_conv)
    then show ?thesis
      by (auto simp: handle_def d f Let_def split: sum.splits sys_ret.splits cpu_error.splits sys_trap.splits vfs_error.splits)
  qed
  then show ?thesis by (simp add: keeps_def)
qed

end

section \<open>Isolation of processes that make system calls\<close>

lemma local_isolated:
  assumes "\<And>k. isolated k f"
  shows "local_step m (snd (f m))"
  unfolding local_step_def
proof (intro allI impI)
  fix k w i
  assume w: "world_inv k (in_world i w m) \<and> i < length (snd w)"
  then show "world_inv k (in_world i w (snd (f m))) \<and>
     (\<forall>j < length (snd w). j \<noteq> i \<longrightarrow> contents (in_world i w (snd (f m))) j = contents (in_world i w m) j)"
    using isolatedD [OF assms, of k "in_world i w m" i] by (simp add: run_in_world)
qed

interpretation local_map: mapping_order local_step
proof unfold_locales
  show "local_step m (snd (map_mem a l p nm m))" for m a l p nm by (rule local_isolated) (rule map_mem_isolated)
  show "local_step m (snd (unmap a l ign m))" for m a l ign by (rule local_isolated) (rule unmap_isolated)
  show "local_step m (snd (mprotect a l p m))" for m a l p by (rule local_isolated) (rule mprotect_isolated)
qed

definition no_hooks :: "sys_env \<Rightarrow> bool" where
  "no_hooks ev \<longleftrightarrow> onExecve ev = None \<and> onFork ev = None \<and> onWait4 ev = None"


definition empty_heap :: heap where
  "empty_heap = \<lparr>nodes = [blank_node NDir ''/'' 1 0], nextIno = 2, clock = 0, stack_depth = 50, microtasks = []\<rparr>"

definition demo_sys :: sys_state where
  "demo_sys = new_syscalls empty_heap \<lparr>root = 0, cwd = ''/'', watchers = []\<rparr> '''' 0x9000000 100 1"

definition demo_sys_env :: sys_env where
  "demo_sys_env = \<lparr>rng = (\<lambda>n. replicate n 7), date_ms = 5000, net = None, stdinReader = None, onExecve = None, onFork = None,
     onWait4 = None\<rparr>"


end
