(* ===== verification/Sys_Props.thy ===== *)
theory Sys_Props
  imports Sys_Memory Memory_Props
begin

text \<open>
  What single system calls promise: anonymous memory is fresh, pipes are byte queues, descriptors are allocated
  unused, directory records stay inside the buffer. The last section holds small cases in which a call does not do
  what its Linux counterpart does.
\<close>

section \<open>Anonymous memory\<close>

lemma fresh_pages:
  assumes wf: "mem_wf m" and len: "0 < len" and al: "pageOff (snd m) a = 0"
    and fit: "unat a + unat len + unat (pageSize (snd m)) \<le> 2 ^ 32"
    and p: "pageNo (snd m) b \<in> set (page_range (snd m) a (uint len))"
  shows "pageNo (snd m) a \<le> pageNo (snd m) b \<and> pageNo (snd m) b < pageNo (snd m) a + pages_needed (snd m) len"
proof -
  let ?k = "pageShift (snd m)"
  have sh: "shape_ok (snd m)" using wf by (simp add: mem_wf_def)
  have n: "nat (uint len) = unat len" by (rule unat_eq_nat_uint [symmetric])
  have u: "0 < uint len" using len by (simp add: word_less_def)
  have "page_range (snd m) a (uint len) = [unat a div 2 ^ ?k ..< (unat a + unat len + 2 ^ ?k - 1) div 2 ^ ?k]"
    using page_range_eq [OF sh u] fit by (simp add: n unat_pageSize [OF sh])
  then have r: "unat a div 2 ^ ?k \<le> pageNo (snd m) b" "pageNo (snd m) b < (unat a + unat len + 2 ^ ?k - 1) div 2 ^ ?k"
    using p by simp_all
  have "2 ^ ?k dvd unat a" using al by (simp add: pageOff_mod [OF sh] mod_eq_0_iff_dvd)
  then obtain q where q: "unat a = 2 ^ ?k * q" by (elim dvdE)
  have "unat a + unat len + 2 ^ ?k - 1 = (unat len + 2 ^ ?k - 1) + 2 ^ ?k * q"
    using q len zero_less_power [of "2 :: nat" ?k] by linarith
  then have "(unat a + unat len + 2 ^ ?k - 1) div 2 ^ ?k = q + (unat len + 2 ^ ?k - 1) div 2 ^ ?k"
    by simp
  then have "(unat a + unat len + 2 ^ ?k - 1) div 2 ^ ?k = unat a div 2 ^ ?k + pages_needed (snd m) len"
    by (simp add: pages_needed_def unat_pageSize [OF sh] q)
  then show ?thesis using r by (simp add: pageNo_div)
qed

text \<open>
  C34: \<open>mmap\<close> of anonymous memory without a fixed address, with the window and the length below the top of the address
  space, either finds no room (and changes nothing) or returns an address at which no byte of the requested range was
  mapped; afterwards the range is mapped, zero and has the requested protection, and every byte mapped before has kept
  its value and its protection.
\<close>

theorem mmap_fresh:
  fixes s :: sysc
  assumes wf: "mem_wf (mem s)" and len: "0 < len" and nofix: "flags AND 0x10 = 0"
    and fit: "unat (sy_mmapMax (kern s)) + unat len + unat (pageSize (snd (mem s))) \<le> 2 ^ 32"
  shows "case sys_mmap addr len prot flags (-1) off s of
      (Inr r, s') \<Rightarrow> \<exists>a. r = Val a \<and> kern s' = kern s \<and> mem_wf (mem s') \<and>
        (\<forall>b. unat a \<le> unat b \<and> unat b < unat a + unat len \<longrightarrow>
          byte_at (mem s) b = None \<and> byte_at (mem s') b = Some (0, protToPerm prot)) \<and>
        (\<forall>b. byte_at (mem s) b \<noteq> None \<longrightarrow> byte_at (mem s') b = byte_at (mem s) b)
    | (Inl e, s') \<Rightarrow> s' = s"
proof -
  let ?k = "kern s" and ?f = "findFreeRegion len (sy_mmapMin (kern s)) (sy_mmapMax (kern s)) (mem s)"
  let ?rest = "\<lambda>a. thn (memOp (map_mem a (uint len) (PermNum (protToPerm prot)) (region_name (-1)))) (thn (ret ()) (ret (Val a))) :: sys_ret sysM"
  have "len \<noteq> 0" using len by auto
  then have "sys_mmap addr len prot flags (-1) off =
      bnd (kget id) (\<lambda>k. bnd (memOp (findFreeRegion len (sy_mmapMin k) (sy_mmapMax k))) ?rest)"
    using nofix by (simp add: sys_mmap_def Let_def)
  then have eq: "sys_mmap addr len prot flags (-1) off s = bnd (memOp (findFreeRegion len (sy_mmapMin ?k) (sy_mmapMax ?k))) ?rest s"
    by (simp add: bnd_def [of "kget id"] kget_def)
  note ff = findFreeRegion_effect [OF wf, where len = len and lo = "sy_mmapMin ?k" and hi = "sy_mmapMax ?k"]
  show ?thesis
  proof (cases "fst ?f")
    case (Inl e)
    then obtain m' where "?f = (Inl e, m')" by (cases ?f) auto
    with ff have "?f = (Inl e, mem s)" by simp
    then show ?thesis unfolding eq by (simp add: memOp_def)
  next
    case (Inr a)
    then obtain m' where f': "?f = (Inr a, m')" by (cases ?f) auto
    with ff have f: "?f = (Inr a, mem s)" "region_candidate (mem s) (sy_mmapMin ?k) (sy_mmapMax ?k) a"
      "free_at (mem s) (pages_needed (snd (mem s)) len) a" by simp_all
    have sh: "shape_ok (snd (mem s))" using wf by (simp add: mem_wf_def)
    have "unat (alignDown (sy_mmapMax ?k) (pageSize (snd (mem s)))) \<le> unat (sy_mmapMax ?k)"
      using sh by (simp add: shape_ok_def unat_alignDown)
    then have "unat a \<le> unat (sy_mmapMax ?k)" using f(2) unfolding region_candidate_def word_less_nat_alt by linarith
    then have fit': "unat a + unat len + unat (pageSize (snd (mem s))) \<le> 2 ^ 32" using fit by linarith
    have n: "nat (uint len) = unat len" by (rule unat_eq_nat_uint [symmetric])
    have u: "0 < uint len" using len by (simp add: word_less_def)
    from map_mem_effect [OF wf u, of a "PermNum (protToPerm prot)" "region_name (-1)"] fit' n obtain m1 where
      m1: "map_mem a (uint len) (PermNum (protToPerm prot)) (region_name (-1)) (mem s) = (Inr (alignDown a (pageSize (snd (mem s)))), m1)"
        "mem_wf m1" "\<forall>b. byte_at m1 b = (if pageNo (snd (mem s)) b \<in> set (page_range (snd (mem s)) a (uint len))
           then Some (case byte_at (mem s) b of None \<Rightarrow> 0 | Some (b, _) \<Rightarrow> b, protToPerm prot) else byte_at (mem s) b)"
        "\<forall>b. unat a \<le> unat b \<and> unat b < unat a + unat len \<longrightarrow> pageNo (snd (mem s)) b \<in> set (page_range (snd (mem s)) a (uint len))"
      by auto
    have free: "byte_at (mem s) b = None" if "pageNo (snd (mem s)) b \<in> set (page_range (snd (mem s)) a (uint len))" for b
      using fresh_pages [OF wf len _ fit' that] f(2,3) by (simp add: region_candidate_def free_at_def)
    have "sys_mmap addr len prot flags (-1) off s = (Inr (Val a), s\<lparr>mem := m1\<rparr>)"
      unfolding eq by (simp add: memOp_def f(1) m1(1) thn_def bnd_def)
    then show ?thesis using m1 free by (auto simp: free)
  qed
qed

definition small_cpu :: sysc where
  "small_cpu = new_CPU tiny_state demo_sys 16"

lemma small_cpu_simps [simp]: "mem small_cpu = tiny_state" "kern small_cpu = demo_sys"
  by (simp_all add: small_cpu_def new_CPU_def)

lemma demo_sys_window: "sy_mmapMin demo_sys = 0x40000000" "sy_mmapMax demo_sys = 0xb0000000"
  by (simp_all add: demo_sys_def new_syscalls_def)

lemma small_mmap: "fst (sys_mmap 0 20 1 0x22 (-1) 0 small_cpu) = Inr (Val 0x40000000)"
proof -
  have f: "findFreeRegion 20 0x40000000 0xb0000000 tiny_state = (Inr 0x40000000, tiny_state)"
    by (simp add: findFreeRegion_def tiny_state_def tiny_memory_def alignUp_def alignDown_def
        findFreeRegion_loop.simps region_free_def pageNo_def upt_rec)
  have "unat (0x40000000 :: u32) + nat 20 + unat (pageSize (snd tiny_state)) \<le> 2 ^ 32"
    by (simp add: tiny_state_def tiny_memory_def)
  then obtain m1 where "map_mem 0x40000000 20 (PermNum (protToPerm 1)) (region_name (-1)) tiny_state =
      (Inr (alignDown 0x40000000 (pageSize (snd tiny_state))), m1)"
    using map_mem_effect [OF tiny_wf, of 20 "0x40000000" "PermNum (protToPerm 1)" "region_name (-1)"] by auto
  then show ?thesis
    by (simp add: sys_mmap_def Let_def kget_def demo_sys_window memOp_def f thn_def bnd_def)
qed

theorem mmap_fresh_witness:
  "\<exists>s'. sys_mmap 0 20 1 0x22 (-1) 0 small_cpu = (Inr (Val 0x40000000), s') \<and> byte_at (mem s') 0x40000013 = Some (0, 1) \<and>
     byte_at (mem s') 16 = Some (0, PERM_RW)"
proof -
  obtain s' where r: "sys_mmap 0 20 1 0x22 (-1) 0 small_cpu = (Inr (Val 0x40000000), s')"
    using small_mmap by (cases "sys_mmap 0 20 1 0x22 (-1) 0 small_cpu") auto
  have fit: "unat (sy_mmapMax (kern small_cpu)) + unat (20 :: u32) + unat (pageSize (snd (mem small_cpu))) \<le> 2 ^ 32"
    by (simp add: demo_sys_window tiny_state_def tiny_memory_def)
  have "mem_wf (mem small_cpu)" by (simp add: tiny_wf)
  from mmap_fresh [OF this _ _ fit, where flags = "0x22" and addr = 0 and prot = 1 and off = 0] r
  have "byte_at (mem s') 0x40000013 = Some (0, protToPerm 1)" "byte_at (mem s') 16 = byte_at (mem small_cpu) 16"
    using tiny_byte_at [of 16] by simp_all
  then show ?thesis using r tiny_byte_at [of 16] by (simp add: protToPerm_def)
qed

section \<open>Descriptors\<close>

lemma free_fd_spec: "n \<le> free_fd m n \<and> map_of m (free_fd m n) = None \<and> (\<forall>i. n \<le> i \<and> i < free_fd m n \<longrightarrow> map_of m i \<noteq> None)"
proof (induction m n rule: free_fd.induct)
  case (1 m n)
  show ?case
  proof (cases "map_of m n = None")
    case False
    then have "free_fd m n = free_fd m (n + 1)" by (simp add: free_fd.simps [of m n])
    with 1 [OF False] False show ?thesis by (metis Suc_eq_plus1 Suc_leI le_neq_implies_less less_or_eq_imp_le order_less_le_trans lessI)
  qed (auto simp: free_fd.simps [of m n])
qed

section \<open>Pipes\<close>

text \<open>
  Writes and reads on the two ends of one pipe, in any order; the result lists the bytes each read returned.
\<close>

datatype pipe_op = PipeWrite "u8 list" | PipeRead nat

definition pipe_ends :: "nat \<Rightarrow> nat \<Rightarrow> nat \<Rightarrow> sys_state \<Rightarrow> bool" where
  "pipe_ends p r w k \<longleftrightarrow> p < length (sy_pipes k) \<and> (\<exists>x. sy_handles k ! r = HPipe p True x) \<and> (\<exists>x. sy_handles k ! w = HPipe p x True)"

fun run_pipe :: "sys_env \<Rightarrow> nat \<Rightarrow> nat \<Rightarrow> pipe_op list \<Rightarrow> u8 list list sysM" where
  "run_pipe ev r w [] = ret []"
| "run_pipe ev r w (PipeWrite bs # ops) = thn (h_write ev w bs) (run_pipe ev r w ops)"
| "run_pipe ev r w (PipeRead n # ops) = bnd (h_read ev r n) (\<lambda>o1. bnd (run_pipe ev r w ops) (\<lambda>outs.
     ret ((case o1 of Now bs \<Rightarrow> bs | Promise _ \<Rightarrow> []) # outs)))"

fun written :: "pipe_op list \<Rightarrow> u8 list" where
  "written [] = []"
| "written (PipeWrite bs # ops) = bs @ written ops"
| "written (PipeRead n # ops) = written ops"

definition with_pipe :: "nat \<Rightarrow> u8 list \<Rightarrow> sysc \<Rightarrow> sysc" where
  "with_pipe p buf s = s\<lparr>kern := (kern s)\<lparr>sy_pipes := (sy_pipes (kern s))[p := buf]\<rparr>\<rparr>"

lemma pipe_steps:
  assumes "pipe_ends p r w (kern s)"
  shows "h_write ev w bs s = (Inr (Now (length bs)), with_pipe p (sy_pipes (kern s) ! p @ bs) s)"
    "h_read ev r n s = (Inr (Now (take n (sy_pipes (kern s) ! p))), with_pipe p (drop n (sy_pipes (kern s) ! p)) s)"
  using assms
  by (auto simp: pipe_ends_def h_write_def h_read_def hget_def kget_def kmod_def with_pipe_def thn_def bnd_def)

lemma with_pipe_simps [simp]:
  "pipe_ends p r w (kern (with_pipe p buf s)) \<longleftrightarrow> pipe_ends p r w (kern s)"
  "p < length (sy_pipes (kern s)) \<Longrightarrow> sy_pipes (kern (with_pipe p buf s)) ! p = buf"
  "with_pipe p b (with_pipe p a s) = with_pipe p b s" "p < length (sy_pipes (kern s)) \<Longrightarrow> with_pipe p (sy_pipes (kern s) ! p) s = s"
  by (simp_all add: with_pipe_def pipe_ends_def)

text \<open>
  C35: A pipe is a byte queue: whatever writes and reads are made on its two ends, none fails or blocks, the bytes
  read so far followed by the bytes still buffered are exactly the bytes that were buffered followed by the bytes
  written, in order, and nothing else in the system changes.
\<close>

theorem pipe_fifo:
  assumes "pipe_ends p r w (kern s)"
  shows "\<exists>outs buf. run_pipe ev r w ops s = (Inr outs, with_pipe p buf s) \<and>
     concat outs @ buf = sy_pipes (kern s) ! p @ written ops"
  using assms
proof (induction ops arbitrary: s)
  case Nil
  then show ?case by (intro exI [of _ "[]"] exI [of _ "sy_pipes (kern s) ! p"]) (simp add: pipe_ends_def)
next
  case (Cons op ops)
  have p: "p < length (sy_pipes (kern s))" using Cons.prems by (simp add: pipe_ends_def)
  show ?case
  proof (cases op)
    case (PipeWrite bs)
    from Cons.IH [of "with_pipe p (sy_pipes (kern s) ! p @ bs) s"] Cons.prems p obtain outs buf where
      "run_pipe ev r w ops (with_pipe p (sy_pipes (kern s) ! p @ bs) s) = (Inr outs, with_pipe p buf s)"
      "concat outs @ buf = (sy_pipes (kern s) ! p @ bs) @ written ops" by auto
    then show ?thesis using pipe_steps(1) [OF Cons.prems, of ev bs] PipeWrite
      by (intro exI [of _ outs] exI [of _ buf]) simp
  next
    case (PipeRead n)
    from Cons.IH [of "with_pipe p (drop n (sy_pipes (kern s) ! p)) s"] Cons.prems p obtain outs buf where
      o: "run_pipe ev r w ops (with_pipe p (drop n (sy_pipes (kern s) ! p)) s) = (Inr outs, with_pipe p buf s)"
      "concat outs @ buf = drop n (sy_pipes (kern s) ! p) @ written ops" by auto
    have "run_pipe ev r w (op # ops) s = (Inr (take n (sy_pipes (kern s) ! p) # outs), with_pipe p buf s)"
      using pipe_steps(2) [OF Cons.prems, of ev n] o(1) by (simp add: PipeRead)
    moreover have "concat (take n (sy_pipes (kern s) ! p) # outs) @ buf = sy_pipes (kern s) ! p @ written (op # ops)"
      using o(2) by (simp add: PipeRead)
    ultimately show ?thesis by blast
  qed
qed

definition pipe_cpu :: sysc where
  "pipe_cpu = small_cpu\<lparr>kern := demo_sys\<lparr>sy_handles := [HStdin, HStdout, HStderr, HPipe 0 True False, HPipe 0 False True],
     sy_pipes := [[9]]\<rparr>\<rparr>"

theorem pipe_fifo_witness:
  "\<exists>outs s'. run_pipe demo_sys_env 3 4 [PipeWrite [1, 2, 3], PipeRead 2, PipeWrite [4], PipeRead 9] pipe_cpu = (Inr outs, s') \<and>
     concat outs @ sy_pipes (kern s') ! 0 = [9, 1, 2, 3, 4]"
proof -
  have k: "sy_pipes (kern pipe_cpu) = [[9]]" by (simp add: pipe_cpu_def)
  have "pipe_ends 0 3 4 (kern pipe_cpu)" by (auto simp: pipe_ends_def pipe_cpu_def intro: exI [of _ False])
  from pipe_fifo [OF this, of demo_sys_env "[PipeWrite [1, 2, 3], PipeRead 2, PipeWrite [4], PipeRead 9]"]
  show ?thesis by (auto simp: with_pipe_def k)
qed

section \<open>Directory records\<close>

lemma write8_frame:
  assumes "mem_wf m"
  shows "mem_wf (snd (write8 a v m)) \<and> (\<forall>b. b \<noteq> a \<longrightarrow> byte_at (snd (write8 a v m)) b = byte_at m b)"
proof (cases "\<exists>b p. byte_at m a = Some (b, p) \<and> p AND PERM_W = PERM_W")
  case True
  then obtain b p where "byte_at m a = Some (b, p)" "p AND PERM_W = PERM_W" by blast
  from guest.wr_ok [OF assms this, of v] show ?thesis by auto
next
  case False
  then have "snd (write8 a v m) = m"
    by (auto simp: write8_def getPage_def byte_at_def bnd_def split: prod.splits option.splits)
  then show ?thesis using assms by simp
qed

text \<open>\<open>confined A m\<close>: whatever happens, \<open>m\<close> changes memory only at the addresses in \<open>A\<close>.\<close>

definition confined :: "u32 set \<Rightarrow> 'a sysM \<Rightarrow> bool" where
  "confined A m \<longleftrightarrow> (\<forall>s. mem_wf (mem s) \<longrightarrow> mem_wf (mem (snd (m s))) \<and>
     (\<forall>b. b \<notin> A \<longrightarrow> byte_at (mem (snd (m s))) b = byte_at (mem s) b))"

named_theorems conf \<open>introduction rules for confined computations\<close>

lemma confined_bnd [conf]:
  assumes "confined A m" "\<And>x. confined A (f x)"
  shows "confined A (bnd m f)"
  unfolding confined_def
proof (intro allI impI)
  fix s :: sysc
  assume wf: "mem_wf (mem s)"
  obtain r s' where m: "m s = (r, s')" by fastforce
  have 1: "mem_wf (mem s')" "\<forall>b. b \<notin> A \<longrightarrow> byte_at (mem s') b = byte_at (mem s) b"
    using assms(1) wf m unfolding confined_def by (metis snd_conv)+
  show "mem_wf (mem (snd (bnd m f s))) \<and> (\<forall>b. b \<notin> A \<longrightarrow> byte_at (mem (snd (bnd m f s))) b = byte_at (mem s) b)"
  proof (cases r)
    case (Inr x)
    have "mem_wf (mem (snd (f x s'))) \<and> (\<forall>b. b \<notin> A \<longrightarrow> byte_at (mem (snd (f x s'))) b = byte_at (mem s') b)"
      using assms(2) 1(1) unfolding confined_def by blast
    then show ?thesis using 1 m Inr by simp
  qed (use 1 m in simp)
qed

lemma confined_pure: "(\<And>s. mem (snd (m s)) = mem s) \<Longrightarrow> confined A m"
  by (simp add: confined_def)

lemma confined_thn [conf]: "confined A m \<Longrightarrow> confined A k \<Longrightarrow> confined A (thn m k)"
  unfolding thn_def by (intro confined_bnd)

lemma confined_forM [conf]: "(\<And>x. x \<in> set xs \<Longrightarrow> confined A (f x)) \<Longrightarrow> confined A (forM xs f)"
proof (induction xs)
  case Nil
  show ?case by (simp add: confined_def)
next
  case (Cons x xs)
  then show ?case by (simp add: confined_thn)
qed

lemma confined_wr8 [conf]: "a \<in> A \<Longrightarrow> confined A (wr8 a v)"
  unfolding confined_def
proof (intro allI impI)
  fix s :: sysc
  assume a: "a \<in> A" and wf: "mem_wf (mem s)"
  have "mem (snd (wr8 a v s)) = snd (write8 a v (mem s))"
    by (simp add: wr8_def memOp_def split: prod.splits sum.splits)
  then show "mem_wf (mem (snd (wr8 a v s))) \<and> (\<forall>b. b \<notin> A \<longrightarrow> byte_at (mem (snd (wr8 a v s))) b = byte_at (mem s) b)"
    using write8_frame [OF wf, of a v] a by auto
qed

lemma memOp_thn: "memOp (thn f g) = thn (memOp f) (memOp g)"
  by (auto simp: memOp_def thn_def bnd_def fun_eq_iff split: prod.splits sum.splits)

lemma memOp_forM: "memOp (forM xs f) = forM xs (\<lambda>x. memOp (f x))"
proof (induction xs)
  case Nil
  show ?case by (simp add: memOp_def fun_eq_iff)
qed (simp add: memOp_thn)

lemma confined_wr16 [conf]: "{a, a + 1} \<subseteq> A \<Longrightarrow> confined A (wr16 a v)"
  unfolding wr16_def write16_def le_write16_def memOp_thn by (auto simp flip: wr8_def intro!: confined_thn confined_wr8)

lemma confined_wr32 [conf]: "{a, a + 1, a + 2, a + 3} \<subseteq> A \<Longrightarrow> confined A (wr32 a v)"
  unfolding wr32_def write32_def le_write32_def memOp_thn by (auto simp flip: wr8_def intro!: confined_thn confined_wr8)

lemma confined_wrBytes [conf]: "set (addr_seq a (length bs)) \<subseteq> A \<Longrightarrow> confined A (wrBytes a bs)"
  unfolding wrBytes_def writeBytes_def memOp_forM
  by (rule confined_forM) (auto simp flip: wr8_def dest!: set_zip_leftD intro!: confined_wr8)

lemma confined_wrFields [conf]:
  "(\<And>off v. (off, v) \<in> set fs \<Longrightarrow> {a + word_of_nat off, a + word_of_nat off + 1, a + word_of_nat off + 2, a + word_of_nat off + 3} \<subseteq> A)
    \<Longrightarrow> confined A (wrFields a fs)"
  unfolding wrFields_def by (rule confined_forM) (force intro!: confined_wr32)

lemma align_to_bounds: "0 < a \<Longrightarrow> n \<le> align_to n a \<and> a dvd align_to n a"
proof -
  assume a: "0 < a"
  have "(n + a - 1) mod a < a" "(n + a - 1) div a * a + (n + a - 1) mod a = n + a - 1" using a by simp_all
  then have "n \<le> align_to n a" unfolding align_to_def using a by linarith
  then show ?thesis by (simp add: align_to_def)
qed


lemma addr_seq_shift: "off + n \<le> c \<Longrightarrow> set (addr_seq (a + word_of_nat off) n) \<subseteq> set (addr_seq a c)"
proof
  fix x
  assume le: "off + n \<le> c" and "x \<in> set (addr_seq (a + word_of_nat off) n)"
  then obtain i where "i < n" "x = a + word_of_nat off + word_of_nat i" by (auto simp: set_addr_seq)
  then have "x = a + word_of_nat (off + i)" "off + i < c" using le by (simp_all add: add.assoc)
  then show "x \<in> set (addr_seq a c)" by (auto simp: set_addr_seq)
qed

lemma record_addresses:
  assumes "set (addr_seq base n) \<subseteq> A" "i + k \<le> n"
  shows "set (addr_seq (base + word_of_nat i) k) \<subseteq> A" "0 < k \<Longrightarrow> base + word_of_nat i \<in> A"
    "2 \<le> k \<Longrightarrow> {base + word_of_nat i, base + word_of_nat i + 1} \<subseteq> A"
    "4 \<le> k \<Longrightarrow> {base + word_of_nat i, base + word_of_nat i + 1, base + word_of_nat i + 2, base + word_of_nat i + 3} \<subseteq> A"
proof -
  show *: "set (addr_seq (base + word_of_nat i) k) \<subseteq> A" using addr_seq_shift [OF assms(2)] assms(1) by blast
  have m: "base + word_of_nat i + word_of_nat j \<in> A" if "j < k" for j using * in_addr_seq [OF that] by blast
  show "0 < k \<Longrightarrow> base + word_of_nat i \<in> A" using m [of 0] by simp
  show "2 \<le> k \<Longrightarrow> {base + word_of_nat i, base + word_of_nat i + 1} \<subseteq> A" using m [of 0] m [of 1] by simp
  show "4 \<le> k \<Longrightarrow> {base + word_of_nat i, base + word_of_nat i + 1, base + word_of_nat i + 2, base + word_of_nat i + 3} \<subseteq> A"
    using m [of 0] m [of 1] m [of 2] m [of 3] by simp
qed

lemma confined_dents64: "confined (set (addr_seq dirp count)) (dents64_loop dirp count dirOff off es)"
proof (induction es arbitrary: off)
  case Nil
  show ?case by (simp add: confined_def)
next
  case (Cons e es)
  obtain nm n where e: "e = (nm, n)" by fastforce
  let ?A = "set (addr_seq dirp count)" and ?l = "length (stringToBytes nm)" and ?base = "dirp + word_of_nat off"
  let ?rl = "align_to (19 + ?l + 1) 8"
  have rl: "20 + ?l \<le> ?rl" using align_to_bounds [of 8 "19 + ?l + 1"] by simp
  show ?case
  proof (cases "off + ?rl > count")
    case False
    then have A: "set (addr_seq ?base ?rl) \<subseteq> ?A" by (intro addr_seq_shift) simp
    note rec = record_addresses [OF A]
    have 1: "confined ?A (wrFields ?base [(0, a), (4, b), (8, c), (12, d)])" for a b c d
    proof (rule confined_wrFields)
      fix o1 v
      assume "(o1, v) \<in> set [(0 :: nat, a), (4, b), (8, c), (12, d)]"
      then have "o1 + 4 \<le> ?rl" using rl by auto
      then show "{?base + word_of_nat o1, ?base + word_of_nat o1 + 1, ?base + word_of_nat o1 + 2, ?base + word_of_nat o1 + 3} \<subseteq> ?A"
        by (rule rec(4)) simp
    qed
    have 2: "confined ?A (wr16 (?base + 16) v)" for v using rec(3) [of 16 2] rl by (intro confined_wr16) simp
    have 3: "confined ?A (wr8 (?base + 18) v)" for v using rec(2) [of 18 1] rl by (intro confined_wr8) simp
    have 4: "confined ?A (wrBytes (?base + 19) (stringToBytes nm))" using rec(1) [of 19 ?l] rl by (intro confined_wrBytes) simp
    have 5: "confined ?A (wr8 (?base + 19 + word_of_nat ?l) v)" for v
      using rec(2) [of "19 + ?l" 1] rl by (intro confined_wr8) (simp add: add.assoc)
    have 6: "confined ?A (forM [19 + ?l + 1..<?rl] (\<lambda>i. wr8 (?base + word_of_nat i) 0))"
      by (intro confined_forM confined_wr8 rec(2) [where k = 1]) auto
    have 7: "confined ?A (kget f)" for f :: "sys_state \<Rightarrow> stat_t" by (rule confined_pure) (simp add: kget_def)
    show ?thesis using False
      unfolding e dents64_loop.simps Let_def
      by (simp only: if_False) (intro confined_bnd confined_thn 1 2 3 4 5 6 7 Cons.IH)
  qed (simp add: e Let_def confined_def)
qed

lemma dents64_result:
  assumes "dents64_loop dirp count dirOff off es s = (Inr v, s')" "off \<le> count" "8 dvd off"
  shows "v \<le> count \<and> 8 dvd v"
  using assms
proof (induction es arbitrary: off s)
  case (Cons e es)
  obtain nm n where e: "e = (nm, n)" by fastforce
  let ?rl = "align_to (19 + length (stringToBytes nm) + 1) 8"
  show ?case
  proof (cases "off + ?rl > count")
    case False
    with Cons.prems(1) obtain s1 where "dents64_loop dirp count dirOff (off + ?rl) es s1 = (Inr v, s')"
      unfolding e dents64_loop.simps Let_def by (auto simp: thn_def bnd_def split: prod.splits sum.splits)
    then show ?thesis
      by (rule Cons.IH) (use False Cons.prems(3) align_to_bounds [of 8 "19 + length (stringToBytes nm) + 1"] in auto)
  qed (use Cons.prems in \<open>simp add: e Let_def\<close>)
qed simp

lemma mem_h_readdir: "mem (snd (h_readdir r s)) = mem s"
  by (simp add: h_readdir_def hget_def hset_def kget_def kmod_def vfsOp_def fail_def bnd_def thn_def
      split: handle.splits prod.splits sum.splits)

text \<open>
  C36: \<open>getdents64\<close> never writes outside the caller's buffer: whatever the directory holds and wherever it stops, also
  when it fails, only bytes of the \<open>count\<close> bytes from \<open>dirp\<close> (addresses wrapping at the top of the address space)
  can change, and when it returns a length this is at most \<open>count\<close> and a multiple of eight, so the next record would
  start aligned.
\<close>

theorem getdents64_bounded:
  fixes s :: sysc
  assumes "mem_wf (mem s)" "getdents64 fd dirp count s = (r, s')"
  shows "mem_wf (mem s') \<and> (\<forall>b. b \<notin> set (addr_seq dirp (unat count)) \<longrightarrow> byte_at (mem s') b = byte_at (mem s) b) \<and>
     (case r of Inr (Val v) \<Rightarrow> v \<le> count \<and> 8 dvd unat v | Inr _ \<Rightarrow> False | Inl _ \<Rightarrow> True)"
proof -
  let ?A = "set (addr_seq dirp (unat count))"
  have "confined ?A (getFd fd)" by (rule confined_pure) (simp add: getFd_def kget_def fail_def bnd_def split: option.splits)
  moreover have "confined ?A (h_readdir q)" for q by (rule confined_pure) (rule mem_h_readdir)
  ultimately have "confined ?A (getdents64 fd dirp count)"
    unfolding getdents64_def num_def
    by (intro confined_bnd) (auto intro!: confined_bnd confined_dents64 simp: confined_def [of _ "ret _"] split: prod.splits)
  then have "mem_wf (mem s') \<and> (\<forall>b. b \<notin> ?A \<longrightarrow> byte_at (mem s') b = byte_at (mem s) b)"
    using assms unfolding confined_def by (metis snd_conv)
  moreover have "v \<le> count \<and> 8 dvd unat v" if "r = Inr (Val v)" for v
  proof -
    from assms(2) that obtain d es s1 n where "dents64_loop dirp (unat count) d 0 es s1 = (Inr n, s')" "v = word_of_nat n"
      unfolding getdents64_def num_def by (auto simp: bnd_def split: prod.splits sum.splits)
    with dents64_result [OF this(1)] show ?thesis
      by (auto simp: word_le_nat_alt unat_of_nat intro: order_trans [OF mod_less_eq_dividend] dvd_mod)
  qed
  moreover have "\<exists>v. x = Val v" if "r = Inr x" for x
    using assms(2) that unfolding getdents64_def num_def by (auto simp: bnd_def split: prod.splits sum.splits)
  ultimately show ?thesis by (fastforce split: sum.split sys_ret.split)
qed

definition dir_cpu :: sysc where
  "dir_cpu = small_cpu\<lparr>kern := demo_sys\<lparr>sy_handles := [HStdin, HStdout, HStderr,
       HFile \<lparr>of_node = 0, of_path = ''/'', of_flags = 0, of_offset = 5, of_dirOffset = 0\<rparr>],
     sy_fd := [(0, 0), (1, 1), (2, 2), (3, 3)]\<rparr>\<rparr>"

lemma demo_heap [simp]: "sy_heap demo_sys = empty_heap" "sy_cwd demo_sys = ''/''"
  by (simp_all add: demo_sys_def new_syscalls_def)

definition dir_entries :: "heap \<Rightarrow> nat \<Rightarrow> (string \<times> nat) list" where
  "dir_entries h n = (''.'', n) # (''..'', case parent (nd h n) of Some p \<Rightarrow> p | None \<Rightarrow> n) # children (nd h n)"

lemma getdents64_open:
  assumes "map_of (sy_fd (kern s)) (unat fd) = Some r" "sy_handles (kern s) ! r = HFile f"
    "vtype (nd (sy_heap (kern s)) (of_node f)) = NDir"
  defines "out \<equiv> drop (of_dirOffset f) (dir_entries (sy_heap (kern s)) (of_node f))"
  shows "getdents64 fd dirp count s = num (dents64_loop dirp (unat count) (of_dirOffset f + length out) 0 out)
     (s\<lparr>kern := (kern s)\<lparr>sy_handles := (sy_handles (kern s))[r := HFile (f\<lparr>of_dirOffset := of_dirOffset f + length out\<rparr>)]\<rparr>\<rparr>)"
  using assms(1-3)
  by (simp add: out_def dir_entries_def getdents64_def getFd_def h_readdir_def hget_def hset_def kget_def kmod_def vfsOp_def
      readdir_def get_node_def Let_def thn_def bnd_def)

lemma getdents64_small_buffer_loses_entries:
  assumes "map_of (sy_fd (kern s)) (unat fd) = Some r" "sy_handles (kern s) ! r = HFile f" "r < length (sy_handles (kern s))"
    "vtype (nd (sy_heap (kern s)) (of_node f)) = NDir" "of_dirOffset f = 0" "unat count < 24"
  shows "\<exists>s'. getdents64 fd dirp count s = (Inr (Val 0), s') \<and> mem s' = mem s \<and>
     (\<forall>dirp' count'. fst (getdents64 fd dirp' count' s') = Inr (Val 0))"
proof -
  let ?n = "length (dir_entries (sy_heap (kern s)) (of_node f))"
  let ?s = "s\<lparr>kern := (kern s)\<lparr>sy_handles := (sy_handles (kern s))[r := HFile (f\<lparr>of_dirOffset := ?n\<rparr>)]\<rparr>\<rparr>"
  have "align_to (19 + length (stringToBytes ''.'') + 1) 8 = 24" by (simp add: align_to_def stringToBytes_def)
  then have "dents64_loop dirp (unat count) d 0 (dir_entries h n) q = (Inr 0, q)" for d h n and q :: sysc
    using assms(6) by (simp add: dir_entries_def)
  then have 1: "getdents64 fd dirp count s = (Inr (Val 0), ?s)"
    using getdents64_open [OF assms(1,2,4)] assms(5) by (simp add: num_def bnd_def)
  have "fst (getdents64 fd dirp' count' ?s) = Inr (Val 0)" for dirp' count'
    using getdents64_open [of ?s fd r "f\<lparr>of_dirOffset := ?n\<rparr>"] assms(1,3,4) by (simp add: num_def bnd_def)
  with 1 show ?thesis by (intro exI [of _ ?s]) simp
qed

theorem getdents64_bounded_witness:
  "\<exists>s'. getdents64 3 16 10 dir_cpu = (Inr (Val 0), s') \<and> mem_wf (mem s') \<and> byte_at (mem s') 27 = byte_at (mem dir_cpu) 27"
proof -
  have "mem_wf (mem dir_cpu)" by (simp add: dir_cpu_def tiny_wf)
  moreover obtain s' where s': "getdents64 3 16 10 dir_cpu = (Inr (Val 0), s')"
    using getdents64_small_buffer_loses_entries [where s = dir_cpu and fd = 3 and r = 3 and count = 10 and dirp = 16]
    by (auto simp: dir_cpu_def empty_heap_def nd_def blank_node_def)
  moreover have "(27 :: u32) \<notin> set (addr_seq 16 (unat (10 :: u32)))"
    by (simp add: addr_seq_def upt_rec)
  ultimately show ?thesis using getdents64_bounded [of dir_cpu 3 16 10 "Inr (Val 0)" s'] by simp
qed

section \<open>Calls that differ from their Linux counterparts\<close>

text \<open>A pipe is never reported readable, whatever it holds: its handle has no \<open>hasData\<close>.\<close>

lemma poll_pipe_never_readable:
  assumes "fd_handle k (nat fd) = Some (HPipe p rd wr)" "0 < fd"
  shows "poll_events ev k fd 1 = 0"
  using assms by (simp add: poll_events_def h_hasData_def)

lemma epoll_pipe_never_readable:
  assumes "map_of (sy_fd k) (unat fd) = Some r" "sy_handles k ! r = HPipe p rd wr" "fd \<noteq> 0"
  shows "epoll_ready ev k fd 1 = 0"
  using assms by (simp add: epoll_ready_def h_hasData_def)

text \<open>A positioned read that fails leaves the descriptor at the position it was to read from.\<close>

lemma failed_pread_moves_offset:
  assumes "map_of (sy_fd (kern s)) (unat fd) = Some r" "sy_handles (kern s) ! r = HFile f" "r < length (sy_handles (kern s))"
    "m = (\<lambda>s. (Inl e, s))"
  shows "\<exists>s'. at_offset fd off m s = (Inl e, s') \<and> sy_handles (kern s') ! r = HFile (f\<lparr>of_offset := unat off\<rparr>)"
  using assms
  by (simp add: at_offset_def getFd_def hget_def hset_def set_offset_def kget_def kmod_def thn_def bnd_def)

text \<open>A pointer to unmapped memory stops the program with a fault; it is not answered with \<open>-EFAULT\<close>.\<close>

lemma handle_rethrows_faults:
  assumes "dispatch ev (regs s REG_EAX) (args_of s) s = (Inl (CpuFault e), s')"
  shows "handle ev s = (Inl (CpuFault e), s')"
  using assms by (simp add: handle_def Let_def)

lemma write_bad_pointer_faults:
  assumes "regs s REG_EAX = 4" "map_of (sy_fd (kern s)) (unat (regs s REG_EBX)) = Some r" "regs s REG_EDX = 1"
    "byte_at (mem s) (regs s REG_ECX) = None"
  shows "\<exists>e s'. handle ev s = (Inl (CpuFault e), s')"
proof -
  have "\<exists>e m'. read8 (regs s REG_ECX) (mem s) = (Inl e, m')"
    using assms(4) by (auto simp: read8_def byte_at_def getPage_def bnd_def split: option.splits prod.splits sum.splits)
  then have "\<exists>e m'. readBytes (regs s REG_ECX) (unat (1 :: u32)) (mem s) = (Inl e, m')"
    by (auto simp: readBytes_def addr_seq_def upt_rec bnd_def)
  then obtain e m' where rb: "readBytes (regs s REG_ECX) (unat (1 :: u32)) (mem s) = (Inl e, m')" by blast
  have "map_of sys_table 4 = Some (\<lambda>ev a. writeFrom ev (a1 a) (a2 a) (a3 a))"
    by (simp add: sys_table_def process_calls_def path_calls_def at_calls_def fd_calls_def)
  then have "\<exists>e s'. dispatch ev (regs s REG_EAX) (args_of s) s = (Inl (CpuFault e), s')"
    using assms(1-3) rb by (simp add: dispatch_def args_of_def writeFrom_def getFd_def kget_def memOp_def bnd_def)
  then show ?thesis using handle_rethrows_faults by blast
qed

text \<open>\<open>_llseek\<close> reads its two words as one unsigned number: a step of one byte back ends near two to the power 64.\<close>

lemma llseek_back_goes_far: "js_num (push_bit 32 (uint (0xffffffff :: u32)) OR uint (0xffffffff :: u32)) = 2 ^ 64"
proof -
  have "push_bit 32 (uint (0xffffffff :: u32)) OR uint (0xffffffff :: u32) = 18446744073709551615"
    by (simp add: push_bit_eq_mult)
  moreover have "bit_len 18446744073709551615 = 64" by (simp add: bit_len.simps)
  ultimately show ?thesis by (simp add: js_num_def round_even_def Let_def)
qed

end
