(* ===== verification/Elf.thy ===== *)
theory Elf
  imports Cpu Vfs
begin

text \<open>
  \<open>src/elf.js\<close>: the ELF headers of 32-bit executables, loading the segments of a program and of its interpreter into
  the paged memory, relocations, and the initial stack. A file is a list of bytes; a read outside of it is the
  \<open>RangeError\<close> of \<open>DataView\<close>.
\<close>

section \<open>Errors and file access\<close>

datatype elf_error =
    NotElf
  | NotClass32
  | NotLittleEndian
  | NotI386
  | UnsupportedType u32
  | MissingInterp string
  | UnsupportedReloc u32
  | DataViewRange
  | ElfMemory mem_error

type_synonym 'a elfM = "(mst, elf_error, 'a) sem"

definition onMemory :: "'a memM \<Rightarrow> 'a elfM" where
  "onMemory m = (\<lambda>s. case m s of (Inl e, s') \<Rightarrow> (Inl (ElfMemory e), s') | (Inr x, s') \<Rightarrow> (Inr x, s'))"

definition getUint16 :: "u8 list \<Rightarrow> nat \<Rightarrow> ('s, elf_error, u32) sem" where
  "getUint16 bs off = (if off + 2 \<le> length bs then ret (of_le_bytes (take 2 (drop off bs))) else throw DataViewRange)"

definition getUint32 :: "u8 list \<Rightarrow> nat \<Rightarrow> ('s, elf_error, u32) sem" where
  "getUint32 bs off = (if off + 4 \<le> length bs then ret (of_le_bytes (take 4 (drop off bs))) else throw DataViewRange)"

text \<open>\<open>u8.subarray(off, off + n)\<close>\<close>

definition file_slice :: "u8 list \<Rightarrow> nat \<Rightarrow> nat \<Rightarrow> u8 list" where
  "file_slice bs off n = take n (drop off bs)"

definition readString :: "u8 list \<Rightarrow> nat \<Rightarrow> nat \<Rightarrow> string" where
  "readString bs off len = bytesToString (takeWhile (\<lambda>b. b \<noteq> 0) (file_slice bs off len))"

definition PT_LOAD :: u32 where "PT_LOAD = 1"
definition PT_DYNAMIC :: u32 where "PT_DYNAMIC = 2"
definition PT_INTERP :: u32 where "PT_INTERP = 3"
definition PT_PHDR :: u32 where "PT_PHDR = 6"
definition ET_EXEC :: u32 where "ET_EXEC = 2"
definition ET_DYN :: u32 where "ET_DYN = 3"

definition flagsToPerm :: "u32 \<Rightarrow> u32" where
  "flagsToPerm flags =
     (let p = (if flags AND 4 \<noteq> 0 then PERM_R else 0) OR (if flags AND 2 \<noteq> 0 then PERM_W else 0) OR
         (if flags AND 1 \<noteq> 0 then PERM_X else 0)
      in if p = 0 then PERM_R else p)"

section \<open>Headers\<close>

record elf_header =
  eh_type :: u32
  eh_machine :: u32
  eh_version :: u32
  eh_entry :: u32
  eh_phoff :: u32
  eh_shoff :: u32
  eh_flags :: u32
  eh_ehsize :: u32
  eh_phentsize :: u32
  eh_phnum :: u32
  eh_shentsize :: u32
  eh_shnum :: u32
  eh_shstrndx :: u32

record phdr =
  ph_type :: u32
  ph_offset :: u32
  ph_vaddr :: u32
  ph_paddr :: u32
  ph_filesz :: u32
  ph_memsz :: u32
  ph_flags :: u32
  ph_align :: u32

record elf =
  el_bytes :: "u8 list"
  el_header :: elf_header
  el_ph :: "phdr list"

definition read_header :: "u8 list \<Rightarrow> ('s, elf_error, elf_header) sem" where
  "read_header bs =
     bnd (mapMs [16, 18] (getUint16 bs)) (\<lambda>a. bnd (mapMs [20, 24, 28, 32, 36] (getUint32 bs)) (\<lambda>b.
     bnd (mapMs [40, 42, 44, 46, 48, 50] (getUint16 bs)) (\<lambda>c.
       ret \<lparr>eh_type = a ! 0, eh_machine = a ! 1, eh_version = b ! 0, eh_entry = b ! 1, eh_phoff = b ! 2, eh_shoff = b ! 3,
         eh_flags = b ! 4, eh_ehsize = c ! 0, eh_phentsize = c ! 1, eh_phnum = c ! 2, eh_shentsize = c ! 3, eh_shnum = c ! 4,
         eh_shstrndx = c ! 5\<rparr>)))"

definition read_phdr :: "u8 list \<Rightarrow> nat \<Rightarrow> ('s, elf_error, phdr) sem" where
  "read_phdr bs off = bnd (mapMs [0, 4, 8, 12, 16, 20, 24, 28] (\<lambda>d. getUint32 bs (off + d))) (\<lambda>f.
     ret \<lparr>ph_type = f ! 0, ph_offset = f ! 1, ph_vaddr = f ! 2, ph_paddr = f ! 3, ph_filesz = f ! 4, ph_memsz = f ! 5,
       ph_flags = f ! 6, ph_align = f ! 7\<rparr>)"

definition table_offsets :: "u32 \<Rightarrow> u32 \<Rightarrow> u32 \<Rightarrow> nat list" where
  "table_offsets off entsize n = map (\<lambda>i. unat off + i * unat entsize) [0..<unat n]"

definition parseELF32 :: "u8 list \<Rightarrow> ('s, elf_error, elf) sem" where
  "parseELF32 bs =
     (if length bs < 52 \<or> take 4 bs \<noteq> [0x7f, 0x45, 0x4c, 0x46] then throw NotElf
      else if bs ! 4 \<noteq> 1 then throw NotClass32
      else if bs ! 5 \<noteq> 1 then throw NotLittleEndian
      else bnd (getUint16 bs 18) (\<lambda>m. if m \<noteq> 3 then throw NotI386
        else bnd (read_header bs) (\<lambda>h.
          bnd (mapMs (table_offsets (eh_phoff h) (eh_phentsize h) (eh_phnum h)) (read_phdr bs)) (\<lambda>ph.
            ret \<lparr>el_bytes = bs, el_header = h, el_ph = ph\<rparr>))))"

section \<open>Dynamic information\<close>

record rel_entry =
  rl_offset :: u32
  rl_info :: u32
  rl_type :: u32
  rl_sym :: u32

record dyn_info =
  dy_entries :: "(int \<times> u32) list"
  dy_needed :: "string list"
  dy_rel :: "rel_entry list"
  dy_jmprel :: "rel_entry list"
  dy_strtab :: u32
  dy_symtab :: u32
  dy_syment :: u32

definition DT_STRTAB :: int where "DT_STRTAB = 5"
definition DT_SYMTAB :: int where "DT_SYMTAB = 6"
definition DT_SYMENT :: int where "DT_SYMENT = 11"
definition DT_NEEDED :: int where "DT_NEEDED = 1"
definition DT_PLTRELSZ :: int where "DT_PLTRELSZ = 2"
definition DT_REL :: int where "DT_REL = 17"
definition DT_RELSZ :: int where "DT_RELSZ = 18"
definition DT_RELENT :: int where "DT_RELENT = 19"
definition DT_JMPREL :: int where "DT_JMPREL = 23"

fun vaddrToOffset :: "phdr list \<Rightarrow> nat \<Rightarrow> nat option" where
  "vaddrToOffset [] vaddr = None"
| "vaddrToOffset (p # ps) vaddr =
     (if ph_type p = PT_LOAD \<and> unat (ph_vaddr p) \<le> vaddr \<and> vaddr < unat (ph_vaddr p) + unat (ph_filesz p)
      then Some (unat (ph_offset p) + (vaddr - unat (ph_vaddr p))) else vaddrToOffset ps vaddr)"

definition dynString :: "elf \<Rightarrow> u32 \<Rightarrow> u32 \<Rightarrow> string" where
  "dynString e strtab off = (case vaddrToOffset (el_ph e) (unat strtab + unat off) of
     None \<Rightarrow> []
   | Some fo \<Rightarrow> readString (el_bytes e) fo (length (el_bytes e) - fo))"

fun dyn_loop :: "u8 list \<Rightarrow> nat \<Rightarrow> nat \<Rightarrow> ('s, elf_error, (int \<times> u32) list) sem" where
  "dyn_loop bs off 0 = ret []"
| "dyn_loop bs off (Suc left) =
     bnd (getUint32 bs off) (\<lambda>t. bnd (getUint32 bs (off + 4)) (\<lambda>v.
       if t = 0 then ret [(sint t, v)] else bnd (dyn_loop bs (off + 8) left) (\<lambda>r. ret ((sint t, v) # r))))"

definition dyn_get :: "(int \<times> u32) list \<Rightarrow> int \<Rightarrow> u32" where
  "dyn_get entries tag = (case map_of entries tag of Some v \<Rightarrow> v | None \<Rightarrow> 0)"

definition read_rel :: "u8 list \<Rightarrow> nat \<Rightarrow> ('s, elf_error, rel_entry) sem" where
  "read_rel bs off = bnd (getUint32 bs off) (\<lambda>o1. bnd (getUint32 bs (off + 4)) (\<lambda>info.
     ret \<lparr>rl_offset = o1, rl_info = info, rl_type = info AND 0xff, rl_sym = drop_bit 8 info\<rparr>))"

text \<open>The loop \<open>for (off = start; off + ent <= start + size; off += ent)\<close>; \<open>ent\<close> is not zero.\<close>

definition read_rels :: "elf \<Rightarrow> u32 \<Rightarrow> u32 \<Rightarrow> u32 \<Rightarrow> ('s, elf_error, rel_entry list) sem" where
  "read_rels e addr sz ent =
     (case (if addr \<noteq> 0 then vaddrToOffset (el_ph e) (unat addr) else None) of
        None \<Rightarrow> ret []
      | Some off \<Rightarrow> mapMs (map (\<lambda>i. off + i * unat ent) [0..<unat sz div unat ent]) (read_rel (el_bytes e)))"

definition or_default :: "u32 \<Rightarrow> u32 \<Rightarrow> u32" where
  "or_default v d = (if v \<noteq> 0 then v else d)"

definition parseELF32DynamicInfo :: "elf \<Rightarrow> ('s, elf_error, dyn_info) sem" where
  "parseELF32DynamicInfo e =
     (case find (\<lambda>p. ph_type p = PT_DYNAMIC) (el_ph e) of
        None \<Rightarrow> ret \<lparr>dy_entries = [], dy_needed = [], dy_rel = [], dy_jmprel = [], dy_strtab = 0, dy_symtab = 0, dy_syment = 16\<rparr>
      | Some d \<Rightarrow> bnd (dyn_loop (el_bytes e) (unat (ph_offset d)) (unat (ph_filesz d) div 8)) (\<lambda>entries.
          let get = dyn_get entries; strtab = get DT_STRTAB in
          bnd (read_rels e (get DT_REL) (get DT_RELSZ) (or_default (get DT_RELENT) 8)) (\<lambda>rel.
          bnd (read_rels e (get DT_JMPREL) (get DT_PLTRELSZ) 8) (\<lambda>jmp.
            ret \<lparr>dy_entries = entries,
              dy_needed = (if strtab \<noteq> 0 then filter (\<lambda>s. s \<noteq> [])
                (map (\<lambda>(_, v). dynString e strtab v) (filter (\<lambda>(t, _). t = DT_NEEDED) entries)) else []),
              dy_rel = rel, dy_jmprel = jmp, dy_strtab = strtab, dy_symtab = get DT_SYMTAB,
              dy_syment = or_default (get DT_SYMENT) 16\<rparr>))))"

section \<open>Loading\<close>

record reloc_stats =
  rs_applied :: nat
  rs_skipped :: nat
  rs_unsupported :: "u32 list"

record elf_image =
  im_elf :: elf
  im_entry :: u32
  im_base :: u32
  im_type :: u32
  im_phdrAddr :: u32
  im_phent :: u32
  im_phnum :: u32
  im_interp :: "string option"
  im_dynamicAddr :: u32
  im_minAddr :: u32
  im_maxAddr :: u32
  im_brk :: u32
  im_name :: string
  im_dynamic :: "dyn_info option"
  im_relocations :: "reloc_stats option"

definition load_segment :: "u8 list \<Rightarrow> u32 \<Rightarrow> string \<Rightarrow> phdr \<Rightarrow> unit memM" where
  "load_segment bs bias name p = bnd (getS (\<lambda>s. pageSize (snd s))) (\<lambda>ps.
     let va = bias + ph_vaddr p; segStart = alignDown va ps; segEnd = alignUp (va + ph_memsz p) ps;
         len = uint segEnd - uint segStart in
     thn (map_mem segStart len (PermNum (PERM_RW OR PERM_X)) name)
     (thn (whenM (ph_filesz p > 0) (writeBytes va (file_slice bs (unat (ph_offset p)) (unat (ph_filesz p)))))
     (thn (whenM (ph_memsz p > ph_filesz p)
            (forM [unat (va + ph_filesz p)..<unat (va + ph_memsz p)] (\<lambda>a. write8 (word_of_nat a) 0)))
       (mprotect segStart len (PermNum (flagsToPerm (ph_flags p)))))))"

record load_acc =
  la_minVaddr :: nat
  la_maxVaddr :: nat
  la_interp :: "string option"
  la_dynamicAddr :: u32
  la_phdrAddr :: u32

definition load_phdr :: "u8 list \<Rightarrow> u32 \<Rightarrow> string \<Rightarrow> load_acc \<Rightarrow> phdr \<Rightarrow> load_acc memM" where
  "load_phdr bs bias name a p =
     (if ph_type p = PT_INTERP then ret (a\<lparr>la_interp := Some (readString bs (unat (ph_offset p)) (unat (ph_filesz p)))\<rparr>)
      else if ph_type p = PT_LOAD then thn (load_segment bs bias name p)
        (ret (a\<lparr>la_minVaddr := min (la_minVaddr a) (unat (ph_vaddr p)),
                la_maxVaddr := max (la_maxVaddr a) (unat (ph_vaddr p) + unat (ph_memsz p))\<rparr>))
      else if ph_type p = PT_DYNAMIC then ret (a\<lparr>la_dynamicAddr := bias + ph_vaddr p\<rparr>)
      else if ph_type p = PT_PHDR then ret (a\<lparr>la_phdrAddr := bias + ph_vaddr p\<rparr>)
      else ret a)"

fun load_loop :: "u8 list \<Rightarrow> u32 \<Rightarrow> string \<Rightarrow> load_acc \<Rightarrow> phdr list \<Rightarrow> load_acc memM" where
  "load_loop bs bias name a [] = ret a"
| "load_loop bs bias name a (p # ps) = bnd (load_phdr bs bias name a p) (\<lambda>a'. load_loop bs bias name a' ps)"

definition R_386_NONE :: u32 where "R_386_NONE = 0"
definition R_386_32 :: u32 where "R_386_32 = 1"
definition R_386_PC32 :: u32 where "R_386_PC32 = 2"
definition R_386_GLOB_DAT :: u32 where "R_386_GLOB_DAT = 6"
definition R_386_JMP_SLOT :: u32 where "R_386_JMP_SLOT = 7"
definition R_386_RELATIVE :: u32 where "R_386_RELATIVE = 8"

text \<open>
  The options of the relocation: what a symbol number resolves to, and whether an unknown type is an error. The
  loader's own call resolves every symbol to zero and ignores unknown types.
\<close>

record reloc_opts =
  ro_resolve :: "u32 \<Rightarrow> dyn_info \<Rightarrow> elf_image \<Rightarrow> u32"
  ro_strict :: bool

definition applied :: "reloc_stats \<Rightarrow> reloc_stats" where
  "applied st = st\<lparr>rs_applied := rs_applied st + 1\<rparr>"

definition skipped :: "reloc_stats \<Rightarrow> reloc_stats" where
  "skipped st = st\<lparr>rs_skipped := rs_skipped st + 1\<rparr>"

definition applyOne :: "reloc_opts \<Rightarrow> dyn_info \<Rightarrow> elf_image \<Rightarrow> reloc_stats \<Rightarrow> rel_entry \<Rightarrow> reloc_stats elfM" where
  "applyOne o1 dyn im st r =
     (let base = im_base im; addr = base + rl_offset r; sym = ro_resolve o1 (rl_sym r) dyn im;
          store = (\<lambda>v. thn (onMemory (forceWrite32 addr v)) (ret (applied st))) in
      bnd (onMemory (read32 addr)) (\<lambda>old.
        if rl_type r = R_386_NONE then ret st
        else if rl_type r = R_386_RELATIVE then store (base + old)
        else if rl_type r = R_386_GLOB_DAT \<or> rl_type r = R_386_JMP_SLOT then if sym = 0 then ret (skipped st) else store sym
        else if rl_type r = R_386_32 then if rl_sym r \<noteq> 0 \<and> sym = 0 then ret (skipped st) else store (sym + old)
        else if rl_type r = R_386_PC32 then if rl_sym r \<noteq> 0 \<and> sym = 0 then ret (skipped st) else store (sym + old - addr)
        else if ro_strict o1 then throw (UnsupportedReloc (rl_type r))
        else ret (st\<lparr>rs_unsupported := rs_unsupported st @ [rl_type r]\<rparr>)))"

fun apply_loop :: "reloc_opts \<Rightarrow> dyn_info \<Rightarrow> elf_image \<Rightarrow> reloc_stats \<Rightarrow> rel_entry list \<Rightarrow> reloc_stats elfM" where
  "apply_loop o1 dyn im st [] = ret st"
| "apply_loop o1 dyn im st (r # rs) = bnd (applyOne o1 dyn im st r) (\<lambda>st'. apply_loop o1 dyn im st' rs)"

definition applyELF32Relocations :: "reloc_opts \<Rightarrow> elf_image \<Rightarrow> elf_image elfM" where
  "applyELF32Relocations o1 im = bnd (parseELF32DynamicInfo (im_elf im)) (\<lambda>dyn.
     bnd (apply_loop o1 dyn im \<lparr>rs_applied = 0, rs_skipped = 0, rs_unsupported = []\<rparr> (dy_rel dyn @ dy_jmprel dyn)) (\<lambda>st.
       ret (im\<lparr>im_dynamic := Some dyn, im_relocations := Some st\<rparr>)))"

definition loader_relocs :: reloc_opts where
  "loader_relocs = \<lparr>ro_resolve = (\<lambda>_ _ _. 0), ro_strict = False\<rparr>"

definition load_bias :: "u32 option \<Rightarrow> u32 \<Rightarrow> u32" where
  "load_bias given type = (case given of Some b \<Rightarrow> b | None \<Rightarrow> if type = ET_DYN then 0x56555000 else 0)"

definition loadELF32Image :: "u8 list \<Rightarrow> u32 option \<Rightarrow> string \<Rightarrow> bool \<Rightarrow> elf_image elfM" where
  "loadELF32Image bs given name relocate = bnd (parseELF32 bs) (\<lambda>e.
     let h = el_header e; bias = load_bias given (eh_type h) in
     if eh_type h \<noteq> ET_EXEC \<and> eh_type h \<noteq> ET_DYN then throw (UnsupportedType (eh_type h))
     else bnd (getS (\<lambda>s. pageSize (snd s))) (\<lambda>ps.
       bnd (onMemory (load_loop bs bias name
         \<lparr>la_minVaddr = 0xffffffff, la_maxVaddr = 0, la_interp = None, la_dynamicAddr = 0, la_phdrAddr = 0\<rparr> (el_ph e))) (\<lambda>a.
       let im = \<lparr>im_elf = e, im_entry = bias + eh_entry h, im_base = bias, im_type = eh_type h,
             im_phdrAddr = (if la_phdrAddr a = 0 then bias + eh_phoff h else la_phdrAddr a), im_phent = eh_phentsize h,
             im_phnum = eh_phnum h, im_interp = la_interp a, im_dynamicAddr = la_dynamicAddr a,
             im_minAddr = bias + word_of_nat (la_minVaddr a), im_maxAddr = bias + word_of_nat (la_maxVaddr a),
             im_brk = alignUp (bias + word_of_nat (la_maxVaddr a)) ps, im_name = name, im_dynamic = None, im_relocations = None\<rparr> in
       if la_dynamicAddr a \<noteq> 0 \<and> relocate then applyELF32Relocations loader_relocs im else ret im)))"

record flat_image =
  fl_entry :: u32
  fl_base :: u32
  fl_brk :: u32
  fl_name :: string

definition loadFlatBinary :: "u8 list \<Rightarrow> u32 \<Rightarrow> perm_arg option \<Rightarrow> string option \<Rightarrow> flat_image memM" where
  "loadFlatBinary bs addr perm name =
     (let nm = (case name of Some n \<Rightarrow> n | None \<Rightarrow> ''[flat]'') in
      bnd (getS (\<lambda>s. pageSize (snd s))) (\<lambda>ps.
        thn (loadBytes addr bs (case perm of Some p \<Rightarrow> p | None \<Rightarrow> PermNum (PERM_R OR PERM_X)) nm)
          (ret \<lparr>fl_entry = addr, fl_base = addr, fl_brk = alignUp (addr + word_of_nat (length bs)) ps, fl_name = nm\<rparr>)))"

section \<open>The initial stack\<close>

datatype env_arg = EnvArray "string list" | EnvObject "(string \<times> string) list"

text \<open>The options of \<open>setupInitialStack\<close>; \<open>None\<close> where the caller gives no value.\<close>

record stack_opts =
  sk_stackTop :: "u32 option"
  sk_argv :: "string list option"
  sk_execPath :: "string option"
  sk_env :: "env_arg option"
  sk_auxv :: "(u32 \<times> u32) list"
  sk_phdrAddr :: "u32 option"
  sk_phent :: "u32 option"
  sk_phnum :: "u32 option"
  sk_base :: "u32 option"
  sk_entry :: "u32 option"
  sk_uid :: "u32 option"
  sk_gid :: "u32 option"

definition or_else :: "'a option \<Rightarrow> 'a \<Rightarrow> 'a" where
  "or_else x d = (case x of Some v \<Rightarrow> v | None \<Rightarrow> d)"

definition default_env :: env_arg where
  "default_env = EnvObject [(''PATH'', ''/bin:/usr/bin''), (''HOME'', ''/home/user''), (''USER'', ''user''),
     (''SHELL'', ''/bin/sh''), (''TERM'', ''xterm'')]"

definition env_pairs :: "env_arg \<Rightarrow> string list" where
  "env_pairs env = (case env of EnvArray xs \<Rightarrow> xs | EnvObject kvs \<Rightarrow> map (\<lambda>(k, v). k @ ''='' @ v) kvs)"

definition putBytes :: "u32 \<Rightarrow> u8 list \<Rightarrow> ('k, 'x, u32) cpuM" where
  "putBytes sp bs = (let sp' = sp - word_of_nat (length bs) in thn (memOp (writeBytes sp' bs)) (ret sp'))"

definition putString :: "u32 \<Rightarrow> string \<Rightarrow> ('k, 'x, u32) cpuM" where
  "putString sp s = putBytes sp (stringToBytes s @ [0])"

text \<open>The last string is put first; the pointers come back in the order of the strings.\<close>

fun put_strings :: "u32 \<Rightarrow> string list \<Rightarrow> ('k, 'x, u32 \<times> u32 list) cpuM" where
  "put_strings sp [] = ret (sp, [])"
| "put_strings sp (s # ss) = bnd (put_strings sp ss) (\<lambda>(sp1, ptrs). bnd (putString sp1 s) (\<lambda>sp2. ret (sp2, sp2 # ptrs)))"

definition push_all :: "u32 list \<Rightarrow> ('k, 'x, unit) cpuM" where
  "push_all vs = forM (rev vs) (\<lambda>v. push v 32)"

definition aux_table :: "stack_opts \<Rightarrow> u32 \<Rightarrow> u32 \<Rightarrow> u32 \<Rightarrow> u32 \<Rightarrow> u32 \<Rightarrow> (u32 \<times> u32) list" where
  "aux_table o1 ps eip0 rnd plat execfn = sk_auxv o1 @
     [(3, or_else (sk_phdrAddr o1) 0), (4, or_else (sk_phent o1) 32), (5, or_else (sk_phnum o1) 0), (6, ps),
      (7, or_else (sk_base o1) 0), (8, 0), (9, or_else (sk_entry o1) eip0), (11, or_else (sk_uid o1) 1000),
      (12, or_else (sk_uid o1) 1000), (13, or_else (sk_gid o1) 1000), (14, or_else (sk_gid o1) 1000), (17, 100), (25, rnd),
      (15, plat), (31, execfn), (0, 0)]"

text \<open>The sixteen random bytes are the parameter \<open>rnd\<close>.\<close>

definition setupInitialStack :: "u8 list \<Rightarrow> stack_opts \<Rightarrow> ('k, 'x, u32) cpuM" where
  "setupInitialStack rnd o1 =
     (let argv = or_else (sk_argv o1) [or_else (sk_execPath o1) ''emulated''];
          envp = env_pairs (or_else (sk_env o1) default_env) in
      bnd (putBytes (or_else (sk_stackTop o1) 0xbffff000) rnd) (\<lambda>randomPtr.
      bnd (putString randomPtr ''i686'') (\<lambda>platformPtr.
      bnd (putString platformPtr (case argv of [] \<Rightarrow> ''emulated'' | a # _ \<Rightarrow> a)) (\<lambda>execfnPtr.
      bnd (put_strings execfnPtr argv) (\<lambda>(sp1, argPtrs).
      bnd (put_strings sp1 envp) (\<lambda>(sp2, envPtrs).
      thn (setR REG_ESP (sp2 AND NOT 0xf))
      (bnd (getS (\<lambda>s. (pageSize (snd (mem s)), eip s))) (\<lambda>(ps, eip0).
      thn (push_all (concat (map (\<lambda>(k, v). [k, v]) (aux_table o1 ps eip0 randomPtr platformPtr execfnPtr))))
      (thn (push 0 32) (thn (push_all envPtrs) (thn (push 0 32) (thn (push_all argPtrs)
      (thn (push (word_of_nat (length argPtrs)) 32) (getR REG_ESP))))))))))))))"

section \<open>Processes\<close>

record proc_opts =
  po_execPath :: "string option"
  po_loadBias :: "u32 option"
  po_interpLoadBias :: "u32 option"
  po_vfs :: "vfs option"
  po_ignoreMissingInterp :: bool
  po_stackTop :: "u32 option"
  po_stackSize :: "u32 option"

record proc_image =
  pi_main :: elf_image
  pi_interp :: "elf_image option"
  pi_entry :: u32
  pi_base :: u32
  pi_brk :: u32
  pi_stackTop :: u32
  pi_stackSize :: u32

type_synonym 'a procM = "(mst \<times> heap, elf_error, 'a) sem"

definition onImage :: "'a elfM \<Rightarrow> 'a procM" where
  "onImage m = (\<lambda>(s, h). case m s of (r, s') \<Rightarrow> (r, (s', h)))"

text \<open>
  The interpreter: every exception in reading or loading it becomes one error, or is dropped when missing interpreters
  are ignored; what was mapped until then stays mapped.
\<close>

definition load_interp :: "proc_opts \<Rightarrow> elf_image \<Rightarrow> elf_image option procM" where
  "load_interp o1 main = (\<lambda>(s, h). case (im_interp main, po_vfs o1) of
     (Some path, Some v) \<Rightarrow>
       if path = [] then (Inr None, (s, h))
       else (case readFile v path h of
           (Inl e, h') \<Rightarrow> (if po_ignoreMissingInterp o1 then Inr None else Inl (MissingInterp path), (s, h'))
         | (Inr bs, h') \<Rightarrow> (case loadELF32Image bs (Some (or_else (po_interpLoadBias o1) 0xf7dd0000)) path True s of
               (Inr im, s') \<Rightarrow> (Inr (Some im), (s', h'))
             | (Inl e, s') \<Rightarrow> (if po_ignoreMissingInterp o1 then Inr None else Inl (MissingInterp path), (s', h'))))
   | _ \<Rightarrow> (Inr None, (s, h)))"

definition loadELF32Process :: "u8 list \<Rightarrow> proc_opts \<Rightarrow> proc_image procM" where
  "loadELF32Process bs o1 =
     bnd (onImage (loadELF32Image bs (po_loadBias o1) (or_else (po_execPath o1) ''[program]'') True)) (\<lambda>main.
     bnd (load_interp o1 main) (\<lambda>interp.
       let top = or_else (po_stackTop o1) 0xbffff000; sz = or_else (po_stackSize o1) 0x800000 in
       thn (onImage (onMemory (map_mem (top - sz) (uint sz) (PermNum PERM_RW) ''[stack]'')))
         (ret \<lparr>pi_main = main, pi_interp = interp,
           pi_entry = (case interp of Some i \<Rightarrow> im_entry i | None \<Rightarrow> im_entry main),
           pi_base = (case interp of Some i \<Rightarrow> im_base i | None \<Rightarrow> 0),
           pi_brk = im_brk main, pi_stackTop = top, pi_stackSize = sz\<rparr>)))"

section \<open>Sections\<close>

record elf_section =
  sc_name :: string
  sc_type :: u32
  sc_flags :: u32
  sc_addr :: u32
  sc_offset :: u32
  sc_size :: u32
  sc_link :: u32
  sc_info :: u32
  sc_addralign :: u32
  sc_entsize :: u32

definition section_names :: "elf \<Rightarrow> ('s, elf_error, u8 list) sem" where
  "section_names e =
     (let h = el_header e in
      if eh_shoff h \<noteq> 0 \<and> eh_shnum h \<noteq> 0 \<and> eh_shstrndx h < eh_shnum h
      then let off = unat (eh_shoff h) + unat (eh_shstrndx h) * unat (eh_shentsize h) in
        bnd (getUint32 (el_bytes e) (off + 16)) (\<lambda>so. bnd (getUint32 (el_bytes e) (off + 20)) (\<lambda>sz.
          ret (file_slice (el_bytes e) (unat so) (unat sz))))
      else ret [])"

definition read_section :: "u8 list \<Rightarrow> u8 list \<Rightarrow> nat \<Rightarrow> ('s, elf_error, elf_section) sem" where
  "read_section bs names off = bnd (mapMs [0, 4, 8, 12, 16, 20, 24, 28, 32, 36] (\<lambda>d. getUint32 bs (off + d))) (\<lambda>f.
     ret \<lparr>sc_name = readString names (unat (f ! 0)) (length names - unat (f ! 0)), sc_type = f ! 1, sc_flags = f ! 2,
       sc_addr = f ! 3, sc_offset = f ! 4, sc_size = f ! 5, sc_link = f ! 6, sc_info = f ! 7, sc_addralign = f ! 8,
       sc_entsize = f ! 9\<rparr>)"

definition parseELF32Sections :: "u8 list \<Rightarrow> ('s, elf_error, elf \<times> elf_section list) sem" where
  "parseELF32Sections bs = bnd (parseELF32 bs) (\<lambda>e. let h = el_header e in
     bnd (section_names e) (\<lambda>names.
     bnd (mapMs (table_offsets (eh_shoff h) (eh_shentsize h) (eh_shnum h)) (read_section (el_bytes e) names)) (\<lambda>ss.
       ret (e, ss))))"

section \<open>Relocation from memory\<close>

definition push_tag :: "u32 \<Rightarrow> u32 \<Rightarrow> (u32, u32 list) jsmap \<Rightarrow> (u32, u32 list) jsmap" where
  "push_tag tag v tags = AList.update tag ((case map_of tags tag of Some vs \<Rightarrow> vs | None \<Rightarrow> []) @ [v]) tags"

fun table_loop :: "u32 \<Rightarrow> nat \<Rightarrow> (u32, u32 list) jsmap \<Rightarrow> (u32, u32 list) jsmap memM" where
  "table_loop off 0 tags = ret tags"
| "table_loop off (Suc left) tags = bnd (read32 off) (\<lambda>tag. bnd (read32 (off + 4)) (\<lambda>v.
     if tag = 0 then ret (push_tag tag v tags) else table_loop (off + 8) left (push_tag tag v tags)))"

definition readDynamicTable :: "u32 \<Rightarrow> (u32, u32 list) jsmap memM" where
  "readDynamicTable addr = (if addr = 0 then ret [] else table_loop addr 4096 [])"

definition tag_get :: "(u32, u32 list) jsmap \<Rightarrow> int \<Rightarrow> u32" where
  "tag_get tags tag = (case map_of tags (word_of_int tag) of Some (v # _) \<Rightarrow> v | _ \<Rightarrow> 0)"

record elf_sym =
  sm_name :: u32
  sm_value :: u32
  sm_size :: u32
  sm_info :: u8
  sm_other :: u8
  sm_shndx :: u32

definition readSym :: "u32 \<Rightarrow> u32 \<Rightarrow> u32 \<Rightarrow> elf_sym memM" where
  "readSym symtab index syment = (let off = symtab + index * syment in
     bnd (read32 off) (\<lambda>n. bnd (read32 (off + 4)) (\<lambda>v. bnd (read32 (off + 8)) (\<lambda>sz.
     bnd (read8 (off + 12)) (\<lambda>i. bnd (read8 (off + 13)) (\<lambda>ot. bnd (read16 (off + 14)) (\<lambda>x.
       ret \<lparr>sm_name = n, sm_value = v, sm_size = sz, sm_info = i, sm_other = ot, sm_shndx = x\<rparr>)))))))"

definition i386_one :: "bool \<Rightarrow> u32 \<Rightarrow> u32 \<Rightarrow> u32 \<Rightarrow> nat \<Rightarrow> u32 \<Rightarrow> nat elfM" where
  "i386_one strict base symtab syment n addr =
     bnd (onMemory (read32 addr)) (\<lambda>P. bnd (onMemory (read32 (addr + 4))) (\<lambda>info.
     let type = info AND 0xff; idx = drop_bit 8 info in
     bnd (onMemory (read32 P)) (\<lambda>A.
     bnd (if symtab \<noteq> 0 \<and> idx \<noteq> 0 then bnd (onMemory (readSym symtab idx syment)) (\<lambda>s. ret (base + sm_value s)) else ret 0) (\<lambda>S.
       if type = R_386_NONE then ret n
       else thn (if type = R_386_RELATIVE then onMemory (write32 P (base + A))
                 else if type = R_386_32 then onMemory (write32 P (S + A))
                 else if type = R_386_PC32 then onMemory (write32 P (S + A - P))
                 else if type = R_386_GLOB_DAT \<or> type = R_386_JMP_SLOT then onMemory (write32 P S)
                 else if strict then throw (UnsupportedReloc type) else ret ())
              (ret (n + 1))))))"

fun i386_loop :: "bool \<Rightarrow> u32 \<Rightarrow> u32 \<Rightarrow> u32 \<Rightarrow> nat \<Rightarrow> u32 list \<Rightarrow> nat elfM" where
  "i386_loop strict base symtab syment n [] = ret n"
| "i386_loop strict base symtab syment n (a # as) =
     bnd (i386_one strict base symtab syment n a) (\<lambda>n'. i386_loop strict base symtab syment n' as)"

text \<open>The addresses of \<open>for (off = 0; off < size; off += ent)\<close>; a table with address or size zero is left out.\<close>

definition rel_addrs :: "u32 \<Rightarrow> u32 \<Rightarrow> u32 \<Rightarrow> u32 list" where
  "rel_addrs addr sz ent = (if addr = 0 \<or> sz = 0 then []
     else map (\<lambda>i. addr + word_of_nat (i * unat ent)) [0..<(unat sz + unat ent - 1) div unat ent])"

definition applyI386Relocations :: "bool \<Rightarrow> u32 \<Rightarrow> u32 \<Rightarrow> (nat \<times> (u32, u32 list) jsmap) elfM" where
  "applyI386Relocations strict base dynamicAddr = bnd (onMemory (readDynamicTable dynamicAddr)) (\<lambda>dyn.
     let get = tag_get dyn in
     bnd (i386_loop strict base (get DT_SYMTAB) (or_default (get DT_SYMENT) 16) 0
       (rel_addrs (get DT_REL) (get DT_RELSZ) (or_default (get DT_RELENT) 8) @ rel_addrs (get DT_JMPREL) (get DT_PLTRELSZ) 8)) (\<lambda>n.
       ret (n, dyn)))"

end
