(* ===== verification/Elf_Props.thy ===== *)
theory Elf_Props
  imports Elf Memory_Props
begin

text \<open>
  What loading an executable does to the memory: the bytes of every segment are at their addresses with the
  permission of the segment, the rest of a segment is zero, and pages of no segment are untouched.
\<close>

section \<open>Byte operations at a fixed page size\<close>

lemma write8_pageShift: "pageShift (snd (snd (write8 a v s))) = pageShift (snd s)"
  by (cases s)
    (simp add: write8_def getPage_def unshare_def storeByte_def notifyWrite_def bnd_def thn_def Let_def
      split: prod.splits sum.splits option.splits)

interpretation paged: byte_memory byte_at "wf_shift k" read8 write8 "\<lambda>p. p AND PERM_W = PERM_W" for k
proof
  show "read8 a s = (Inr b, s)" if "byte_at s a = Some (b, p)" "p AND PERM_R = PERM_R" for s a b p
    using that by (rule guest.rd_ok)
  show "\<exists>s'. write8 a v s = (Inr (), s') \<and> wf_shift k s' \<and> byte_at s' = (byte_at s)(a \<mapsto> (ucast v, p))"
    if "wf_shift k s" "byte_at s a = Some (b, p)" "p AND PERM_W = PERM_W" for s a b p v
    using guest.wr_ok [OF _ that(2,3), of v] that(1) write8_pageShift [of a v s] unfolding wf_shift_def
    by (metis snd_conv)
qed


lemma write_run:
  assumes wf: "wf_shift k s" and n: "length vs \<le> 2 ^ 32" and w: "p AND PERM_W = PERM_W"
    and m: "\<forall>b \<in> set (addr_seq a (length vs)). \<exists>x. byte_at s b = Some (x, p)"
  shows "\<exists>s'. forM (zip (addr_seq a (length vs)) vs) (\<lambda>(a, v). write8 a v) s = (Inr (), s') \<and> wf_shift k s' \<and>
     (\<forall>b. b \<notin> set (addr_seq a (length vs)) \<longrightarrow> byte_at s' b = byte_at s b) \<and>
     (\<forall>i < length vs. byte_at s' (a + word_of_nat i) = Some (ucast (vs ! i), p))"
proof -
  let ?as = "addr_seq a (length vs)"
  have "paged.writable s (set ?as)" using m w by (fastforce simp: paged.writable_def paged.perms_def)
  from paged.write_seq [OF wf this addr_seq_distinct [OF n] length_addr_seq] obtain s' where
    s': "forM (zip ?as vs) (\<lambda>(a, v). write8 a v) s = (Inr (), s')" "wf_shift k s'" "paged.same_except (set ?as) s s'"
      "map (paged.byte s') ?as = map (\<lambda>v. Some (ucast v)) vs"
    by blast
  have "byte_at s' (a + word_of_nat i) = Some (ucast (vs ! i), p)" if i: "i < length vs" for i
  proof -
    have at: "?as ! i = a + word_of_nat i" and "i < length ?as" using i by (simp_all add: addr_seq_def)
    then have "paged.byte s' (a + word_of_nat i) = Some (ucast (vs ! i))"
      using arg_cong [OF s'(4), of "\<lambda>l. l ! i"] i by simp
    moreover have "\<exists>x. byte_at s (a + word_of_nat i) = Some (x, p)" using m in_addr_seq [OF i] by blast
    then have "paged.perms s' (a + word_of_nat i) = Some p" using s'(3) by (auto simp: paged.same_except_def paged.perms_def)
    ultimately show ?thesis by (auto simp: paged.byte_def paged.perms_def)
  qed
  moreover have "byte_at s' b = byte_at s b" if "b \<notin> set ?as" for b
    using s'(3) that guest_same_exceptD by simp
  ultimately show ?thesis using s'(1,2) by blast
qed

section \<open>One segment\<close>

definition seg_start :: "u32 \<Rightarrow> phdr \<Rightarrow> nat" where
  "seg_start bias p = unat (bias + ph_vaddr p)"

definition seg_pages :: "nat \<Rightarrow> u32 \<Rightarrow> phdr \<Rightarrow> nat set" where
  "seg_pages k bias p = {seg_start bias p div 2 ^ k ..< (seg_start bias p + unat (ph_memsz p) + 2 ^ k - 1) div 2 ^ k}"

text \<open>A segment that lies in the file and, with its last page, below the top of the address space.\<close>

definition seg_ok :: "nat \<Rightarrow> u8 list \<Rightarrow> u32 \<Rightarrow> phdr \<Rightarrow> bool" where
  "seg_ok k bs bias p \<longleftrightarrow> 0 < ph_memsz p \<and> ph_filesz p \<le> ph_memsz p \<and> unat (ph_offset p) + unat (ph_filesz p) \<le> length bs \<and>
     seg_start bias p + unat (ph_memsz p) + 2 * 2 ^ k \<le> 2 ^ 32"

definition seg_byte :: "u8 list \<Rightarrow> phdr \<Rightarrow> nat \<Rightarrow> u8" where
  "seg_byte bs p i = (if i < unat (ph_filesz p) then bs ! (unat (ph_offset p) + i) else 0)"

lemma seg_extent:
  assumes ws: "wf_shift k s" and ok: "seg_ok k bs bias p"
  defines "va \<equiv> bias + ph_vaddr p" and "ps \<equiv> pageSize (snd s)"
  defines "st \<equiv> alignDown va ps" and "en \<equiv> alignUp (va + ph_memsz p) ps"
  shows "0 < uint en - uint st" "set (page_range (snd s) st (uint en - uint st)) = seg_pages k bias p"
    "unat (va + ph_memsz p) = unat va + unat (ph_memsz p)"
proof -
  let ?q = "2 ^ k :: nat" and ?M = "unat (ph_memsz p)"
  have sh: "shape_ok (snd s)" and k: "pageShift (snd s) = k" using ws by (simp_all add: mem_wf_def wf_shift_def)
  then have k32: "k < 32" and ps: "ps = 2 ^ k" by (simp_all add: shape_ok_def ps_def)
  have q: "0 < ?q" by simp
  have fit: "unat va + ?M + 2 * ?q \<le> 2 ^ 32" and M: "0 < ?M"
    using ok by (simp_all add: seg_ok_def seg_start_def va_def word_less_nat_alt)
  have "unat va + ?M < 2 ^ 32" using fit q by linarith
  then show e1: "unat (va + ph_memsz p) = unat va + ?M" by (intro iffD1 [OF unat_add_lem]) simp
  have "unat (2 ^ k - 1 :: u32) = ?q - 1" using k32 by (simp add: unat_2p unat_sub word_le_nat_alt)
  moreover have "unat va + ?M + (?q - 1) < 2 ^ 32" using fit q by linarith
  ultimately have "unat (va + ph_memsz p + (2 ^ k - 1)) = unat va + ?M + (?q - 1)"
    using e1 iffD1 [OF unat_add_lem, of "va + ph_memsz p" "2 ^ k - 1"] by simp
  then have en: "unat en = (unat va + ?M + (?q - 1)) div ?q * ?q"
    by (simp add: en_def ps alignUp_alignDown unat_alignDown [OF k32] add_diff_eq)
  have st: "unat st = unat va div ?q * ?q" by (simp add: st_def ps unat_alignDown [OF k32])
  have lt: "unat va div ?q < (unat va + ?M + (?q - 1)) div ?q"
  proof -
    have "unat va div ?q + 1 = (unat va + ?q) div ?q" by (subst div_add_self2) simp_all
    also have "\<dots> \<le> (unat va + ?M + (?q - 1)) div ?q" using M q by (intro div_le_mono) linarith
    finally show ?thesis by simp
  qed
  then have "unat st < unat en" unfolding st en using q by (metis mult_less_cancel2)
  then show len: "0 < uint en - uint st" by (simp add: word_less_nat_alt [symmetric] word_less_def)
  have nl: "unat st + nat (uint en - uint st) = unat en"
    using \<open>unat st < unat en\<close> unfolding uint_nat by arith
  have "unat en \<le> unat va + ?M + (?q - 1)" unfolding en by (rule div_times_less_eq_dividend)
  then have "unat st + nat (uint en - uint st) + 2 ^ pageShift (snd s) \<le> 2 ^ 32" unfolding nl k using fit q by linarith
  then have "page_range (snd s) st (uint en - uint st) = [unat st div ?q ..< (unat en + ?q - 1) div ?q]"
    using page_range_eq [OF sh len] by (simp add: k nl)
  moreover have "(unat en + ?q - 1) div ?q = (unat va + ?M + (?q - 1)) div ?q"
  proof -
    let ?E = "(unat va + ?M + (?q - 1)) div ?q"
    have "unat en + ?q - 1 = (?q - 1) + ?E * ?q" using en q by linarith
    also have "\<dots> div ?q = ?E + (?q - 1) div ?q" by (rule div_mult_self1) simp
    also have "(?q - 1) div ?q = 0" by simp
    finally show ?thesis by simp
  qed
  moreover have "unat st div ?q = unat va div ?q" using st q by simp
  ultimately show "set (page_range (snd s) st (uint en - uint st)) = seg_pages k bias p"
    using q by (simp add: seg_pages_def seg_start_def va_def add_diff_eq)
qed

lemma seg_address:
  assumes ok: "seg_ok k bs bias p" and i: "i < unat (ph_memsz p)"
  shows "unat (bias + ph_vaddr p + word_of_nat i) = seg_start bias p + i"
    "page_of k (bias + ph_vaddr p + word_of_nat i) \<in> seg_pages k bias p"
proof -
  let ?q = "2 ^ k :: nat" and ?va = "seg_start bias p" and ?M = "unat (ph_memsz p)"
  have q: "0 < ?q" by simp
  have fit: "?va + ?M + 2 * ?q \<le> 2 ^ 32" using ok by (simp add: seg_ok_def)
  then have "i < 2 ^ 32" "?va + i < 2 ^ 32" using i q by linarith+
  then show u: "unat (bias + ph_vaddr p + word_of_nat i) = ?va + i"
    by (simp add: seg_start_def unat_word_ariths(1) unat_of_nat)
  have "(?va + i) div ?q + 1 = (?va + i + ?q) div ?q" by (subst div_add_self2) simp_all
  also have "\<dots> \<le> (?va + ?M + ?q - 1) div ?q" using i q by (intro div_le_mono) linarith
  finally show "page_of k (bias + ph_vaddr p + word_of_nat i) \<in> seg_pages k bias p"
    by (simp add: page_of_def u seg_pages_def div_le_mono)
qed

lemma zero_run:
  assumes "unat a = x" "y = x + n"
  shows "forM [x..<y] (\<lambda>b. write8 (word_of_nat b) 0) = forM (zip (addr_seq a n) (replicate n 0)) (\<lambda>(b, v). write8 b v)"
proof -
  have up: "[x..<y] = map (\<lambda>i. i + x) [0..<n]" using assms(2) by (simp add: map_add_upt add.commute)
  have w: "word_of_nat (i + x) = a + word_of_nat i" for i using assms(1) by (simp add: add.commute flip: assms(1))
  have z: "zip (addr_seq a n) (replicate n 0) = map (\<lambda>i. (a + word_of_nat i, 0 :: u32)) [0..<n]"
    by (rule nth_equalityI) (simp_all add: addr_seq_def)
  show ?thesis unfolding up z forM_map by (simp add: w del: of_nat_add)
qed

lemma zero_fill:
  assumes ws: "wf_shift k s" and W: "P AND PERM_W = PERM_W" and M: "M \<le> 2 ^ 32"
    and x: "F < M \<Longrightarrow> unat (va + word_of_nat F) = x" and y: "y = x + (M - F)"
    and m: "\<And>i. F \<le> i \<Longrightarrow> i < M \<Longrightarrow> \<exists>b. byte_at s (va + word_of_nat i) = Some (b, P)"
  shows "\<exists>s'. forM [x..<y] (\<lambda>a. write8 (word_of_nat a) 0) s = (Inr (), s') \<and> wf_shift k s' \<and>
     (\<forall>i. F \<le> i \<and> i < M \<longrightarrow> byte_at s' (va + word_of_nat i) = Some (0, P)) \<and>
     (\<forall>b. (\<forall>i. F \<le> i \<and> i < M \<longrightarrow> b \<noteq> va + word_of_nat i) \<longrightarrow> byte_at s' b = byte_at s b)"
proof (cases "F < M")
  case True
  let ?a = "va + word_of_nat F" and ?vs = "replicate (M - F) (0 :: u32)"
  have idx: "?a + word_of_nat j = va + word_of_nat (F + j)" for j by (simp add: add.assoc)
  have "\<forall>b \<in> set (addr_seq ?a (length ?vs)). \<exists>c. byte_at s b = Some (c, P)"
  proof
    fix b
    assume "b \<in> set (addr_seq ?a (length ?vs))"
    then obtain j where "j < M - F" "b = va + word_of_nat (F + j)" by (auto simp: set_addr_seq idx simp del: of_nat_add)
    then show "\<exists>c. byte_at s b = Some (c, P)" using m [of "F + j"] by simp
  qed
  with write_run [OF ws _ W this] M have "\<exists>s'. forM (zip (addr_seq ?a (M - F)) ?vs) (\<lambda>(a, v). write8 a v) s = (Inr (), s') \<and>
     wf_shift k s' \<and> (\<forall>b. b \<notin> set (addr_seq ?a (M - F)) \<longrightarrow> byte_at s' b = byte_at s b) \<and>
     (\<forall>j < M - F. byte_at s' (?a + word_of_nat j) = Some (0, P))" by simp
  then obtain s' where s': "forM [x..<y] (\<lambda>a. write8 (word_of_nat a) 0) s = (Inr (), s')" "wf_shift k s'"
    "\<forall>b. b \<notin> set (addr_seq ?a (M - F)) \<longrightarrow> byte_at s' b = byte_at s b"
    "\<forall>j < M - F. byte_at s' (?a + word_of_nat j) = Some (0, P)"
    unfolding zero_run [OF x [OF True] y] by blast
  have "byte_at s' (va + word_of_nat i) = Some (0, P)" if "F \<le> i" "i < M" for i
    using s'(4) that idx [of "i - F"] by (metis add_diff_inverse_nat diff_less_mono not_less)
  moreover have "b \<notin> set (addr_seq ?a (M - F))" if "\<forall>i. F \<le> i \<and> i < M \<longrightarrow> b \<noteq> va + word_of_nat i" for b
    using that by (auto simp: set_addr_seq idx simp del: of_nat_add)
  ultimately show ?thesis using s'(1-3) by blast
qed (use ws y in auto)

lemma byte_ucast: "ucast (ucast b :: u32) = (b :: u8)"
  by (rule bit_word_eqI) (simp add: bit_simps)

text \<open>The two stores of a segment, on pages that are already mapped writable.\<close>

lemma segment_store:
  assumes ws: "wf_shift k s" and ok: "seg_ok k bs bias p" and W: "P AND PERM_W = PERM_W"
    and m: "\<And>i. i < unat (ph_memsz p) \<Longrightarrow> \<exists>x. byte_at s (bias + ph_vaddr p + word_of_nat i) = Some (x, P)"
  defines "va \<equiv> bias + ph_vaddr p"
  shows "\<exists>s'. thn (whenM (ph_filesz p > 0) (writeBytes va (file_slice bs (unat (ph_offset p)) (unat (ph_filesz p)))))
       (whenM (ph_memsz p > ph_filesz p) (forM [unat (va + ph_filesz p)..<unat (va + ph_memsz p)] (\<lambda>a. write8 (word_of_nat a) 0))) s =
       (Inr (), s') \<and> wf_shift k s' \<and>
     (\<forall>i < unat (ph_memsz p). byte_at s' (va + word_of_nat i) = Some (seg_byte bs p i, P)) \<and>
     (\<forall>b. b \<notin> set (addr_seq va (unat (ph_memsz p))) \<longrightarrow> byte_at s' b = byte_at s b)"
proof -
  let ?F = "unat (ph_filesz p)" and ?M = "unat (ph_memsz p)" and ?at = "\<lambda>i. va + word_of_nat i"
  let ?bytes = "map ucast (file_slice bs (unat (ph_offset p)) ?F) :: u32 list"
  have FM: "?F \<le> ?M" and M32: "?M \<le> 2 ^ 32" and inF: "unat (ph_offset p) + ?F \<le> length bs"
    using ok by (simp_all add: seg_ok_def word_le_nat_alt)
  have u: "unat (?at i) = unat va + i" if "i < ?M" for i
    using seg_address(1) [OF ok that] by (simp add: seg_start_def va_def)
  then have inj: "?at i = ?at j \<longleftrightarrow> i = j" if "i < ?M" "j < ?M" for i j using that by (metis add_left_cancel)
  have lF: "length ?bytes = ?F" using inF by (simp add: file_slice_def)
  have "\<forall>b \<in> set (addr_seq va (length ?bytes)). \<exists>x. byte_at s b = Some (x, P)"
    unfolding lF using m FM by (auto simp: set_addr_seq va_def)
  from write_run [OF ws _ W this] lF M32 FM obtain s2 where
    s2: "writeBytes va (file_slice bs (unat (ph_offset p)) ?F) s = (Inr (), s2)" "wf_shift k s2"
    and b2: "\<And>b. b \<notin> set (addr_seq va ?F) \<Longrightarrow> byte_at s2 b = byte_at s b"
      "\<And>i. i < ?F \<Longrightarrow> byte_at s2 (?at i) = Some (ucast (?bytes ! i), P)"
    unfolding writeBytes_seq by (auto simp: file_slice_def)
  have w2: "whenM (ph_filesz p > 0) (writeBytes va (file_slice bs (unat (ph_offset p)) ?F)) s = (Inr (), s2)"
    using s2(1) by (auto simp: whenM_def word_gt_0 file_slice_def writeBytes_def)
  have out2: "?at i \<notin> set (addr_seq va ?F)" if "?F \<le> i" "i < ?M" for i using inj that FM by (auto simp: set_addr_seq)
  have e: "unat (va + ph_memsz p) = unat va + ?M" using seg_extent(3) [OF ws ok] by (simp add: va_def)
  have "\<exists>c. byte_at s2 (?at i) = Some (c, P)" if "?F \<le> i" "i < ?M" for i
    using b2(1) [OF out2 [OF that]] m that by (simp add: va_def)
  then have "\<exists>s3. forM [unat va + ?F..<unat va + ?M] (\<lambda>a. write8 (word_of_nat a) 0) s2 = (Inr (), s3) \<and> wf_shift k s3 \<and>
     (\<forall>i. ?F \<le> i \<and> i < ?M \<longrightarrow> byte_at s3 (?at i) = Some (0, P)) \<and>
     (\<forall>b. (\<forall>i. ?F \<le> i \<and> i < ?M \<longrightarrow> b \<noteq> ?at i) \<longrightarrow> byte_at s3 b = byte_at s2 b)"
    using u [of ?F] FM by (intro zero_fill [OF s2(2) W M32]) simp_all
  then obtain s3 where s3: "forM [unat va + ?F..<unat va + ?M] (\<lambda>a. write8 (word_of_nat a) 0) s2 = (Inr (), s3)" "wf_shift k s3"
    and b3: "\<And>i. ?F \<le> i \<Longrightarrow> i < ?M \<Longrightarrow> byte_at s3 (?at i) = Some (0, P)"
      "\<And>b. (\<And>i. ?F \<le> i \<Longrightarrow> i < ?M \<Longrightarrow> b \<noteq> ?at i) \<Longrightarrow> byte_at s3 b = byte_at s2 b" by blast
  have w3: "whenM (ph_memsz p > ph_filesz p) (forM [unat (va + ph_filesz p)..<unat (va + ph_memsz p)] (\<lambda>a. write8 (word_of_nat a) 0)) s2 =
      (Inr (), s3)"
    using s3(1) u [of ?F] FM by (auto simp: whenM_def word_less_nat_alt e)
  have "byte_at s3 (?at i) = Some (seg_byte bs p i, P)" if i: "i < ?M" for i
  proof (cases "i < ?F")
    case True
    have "byte_at s3 (?at i) = byte_at s2 (?at i)" using inj True i by (intro b3(2)) auto
    then show ?thesis using b2(2) [OF True] True inF byte_ucast by (simp add: seg_byte_def file_slice_def)
  qed (use b3(1) i in \<open>simp add: seg_byte_def\<close>)
  moreover have "byte_at s3 b = byte_at s b" if "b \<notin> set (addr_seq va ?M)" for b
    using that FM b3(2) [of b] b2(1) [of b] by (auto simp: set_addr_seq)
  ultimately show ?thesis using w2 w3 s3(2) by auto
qed

lemma load_segment_effect:
  assumes ws: "wf_shift k s" and ok: "seg_ok k bs bias p"
  shows "\<exists>s'. load_segment bs bias name p s = (Inr (), s') \<and> wf_shift k s' \<and>
     (\<forall>i < unat (ph_memsz p). byte_at s' (bias + ph_vaddr p + word_of_nat i) = Some (seg_byte bs p i, flagsToPerm (ph_flags p))) \<and>
     (\<forall>b. page_of k b \<notin> seg_pages k bias p \<longrightarrow> byte_at s' b = byte_at s b)"
proof -
  let ?va = "bias + ph_vaddr p" and ?P = "PERM_RW OR PERM_X" and ?A = "seg_pages k bias p"
  let ?st = "alignDown ?va (pageSize (snd s))" and ?en = "alignUp (?va + ph_memsz p) (pageSize (snd s))"
  let ?len = "uint ?en - uint ?st" and ?at = "\<lambda>i. ?va + word_of_nat i"
  note addr = seg_address(2) [OF ok]
  obtain s1 where s1: "map_mem ?st ?len (PermNum ?P) name s = (Inr (alignDown ?st (pageSize (snd s))), s1)" "wf_shift k s1"
    and b1: "\<And>b. byte_at s1 b = (if page_of k b \<in> ?A
        then Some (case byte_at s b of None \<Rightarrow> 0 | Some (b, _) \<Rightarrow> b, ?P) else byte_at s b)"
    using map_mem_pages [OF ws seg_extent(1) [OF ws ok], of ?st "PermNum ?P" name] unfolding seg_extent(2) [OF ws ok] by auto
  have in1: "\<exists>x. byte_at s1 (?at i) = Some (x, ?P)" if "i < unat (ph_memsz p)" for i using b1 [of "?at i"] addr [OF that] by simp
  have W: "?P AND PERM_W = PERM_W" by (simp add: perm_defs)
  from segment_store [OF s1(2) ok W in1] obtain s3 where
    s3: "thn (whenM (ph_filesz p > 0) (writeBytes ?va (file_slice bs (unat (ph_offset p)) (unat (ph_filesz p)))))
       (whenM (ph_memsz p > ph_filesz p) (forM [unat (?va + ph_filesz p)..<unat (?va + ph_memsz p)] (\<lambda>a. write8 (word_of_nat a) 0))) s1 =
       (Inr (), s3)" "wf_shift k s3"
    and b3: "\<And>i. i < unat (ph_memsz p) \<Longrightarrow> byte_at s3 (?at i) = Some (seg_byte bs p i, ?P)"
      "\<And>b. b \<notin> set (addr_seq ?va (unat (ph_memsz p))) \<Longrightarrow> byte_at s3 b = byte_at s1 b" by blast
  have ps: "pageSize (snd s3) = pageSize (snd s)" using ws s3(2) by (simp add: wf_shift_def mem_wf_def shape_ok_def)
  have rng: "set (page_range (snd s3) ?st ?len) = ?A" using seg_extent(2) [OF s3(2) ok] by (simp add: ps)
  have mapped: "byte_at s3 b \<noteq> None" if "page_of k b \<in> ?A" for b
    using that b3 b1 [of b] by (cases "b \<in> set (addr_seq ?va (unat (ph_memsz p)))") (auto simp: set_addr_seq)
  have out: "byte_at s3 b = byte_at s b" if "page_of k b \<notin> ?A" for b
  proof -
    have "b \<notin> set (addr_seq ?va (unat (ph_memsz p)))" using that addr by (auto simp: set_addr_seq)
    then show ?thesis using b3(2) b1 that by simp
  qed
  from mprotect_pages [OF s3(2), of ?st ?len "PermNum (flagsToPerm (ph_flags p))"] mapped obtain s4 where
    s4: "mprotect ?st ?len (PermNum (flagsToPerm (ph_flags p))) s3 = (Inr (), s4)" "wf_shift k s4"
    and b4: "\<And>b. byte_at s4 b = (if page_of k b \<in> ?A
        then map_option (\<lambda>(b, _). (b, flagsToPerm (ph_flags p))) (byte_at s3 b) else byte_at s3 b)"
    unfolding rng by auto
  have "load_segment bs bias name p s = (Inr (), s4)"
    using s1(1) s3(1) s4(1) by (auto simp: load_segment_def Let_def thn_def bnd_def split: prod.splits sum.splits)
  then show ?thesis using s4(2) b4 b3(1) addr out by auto
qed

section \<open>All segments\<close>

definition loads :: "phdr list \<Rightarrow> phdr list" where
  "loads ph = filter (\<lambda>p. ph_type p = PT_LOAD) ph"

definition loaded :: "u8 list \<Rightarrow> u32 \<Rightarrow> mst \<Rightarrow> phdr \<Rightarrow> bool" where
  "loaded bs bias s p \<longleftrightarrow> (\<forall>i < unat (ph_memsz p).
     byte_at s (bias + ph_vaddr p + word_of_nat i) = Some (seg_byte bs p i, flagsToPerm (ph_flags p)))"

lemma loaded_frame:
  assumes "loaded bs bias s p" "seg_ok k bs bias p" "\<And>b. page_of k b \<in> seg_pages k bias p \<Longrightarrow> byte_at s' b = byte_at s b"
  shows "loaded bs bias s' p"
  using assms seg_address(2) by (simp add: loaded_def)

lemma load_loop_effect:
  assumes "wf_shift k s" "\<forall>p \<in> set (loads ph). seg_ok k bs bias p"
    "sorted_wrt (\<lambda>p q. seg_pages k bias p \<inter> seg_pages k bias q = {}) (loads ph)"
  shows "\<exists>a' s'. load_loop bs bias name a ph s = (Inr a', s') \<and> wf_shift k s' \<and>
     (\<forall>p \<in> set (loads ph). loaded bs bias s' p) \<and>
     (\<forall>b. page_of k b \<notin> (\<Union>p \<in> set (loads ph). seg_pages k bias p) \<longrightarrow> byte_at s' b = byte_at s b)"
  using assms
proof (induction ph arbitrary: a s)
  case Nil
  then show ?case by (simp add: loads_def)
next
  case (Cons p ph)
  show ?case
  proof (cases "ph_type p = PT_LOAD")
    case True
    then have ok: "seg_ok k bs bias p" and ls: "loads (p # ph) = p # loads ph" using Cons.prems(2) by (simp_all add: loads_def)
    obtain s1 where s1: "load_segment bs bias name p s = (Inr (), s1)" "wf_shift k s1" "loaded bs bias s1 p"
      "\<forall>b. page_of k b \<notin> seg_pages k bias p \<longrightarrow> byte_at s1 b = byte_at s b"
      using load_segment_effect [OF Cons.prems(1) ok, of name] unfolding loaded_def by blast
    have "\<exists>a1. load_phdr bs bias name a p s = (Inr a1, s1)"
      using s1(1) True by (simp add: load_phdr_def PT_LOAD_def PT_INTERP_def thn_def bnd_def)
    then obtain a1 where a1: "load_phdr bs bias name a p s = (Inr a1, s1)" by blast
    from Cons.IH [OF s1(2), of a1] Cons.prems(2,3) obtain a' s' where
      s': "load_loop bs bias name a1 ph s1 = (Inr a', s')" "wf_shift k s'" "\<forall>q \<in> set (loads ph). loaded bs bias s' q"
      "\<forall>b. page_of k b \<notin> (\<Union>q \<in> set (loads ph). seg_pages k bias q) \<longrightarrow> byte_at s' b = byte_at s1 b"
      unfolding ls by auto
    have "loaded bs bias s' p"
      using s'(4) Cons.prems(3) unfolding ls by (intro loaded_frame [OF s1(3) ok]) auto
    then show ?thesis using s' s1(4) a1 unfolding ls by auto
  next
    case False
    then have ls: "loads (p # ph) = loads ph" by (simp add: loads_def)
    have "\<exists>a1. load_phdr bs bias name a p s = (Inr a1, s)" using False by (simp add: load_phdr_def)
    then obtain a1 where "load_phdr bs bias name a p s = (Inr a1, s)" by blast
    then show ?thesis using Cons.IH [OF Cons.prems(1), of a1] Cons.prems(2,3) unfolding ls by simp
  qed
qed

text \<open>
  C37: Loading an executable puts it into memory as its program headers say. Take a file with a valid ELF header for a
  program or a shared object, whose loadable segments lie in the file, do not reach the last two pages of the address
  space and share no page. Then \<open>loadELF32Image\<close> without relocation succeeds; the entry point is the header's plus the
  bias; every byte of a segment that comes from the file is at its address, the rest of the segment is zero, all with
  the permission of the segment's flags; and memory on pages of no segment is unchanged.
\<close>

theorem loadELF32Image_loads:
  assumes "wf_shift k s" "parseELF32 bs s = (Inr e, s)" "eh_type (el_header e) = ET_EXEC \<or> eh_type (el_header e) = ET_DYN"
    "bias = load_bias given (eh_type (el_header e))" "\<forall>p \<in> set (loads (el_ph e)). seg_ok k bs bias p"
    "sorted_wrt (\<lambda>p q. seg_pages k bias p \<inter> seg_pages k bias q = {}) (loads (el_ph e))"
  shows "\<exists>im s'. loadELF32Image bs given name False s = (Inr im, s') \<and> mem_wf s' \<and> im_base im = bias \<and>
     im_entry im = bias + eh_entry (el_header e) \<and>
     (\<forall>p \<in> set (loads (el_ph e)). \<forall>i < unat (ph_memsz p). byte_at s' (bias + ph_vaddr p + word_of_nat i) =
        Some (if i < unat (ph_filesz p) then bs ! (unat (ph_offset p) + i) else 0, flagsToPerm (ph_flags p))) \<and>
     (\<forall>b. page_of k b \<notin> (\<Union>p \<in> set (loads (el_ph e)). seg_pages k bias p) \<longrightarrow> byte_at s' b = byte_at s b)"
proof -
  let ?a = "\<lparr>la_minVaddr = 0xffffffff, la_maxVaddr = 0, la_interp = None, la_dynamicAddr = 0, la_phdrAddr = 0\<rparr>"
  from load_loop_effect [OF assms(1,5,6), of name ?a] obtain a' s' where
    s': "load_loop bs bias name ?a (el_ph e) s = (Inr a', s')" "wf_shift k s'" "\<forall>p \<in> set (loads (el_ph e)). loaded bs bias s' p"
    "\<forall>b. page_of k b \<notin> (\<Union>p \<in> set (loads (el_ph e)). seg_pages k bias p) \<longrightarrow> byte_at s' b = byte_at s b" by blast
  have "\<exists>im. loadELF32Image bs given name False s = (Inr im, s') \<and> im_base im = bias \<and> im_entry im = bias + eh_entry (el_header e)"
    using s'(1) assms(2-4) by (auto simp: loadELF32Image_def Let_def onMemory_def bnd_def)
  then obtain im where im: "loadELF32Image bs given name False s = (Inr im, s')" "im_base im = bias"
    "im_entry im = bias + eh_entry (el_header e)" by blast
  have "mem_wf s'" using s'(2) by (simp add: wf_shift_def)
  with im s'(3,4) show ?thesis unfolding loaded_def seg_byte_def by blast
qed

text \<open>A file with one segment: four bytes of code at 0x8048054 and four bytes of zeros behind them.\<close>

definition tiny_elf :: "u8 list" where
  "tiny_elf = [0x7f, 0x45, 0x4c, 0x46, 1, 1, 1, 0, 0, 0, 0, 0, 0, 0, 0, 0,
     2, 0, 3, 0, 1, 0, 0, 0, 0x54, 0x80, 0x04, 0x08, 52, 0, 0, 0, 0, 0, 0, 0, 0, 0, 0, 0, 52, 0, 32, 0, 1, 0, 0, 0, 0, 0, 0, 0,
     1, 0, 0, 0, 84, 0, 0, 0, 0x54, 0x80, 0x04, 0x08, 0, 0, 0, 0, 4, 0, 0, 0, 8, 0, 0, 0, 5, 0, 0, 0, 0, 0, 0, 0,
     0xb8, 0x01, 0xcd, 0x80]"

definition tiny_phdr :: phdr where
  "tiny_phdr = \<lparr>ph_type = 1, ph_offset = 84, ph_vaddr = 0x8048054, ph_paddr = 0, ph_filesz = 4, ph_memsz = 8, ph_flags = 5, ph_align = 0\<rparr>"

lemma tiny_elf_parses:
  "\<exists>e. parseELF32 tiny_elf s = (Inr e, s) \<and> el_ph e = [tiny_phdr] \<and> eh_type (el_header e) = 2 \<and> eh_entry (el_header e) = 0x8048054"
  by (simp add: parseELF32_def tiny_elf_def read_header_def getUint16_def getUint32_def of_le_bytes_def read_phdr_def
      table_offsets_def bnd_def tiny_phdr_def)

theorem loadELF32Image_loads_witness:
  "\<exists>im s'. loadELF32Image tiny_elf None ''a.out'' False tiny_state = (Inr im, s') \<and> im_entry im = 0x8048054 \<and>
     byte_at s' 0x8048054 = Some (0xb8, 5) \<and> byte_at s' 0x804805b = Some (0, 5) \<and> byte_at s' 16 = byte_at tiny_state 16"
proof -
  obtain e where e: "parseELF32 tiny_elf tiny_state = (Inr e, tiny_state)" "el_ph e = [tiny_phdr]"
    "eh_type (el_header e) = 2" "eh_entry (el_header e) = 0x8048054"
    using tiny_elf_parses [of tiny_state] by blast
  have ws: "wf_shift 4 tiny_state" using tiny_wf by (simp add: wf_shift_def tiny_state_def tiny_memory_def)
  have ld: "loads (el_ph e) = [tiny_phdr]" by (simp add: e loads_def tiny_phdr_def PT_LOAD_def)
  have ok: "seg_ok 4 tiny_elf 0 tiny_phdr" by (simp add: seg_ok_def seg_start_def tiny_phdr_def tiny_elf_def)
  have bias: "0 = load_bias None (eh_type (el_header e))" by (simp add: load_bias_def e ET_DYN_def)
  from loadELF32Image_loads [OF ws e(1) _ bias, of "''a.out''"] ld ok e obtain im s' where
    im: "loadELF32Image tiny_elf None ''a.out'' False tiny_state = (Inr im, s')" "im_entry im = 0x8048054"
    and b: "\<And>i. i < unat (ph_memsz tiny_phdr) \<Longrightarrow> byte_at s' (0 + ph_vaddr tiny_phdr + word_of_nat i) =
        Some (if i < unat (ph_filesz tiny_phdr) then tiny_elf ! (unat (ph_offset tiny_phdr) + i) else 0, flagsToPerm (ph_flags tiny_phdr))"
      "\<And>b. page_of 4 b \<notin> seg_pages 4 0 tiny_phdr \<Longrightarrow> byte_at s' b = byte_at tiny_state b"
    by (auto simp: ET_EXEC_def)
  have "byte_at s' 0x8048054 = Some (0xb8, 5)" "byte_at s' 0x804805b = Some (0, 5)"
    using b(1) [of 0] b(1) [of 7] by (simp_all add: tiny_phdr_def tiny_elf_def flagsToPerm_def perm_defs)
  moreover have "page_of 4 16 \<notin> seg_pages 4 0 tiny_phdr" by (simp add: page_of_def seg_pages_def seg_start_def tiny_phdr_def)
  ultimately show ?thesis using im b(2) by blast
qed

end
