(* ===== verification/Jit.thy ===== *)
theory Jit
  imports Cpu_Step
begin

text \<open>
  The block cache of \<open>src/jit.js\<close>: straight-line code at a hot address is decoded once into a list of operations, which
  are then run without fetching. A closure of the source is an element of \<open>jop\<close> and \<open>run_jop\<close> is its body. The memory's
  \<open>onWrite\<close> callback is \<open>invalidate\<close>; it is called while a block or an instruction runs and only touches the cache, which
  is not looked at before the run is over, so the calls the memory has recorded are made then.
\<close>

section \<open>Operations\<close>

datatype jop =
    JNop
  | JMov nat u32
  | JPush nat
  | JPop nat
  | JInc nat
  | JDec nat
  | JXor nat nat
  | JGroup1 nat nat u32
  | JSyscall u32
  | JJump u32
  | JRet

definition count_step :: "('k, 'x, unit) cpuM" where
  "count_step = modS (\<lambda>s. s\<lparr>steps := steps s + 1\<rparr>)"

definition jit_incdec :: "(u32 \<Rightarrow> u32 \<Rightarrow> nat \<Rightarrow> ('k, 'x, u32) cpuM) \<Rightarrow> nat \<Rightarrow> ('k, 'x, unit) cpuM" where
  "jit_incdec f r = bnd (getS (getFlag FLAG_CF)) (\<lambda>old. bnd (getR r) (\<lambda>a. bnd (f a 1 32) (\<lambda>v.
     thn (setR r v) (setFlag FLAG_CF old))))"

fun run_jop :: "('k, 'x) env \<Rightarrow> jop \<Rightarrow> ('k, 'x, unit) cpuM" where
  "run_jop ev JNop = count_step"
| "run_jop ev (JMov r imm) = thn (setR r imm) count_step"
| "run_jop ev (JPush r) = thn (bnd (getR r) (\<lambda>v. push v 32)) count_step"
| "run_jop ev (JPop r) = thn (bnd (pop 32) (setR r)) count_step"
| "run_jop ev (JInc r) = thn (jit_incdec add_op r) count_step"
| "run_jop ev (JDec r) = thn (jit_incdec sub_op r) count_step"
| "run_jop ev (JXor rm r) = thn (bnd (getR rm) (\<lambda>a. bnd (getR r) (\<lambda>b. bnd (onFlags (logic_fl (a XOR b) 32)) (setR rm)))) count_step"
| "run_jop ev (JGroup1 g rm imm) = thn (bnd (getR rm) (\<lambda>a. bnd (alu g a imm 32) (\<lambda>v. whenM (g \<noteq> 7) (setR rm v)))) count_step"
| "run_jop ev (JSyscall after) = thn (setEip after) (thn count_step
     (case syscalls ev of Some h \<Rightarrow> h | None \<Rightarrow> throw (CpuFault JsTypeError)))"
| "run_jop ev (JJump target) = thn (setEip target) count_step"
| "run_jop ev JRet = thn (bnd (pop 32) setEip) count_step"

section \<open>Compilation\<close>

definition jit_read32 :: "u32 \<Rightarrow> u32 memM" where
  "jit_read32 a = bnd (read8exec a) (\<lambda>b0. bnd (read8exec (a + 1)) (\<lambda>b1. bnd (read8exec (a + 2)) (\<lambda>b2. bnd (read8exec (a + 3)) (\<lambda>b3.
     ret (ucast b0 OR push_bit 8 (ucast b1) OR push_bit 16 (ucast b2) OR push_bit 24 (ucast b3))))))"

text \<open>One instruction: the operation, the address behind it and whether the block ends; \<open>None\<close> is \<open>return null\<close>.\<close>

definition decode_op :: "nat \<Rightarrow> u32 \<Rightarrow> (jop \<times> u32 \<times> bool) option memM" where
  "decode_op op pc =
     (if op = 0x90 then ret (Some (JNop, pc, False))
      else if 0xb8 \<le> op \<and> op \<le> 0xbf then bnd (jit_read32 pc) (\<lambda>imm. ret (Some (JMov (op - 0xb8) imm, pc + 4, False)))
      else if 0x50 \<le> op \<and> op \<le> 0x57 then ret (Some (JPush (op - 0x50), pc, False))
      else if 0x58 \<le> op \<and> op \<le> 0x5f then ret (Some (JPop (op - 0x58), pc, False))
      else if 0x40 \<le> op \<and> op \<le> 0x47 then ret (Some (JInc (op - 0x40), pc, False))
      else if 0x48 \<le> op \<and> op \<le> 0x4f then ret (Some (JDec (op - 0x48), pc, False))
      else if op = 0x31 then bnd (read8exec pc) (\<lambda>m.
        if drop_bit 6 m \<noteq> 3 then ret None
        else ret (Some (JXor (unat (m AND 7)) (unat (drop_bit 3 m AND 7)), pc + 1, False)))
      else if op = 0x83 then bnd (read8exec pc) (\<lambda>m.
        if drop_bit 6 m \<noteq> 3 then ret None
        else bnd (read8exec (pc + 1)) (\<lambda>i.
          ret (Some (JGroup1 (unat (drop_bit 3 m AND 7)) (unat (m AND 7)) (word_of_int (s8 (ucast i))), pc + 2, False))))
      else if op = 0xcd then bnd (read8exec pc) (\<lambda>n. if n = 0x80 then ret (Some (JSyscall (pc + 1), pc + 1, True)) else ret None)
      else if op = 0xe9 then bnd (jit_read32 pc) (\<lambda>d. ret (Some (JJump (pc + 4 + d), pc + 4, True)))
      else if op = 0xeb then bnd (read8exec pc) (\<lambda>d. ret (Some (JJump (pc + 1 + word_of_int (s8 (ucast d))), pc + 1, True)))
      else if op = 0xc3 then ret (Some (JRet, pc, True))
      else ret None)"

definition compile_op :: "u32 \<Rightarrow> (jop \<times> u32 \<times> bool) option memM" where
  "compile_op at = bnd (read8exec at) (\<lambda>b. decode_op (unat b) (at + 1))"

record jblock =
  jb_start :: u32
  jb_end :: u32
  jb_ops :: "jop list"
  jb_terminal :: bool

fun compile_loop :: "nat \<Rightarrow> nat \<Rightarrow> u32 \<Rightarrow> u32 \<Rightarrow> jop list \<Rightarrow> jblock option memM" where
  "compile_loop 0 maxBytes start pc ops = ret (Some \<lparr>jb_start = start, jb_end = pc, jb_ops = ops, jb_terminal = False\<rparr>)"
| "compile_loop (Suc n) maxBytes start pc ops =
     (if unat (pc - start) < maxBytes
      then bnd (compile_op pc) (\<lambda>r. case r of
          None \<Rightarrow> ret None
        | Some (op, pc', term) \<Rightarrow>
            if term then ret (Some \<lparr>jb_start = start, jb_end = pc', jb_ops = ops @ [op], jb_terminal = True\<rparr>)
            else compile_loop n maxBytes start pc' (ops @ [op]))
      else ret (Some \<lparr>jb_start = start, jb_end = pc, jb_ops = ops, jb_terminal = False\<rparr>))"

record jit_stats =
  js_compiled :: nat
  js_executed :: nat
  js_bailed :: nat
  js_invalidated :: nat

record jit =
  hotThreshold :: nat
  maxBlockBytes :: nat
  maxBlockInsns :: nat
  jhits :: "(u32, nat) jsmap"
  jblocks :: "(u32, jblock) jsmap"
  jstats :: jit_stats

definition new_jit :: jit where
  "new_jit = \<lparr>hotThreshold = 8, maxBlockBytes = 64, maxBlockInsns = 24, jhits = [], jblocks = [],
     jstats = \<lparr>js_compiled = 0, js_executed = 0, js_bailed = 0, js_invalidated = 0\<rparr>\<rparr>"

text \<open>\<open>try { ... } catch { return null; }\<close>, and a block without operations is none.\<close>

definition compile :: "jit \<Rightarrow> u32 \<Rightarrow> mst \<Rightarrow> jblock option" where
  "compile j start m = (case fst (compile_loop (maxBlockInsns j) (maxBlockBytes j) start start [] m) of
     Inr (Some b) \<Rightarrow> if jb_ops b = [] then None else Some b
   | _ \<Rightarrow> None)"

section \<open>Running\<close>

definition block_run :: "('k, 'x) env \<Rightarrow> jblock \<Rightarrow> ('k, 'x, unit) cpuM" where
  "block_run ev b = thn (forM (jb_ops b) (run_jop ev)) (whenM (\<not> jb_terminal b) (setEip (jb_end b)))"

definition hit_by :: "u32 \<Rightarrow> nat \<Rightarrow> jblock \<Rightarrow> bool" where
  "hit_by addr len b \<longleftrightarrow> jb_start b < addr + word_of_nat len \<and> jb_end b > addr"

definition invalidate :: "u32 \<times> nat \<Rightarrow> jit \<Rightarrow> jit" where
  "invalidate w j = (let (addr, len) = w; dead = filter (\<lambda>(_, b). hit_by addr len b) (jblocks j) in
     j\<lparr>jblocks := filter (\<lambda>(_, b). \<not> hit_by addr len b) (jblocks j),
       jstats := (jstats j)\<lparr>js_invalidated := js_invalidated (jstats j) + length dead\<rparr>\<rparr>)"

text \<open>The recorded calls of \<open>onWrite\<close>, in order; the record is then empty.\<close>

definition drain_writes :: "jit \<Rightarrow> 'k cpu \<Rightarrow> jit \<times> 'k cpu" where
  "drain_writes j s = (case onWrite (snd (mem s)) of
     None \<Rightarrow> (j, s)
   | Some ws \<Rightarrow> (fold invalidate ws j, s\<lparr>mem := (fst (mem s), (snd (mem s))\<lparr>onWrite := Some []\<rparr>)\<rparr>))"

definition lookup_block :: "jit \<Rightarrow> 'k cpu \<Rightarrow> jblock option \<times> jit" where
  "lookup_block j s = (case map_of (jblocks j) (eip s) of
     Some b \<Rightarrow> (Some b, j)
   | None \<Rightarrow>
       (let n = (case map_of (jhits j) (eip s) of Some n \<Rightarrow> n | None \<Rightarrow> 0) + 1;
            j1 = j\<lparr>jhits := AList.update (eip s) n (jhits j)\<rparr> in
        if n \<ge> hotThreshold j
        then (case compile j (eip s) (mem s) of
            None \<Rightarrow> (None, j1)
          | Some b \<Rightarrow> (Some b, j1\<lparr>jblocks := AList.update (eip s) b (jblocks j),
                jstats := (jstats j)\<lparr>js_compiled := js_compiled (jstats j) + 1\<rparr>\<rparr>))
        else (None, j1)))"

definition jit_step :: "('k, 'x) env \<Rightarrow> (jit \<times> 'k cpu, 'x cpu_error, unit) sem" where
  "jit_step ev = (\<lambda>(j, s).
     let (b, j1) = lookup_block j s;
         j2 = (case b of Some _ \<Rightarrow> j1\<lparr>jstats := (jstats j1)\<lparr>js_executed := js_executed (jstats j1) + 1\<rparr>\<rparr>
                       | None \<Rightarrow> j1\<lparr>jstats := (jstats j1)\<lparr>js_bailed := js_bailed (jstats j1) + 1\<rparr>\<rparr>);
         (r, s') = (case b of Some x \<Rightarrow> block_run ev x s | None \<Rightarrow> step ev s)
     in (r, drain_writes j2 s'))"

fun jit_run :: "nat \<Rightarrow> ('k, 'x) env \<Rightarrow> nat \<Rightarrow> (jit \<times> 'k cpu, 'x cpu_error, unit) sem" where
  "jit_run 0 ev maxSteps = throw (CpuFault Diverges)"
| "jit_run (Suc n) ev maxSteps = (\<lambda>(j, s).
     if steps s < maxSteps then thn (jit_step ev) (jit_run n ev maxSteps) (j, s)
     else (Inl (CPUError (''Step limit reached ('' @ to_dec maxSteps @ '')'')), (j, s)))"

end
