(* ===== verification/Jit_Props.thy ===== *)
theory Jit_Props
  imports Jit Cpu_Safety Cpu_Block
begin

text \<open>
  A compiled block does what the interpreter does. Code that the compiler accepts is described by the byte strings of
  its instructions; each operation equals one step of the interpreter at its address; blocks follow by induction.
\<close>

section \<open>Fetching code\<close>

fun code_at :: "mst \<Rightarrow> u32 \<Rightarrow> u8 list \<Rightarrow> bool" where
  "code_at m a [] \<longleftrightarrow> True"
| "code_at m a (b # bs) \<longleftrightarrow> read8exec a m = (Inr b, m) \<and> code_at m (a + 1) bs"

lemma code_at_append: "code_at m a (bs @ cs) \<longleftrightarrow> code_at m a bs \<and> code_at m (a + word_of_nat (length bs)) cs"
  by (induction bs arbitrary: a) (auto simp: algebra_simps)

lemma read8exec_byte_at:
  "read8exec a m = (Inr b, m') \<longleftrightarrow> m' = m \<and> (\<exists>p. byte_at m a = Some (b, p) \<and> p AND (PERM_X OR PERM_R) \<noteq> 0)"
  by (cases m) (auto simp: read8exec_def byte_at_def split: option.splits)

definition not_writable :: "mst \<Rightarrow> u32 \<Rightarrow> nat \<Rightarrow> bool" where
  "not_writable m a n \<longleftrightarrow> (\<forall>i b p. i < n \<and> byte_at m (a + word_of_nat i) = Some (b, p) \<longrightarrow> p AND PERM_W \<noteq> PERM_W)"

lemma not_writable_add: "not_writable m a (n + k) \<Longrightarrow> not_writable m a n \<and> not_writable m (a + word_of_nat n) k"
  unfolding not_writable_def
proof (intro conjI allI impI)
  assume nw: "\<forall>i b p. i < n + k \<and> byte_at m (a + word_of_nat i) = Some (b, p) \<longrightarrow> p AND PERM_W \<noteq> PERM_W"
  show "p AND PERM_W \<noteq> PERM_W" if "i < n \<and> byte_at m (a + word_of_nat i) = Some (b, p)" for i b p
    using nw that by (meson trans_less_add1)
  show "p AND PERM_W \<noteq> PERM_W" if "i < k \<and> byte_at m (a + word_of_nat n + word_of_nat i) = Some (b, p)" for i b p
    using nw that by (metis add.assoc add_strict_left_mono of_nat_add)
qed

lemma code_at_protected:
  assumes "mem_wf m" "protected_step m m'" "code_at m a bs" "not_writable m a (length bs)"
  shows "code_at m' a bs"
  using assms(3,4)
proof (induction bs arbitrary: a)
  case (Cons b bs)
  then obtain p where p: "byte_at m a = Some (b, p)" "p AND (PERM_X OR PERM_R) \<noteq> 0" by (auto simp: read8exec_byte_at)
  have nw: "not_writable m a 1" "not_writable m (a + 1) (length bs)" using not_writable_add [of m a 1 "length bs"] Cons.prems(2) by simp_all
  then have "p AND PERM_W \<noteq> PERM_W" using p(1) by (simp add: not_writable_def)
  then have "byte_at m' a = Some (b, p)" using assms(1,2) p(1) unfolding protected_step_def by blast
  moreover have "code_at m' (a + 1) bs" using Cons.prems(1) nw(2) by (intro Cons.IH) simp_all
  ultimately show ?case using p(2) by (auto simp: read8exec_byte_at)
qed simp

lemma fetch8_code: "read8exec (eip s) (mem s) = (Inr b, mem s) \<Longrightarrow> fetch8 s = (Inr (ucast b), s\<lparr>eip := eip s + 1\<rparr>)"
  by (simp add: fetch8_def setEip_def memOp_def thn_def bnd_def)

lemma parsePrefixes_code:
  "read8exec (eip s) (mem s) = (Inr b, mem s) \<Longrightarrow> add_prefix b prefix0 = None \<Longrightarrow>
   parsePrefixes s = (Inr prefix0, s\<lparr>lastPrefix := Some prefix0\<rparr>)"
  by (simp add: parsePrefixes_def prefix_loop.simps memOp_def)

lemma step_code:
  assumes "read8exec (eip s) (mem s) = (Inr b, mem s)" "add_prefix b prefix0 = None" "lastPrefix s = Some prefix0"
  shows "step ev s = exec ev (ucast b) (eip s) prefix0 (s\<lparr>eip := eip s + 1, steps := steps s + 1\<rparr>)"
proof -
  have "s\<lparr>lastPrefix := Some prefix0\<rparr> = s" using assms(3) by simp
  then show ?thesis
    by (simp add: step_def thn_def bnd_def parsePrefixes_code [OF assms(1,2)] fetch8_code [OF assms(1)])
qed

section \<open>What the compiler accepts\<close>

definition le32 :: "u8 \<Rightarrow> u8 \<Rightarrow> u8 \<Rightarrow> u8 \<Rightarrow> u32" where
  "le32 b0 b1 b2 b3 = ucast b0 OR push_bit 8 (ucast b1) OR push_bit 16 (ucast b2) OR push_bit 24 (ucast b3)"

inductive encodes :: "u32 \<Rightarrow> jop \<Rightarrow> u8 list \<Rightarrow> bool" where
  nop: "encodes pc JNop [0x90]"
| mov: "r < 8 \<Longrightarrow> encodes pc (JMov r (le32 b0 b1 b2 b3)) [0xb8 + word_of_nat r, b0, b1, b2, b3]"
| push: "r < 8 \<Longrightarrow> encodes pc (JPush r) [0x50 + word_of_nat r]"
| pop: "r < 8 \<Longrightarrow> encodes pc (JPop r) [0x58 + word_of_nat r]"
| inc: "r < 8 \<Longrightarrow> encodes pc (JInc r) [0x40 + word_of_nat r]"
| dec: "r < 8 \<Longrightarrow> encodes pc (JDec r) [0x48 + word_of_nat r]"
| xor: "drop_bit 6 m = 3 \<Longrightarrow> encodes pc (JXor (unat (m AND 7)) (unat (drop_bit 3 m AND 7))) [0x31, m]"
| group1: "drop_bit 6 m = 3 \<Longrightarrow>
    encodes pc (JGroup1 (unat (drop_bit 3 m AND 7)) (unat (m AND 7)) (word_of_int (s8 (ucast i)))) [0x83, m, i]"
| syscall: "encodes pc (JSyscall (pc + 2)) [0xcd, 0x80]"
| jump32: "encodes pc (JJump (pc + 5 + le32 b0 b1 b2 b3)) [0xe9, b0, b1, b2, b3]"
| jump8: "encodes pc (JJump (pc + 2 + word_of_int (s8 (ucast d)))) [0xeb, d]"
| ret: "encodes pc JRet [0xc3]"

fun ends_block :: "jop \<Rightarrow> bool" where
  "ends_block (JSyscall _) = True"
| "ends_block (JJump _) = True"
| "ends_block JRet = True"
| "ends_block _ = False"

lemma opcode_range:
  assumes "c \<le> unat (b :: u8)" "unat b \<le> c + 7" "c + 7 < 256"
  shows "b = word_of_nat c + word_of_nat (unat b - c)" "unat b - c < 8"
proof -
  have "word_of_nat c + word_of_nat (unat b - c) = (word_of_nat (c + (unat b - c)) :: u8)" by simp
  then show "b = word_of_nat c + word_of_nat (unat b - c)" using assms(1) by simp
  show "unat b - c < 8" using assms by simp
qed

lemma read8exec_state: "read8exec a m = (r, m') \<Longrightarrow> m' = m"
  by (cases m) (auto simp: read8exec_def split: option.splits if_splits)

lemma exec_bind:
  "bnd (read8exec a) f m = (Inr x, m') \<longleftrightarrow> (\<exists>b. read8exec a m = (Inr b, m) \<and> f b m = (Inr x, m'))"
  using read8exec_state [of a m] by (auto simp: bnd_def split: prod.splits sum.splits)

lemma jit_read32_code:
  "bnd (jit_read32 a) f m = (Inr x, m') \<longleftrightarrow>
   (\<exists>b0 b1 b2 b3. code_at m a [b0, b1, b2, b3] \<and> f (le32 b0 b1 b2 b3) m = (Inr x, m'))"
  by (simp add: jit_read32_def bnd_assoc exec_bind le32_def) (auto simp: algebra_simps)

definition compiled_as :: "mst \<Rightarrow> u32 \<Rightarrow> jop \<Rightarrow> u32 \<Rightarrow> bool \<Rightarrow> bool" where
  "compiled_as m pc op pc' tm \<longleftrightarrow>
     (\<exists>bs. encodes pc op bs \<and> code_at m pc bs \<and> pc' = pc + word_of_nat (length bs) \<and> tm = ends_block op)"

lemma compiled_asI:
  "encodes pc op bs \<Longrightarrow> code_at m pc bs \<Longrightarrow> pc' = pc + word_of_nat (length bs) \<Longrightarrow> tm = ends_block op \<Longrightarrow>
   compiled_as m pc op pc' tm"
  unfolding compiled_as_def by blast

lemma byte_literal: "unat (b :: u8) = n \<Longrightarrow> b = word_of_nat n"
  by auto

lemma decode_op_sound:
  assumes b: "read8exec pc m = (Inr b, m)" and k: "decode_op (unat b) (pc + 1) m = (Inr (Some (op, pc', tm)), m')"
  shows "compiled_as m pc op pc' tm"
proof -
  consider "unat b = 0x90" | "0xb8 \<le> unat b" "unat b \<le> 0xbf" | "0x50 \<le> unat b" "unat b \<le> 0x57" | "0x58 \<le> unat b" "unat b \<le> 0x5f"
    | "0x40 \<le> unat b" "unat b \<le> 0x47" | "0x48 \<le> unat b" "unat b \<le> 0x4f" | "unat b = 0x31" | "unat b = 0x83" | "unat b = 0xcd"
    | "unat b = 0xe9" | "unat b = 0xeb" | "unat b = 0xc3"
    using k unfolding decode_op_def by (auto split: if_splits)
  then show ?thesis
  proof cases
    case 1
    with k b byte_literal [OF 1] show ?thesis by (auto simp: decode_op_def intro!: compiled_asI encodes.nop)
  next
    case 2
    with k b opcode_range [where c = "0xb8" and b = b] show ?thesis
      by (auto simp: decode_op_def jit_read32_code intro!: compiled_asI encodes.mov)
  next
    case 3
    with k b opcode_range [where c = "0x50" and b = b] show ?thesis by (auto simp: decode_op_def intro!: compiled_asI encodes.push)
  next
    case 4
    with k b opcode_range [where c = "0x58" and b = b] show ?thesis by (auto simp: decode_op_def intro!: compiled_asI encodes.pop)
  next
    case 5
    with k b opcode_range [where c = "0x40" and b = b] show ?thesis by (auto simp: decode_op_def intro!: compiled_asI encodes.inc)
  next
    case 6
    with k b opcode_range [where c = "0x48" and b = b] show ?thesis by (auto simp: decode_op_def intro!: compiled_asI encodes.dec)
  next
    case 7
    with k b byte_literal [OF 7] show ?thesis
      by (auto simp: decode_op_def exec_bind split: if_splits intro!: compiled_asI encodes.xor)
  next
    case 8
    with k b byte_literal [OF 8] show ?thesis
      by (auto simp: decode_op_def exec_bind add.assoc split: if_splits intro!: compiled_asI encodes.group1)
  next
    case 9
    with k b byte_literal [OF 9] encodes.syscall [of pc] show ?thesis
      by (auto simp: decode_op_def exec_bind add.assoc split: if_splits intro!: compiled_asI)
  next
    case 10
    with k b byte_literal [OF 10] encodes.jump32 [of pc] show ?thesis
      by (auto simp: decode_op_def jit_read32_code add.assoc intro!: compiled_asI)
  next
    case 11
    with k b byte_literal [OF 11] encodes.jump8 [of pc] show ?thesis
      by (auto simp: decode_op_def exec_bind add.assoc intro!: compiled_asI)
  next
    case 12
    with k b byte_literal [OF 12] show ?thesis by (auto simp: decode_op_def intro!: compiled_asI encodes.ret)
  qed
qed

lemma compile_op_sound: "compile_op pc m = (Inr (Some (op, pc', tm)), m') \<Longrightarrow> compiled_as m pc op pc' tm"
  unfolding compile_op_def exec_bind by (blast intro: decode_op_sound)

definition silent :: "('s, 'e, 'a) sem \<Rightarrow> bool" where
  "silent f \<longleftrightarrow> (\<forall>s. snd (f s) = s)"

lemma silent_bnd: "silent f \<Longrightarrow> (\<And>x. silent (g x)) \<Longrightarrow> silent (bnd f g)"
  by (auto simp: silent_def bnd_def split: prod.splits sum.splits) (metis snd_conv)+

lemma silent_parts: "silent (read8exec a)" "silent (ret x)" "silent f \<Longrightarrow> silent g \<Longrightarrow> silent (if b then f else g)"
  using read8exec_state [of a] by (auto simp: silent_def) (metis prod.collapse)

lemma silent_compile_op: "silent (compile_op pc)"
  unfolding compile_op_def decode_op_def jit_read32_def by (intro silent_bnd silent_parts)

text \<open>A run of instructions and their byte strings, one behind the other.\<close>

fun layout :: "u32 \<Rightarrow> jop list \<Rightarrow> u8 list list \<Rightarrow> bool" where
  "layout pc [] bss \<longleftrightarrow> bss = []"
| "layout pc (op # ops) bss \<longleftrightarrow> (\<exists>bs rest. bss = bs # rest \<and> encodes pc op bs \<and> layout (pc + word_of_nat (length bs)) ops rest)"

lemma encodes_length: "encodes pc op bs \<Longrightarrow> 0 < length bs \<and> length bs \<le> 5"
  by (induction rule: encodes.induct) simp_all

lemma layout_length: "layout pc ops bss \<Longrightarrow> length (concat bss) \<le> 5 * length ops"
proof (induction ops arbitrary: pc bss)
  case (Cons op ops)
  then obtain bs rest where "bss = bs # rest" "encodes pc op bs" "layout (pc + word_of_nat (length bs)) ops rest" by auto
  with Cons.IH [OF this(3)] encodes_length [OF this(2)] show ?case by simp
qed simp

definition block_shape :: "mst \<Rightarrow> u32 \<Rightarrow> jop list \<Rightarrow> u8 list list \<Rightarrow> u32 \<Rightarrow> bool \<Rightarrow> bool" where
  "block_shape m pc ops bss e tm \<longleftrightarrow> layout pc ops bss \<and> code_at m pc (concat bss) \<and> e = pc + word_of_nat (length (concat bss)) \<and>
     list_all (\<lambda>op. \<not> ends_block op) (if tm then butlast ops else ops) \<and> (tm \<longrightarrow> ops \<noteq> [] \<and> ends_block (last ops))"

lemma block_shape_Cons:
  assumes "compiled_as m pc op pc' False" "block_shape m pc' ops bss e tm"
  shows "\<exists>bs. block_shape m pc (op # ops) (bs # bss) e tm"
proof -
  obtain bs where "encodes pc op bs" "code_at m pc bs" "pc' = pc + word_of_nat (length bs)" "\<not> ends_block op"
    using assms(1) by (auto simp: compiled_as_def)
  with assms(2) show ?thesis by (auto simp: block_shape_def code_at_append algebra_simps)
qed

lemma compile_loop_sound:
  assumes "compile_loop n mb start pc ops0 m = (Inr (Some b), m')"
  shows "\<exists>ops bss. jb_ops b = ops0 @ ops \<and> jb_start b = start \<and> length ops \<le> n \<and>
     block_shape m pc ops bss (jb_end b) (jb_terminal b)"
  using assms
proof (induction n arbitrary: pc ops0)
  case 0
  then show ?case by (intro exI [of _ "[]"]) (auto simp: block_shape_def)
next
  case (Suc n)
  show ?case
  proof (cases "unat (pc - start) < mb")
    case False
    with Suc.prems show ?thesis by (intro exI [of _ "[]"]) (auto simp: block_shape_def)
  next
    case True
    from Suc.prems True obtain op pc' tm m1 where c: "compile_op pc m = (Inr (Some (op, pc', tm)), m1)"
      and rest: "(if tm then ret (Some \<lparr>jb_start = start, jb_end = pc', jb_ops = ops0 @ [op], jb_terminal = True\<rparr>)
          else compile_loop n mb start pc' (ops0 @ [op])) m1 = (Inr (Some b), m')"
      by (auto simp: bnd_def split: prod.splits sum.splits option.splits)
    have m1: "m1 = m" using silent_compile_op [of pc] c unfolding silent_def by (metis snd_conv)
    note ca = compile_op_sound [OF c]
    show ?thesis
    proof (cases tm)
      case True
      with ca obtain bs where "encodes pc op bs" "code_at m pc bs" "pc' = pc + word_of_nat (length bs)" "ends_block op"
        by (auto simp: compiled_as_def)
      with rest True show ?thesis by (intro exI [of _ "[op]"] exI [of _ "[bs]"]) (auto simp: block_shape_def)
    next
      case False
      with rest m1 have "compile_loop n mb start pc' (ops0 @ [op]) m = (Inr (Some b), m')" by simp
      from Suc.IH [OF this] obtain ops bss where ih: "jb_ops b = (ops0 @ [op]) @ ops" "jb_start b = start" "length ops \<le> n"
        "block_shape m pc' ops bss (jb_end b) (jb_terminal b)" by blast
      from block_shape_Cons [OF _ ih(4)] ca False obtain bs where
        "block_shape m pc (op # ops) (bs # bss) (jb_end b) (jb_terminal b)" by auto
      with ih show ?thesis by (intro exI [of _ "op # ops"] exI [of _ "bs # bss"]) simp
    qed
  qed
qed

lemma compile_sound:
  assumes "compile j start m = Some b"
  shows "\<exists>bss. jb_start b = start \<and> jb_ops b \<noteq> [] \<and> length (jb_ops b) \<le> maxBlockInsns j \<and>
     block_shape m start (jb_ops b) bss (jb_end b) (jb_terminal b)"
proof -
  obtain m' where "compile_loop (maxBlockInsns j) (maxBlockBytes j) start start [] m = (Inr (Some b), m')" "jb_ops b \<noteq> []"
    using assms by (auto simp: compile_def fst_def split: sum.splits option.splits if_splits prod.splits)
  from compile_loop_sound [OF this(1)] this(2) show ?thesis by auto
qed

section \<open>One operation is one step\<close>

lemma add_prefix_None: "b \<notin> {0x66, 0x67, 0xf0, 0xf2, 0xf3, 0x26, 0x2e, 0x36, 0x3e, 0x64, 0x65} \<Longrightarrow> add_prefix b prefix0 = None"
  by (auto simp: add_prefix_def SEG_PREFIX_def)

lemma reg_cases: "r < (8 :: nat) \<Longrightarrow> r \<in> {0, 1, 2, 3, 4, 5, 6, 7}"
  by auto

lemma fetch32_code:
  "code_at (mem s) (eip s) [b0, b1, b2, b3] \<Longrightarrow> fetch32 s = (Inr (le32 b0 b1 b2 b3), s\<lparr>eip := eip s + 4\<rparr>)"
  by (simp add: fetch32_def bnd_def fetch8_code le32_def algebra_simps)

lemma prefix0_sizes [simp]: "operandSize prefix0 = 32" "addressSize prefix0 = 32"
  by (simp_all add: prefix0_def)

lemma exec_reg_ops:
  assumes "r < 8"
  shows "exec ev (ucast (0xb8 + word_of_nat r :: u8)) at prefix0 = bnd fetch32 (setReg 32 r)"
    "exec ev (ucast (0x50 + word_of_nat r :: u8)) at prefix0 = bnd (getS (getReg 32 r)) (\<lambda>v. push v 32)"
    "exec ev (ucast (0x58 + word_of_nat r :: u8)) at prefix0 = bnd (pop 32) (setReg 32 r)"
    "exec ev (ucast (0x40 + word_of_nat r :: u8)) at prefix0 = op_incdec_reg add_op r 32"
    "exec ev (ucast (0x48 + word_of_nat r :: u8)) at prefix0 = op_incdec_reg sub_op r 32"
proof -
  have "\<forall>r \<in> {0, 1, 2, 3, 4, 5, 6, 7}. exec ev (ucast (0xb8 + word_of_nat r :: u8)) at prefix0 = bnd fetch32 (setReg 32 r)"
    "\<forall>r \<in> {0, 1, 2, 3, 4, 5, 6, 7}. exec ev (ucast (0x50 + word_of_nat r :: u8)) at prefix0 = bnd (getS (getReg 32 r)) (\<lambda>v. push v 32)"
    "\<forall>r \<in> {0, 1, 2, 3, 4, 5, 6, 7}. exec ev (ucast (0x58 + word_of_nat r :: u8)) at prefix0 = bnd (pop 32) (setReg 32 r)"
    "\<forall>r \<in> {0, 1, 2, 3, 4, 5, 6, 7}. exec ev (ucast (0x40 + word_of_nat r :: u8)) at prefix0 = op_incdec_reg add_op r 32"
    "\<forall>r \<in> {0, 1, 2, 3, 4, 5, 6, 7}. exec ev (ucast (0x48 + word_of_nat r :: u8)) at prefix0 = op_incdec_reg sub_op r 32"
    by (simp_all add: exec_def is_alu_op_def fetchImm_def)
  then show "exec ev (ucast (0xb8 + word_of_nat r :: u8)) at prefix0 = bnd fetch32 (setReg 32 r)"
    "exec ev (ucast (0x50 + word_of_nat r :: u8)) at prefix0 = bnd (getS (getReg 32 r)) (\<lambda>v. push v 32)"
    "exec ev (ucast (0x58 + word_of_nat r :: u8)) at prefix0 = bnd (pop 32) (setReg 32 r)"
    "exec ev (ucast (0x40 + word_of_nat r :: u8)) at prefix0 = op_incdec_reg add_op r 32"
    "exec ev (ucast (0x48 + word_of_nat r :: u8)) at prefix0 = op_incdec_reg sub_op r 32"
    using reg_cases [OF assms] by blast+
qed

lemma exec_ops:
  "exec ev 0x90 at prefix0 = ret ()"
  "exec ev 0x31 at prefix0 = op_alu 0x31 prefix0"
  "exec ev 0x83 at prefix0 = op_group1 0x83 prefix0"
  "exec ev 0xcd at prefix0 = op_int ev at"
  "exec ev 0xe9 at prefix0 = bnd fetch32 (\<lambda>d. jumpRel (sign32 d))"
  "exec ev 0xeb at prefix0 = bnd fetch8 (\<lambda>d. jumpRel (s8 d))"
  "exec ev 0xc3 at prefix0 = op_ret 32"
  by (simp_all add: exec_def is_alu_op_def exec_low_def exec_high_def op_xchg_eax_def whenM_def)

lemma reg_opcode_no_prefix:
  assumes "r < 8" "c \<in> {0xb8, 0x50, 0x58, 0x40, 0x48}"
  shows "add_prefix (c + word_of_nat r) prefix0 = None"
  using reg_cases [OF assms(1)] assms(2) by (auto intro!: add_prefix_None)

lemmas op_parts = getReg_def put_reg_def setReg_def getR_def setR_def setEip_def count_step_def truncate_w_def thn_def bnd_def
  memOp_def push_def pop_def

lemma step_first:
  assumes "code_at (mem s) (eip s) (b # rest)" "lastPrefix s = Some prefix0"
    "b \<notin> {0x66, 0x67, 0xf0, 0xf2, 0xf3, 0x26, 0x2e, 0x36, 0x3e, 0x64, 0x65}"
  shows "step ev s = exec ev (ucast b) (eip s) prefix0 (s\<lparr>eip := eip s + 1, steps := steps s + 1\<rparr>)"
  using assms by (intro step_code add_prefix_None) simp_all

lemma reg_opcode:
  assumes "r < 8" "c \<in> {0xb8, 0x50, 0x58, 0x40, 0x48}"
  shows "c + word_of_nat r \<notin> {0x66, 0x67, 0xf0, 0xf2, 0xf3, 0x26, 0x2e, 0x36, 0x3e, 0x64, 0x65 :: u8}"
  using reg_cases [OF assms(1)] assms(2) by auto

text \<open>Reading ModRM in the register form.\<close>

lemma withM_reg:
  assumes "read8exec (eip s) (mem s) = (Inr m, mem s)" "drop_bit 6 m = 3"
  shows "withM prefix0 f s = f (unat (drop_bit 3 m AND 7)) (RmReg (unat (m AND 7))) (s\<lparr>eip := eip s + 1\<rparr>)"
proof -
  have "unat (drop_bit 6 (ucast m :: u32)) = unat (drop_bit 6 m)" "unat (drop_bit 3 (ucast m :: u32) AND 7) = unat (drop_bit 3 m AND 7)"
    "unat ((ucast m :: u32) AND 7) = unat (m AND 7)"
    using take_bit_nat_eq_self [of "unat m" 32] unsigned_less [of m, where 'a = nat]
    by (simp_all add: unat_drop_bit_eq unsigned_and_eq unsigned_ucast_eq)
  with assms show ?thesis by (simp add: withM_def decodeModRM_def bnd_def fetch8_code Let_def)
qed

text \<open>The bodies: from a state whose instruction pointer and step count are already advanced.\<close>

lemma reg_sims:
  assumes "r < 8"
  shows "run_jop ev (JMov r v) s = (Inr (), t) \<Longrightarrow>
      setReg 32 r v (s\<lparr>eip := e, steps := steps s + 1\<rparr>) = (Inr (), t\<lparr>eip := e\<rparr>)"
    "run_jop ev (JPush r) s = (Inr (), t) \<Longrightarrow>
      bnd (getS (getReg 32 r)) (\<lambda>v. push v 32) (s\<lparr>eip := e, steps := steps s + 1\<rparr>) = (Inr (), t\<lparr>eip := e\<rparr>)"
    "run_jop ev (JPop r) s = (Inr (), t) \<Longrightarrow>
      bnd (pop 32) (setReg 32 r) (s\<lparr>eip := e, steps := steps s + 1\<rparr>) = (Inr (), t\<lparr>eip := e\<rparr>)"
    "run_jop ev (JInc r) s = (Inr (), t) \<Longrightarrow>
      op_incdec_reg add_op r 32 (s\<lparr>eip := e, steps := steps s + 1\<rparr>) = (Inr (), t\<lparr>eip := e\<rparr>)"
    "run_jop ev (JDec r) s = (Inr (), t) \<Longrightarrow>
      op_incdec_reg sub_op r 32 (s\<lparr>eip := e, steps := steps s + 1\<rparr>) = (Inr (), t\<lparr>eip := e\<rparr>)"
  using assms
  by (auto simp: op_parts op_incdec_reg_def keepCF_def jit_incdec_def add_op_def sub_op_def onFlags_def getFlag_def setFlag_def
      split: prod.splits sum.splits)

lemma modrm_sims:
  assumes "rm < 8" "r < 8"
  shows "run_jop ev (JXor rm r) s = (Inr (), t) \<Longrightarrow>
      bnd (getRM 32 (RmReg rm)) (\<lambda>a. bnd (getS (getReg 32 r)) (\<lambda>b. bnd (alu 6 a b 32) (\<lambda>v. whenM True (setRM 32 (RmReg rm) v))))
        (s\<lparr>eip := e, steps := steps s + 1\<rparr>) = (Inr (), t\<lparr>eip := e\<rparr>)"
    "run_jop ev (JGroup1 g rm imm) s = (Inr (), t) \<Longrightarrow>
      bnd (getRM 32 (RmReg rm)) (\<lambda>dst. executeGroup1 32 g dst imm (setRM 32 (RmReg rm)))
        (s\<lparr>eip := e, steps := steps s + 1\<rparr>) = (Inr (), t\<lparr>eip := e\<rparr>)"
  using assms
  by (auto simp: op_parts getRM_def setRM_def alu_def alu_fl_def onFlags_def whenM_def executeGroup1_def
      split: prod.splits option.splits if_splits)

lemma ret_sim:
  "run_jop ev JRet s = (Inr (), t) \<Longrightarrow> op_ret 32 (s\<lparr>eip := e, steps := steps s + 1\<rparr>) = (Inr (), t)"
  by (auto simp: op_parts op_ret_def split: prod.splits sum.splits)

lemma modrm_fields: "unat (m AND 7 :: u8) < 8" "unat (drop_bit 3 m AND 7 :: u8) < 8"
proof -
  have "unat (x AND 7 :: u8) < 8" for x
    using and_mask_less' [of 3 x] by (simp add: mask_eq_exp_minus_1 word_less_nat_alt)
  then show "unat (m AND 7) < 8" "unat (drop_bit 3 m AND 7) < 8" by blast+
qed

lemma ucast_byte_mask: "(ucast (i :: u8) :: u32) AND maskFor 8 = ucast i"
  by (rule bit_word_eqI) (auto simp: maskFor_mask bit_simps dest: bit_imp_le_length)

lemma eip_steps: "s\<lparr>steps := n, eip := e\<rparr> = s\<lparr>eip := e, steps := n\<rparr>"
  by simp

lemma encodes_no_prefix:
  assumes "encodes pc op bs"
  shows "\<exists>b rest. bs = b # rest \<and> b \<notin> {0x66, 0x67, 0xf0, 0xf2, 0xf3, 0x26, 0x2e, 0x36, 0x3e, 0x64, 0x65}"
  using assms
proof cases
  case (mov r b0 b1 b2 b3)
  then show ?thesis using reg_opcode [of r "0xb8"] by simp
next
  case (push r)
  then show ?thesis using reg_opcode [of r "0x50"] by simp
next
  case (pop r)
  then show ?thesis using reg_opcode [of r "0x58"] by simp
next
  case (inc r)
  then show ?thesis using reg_opcode [of r "0x40"] by simp
next
  case (dec r)
  then show ?thesis using reg_opcode [of r "0x48"] by simp
qed auto

lemma step_encoded:
  assumes "encodes pc op bs" "code_at (mem s) pc bs" "lastPrefix s = Some prefix0" "pc = eip s"
  shows "step ev s = exec ev (ucast (hd bs)) (eip s) prefix0 (s\<lparr>eip := eip s + 1, steps := steps s + 1\<rparr>)"
    "code_at (mem s) (eip s + 1) (tl bs)"
proof -
  obtain b rest where b: "bs = b # rest" "b \<notin> {0x66, 0x67, 0xf0, 0xf2, 0xf3, 0x26, 0x2e, 0x36, 0x3e, 0x64, 0x65}"
    using encodes_no_prefix [OF assms(1)] by blast
  then show "step ev s = exec ev (ucast (hd bs)) (eip s) prefix0 (s\<lparr>eip := eip s + 1, steps := steps s + 1\<rparr>)"
    using assms(2-4) step_first [of s b rest ev] by simp
  show "code_at (mem s) (eip s + 1) (tl bs)" using b(1) assms(2,4) by simp
qed

lemma step_op:
  assumes "encodes pc op bs" "code_at (mem s) pc bs" "lastPrefix s = Some prefix0" "run_jop ev op s = (Inr (), t)" "pc = eip s"
  shows "step ev s = (Inr (), if ends_block op then t else t\<lparr>eip := pc + word_of_nat (length bs)\<rparr>)"
  using assms(1)
proof cases
  case nop
  then show ?thesis using step_encoded(1) [OF assms(1-3,5), of ev] step_encoded(2) [OF assms(1-3,5)] assms(4,5) by (auto simp: exec_ops count_step_def)
next
  case (mov r b0 b1 b2 b3)
  then show ?thesis using step_encoded(1) [OF assms(1-3,5), of ev] step_encoded(2) [OF assms(1-3,5)] assms(4,5) reg_sims(1) [OF mov(3), of ev _ s t "eip s + 5"]
    by (simp add: exec_reg_ops bnd_def fetch32_code eip_steps add.assoc)
next
  case (push r)
  then show ?thesis using step_encoded(1) [OF assms(1-3,5), of ev] assms(4,5) reg_sims(2) [OF push(3), of ev s t "eip s + 1"] by (simp add: exec_reg_ops)
next
  case (pop r)
  then show ?thesis using step_encoded(1) [OF assms(1-3,5), of ev] assms(4,5) reg_sims(3) [OF pop(3), of ev s t "eip s + 1"] by (simp add: exec_reg_ops)
next
  case (inc r)
  then show ?thesis using step_encoded(1) [OF assms(1-3,5), of ev] assms(4,5) reg_sims(4) [OF inc(3), of ev s t "eip s + 1"] by (simp add: exec_reg_ops)
next
  case (dec r)
  then show ?thesis using step_encoded(1) [OF assms(1-3,5), of ev] assms(4,5) reg_sims(5) [OF dec(3), of ev s t "eip s + 1"] by (simp add: exec_reg_ops)
next
  case (xor m)
  then show ?thesis using step_encoded(1) [OF assms(1-3,5), of ev] step_encoded(2) [OF assms(1-3,5)] assms(4,5) modrm_sims(1) [OF modrm_fields, of ev m m s t "eip s + 2"]
    by (simp add: exec_ops op_alu_def withM_reg Let_def eip_steps add.assoc)
next
  case (group1 m i)
  then show ?thesis using step_encoded(1) [OF assms(1-3,5), of ev] step_encoded(2) [OF assms(1-3,5)] assms(4,5) modrm_sims(2) [OF modrm_fields, of ev _ m _ s t "eip s + 3"]
    by (simp add: exec_ops op_group1_def withM_reg Let_def bnd_def [of fetch8] bnd_def [of "bnd fetch8 _"] fetch8_code eip_steps
        signExtend_def truncate_w_def ucast_byte_mask add.assoc)
next
  case syscall
  then show ?thesis using step_encoded(1) [OF assms(1-3,5), of ev] step_encoded(2) [OF assms(1-3,5)] assms(4,5)
    by (auto simp: exec_ops op_int_def enterKernel_def fetch8_code op_parts eip_steps add.assoc split: option.splits)
next
  case (jump32 b0 b1 b2 b3)
  then show ?thesis using step_encoded(1) [OF assms(1-3,5), of ev] step_encoded(2) [OF assms(1-3,5)] assms(4,5) by (auto simp: exec_ops fetch32_code jumpRel_def sign32_def op_parts add.assoc)
next
  case (jump8 d)
  then show ?thesis using step_encoded(1) [OF assms(1-3,5), of ev] step_encoded(2) [OF assms(1-3,5)] assms(4,5) by (auto simp: exec_ops fetch8_code jumpRel_def op_parts add.assoc)
next
  case ret
  then show ?thesis using step_encoded(1) [OF assms(1-3,5), of ev] assms(4,5) ret_sim [of ev s t "eip s + 1"] by (simp add: exec_ops)
qed

section \<open>Blocks\<close>

lemma run_jop_eip:
  assumes "run_jop ev op s = (Inr (), t)"
  shows "run_jop ev op (s\<lparr>eip := e\<rparr>) = (Inr (), if ends_block op then t else t\<lparr>eip := e\<rparr>)"
  using assms
  by (cases op) (auto simp: op_parts jit_incdec_def add_op_def sub_op_def onFlags_def getFlag_def setFlag_def alu_def whenM_def
      split: prod.splits sum.splits option.splits)

lemma run_jop_prefix:
  assumes "run_jop ev op s = (Inr (), t)" "\<not> ends_block op"
  shows "lastPrefix t = lastPrefix s"
  using assms
  by (cases op) (auto simp: op_parts jit_incdec_def add_op_def sub_op_def onFlags_def getFlag_def setFlag_def alu_def whenM_def
      split: prod.splits sum.splits option.splits if_splits)

lemma run_jop_protected:
  assumes "run_jop ev op s = (r, t)" "\<not> ends_block op"
  shows "protected_step (mem s) (mem t)"
proof -
  have "protect.keeps (run_jop ev op)"
    using assms(2) by (cases op) (auto simp: count_step_def jit_incdec_def intro!: resp protect.keeps_modS)
  then show ?thesis using assms(1) by (metis protect.keeps_def snd_conv)
qed

fun step_n :: "('k, 'x) env \<Rightarrow> nat \<Rightarrow> ('k, 'x, unit) cpuM" where
  "step_n ev 0 = ret ()"
| "step_n ev (Suc n) = thn (step ev) (step_n ev n)"

lemma run_ops_steps:
  assumes "layout pc ops bss" "mem_wf m" "code_at m pc (concat bss)"
    "not_writable m pc (length (concat bss))" "protected_step m (mem s)" "lastPrefix s = Some prefix0" "list_all (\<lambda>op. \<not> ends_block op) ops"
    "forM ops (run_jop ev) s = (Inr (), t)"
  shows "step_n ev (length ops) (s\<lparr>eip := pc\<rparr>) = (Inr (), t\<lparr>eip := pc + word_of_nat (length (concat bss))\<rparr>) \<and>
     protected_step m (mem t) \<and> lastPrefix t = Some prefix0"
  using assms(1,3-)
proof (induction ops arbitrary: pc bss s)
  case Nil
  then show ?case by simp
next
  case (Cons op ops)
  obtain bs rest where bss: "bss = bs # rest" and enc: "encodes pc op bs" and lay: "layout (pc + word_of_nat (length bs)) ops rest"
    using Cons.prems(1) by auto
  have c: "code_at m pc bs" "code_at m (pc + word_of_nat (length bs)) (concat rest)" using Cons.prems(2) by (simp_all add: bss code_at_append)
  have nw: "not_writable m pc (length bs)" "not_writable m (pc + word_of_nat (length bs)) (length (concat rest))"
    using not_writable_add [of m pc "length bs" "length (concat rest)"] Cons.prems(3) by (simp_all add: bss)
  obtain s1 where s1: "run_jop ev op s = (Inr (), s1)" "forM ops (run_jop ev) s1 = (Inr (), t)"
    using Cons.prems(7) by (auto simp: thn_def bnd_def split: prod.splits sum.splits)
  have ne: "\<not> ends_block op" "list_all (\<lambda>op. \<not> ends_block op) ops" using Cons.prems(6) by simp_all
  have p1: "protected_step m (mem s1)" using run_jop_protected [OF s1(1) ne(1)] Cons.prems(4) by (rule protect.R_trans [rotated])
  have "run_jop ev op (s\<lparr>eip := pc\<rparr>) = (Inr (), s1\<lparr>eip := pc\<rparr>)" using run_jop_eip [OF s1(1), of pc] ne(1) by simp
  moreover have "code_at (mem (s\<lparr>eip := pc\<rparr>)) pc bs" using code_at_protected [OF assms(2) Cons.prems(4) c(1) nw(1)] by simp
  ultimately have "step ev (s\<lparr>eip := pc\<rparr>) = (Inr (), s1\<lparr>eip := pc + word_of_nat (length bs)\<rparr>)"
    using step_op [OF enc, of "s\<lparr>eip := pc\<rparr>" ev "s1\<lparr>eip := pc\<rparr>"] ne(1) Cons.prems(5) by simp
  moreover have "lastPrefix s1 = Some prefix0" using run_jop_prefix [OF s1(1) ne(1)] Cons.prems(5) by simp
  from Cons.IH [OF lay c(2) nw(2) p1 this ne(2) s1(2)] have
    "step_n ev (length ops) (s1\<lparr>eip := pc + word_of_nat (length bs)\<rparr>) =
       (Inr (), t\<lparr>eip := pc + word_of_nat (length bs) + word_of_nat (length (concat rest))\<rparr>)"
    "protected_step m (mem t)" "lastPrefix t = Some prefix0" by blast+
  ultimately show ?case by (simp add: bss add.assoc)
qed

lemma step_forgets_prefix:
  assumes "encodes (eip s) op bs" "code_at (mem s) (eip s) bs"
  shows "step ev (s\<lparr>lastPrefix := x\<rparr>) = step ev s"
proof -
  obtain b rest where b: "bs = b # rest" "b \<notin> {0x66, 0x67, 0xf0, 0xf2, 0xf3, 0x26, 0x2e, 0x36, 0x3e, 0x64, 0x65}"
    using encodes_no_prefix [OF assms(1)] by blast
  then have "read8exec (eip s) (mem s) = (Inr b, mem s)" "add_prefix b prefix0 = None" using assms(2) add_prefix_None [of b] by simp_all
  then show ?thesis
    by (simp add: step_def bnd_def [of "getS eip"] bnd_def [of parsePrefixes] parsePrefixes_code)
qed

lemma step_n_append: "step_n ev (m + n) = thn (step_n ev m) (step_n ev n)"
  by (induction m) (auto simp: thn_def bnd_def fun_eq_iff split: prod.splits sum.splits)

lemma layout_snoc:
  "layout pc (ops @ [op]) bss \<Longrightarrow>
   \<exists>bp bl. bss = bp @ [bl] \<and> layout pc ops bp \<and> encodes (pc + word_of_nat (length (concat bp))) op bl"
proof (induction ops arbitrary: pc bss)
  case Nil
  then obtain bs where "bss = [bs]" "encodes pc op bs" by auto
  then show ?case by (intro exI [of _ "[]"] exI [of _ bs]) simp
next
  case (Cons o1 ops)
  then obtain bs rest where "bss = bs # rest" "encodes pc o1 bs" "layout (pc + word_of_nat (length bs)) (ops @ [op]) rest" by auto
  moreover from Cons.IH [OF this(3)] obtain bp bl where "rest = bp @ [bl]" "layout (pc + word_of_nat (length bs)) ops bp"
    "encodes (pc + word_of_nat (length bs) + word_of_nat (length (concat bp))) op bl" by blast
  ultimately show ?case by (intro exI [of _ "bs # bp"] exI [of _ bl]) (simp add: add.assoc)
qed

lemma block_steps:
  assumes "block_shape (mem s) pc ops bss e tm" "mem_wf (mem s)" "not_writable (mem s) pc (length (concat bss))"
    "lastPrefix s = Some prefix0" "block_run ev \<lparr>jb_start = pc, jb_end = e, jb_ops = ops, jb_terminal = tm\<rparr> s = (Inr (), t)"
    "eip s = pc"
  shows "step_n ev (length ops) s = (Inr (), t)"
proof (cases tm)
  case False
  with assms(5) obtain t0 where "forM ops (run_jop ev) s = (Inr (), t0)" "t = t0\<lparr>eip := e\<rparr>"
    by (auto simp: block_run_def whenM_def setEip_def thn_def bnd_def split: prod.splits sum.splits)
  moreover have "s\<lparr>eip := pc\<rparr> = s" using assms(6) by auto
  ultimately show ?thesis
    using run_ops_steps [of pc ops bss "mem s" s ev t0] assms(1-4) False
    by (simp add: block_shape_def protect.R_refl)
next
  case True
  then have ops: "ops = butlast ops @ [last ops]" and tm: "ends_block (last ops)" "list_all (\<lambda>op. \<not> ends_block op) (butlast ops)"
    and sh: "layout pc ops bss" "code_at (mem s) pc (concat bss)"
    using assms(1) by (simp_all add: block_shape_def)
  define pre where "pre = butlast ops"
  obtain bp bl where bss: "bss = bp @ [bl]" and lay: "layout pc pre bp" "encodes (pc + word_of_nat (length (concat bp))) (last ops) bl"
    using layout_snoc [of pc "butlast ops" "last ops" bss] sh(1) ops unfolding pre_def by metis
  have c: "code_at (mem s) pc (concat bp)" "code_at (mem s) (pc + word_of_nat (length (concat bp))) bl"
    using sh(2) by (simp_all add: bss code_at_append)
  have nw: "not_writable (mem s) pc (length (concat bp))" "not_writable (mem s) (pc + word_of_nat (length (concat bp))) (length bl)"
    using not_writable_add [of "mem s" pc "length (concat bp)" "length bl"] assms(3) by (simp_all add: bss)
  have "thn (forM pre (run_jop ev)) (run_jop ev (last ops)) s = (Inr (), t)"
  proof -
    have "forM (pre @ [last ops]) (run_jop ev) s = (Inr (), t)"
      using assms(5) True ops by (auto simp: pre_def block_run_def whenM_def thn_def bnd_def split: prod.splits sum.splits)
    then show ?thesis by (auto simp: forM_append thn_def bnd_def split: prod.splits sum.splits)
  qed
  then obtain u where u: "forM pre (run_jop ev) s = (Inr (), u)" "run_jop ev (last ops) u = (Inr (), t)"
    by (auto simp: thn_def bnd_def split: prod.splits sum.splits)
  let ?p = "pc + word_of_nat (length (concat bp))"
  from run_ops_steps [OF lay(1) assms(2) c(1) nw(1) protect.R_refl assms(4) tm(2) [folded pre_def] u(1)]
  have st: "step_n ev (length pre) s = (Inr (), u\<lparr>eip := ?p\<rparr>)" "protected_step (mem s) (mem u)" "lastPrefix u = Some prefix0"
    using assms(6) by auto
  have "code_at (mem u) ?p bl" by (rule code_at_protected [OF assms(2) st(2) c(2) nw(2)])
  moreover have "run_jop ev (last ops) (u\<lparr>eip := ?p\<rparr>) = (Inr (), t)" using run_jop_eip [OF u(2), of ?p] tm(1) by simp
  ultimately have "step ev (u\<lparr>eip := ?p\<rparr>) = (Inr (), t)"
    using step_op [OF lay(2), of "u\<lparr>eip := ?p\<rparr>" ev t] tm(1) st(3) by simp
  moreover have "length ops = length pre + 1" using ops unfolding pre_def by (metis length_append_singleton Suc_eq_plus1)
  then have "step_n ev (length ops) s = thn (step_n ev (length pre)) (step_n ev 1) s" by (simp only: step_n_append)
  ultimately show ?thesis using st(1) by (simp add: thn_def bnd_def)
qed

text \<open>
  C6: A compiled block does what the interpreter does. Take any state with a well-formed memory in which the compiler
  turns the code at the instruction pointer into a block, and in which the bytes of the block are not writable. If the
  block runs to its end, then the interpreter, started in the same state, makes as many steps as the block has
  operations without an error and arrives in the same state: registers, flags, memory, instruction pointer and step
  count. (The block starts with the field \<open>lastPrefix\<close> that the interpreter's first fetch leaves; no compiled operation
  reads it.)
\<close>

theorem jit_block_equivalent:
  assumes "mem_wf (mem s)" "compile j (eip s) (mem s) = Some b" "maxBlockInsns j < 2 ^ 29"
    "not_writable (mem s) (jb_start b) (unat (jb_end b - jb_start b))"
    "block_run ev b (s\<lparr>lastPrefix := Some prefix0\<rparr>) = (Inr (), t)"
  shows "step_n ev (length (jb_ops b)) s = (Inr (), t) \<and> 0 < length (jb_ops b)"
proof -
  let ?s = "s\<lparr>lastPrefix := Some prefix0\<rparr>"
  from compile_sound [OF assms(2)] obtain bss where b: "jb_start b = eip s" "jb_ops b \<noteq> []" "length (jb_ops b) \<le> maxBlockInsns j"
    "block_shape (mem s) (eip s) (jb_ops b) bss (jb_end b) (jb_terminal b)" by blast
  then have lay: "layout (eip s) (jb_ops b) bss" and e: "jb_end b - jb_start b = word_of_nat (length (concat bss))"
    and c: "code_at (mem s) (eip s) (concat bss)"
    by (simp_all add: block_shape_def)
  have "length (concat bss) < 2 ^ 32" using layout_length [OF lay] b(3) assms(3) by simp
  then have "unat (jb_end b - jb_start b) = length (concat bss)" unfolding e by (simp add: unat_of_nat take_bit_nat_eq_self)
  then have nw: "not_writable (mem ?s) (eip s) (length (concat bss))" using assms(4) b(1) by simp
  have "b = \<lparr>jb_start = eip s, jb_end = jb_end b, jb_ops = jb_ops b, jb_terminal = jb_terminal b\<rparr>" using b(1) by simp
  then have run: "block_run ev \<lparr>jb_start = eip s, jb_end = jb_end b, jb_ops = jb_ops b, jb_terminal = jb_terminal b\<rparr> ?s = (Inr (), t)"
    using assms(5) by simp
  have 1: "step_n ev (length (jb_ops b)) ?s = (Inr (), t)"
    using assms(1) b(4) by (intro block_steps [OF _ _ nw _ run]) simp_all
  obtain op ops where ops: "jb_ops b = op # ops" using b(2) by (cases "jb_ops b") auto
  then obtain bs rest where bs: "bss = bs # rest" "encodes (eip s) op bs" using lay by auto
  have "step ev ?s = step ev s" using bs c by (intro step_forgets_prefix [OF bs(2)]) (simp add: code_at_append)
  then show ?thesis using 1 by (simp add: ops thn_def bnd_def)
qed

text \<open>A loop of two instructions: \<open>inc eax\<close> and a jump back to it.\<close>

definition loop_cpu :: "unit cpu" where
  "loop_cpu = demo_cpu [0x40, 0xeb, 0xfd] (\<lambda>_. 0)"

definition loop_block :: jblock where
  "loop_block = \<lparr>jb_start = 16, jb_end = 19, jb_ops = [JInc 0, JJump 16], jb_terminal = True\<rparr>"

lemma loop_cpu_simps [simp]: "mem loop_cpu = demo_memory [0x40, 0xeb, 0xfd]" "eip loop_cpu = 16"
  by (simp_all add: loop_cpu_def demo_cpu_def new_CPU_def)

lemma loop_bytes:
  defines "m \<equiv> demo_memory [0x40, 0xeb, 0xfd]"
  shows "read8exec 16 m = (Inr 0x40, m)" "read8exec 17 m = (Inr 0xeb, m)" "read8exec 18 m = (Inr 0xfd, m)"
  by (simp_all add: m_def demo_memory_def read8exec_def pageNo_def pageOff_def new_Page_def perm_defs)

lemma loop_ops:
  defines "m \<equiv> demo_memory [0x40, 0xeb, 0xfd]"
  shows "compile_op 16 m = (Inr (Some (JInc 0, 17, False)), m)" "compile_op 17 m = (Inr (Some (JJump 16, 19, True)), m)"
  unfolding m_def by (simp_all add: compile_op_def decode_op_def bnd_def loop_bytes s8_def)

lemma loop_compiles: "compile new_jit 16 (demo_memory [0x40, 0xeb, 0xfd]) = Some loop_block"
proof -
  have "maxBlockInsns new_jit = Suc (Suc 22)" "maxBlockBytes new_jit = 64" by (simp_all add: new_jit_def)
  then show ?thesis by (simp only: compile_def compile_loop.simps) (simp add: bnd_def loop_ops loop_block_def)
qed

theorem jit_block_equivalent_witness:
  "\<exists>t. step_n demo_env 2 loop_cpu = (Inr (), t) \<and> regs t 0 = 1 \<and> eip t = 16"
proof -
  have i3: "i < 3 \<Longrightarrow> i = 0 \<or> i = 1 \<or> i = (2 :: nat)" for i by auto
  have "not_writable (mem loop_cpu) 16 3"
    unfolding not_writable_def
    by (auto dest!: i3 simp: demo_memory_def byte_at_def pageNo_def pageOff_def new_Page_def perm_defs)
  then have nw: "not_writable (mem loop_cpu) (jb_start loop_block) (unat (jb_end loop_block - jb_start loop_block))"
    by (simp add: loop_block_def)
  obtain t where t: "block_run demo_env loop_block (loop_cpu\<lparr>lastPrefix := Some prefix0\<rparr>) = (Inr (), t)" "regs t 0 = 1" "eip t = 16"
    by (auto simp: block_run_def loop_block_def jit_incdec_def add_op_def onFlags_def add_fl_def setFlag_def op_parts whenM_def
        loop_cpu_def demo_cpu_def new_CPU_def Let_def)
  have "maxBlockInsns new_jit < 2 ^ 29" by (simp add: new_jit_def)
  then have "step_n demo_env (length (jb_ops loop_block)) loop_cpu = (Inr (), t)"
    using jit_block_equivalent [of loop_cpu new_jit loop_block demo_env t] loop_compiles demo_wf nw t(1) by simp
  moreover have "length (jb_ops loop_block) = 2" by (simp add: loop_block_def)
  ultimately have "step_n demo_env 2 loop_cpu = (Inr (), t)" by (simp only:)
  with t(2,3) show ?thesis by blast
qed

end
