(* ===== verification/Devices.thy ===== *)
theory Devices
  imports Vfs "HOL-Library.List_Lexorder" "HOL-Library.Char_ord"
begin

text \<open>
  The devices of \<open>src/devices.js\<close>: the in-memory file device, the file device of a web server, the overlay of two
  file devices, the block device over a byte array and the byte device over HTTP ranges. The methods are
  asynchronous; each is one atomic step here, since none of them is left between reading and writing its own
  state other than in the calls to \<open>fetch\<close>, whose result is the state's \<open>'w\<close> part: everything outside the program.
  Bytes are values: the aliasing of a mounted array with the file system's is not kept.
\<close>

section \<open>Paths\<close>

definition norm_path :: "string \<Rightarrow> string" where
  "norm_path path = ''/'' @ join_slash (foldl path_step [] (split_slash (if path = [] then ''/'' else path)))"

definition join_path :: "string \<Rightarrow> string \<Rightarrow> string" where
  "join_path rt path =
     (let r = norm_path (if rt = [] then ''/'' else rt); p = norm_path (if path = [] then ''/'' else path) in
      if r = ''/'' then p else if p = ''/'' then r else norm_path (r @ ''/'' @ drop 1 p))"

definition startsWith :: "string \<Rightarrow> string \<Rightarrow> bool" where
  "startsWith s pre \<longleftrightarrow> take (length pre) s = pre"

definition in_listing :: "string \<Rightarrow> string \<Rightarrow> bool" where
  "in_listing p k \<longleftrightarrow> k = p \<or> startsWith k (if p = ''/'' then ''/'' else p @ ''/'')"

section \<open>DataDevice\<close>

datatype dev_error =
    NotFound string
  | Deleted string
  | HttpError string nat
  | ReadOnly
  | OutsideImage int int

type_synonym ('s, 'a) devM = "('s, dev_error, 'a) sem"

record data_device =
  dd_files :: "(string, u8 list) jsmap"

definition data_readFile :: "string \<Rightarrow> (data_device, u8 list) devM" where
  "data_readFile path = (let key = norm_path path in
     bnd (getS (\<lambda>d. map_of (dd_files d) key)) (\<lambda>r. case r of None \<Rightarrow> throw (NotFound key) | Some bs \<Rightarrow> ret bs))"

definition data_writeFile :: "string \<Rightarrow> u8 list \<Rightarrow> (data_device, unit) devM" where
  "data_writeFile path bs = modS (\<lambda>d. d\<lparr>dd_files := AList.update (norm_path path) bs (dd_files d)\<rparr>)"

definition data_deleteFile :: "string \<Rightarrow> (data_device, unit) devM" where
  "data_deleteFile path = modS (\<lambda>d. d\<lparr>dd_files := AList.delete (norm_path path) (dd_files d)\<rparr>)"

definition data_exists :: "string \<Rightarrow> data_device \<Rightarrow> bool" where
  "data_exists path d \<longleftrightarrow> map_of (dd_files d) (norm_path path) \<noteq> None"

definition data_list :: "string \<Rightarrow> data_device \<Rightarrow> string list" where
  "data_list prefix d = sort (filter (in_listing (norm_path prefix)) (map fst (dd_files d)))"

definition new_data_device :: "(string \<times> u8 list) list \<Rightarrow> data_device" where
  "new_data_device files = foldl (\<lambda>d (path, bs). snd (data_writeFile path bs d)) \<lparr>dd_files = []\<rparr> files"

definition data_mountTo :: "data_device \<Rightarrow> vfs \<Rightarrow> string \<Rightarrow> unit vfsM" where
  "data_mountTo d v rt = forM (dd_files d) (\<lambda>(path, bs). thn (writeFile v (join_path rt path) bs 0x1a4) (ret ()))"

definition data_snapshot :: "data_device \<Rightarrow> (string, u8 list) jsmap" where
  "data_snapshot d = dd_files d"

section \<open>WebDevice\<close>

text \<open>\<open>fetch\<close> is the host's: it turns a URL into a response and may change the world it talks to.\<close>

record response =
  rs_status :: nat
  rs_body :: "u8 list"

definition rs_ok :: "response \<Rightarrow> bool" where
  "rs_ok r \<longleftrightarrow> 200 \<le> rs_status r \<and> rs_status r \<le> 299"

record 'w web_device =
  wd_baseUrl :: string
  wd_cache :: bool
  wd_cacheMap :: "(string, u8 list) jsmap"
  wd_world :: 'w

definition new_web_device :: "string \<Rightarrow> bool option \<Rightarrow> 'w \<Rightarrow> 'w web_device" where
  "new_web_device url cache w = \<lparr>wd_baseUrl = url, wd_cache = (cache \<noteq> Some False), wd_cacheMap = [], wd_world = w\<rparr>"

text \<open>\<open>encodeURIComponent\<close> on text held as bytes: the unreserved characters stay, every other byte is escaped.\<close>

definition unreserved :: string where
  "unreserved = ''ABCDEFGHIJKLMNOPQRSTUVWXYZabcdefghijklmnopqrstuvwxyz0123456789-_.!~*()'' @ [CHR 0x27]"

definition upper_hex :: "nat \<Rightarrow> char" where
  "upper_hex d = ''0123456789ABCDEF'' ! d"

definition encodeURIComponent :: "string \<Rightarrow> string" where
  "encodeURIComponent s = concat (map (\<lambda>c. if c \<in> set unreserved then [c]
     else let b = of_char c :: nat in [CHR ''%'', upper_hex (b div 16), upper_hex (b mod 16)]) s)"

definition urlFor :: "string \<Rightarrow> string \<Rightarrow> string" where
  "urlFor url path =
     (let p = join_slash (map encodeURIComponent (split_slash (drop 1 (norm_path path)))) in
      (if url \<noteq> [] \<and> last url = CHR ''/'' then butlast url else url) @ ''/'' @ p)"

definition web_readFile :: "(string \<Rightarrow> 'w \<Rightarrow> response \<times> 'w) \<Rightarrow> string \<Rightarrow> ('w web_device, u8 list) devM" where
  "web_readFile fetch path = (\<lambda>d. let key = norm_path path in
     case map_of (wd_cacheMap d) key of
       Some bs \<Rightarrow> (Inr bs, d)
     | None \<Rightarrow> (case fetch (urlFor (wd_baseUrl d) key) (wd_world d) of (r, w) \<Rightarrow>
         let d1 = d\<lparr>wd_world := w\<rparr> in
         if \<not> rs_ok r then (Inl (HttpError key (rs_status r)), d1)
         else (Inr (rs_body r),
           if wd_cache d then d1\<lparr>wd_cacheMap := AList.update key (rs_body r) (wd_cacheMap d)\<rparr> else d1)))"

definition web_writeFile :: "('w web_device, unit) devM" where
  "web_writeFile = throw ReadOnly"

section \<open>OverlayDevice\<close>

text \<open>
  The upper layer is the in-memory device the constructor makes. The lower one is any object with \<open>readFile\<close> and
  perhaps \<open>list\<close>: a record of its methods.
\<close>

record 'l lower_ops =
  lo_readFile :: "string \<Rightarrow> ('l, u8 list) devM"
  lo_list :: "(string \<Rightarrow> ('l, string list) devM) option"

record 'l overlay_device =
  od_lower :: 'l
  od_upper :: data_device
  od_whiteouts :: "string list"

definition new_overlay_device :: "'l \<Rightarrow> 'l overlay_device" where
  "new_overlay_device l = \<lparr>od_lower = l, od_upper = \<lparr>dd_files = []\<rparr>, od_whiteouts = []\<rparr>"

definition onLower :: "('l, 'a) devM \<Rightarrow> ('l overlay_device, 'a) devM" where
  "onLower m = (\<lambda>d. case m (od_lower d) of (r, l) \<Rightarrow> (r, d\<lparr>od_lower := l\<rparr>))"

definition onUpper :: "(data_device, 'a) devM \<Rightarrow> ('l overlay_device, 'a) devM" where
  "onUpper m = (\<lambda>d. case m (od_upper d) of (r, u) \<Rightarrow> (r, d\<lparr>od_upper := u\<rparr>))"

definition overlay_readFile :: "'l lower_ops \<Rightarrow> string \<Rightarrow> ('l overlay_device, u8 list) devM" where
  "overlay_readFile ops path = (\<lambda>d. let key = norm_path path in
     if key \<in> set (od_whiteouts d) then (Inl (Deleted key), d)
     else case onUpper (data_readFile key) d of
       (Inr bs, d') \<Rightarrow> (Inr bs, d')
     | (Inl _, d') \<Rightarrow> onLower (lo_readFile ops key) d')"

definition overlay_writeFile :: "string \<Rightarrow> u8 list \<Rightarrow> ('l overlay_device, unit) devM" where
  "overlay_writeFile path bs = (let key = norm_path path in
     thn (modS (\<lambda>d. d\<lparr>od_whiteouts := filter (\<lambda>k. k \<noteq> key) (od_whiteouts d)\<rparr>)) (onUpper (data_writeFile key bs)))"

definition overlay_deleteFile :: "string \<Rightarrow> ('l overlay_device, unit) devM" where
  "overlay_deleteFile path = (let key = norm_path path in
     thn (modS (\<lambda>d. d\<lparr>od_whiteouts := (if key \<in> set (od_whiteouts d) then od_whiteouts d else od_whiteouts d @ [key])\<rparr>))
       (onUpper (data_deleteFile key)))"

definition overlay_list :: "'l lower_ops \<Rightarrow> string \<Rightarrow> ('l overlay_device, string list) devM" where
  "overlay_list ops prefix =
     bnd (case lo_list ops of None \<Rightarrow> ret [] | Some f \<Rightarrow> onLower (f prefix)) (\<lambda>low.
     bnd (getS (\<lambda>d. data_list prefix (od_upper d))) (\<lambda>up.
     getS (\<lambda>d. sort (filter (\<lambda>p. norm_path p \<notin> set (od_whiteouts d)) (remdups (low @ up))))))"

text \<open>Mounting reads every listed file and writes it into a file system; the first error ends it.\<close>

datatype mount_error = MDevice dev_error | MVfs vfs_error

definition overlay_mount_one ::
  "'l lower_ops \<Rightarrow> vfs \<Rightarrow> string \<Rightarrow> string \<Rightarrow> ('l overlay_device \<times> heap, mount_error, unit) sem" where
  "overlay_mount_one ops v rt path = (\<lambda>(d, h). case overlay_readFile ops path d of
     (Inl e, d') \<Rightarrow> (Inl (MDevice e), (d', h))
   | (Inr bs, d') \<Rightarrow> (case writeFile v (join_path rt path) bs 0x1a4 h of
         (Inl e, h') \<Rightarrow> (Inl (MVfs e), (d', h'))
       | (Inr _, h') \<Rightarrow> (Inr (), (d', h'))))"

definition overlay_mountTo ::
  "'l lower_ops \<Rightarrow> vfs \<Rightarrow> string \<Rightarrow> ('l overlay_device \<times> heap, mount_error, unit) sem" where
  "overlay_mountTo ops v rt = (\<lambda>(d, h). case overlay_list ops ''/'' d of
     (Inl e, d') \<Rightarrow> (Inl (MDevice e), (d', h))
   | (Inr ps, d') \<Rightarrow> forM ps (overlay_mount_one ops v rt) (d', h))"

section \<open>BufferBlockDevice\<close>

definition buffer_read :: "u8 list \<Rightarrow> int \<Rightarrow> int \<Rightarrow> dev_error + u8 list" where
  "buffer_read img offset len =
     (if offset < 0 \<or> len < 0 \<or> offset + len > int (length img) then Inl (OutsideImage offset len)
      else Inr (take (nat len) (drop (nat offset) img)))"

section \<open>HttpBytesDevice\<close>

text \<open>\<open>fetch\<close> takes the first and the last byte of the \<open>Range\<close> header.\<close>

record 'w http_device =
  hd_url :: string
  hd_pageSize :: nat
  hd_cache :: "(nat, u8 list) jsmap"
  hd_world :: 'w

type_synonym 'w fetch_range = "string \<Rightarrow> nat \<Rightarrow> nat \<Rightarrow> 'w \<Rightarrow> response \<times> 'w"

definition new_http_device :: "string \<Rightarrow> nat option \<Rightarrow> 'w \<Rightarrow> 'w http_device" where
  "new_http_device url ps w =
     \<lparr>hd_url = url, hd_pageSize = (case ps of Some n \<Rightarrow> n | None \<Rightarrow> 65536), hd_cache = [], hd_world = w\<rparr>"

definition http_page :: "'w fetch_range \<Rightarrow> nat \<Rightarrow> ('w http_device, u8 list) devM" where
  "http_page fetch pageNo = (\<lambda>d. case map_of (hd_cache d) pageNo of
     Some bs \<Rightarrow> (Inr bs, d)
   | None \<Rightarrow> (let start = pageNo * hd_pageSize d; fin = start + hd_pageSize d - 1 in
       case fetch (hd_url d) start fin (hd_world d) of (r, w) \<Rightarrow>
         let d1 = d\<lparr>hd_world := w\<rparr> in
         if \<not> (rs_status r = 206 \<or> rs_ok r) then (Inl (HttpError (hd_url d) (rs_status r)), d1)
         else (Inr (rs_body r), d1\<lparr>hd_cache := AList.update pageNo (rs_body r) (hd_cache d)\<rparr>)))"

text \<open>The loop of \<open>read\<close>: \<open>out\<close> holds the bytes copied so far.\<close>

function http_loop ::
  "(nat \<Rightarrow> ('s, u8 list) devM) \<Rightarrow> nat \<Rightarrow> nat \<Rightarrow> nat \<Rightarrow> u8 list \<Rightarrow> ('s, u8 list) devM" where
  "http_loop pg ps offset len out s =
     (if length out < len
      then let at = offset + length out; pageOff = at mod ps in
        case pg (at div ps) s of
          (Inl e, s') \<Rightarrow> (Inl e, s')
        | (Inr page, s') \<Rightarrow>
            let n = min (len - length out) (length page - pageOff) in
            if n = 0 then (Inr out, s') else http_loop pg ps offset len (out @ take n (drop pageOff page)) s'
      else (Inr out, s))"
  by pat_completeness auto

termination
  by (relation "measure (\<lambda>(pg, ps, offset, len, out, s). len - length out)") auto

declare http_loop.simps [simp del]

definition http_read :: "'w fetch_range \<Rightarrow> nat \<Rightarrow> nat \<Rightarrow> ('w http_device, u8 list) devM" where
  "http_read fetch offset len = (\<lambda>d. http_loop (http_page fetch) (hd_pageSize d) offset len [] d)"

end
