(* ===== verification/Devices_Props.thy ===== *)
theory Devices_Props
  imports Devices
begin

text \<open>
  The overlay of two file devices is a map of paths to bytes, whatever is written and deleted; the HTTP byte device
  with its page cache reads what the block device over the whole image reads.
\<close>

section \<open>Paths\<close>

lemma norm_path_eq: "norm_path p = normalizePath p"
  by (simp add: norm_path_def normalizePath_def norm_parts_def)

lemma norm_path_idem [simp]: "norm_path (norm_path p) = norm_path p"
proof -
  have "norm_parts (normalizePath p) = norm_parts (if p = [] then ''/'' else p)"
    by (rule norm_parts_normalizePath)
  moreover have "normalizePath p \<noteq> []"
    by (simp add: normalizePath_def)
  ultimately show ?thesis
    unfolding norm_path_eq by (simp add: normalizePath_def)
qed

lemma norm_path_listed: "in_listing (norm_path ''/'') (norm_path p)"
  by (simp add: in_listing_def startsWith_def norm_path_def path_step_def)

section \<open>File devices\<close>

text \<open>
  What the overlay relies on below it: reading a normalized path gives the bytes of a fixed table of files, or some
  error, and leaves the table as it is.
\<close>

locale file_device =
  fixes rd :: "string \<Rightarrow> ('l, u8 list) devM"
    and files :: "'l \<Rightarrow> string \<Rightarrow> u8 list option"
  assumes read_found: "files l (norm_path p) = Some bs \<Longrightarrow> fst (rd (norm_path p) l) = Inr bs"
    and read_missing: "files l (norm_path p) = None \<Longrightarrow> \<exists>e. fst (rd (norm_path p) l) = Inl e"
    and read_keeps: "files (snd (rd k l)) = files l"

definition overlay_files :: "('l \<Rightarrow> string \<Rightarrow> u8 list option) \<Rightarrow> 'l overlay_device \<Rightarrow> string \<Rightarrow> u8 list option" where
  "overlay_files files d k =
     (if k \<in> set (od_whiteouts d) then None
      else case map_of (dd_files (od_upper d)) k of Some bs \<Rightarrow> Some bs | None \<Rightarrow> files (od_lower d) k)"

lemma data_read:
  "data_readFile p d = (case map_of (dd_files d) (norm_path p) of None \<Rightarrow> Inl (NotFound (norm_path p)) | Some bs \<Rightarrow> Inr bs, d)"
  by (auto simp: data_readFile_def Let_def split: option.split)

context file_device
begin

lemma read_eq_Inr: "fst (rd (norm_path p) l) = Inr bs \<longleftrightarrow> files l (norm_path p) = Some bs"
proof (cases "files l (norm_path p)")
  case None
  then show ?thesis using read_missing [of l p] by auto
next
  case (Some x)
  then show ?thesis using read_found [of l p x] by auto
qed

lemma overlay_read_eq:
  assumes "lo_readFile ops = rd"
  shows "overlay_readFile ops p d =
    (if norm_path p \<in> set (od_whiteouts d) then (Inl (Deleted (norm_path p)), d)
     else case map_of (dd_files (od_upper d)) (norm_path p) of
       Some bs \<Rightarrow> (Inr bs, d)
     | None \<Rightarrow> (fst (rd (norm_path p) (od_lower d)), d\<lparr>od_lower := snd (rd (norm_path p) (od_lower d))\<rparr>))"
  using assms
  by (auto simp: overlay_readFile_def onUpper_def onLower_def data_read Let_def split: option.split prod.split)

text \<open>An overlay is a file device again, so overlays stack.\<close>

lemma overlay_device:
  assumes "lo_readFile ops = rd"
  shows "file_device (overlay_readFile ops) (overlay_files files)"
proof
  fix d :: "'l overlay_device" and p bs
  show "overlay_files files d (norm_path p) = Some bs \<Longrightarrow> fst (overlay_readFile ops (norm_path p) d) = Inr bs"
    by (auto simp: overlay_read_eq [OF assms] overlay_files_def read_found split: if_splits option.splits)
  show "overlay_files files d (norm_path p) = None \<Longrightarrow> \<exists>e. fst (overlay_readFile ops (norm_path p) d) = Inl e"
    by (auto simp: overlay_read_eq [OF assms] overlay_files_def read_missing split: if_splits option.splits)
next
  fix d :: "'l overlay_device" and k
  show "overlay_files files (snd (overlay_readFile ops k d)) = overlay_files files d"
    by (auto simp: overlay_read_eq [OF assms] overlay_files_def read_keeps fun_eq_iff split: option.split)
qed

end

interpretation data: file_device data_readFile "\<lambda>d. map_of (dd_files d)"
  by unfold_locales (auto simp: data_read split: option.split)

definition data_ops :: "data_device lower_ops" where
  "data_ops = \<lparr>lo_readFile = data_readFile, lo_list = Some (\<lambda>p. getS (data_list p))\<rparr>"

interpretation over_data: file_device "overlay_readFile data_ops" "overlay_files (\<lambda>d. map_of (dd_files d))"
  by (rule data.overlay_device) (simp add: data_ops_def)

section \<open>The overlay is a map\<close>

datatype dev_op = DWrite string "u8 list" | DDelete string

definition dev_step :: "dev_op \<Rightarrow> 'l overlay_device \<Rightarrow> 'l overlay_device" where
  "dev_step x d = (case x of DWrite p bs \<Rightarrow> snd (overlay_writeFile p bs d) | DDelete p \<Rightarrow> snd (overlay_deleteFile p d))"

definition map_step :: "dev_op \<Rightarrow> (string \<Rightarrow> u8 list option) \<Rightarrow> string \<Rightarrow> u8 list option" where
  "map_step x m = (case x of DWrite p bs \<Rightarrow> m(norm_path p \<mapsto> bs) | DDelete p \<Rightarrow> m(norm_path p := None))"

lemma dev_step_fields:
  "od_lower (dev_step x d) = od_lower d"
  "dd_files (od_upper (dev_step x d)) = (case x of DWrite p bs \<Rightarrow> AList.update (norm_path p) bs (dd_files (od_upper d))
     | DDelete p \<Rightarrow> AList.delete (norm_path p) (dd_files (od_upper d)))"
  "set (od_whiteouts (dev_step x d)) = (case x of DWrite p bs \<Rightarrow> set (od_whiteouts d) - {norm_path p}
     | DDelete p \<Rightarrow> insert (norm_path p) (set (od_whiteouts d)))"
  by (auto simp: dev_step_def overlay_writeFile_def overlay_deleteFile_def onUpper_def data_writeFile_def
      data_deleteFile_def Let_def split: dev_op.split)

lemma overlay_step_refines: "overlay_files files (dev_step x d) = map_step x (overlay_files files d)"
  by (auto simp: overlay_files_def map_step_def dev_step_fields fun_eq_iff split: dev_op.split option.split)

lemma overlay_run_refines: "overlay_files files (fold dev_step xs d) = fold map_step xs (overlay_files files d)"
  by (induction xs arbitrary: d) (simp_all add: overlay_step_refines)

definition clean_keys :: "(string, u8 list) jsmap \<Rightarrow> bool" where
  "clean_keys m \<longleftrightarrow> (\<forall>k \<in> fst ` set m. norm_path k = k)"

lemma clean_keys_step: "clean_keys (dd_files (od_upper d)) \<Longrightarrow> clean_keys (dd_files (od_upper (dev_step x d)))"
  by (auto simp: clean_keys_def dev_step_fields set_delete_eq split: dev_op.split dest!: set_mp [OF set_update_sub])

lemma clean_keys_run: "clean_keys (dd_files (od_upper d)) \<Longrightarrow> clean_keys (dd_files (od_upper (fold dev_step xs d)))"
  by (induction xs arbitrary: d) (simp_all add: clean_keys_step)

lemma lower_run: "od_lower (fold dev_step xs d) = od_lower d"
  by (induction xs arbitrary: d) (simp_all add: dev_step_fields)

lemma data_writes:
  "dd_files (foldl (\<lambda>d (path, bs). snd (data_writeFile path bs d)) d fs) =
     foldl (\<lambda>m (path, bs). AList.update (norm_path path) bs m) (dd_files d) fs"
  by (induction fs arbitrary: d) (auto simp: data_writeFile_def)

lemma new_data_device_files:
  "map_of (dd_files (new_data_device fs)) = fold (\<lambda>(p, bs). map_step (DWrite p bs)) fs Map.empty \<and>
   clean_keys (dd_files (new_data_device fs))"
proof -
  have "map_of (foldl (\<lambda>m (path, bs). AList.update (norm_path path) bs m) m fs) =
      fold (\<lambda>(p, bs). map_step (DWrite p bs)) fs (map_of m)" for m :: "(string, u8 list) jsmap"
    by (induction fs arbitrary: m) (auto simp: map_step_def)
  moreover have "clean_keys m \<Longrightarrow> clean_keys (foldl (\<lambda>m (path, bs). AList.update (norm_path path) bs m) m fs)" for m
    by (induction fs arbitrary: m)
      (force simp: clean_keys_def dest!: set_mp [OF set_update_sub] split: prod.splits)+
  moreover have "clean_keys []" by (simp add: clean_keys_def)
  ultimately show ?thesis
    by (simp add: new_data_device_def data_writes)
qed

lemma listed_keys:
  assumes "clean_keys m"
  shows "filter (in_listing (norm_path ''/'')) (map fst m) = map fst m"
proof -
  have "in_listing (norm_path ''/'') k" if "k \<in> set (map fst m)" for k
    using that assms norm_path_listed [of k] unfolding clean_keys_def set_map by metis
  then show ?thesis by (simp add: filter_id_conv)
qed

lemma overlay_list_data:
  assumes "clean_keys (dd_files (od_upper d))" "clean_keys (dd_files (od_lower d))"
  obtains ks d' where "overlay_list data_ops ''/'' d = (Inr ks, d')" "sorted ks" "distinct ks"
    "set ks = dom (overlay_files (\<lambda>d. map_of (dd_files d)) d)"
proof
  let ?low = "data_list ''/'' (od_lower d)" and ?up = "data_list ''/'' (od_upper d)"
  let ?ks = "sort (filter (\<lambda>p. norm_path p \<notin> set (od_whiteouts d)) (remdups (?low @ ?up)))"
  show "overlay_list data_ops ''/'' d = (Inr ?ks, d)"
    by (simp add: overlay_list_def data_ops_def onLower_def bnd_def getS_def)
  show "sorted ?ks" "distinct ?ks" by simp_all
  have sets: "set ?low = dom (map_of (dd_files (od_lower d)))" "set ?up = dom (map_of (dd_files (od_upper d)))"
    using assms by (simp_all add: data_list_def listed_keys dom_map_of_conv_image_fst)
  have "norm_path k = k" if "k \<in> set ?low \<union> set ?up" for k
    using that assms by (auto simp: data_list_def listed_keys clean_keys_def)
  with sets show "set ?ks = dom (overlay_files (\<lambda>d. map_of (dd_files d)) d)"
    by (auto simp: overlay_files_def dom_def split: option.splits if_splits)
qed

text \<open>
  C40: the overlay device over an in-memory device behaves as one map from normalized paths to bytes: after any writes
  and deletes, reading returns exactly the bytes of the map, paths that are not in it fail, the listing of the root is
  the sorted list of the map's paths, and the lower device is as it was.
\<close>

theorem overlay_device_refines:
  "let lower = new_data_device fs;
       d = fold dev_step xs (new_overlay_device lower);
       m = fold map_step xs (fold (\<lambda>(p, bs). map_step (DWrite p bs)) fs Map.empty) in
   (\<forall>q bs. fst (overlay_readFile data_ops q d) = Inr bs \<longleftrightarrow> m (norm_path q) = Some bs) \<and>
   (\<exists>ks. fst (overlay_list data_ops ''/'' d) = Inr ks \<and> sorted ks \<and> distinct ks \<and> set ks = dom m) \<and>
   od_lower d = lower"
proof -
  let ?lower = "new_data_device fs"
  let ?d = "fold dev_step xs (new_overlay_device ?lower)"
  let ?m = "fold map_step xs (fold (\<lambda>(p, bs). map_step (DWrite p bs)) fs Map.empty)"
  have m: "overlay_files (\<lambda>d. map_of (dd_files d)) ?d = ?m"
    using new_data_device_files [of fs]
    by (simp add: overlay_run_refines) (simp add: overlay_files_def [abs_def] new_overlay_device_def)
  have low: "od_lower ?d = ?lower"
    by (simp add: lower_run new_overlay_device_def)
  have "overlay_readFile data_ops q ?d = overlay_readFile data_ops (norm_path q) ?d" for q
    by (simp add: overlay_readFile_def)
  then have "fst (overlay_readFile data_ops q ?d) = Inr bs \<longleftrightarrow> ?m (norm_path q) = Some bs" for q bs
    using over_data.read_eq_Inr [of q ?d bs] m by metis
  moreover obtain ks d' where "overlay_list data_ops ''/'' ?d = (Inr ks, d')" "sorted ks" "distinct ks" "set ks = dom ?m"
  proof (rule overlay_list_data [of ?d])
    show "clean_keys (dd_files (od_upper ?d))"
      by (rule clean_keys_run) (simp add: new_overlay_device_def clean_keys_def)
    show "clean_keys (dd_files (od_lower ?d))"
      using new_data_device_files low by simp
  qed (use m in auto)
  ultimately show ?thesis
    using low by (simp add: Let_def)
qed

section \<open>The page cache\<close>

text \<open>A server that honours ranges: the part of the image between the first and the last byte, cut at the end.\<close>

definition serves :: "u8 list \<Rightarrow> 'w fetch_range \<Rightarrow> bool" where
  "serves img fetch \<longleftrightarrow> (\<forall>url a b w. a < length img \<longrightarrow>
     rs_status (fst (fetch url a b w)) = 206 \<and> rs_body (fst (fetch url a b w)) = take (Suc b - a) (drop a img))"

definition cache_ok :: "u8 list \<Rightarrow> nat \<Rightarrow> 'w http_device \<Rightarrow> bool" where
  "cache_ok img ps d \<longleftrightarrow> hd_pageSize d = ps \<and>
     (\<forall>n bs. map_of (hd_cache d) n = Some bs \<longrightarrow> n * ps < length img \<longrightarrow> bs = take ps (drop (n * ps) img))"

lemma http_page_ok:
  assumes "serves img fetch" "cache_ok img ps d" "0 < ps"
  shows "cache_ok img ps (snd (http_page fetch n d))"
    and "n * ps < length img \<Longrightarrow> fst (http_page fetch n d) = Inr (take ps (drop (n * ps) img))"
proof -
  obtain r w where f: "fetch (hd_url d) (n * ps) (n * ps + ps - 1) (hd_world d) = (r, w)" by fastforce
  have r: "rs_status r = 206 \<and> rs_body r = take ps (drop (n * ps) img)" if "n * ps < length img"
  proof -
    have "Suc (n * ps + ps - 1) - n * ps = ps" using assms(3) by simp
    then show ?thesis using assms(1) that f unfolding serves_def by (metis fst_conv)
  qed
  have ps: "hd_pageSize d = ps" using assms(2) by (simp add: cache_ok_def)
  show "cache_ok img ps (snd (http_page fetch n d))"
    using assms(2) r f by (auto simp: http_page_def cache_ok_def Let_def split: option.split)
  show "n * ps < length img \<Longrightarrow> fst (http_page fetch n d) = Inr (take ps (drop (n * ps) img))"
    using assms(2) r f ps by (auto simp: http_page_def cache_ok_def Let_def split: option.split)
qed

lemma http_loop_keeps:
  assumes "\<And>n s. P s \<Longrightarrow> P (snd (pg n s))" "P s"
  shows "P (snd (http_loop pg ps off len out s))"
  using assms
proof (induction pg ps off len out s rule: http_loop.induct)
  case (1 pg ps off len out s)
  then show ?case
    by (subst http_loop.simps) (auto simp: Let_def split: prod.split sum.split, (metis snd_conv)+)
qed

lemma http_read_keeps:
  assumes "serves img fetch" "cache_ok img ps d" "0 < ps"
  shows "cache_ok img ps (snd (http_read fetch off len d))"
  unfolding http_read_def
  by (rule http_loop_keeps [where P = "cache_ok img ps"]) (use assms http_page_ok(1) in blast)+

text \<open>One round inside the image copies at least one byte, the right ones.\<close>

lemma page_part:
  fixes img :: "u8 list"
  assumes "0 < ps" "at < length img"
  defines "page \<equiv> take ps (drop (at div ps * ps) img)"
  shows "at div ps * ps < length img" "at mod ps < length page"
    "take n (drop (at mod ps) page) = take (min n (length page - at mod ps)) (drop at img)"
proof -
  have at: "at div ps * ps + at mod ps = at" by simp
  then show "at div ps * ps < length img" using assms(2) by linarith
  show "at mod ps < length page"
    using assms(1,2) mod_less_divisor [OF assms(1), of at] at unfolding page_def length_take length_drop min_less_iff_conj
    by linarith
  let ?D = "drop (at mod ps) page"
  have D: "?D = take (ps - at mod ps) (drop at img)"
    unfolding page_def by (simp add: drop_take add.commute)
  have len: "length ?D \<le> ps - at mod ps"
    by (subst D) simp
  have "take n ?D = take (min n (length ?D)) ?D"
    by (metis take_all_iff take_take order_refl)
  also have "\<dots> = take (min n (length ?D)) (take (ps - at mod ps) (drop at img))"
    by (simp only: D)
  also have "\<dots> = take (min n (length ?D)) (drop at img)"
    unfolding take_take using len by (simp add: min_def)
  finally show "take n ?D = take (min n (length page - at mod ps)) (drop at img)"
    by simp
qed

lemma http_loop_reads:
  assumes "serves img fetch" "cache_ok img ps d" "0 < ps" "off + len \<le> length img"
    "length out \<le> len" "out = take (length out) (drop off img)"
  shows "fst (http_loop (http_page fetch) ps off len out d) = Inr (take len (drop off img))"
  using assms
proof (induction "http_page fetch" ps off len out d rule: http_loop.induct)
  case (1 ps off len out d)
  show ?case
  proof (cases "length out < len")
    case False
    then show ?thesis using 1 by (subst http_loop.simps) simp
  next
    case True
    let ?at = "off + length out"
    let ?page = "take ps (drop (?at div ps * ps) img)"
    let ?n = "min (len - length out) (length ?page - ?at mod ps)"
    have in_img: "?at < length img" using True 1 by simp
    note part = page_part [OF \<open>0 < ps\<close> in_img]
    obtain d' where pg: "http_page fetch (?at div ps) d = (Inr ?page, d')" "cache_ok img ps d'"
      using http_page_ok [OF 1(2,3) \<open>0 < ps\<close>, of "?at div ps"] part(1) by (metis prod.collapse)
    have n: "?n \<noteq> 0" "?n \<le> len - length out" using part(2) True by auto
    let ?out = "out @ take ?n (drop (?at mod ps) ?page)"
    have "min ?n (length ?page - ?at mod ps) = ?n" by (rule min_absorb1) (rule min.cobounded2)
    then have piece: "take ?n (drop (?at mod ps) ?page) = take ?n (drop ?at img)"
      using part(3) [of ?n] by metis
    have len_piece: "length (take ?n (drop ?at img)) = ?n"
      using n(2) 1(5) True unfolding length_take length_drop by linarith
    have out: "?out = take (length ?out) (drop off img)"
      unfolding piece length_append len_piece take_add drop_drop
      using 1(7) by (simp add: add.commute)
    have fits: "length ?out \<le> len"
      unfolding piece length_append len_piece using n(2) 1(6) by linarith
    have "fst (http_loop (http_page fetch) ps off len ?out d') = Inr (take len (drop off img))"
      by (rule 1(1) [OF True refl refl pg(1) [symmetric] refl refl n(1) 1(2) pg(2) 1(4) 1(5) fits out])
    moreover have "http_loop (http_page fetch) ps off len out d = http_loop (http_page fetch) ps off len ?out d'"
      by (subst http_loop.simps) (simp only: True if_True Let_def pg(1) n(1) if_False prod.case sum.case)
    ultimately show ?thesis by simp
  qed
qed

text \<open>
  C38: the HTTP byte device with its page cache is the block device over the image. Against a server that honours
  ranges, after any earlier reads, also failed ones, reading a range inside the image returns the bytes that
  \<open>BufferBlockDevice\<close> returns for it.
\<close>

theorem http_read_refines:
  assumes "serves img fetch" "0 < ps" "off + len \<le> length img"
  shows "fst (http_read fetch off len
      (fold (\<lambda>(a, n) d. snd (http_read fetch a n d)) earlier (new_http_device url (Some ps) w)))
    = buffer_read img (int off) (int len)"
proof -
  let ?d = "fold (\<lambda>(a, n) d. snd (http_read fetch a n d)) earlier (new_http_device url (Some ps) w)"
  have "cache_ok img ps d \<Longrightarrow> cache_ok img ps (fold (\<lambda>(a, n) d. snd (http_read fetch a n d)) earlier d)" for d
    by (induction earlier arbitrary: d) (auto intro: http_read_keeps [OF assms(1) _ assms(2)])
  moreover have "cache_ok img ps (new_http_device url (Some ps) w)"
    by (simp add: cache_ok_def new_http_device_def)
  ultimately obtain d where d: "?d = d" and ok: "cache_ok img ps d"
    by blast
  have "fst (http_read fetch off len d) = Inr (take len (drop off img))"
    using http_loop_reads [OF assms(1) ok assms(2,3), of "[]"] ok by (simp add: http_read_def cache_ok_def)
  moreover have "buffer_read img (int off) (int len) = Inr (take len (drop off img))"
    using assms(3) by (simp add: buffer_read_def)
  ultimately show ?thesis
    unfolding d by simp
qed

definition range_server :: "u8 list \<Rightarrow> unit fetch_range" where
  "range_server img url a b w = (\<lparr>rs_status = (if a < length img then 206 else 416), rs_body = take (Suc b - a) (drop a img)\<rparr>, w)"

theorem http_read_refines_witness:
  "fst (http_read (range_server [1, 2, 3, 4, 5]) 1 4
      (fold (\<lambda>(a, n) d. snd (http_read (range_server [1, 2, 3, 4, 5]) a n d)) [(4, 9), (0, 1)]
        (new_http_device ''u'' (Some 2) ())))
    = Inr [2, 3, 4, 5]"
  using http_read_refines [of "[1, 2, 3, 4, 5]" "range_server [1, 2, 3, 4, 5]" 2 1 4 "[(4, 9), (0, 1)]" "''u''" "()"]
  by (simp add: serves_def range_server_def buffer_read_def)

text \<open>A server that answers every request with the whole file and status 200 is accepted, and every page but the first is
  wrong.\<close>

lemma full_response_misread:
  "fst (http_read (\<lambda>url a b w. (\<lparr>rs_status = 200, rs_body = [1, 2, 3, 4]\<rparr>, w)) 2 2 (new_http_device ''u'' (Some 2) ()))
    = Inr [1, 2]"
  by (simp add: http_read_def new_http_device_def http_loop.simps http_page_def rs_ok_def Let_def)

end
