(* ===== verification/Ext2.thy ===== *)
theory Ext2
  imports Devices
begin

text \<open>
  The read-only ext2 reader of \<open>src/ext2.js\<close>. The block device below it is the parameter \<open>rd\<close>, any function that
  reads a range of bytes and may change the device's own state. Numbers are exact: the products of block
  numbers and block sizes stay below the 53 bits of a JavaScript number on any image that can be held.
\<close>

section \<open>Fields\<close>

datatype ext2_error =
    NotExt2
  | NoGroupTable nat
  | NotDirectory
  | NoEntry string
  | TooManySymlinks
  | NotRegular string
  | MountLimit nat
  | BadLength
  | XDevice dev_error
  | XVfs vfs_error

text \<open>A byte outside an array is \<open>undefined\<close>, which the bit operations take as zero.\<close>

definition byte0 :: "u8 list \<Rightarrow> nat \<Rightarrow> nat" where
  "byte0 b i = (if i < length b then unat (b ! i) else 0)"

definition ext_u16 :: "u8 list \<Rightarrow> nat \<Rightarrow> nat" where
  "ext_u16 b i = byte0 b i + byte0 b (i + 1) * 2 ^ 8"

definition ext_u32 :: "u8 list \<Rightarrow> nat \<Rightarrow> nat" where
  "ext_u32 b i = byte0 b i + byte0 b (i + 1) * 2 ^ 8 + byte0 b (i + 2) * 2 ^ 16 + byte0 b (i + 3) * 2 ^ 24"

text \<open>The module's own \<open>join\<close>, which lacks the case of the other module for the child \<open>/\<close>.\<close>

definition ext_join :: "string \<Rightarrow> string \<Rightarrow> string" where
  "ext_join rt child = (let r = norm_path rt; c = norm_path child in
     if r = ''/'' then c else norm_path (r @ ''/'' @ drop 1 c))"

section \<open>Superblock and groups\<close>

record superblock =
  sb_inodes :: nat
  sb_blocks :: nat
  sb_firstDataBlock :: nat
  sb_logBlockSize :: nat
  sb_blocksPerGroup :: nat
  sb_inodesPerGroup :: nat
  sb_magic :: nat
  sb_firstInode :: nat
  sb_inodeSize :: nat

record group_desc =
  gd_blockBitmap :: nat
  gd_inodeBitmap :: nat
  gd_inodeTable :: nat

record ext2_layout =
  ly_super :: superblock
  ly_blockSize :: int
  ly_groups :: "group_desc list"

type_synonym 'd block_read = "int \<Rightarrow> int \<Rightarrow> ('d, u8 list) devM"

definition ext_read :: "'d block_read \<Rightarrow> int \<Rightarrow> int \<Rightarrow> ('d, ext2_error, u8 list) sem" where
  "ext_read rd offset len = (\<lambda>d. case rd offset len d of (Inl e, d') \<Rightarrow> (Inl (XDevice e), d') | (Inr bs, d') \<Rightarrow> (Inr bs, d'))"

definition or_nat :: "nat \<Rightarrow> nat \<Rightarrow> nat" where
  "or_nat a b = (if a \<noteq> 0 then a else b)"

definition read_super :: "u8 list \<Rightarrow> superblock" where
  "read_super sb = \<lparr>sb_inodes = ext_u32 sb 0, sb_blocks = ext_u32 sb 4, sb_firstDataBlock = ext_u32 sb 20,
     sb_logBlockSize = ext_u32 sb 24, sb_blocksPerGroup = ext_u32 sb 32, sb_inodesPerGroup = ext_u32 sb 40,
     sb_magic = ext_u16 sb 56, sb_firstInode = or_nat (ext_u32 sb 84) 11, sb_inodeSize = or_nat (ext_u16 sb 88) 128\<rparr>"

text \<open>\<open>1024 << n\<close>: a shift of 32-bit integers, the count taken modulo 32.\<close>

definition block_size :: "nat \<Rightarrow> int" where
  "block_size n = sint (push_bit (n mod 32) (1024 :: u32))"

definition read_group :: "u8 list \<Rightarrow> nat \<Rightarrow> group_desc" where
  "read_group gd i = \<lparr>gd_blockBitmap = ext_u32 gd (i * 32), gd_inodeBitmap = ext_u32 gd (i * 32 + 4),
     gd_inodeTable = ext_u32 gd (i * 32 + 8)\<rparr>"

text \<open>With no blocks per group the count is infinite, which no device reads, or \<open>NaN\<close>, which reads nothing.\<close>

definition ext_init :: "'d block_read \<Rightarrow> ('d, ext2_error, ext2_layout) sem" where
  "ext_init rd = bnd (ext_read rd 1024 1024) (\<lambda>sb.
     if ext_u16 sb 56 \<noteq> 0xef53 then throw NotExt2
     else let sp = read_super sb; bs = block_size (sb_logBlockSize sp); per = sb_blocksPerGroup sp;
              n = (sb_blocks sp + per - 1) div per; off = (if bs = 1024 then 2048 else bs) in
       if per = 0 \<and> sb_blocks sp \<noteq> 0 then throw BadLength
       else bnd (ext_read rd off (int n * 32)) (\<lambda>gd.
         ret \<lparr>ly_super = sp, ly_blockSize = bs, ly_groups = map (read_group gd) [0..<n]\<rparr>))"

section \<open>Inodes\<close>

record ext2_inode =
  xi_ino :: nat
  xi_mode :: u32
  xi_uid :: nat
  xi_size :: nat
  xi_atime :: nat
  xi_ctime :: nat
  xi_mtime :: nat
  xi_gid :: nat
  xi_links :: nat
  xi_blocks512 :: nat
  xi_flags :: nat
  xi_block :: "nat list"
  xi_raw :: "u8 list"

record 'd ext2 =
  x_layout :: ext2_layout
  x_cache :: "(nat, ext2_inode) jsmap"
  x_device :: 'd

type_synonym ('d, 'a) extM = "('d ext2, ext2_error, 'a) sem"

definition onDevice :: "('d, ext2_error, 'a) sem \<Rightarrow> ('d, 'a) extM" where
  "onDevice m = (\<lambda>s. case m (x_device s) of (r, d) \<Rightarrow> (r, s\<lparr>x_device := d\<rparr>))"

definition blockSize :: "('d ext2) \<Rightarrow> int" where
  "blockSize s = ly_blockSize (x_layout s)"

definition readBlock :: "'d block_read \<Rightarrow> nat \<Rightarrow> ('d, u8 list) extM" where
  "readBlock rd blockNo = bnd (getS blockSize) (\<lambda>bs.
     if blockNo = 0 then if bs < 0 then throw BadLength else ret (replicate (nat bs) 0)
     else onDevice (ext_read rd (int blockNo * bs) bs))"

definition is_kind :: "u32 \<Rightarrow> ext2_inode \<Rightarrow> bool" where
  "is_kind k i \<longleftrightarrow> xi_mode i AND 0xf000 = k"

definition isDir :: "ext2_inode \<Rightarrow> bool" where "isDir i = is_kind 0x4000 i"
definition isFile :: "ext2_inode \<Rightarrow> bool" where "isFile i = is_kind 0x8000 i"
definition isSymlink :: "ext2_inode \<Rightarrow> bool" where "isSymlink i = is_kind 0xa000 i"

definition read_inode :: "nat \<Rightarrow> u8 list \<Rightarrow> ext2_inode" where
  "read_inode n raw =
     (let i = \<lparr>xi_ino = n, xi_mode = word_of_nat (ext_u16 raw 0), xi_uid = ext_u16 raw 2, xi_size = ext_u32 raw 4,
            xi_atime = ext_u32 raw 8, xi_ctime = ext_u32 raw 12, xi_mtime = ext_u32 raw 16, xi_gid = ext_u16 raw 24,
            xi_links = ext_u16 raw 26, xi_blocks512 = ext_u32 raw 28, xi_flags = ext_u32 raw 32,
            xi_block = map (\<lambda>k. ext_u32 raw (40 + k * 4)) [0..<15], xi_raw = raw\<rparr>;
          high = ext_u32 raw 108 in
      if isFile i \<and> high \<noteq> 0 then i\<lparr>xi_size := nat (js_num (int (high * 2 ^ 32 + xi_size i)))\<rparr> else i)"

definition inode_table :: "'d ext2 \<Rightarrow> nat \<Rightarrow> nat" where
  "inode_table s n = (let per = sb_inodesPerGroup (ly_super (x_layout s)); g = (n - 1) div per; gs = ly_groups (x_layout s) in
     if n = 0 \<or> per = 0 \<or> g \<ge> length gs then 0 else gd_inodeTable (gs ! g))"

definition get_inode :: "'d block_read \<Rightarrow> nat \<Rightarrow> ('d, ext2_inode) extM" where
  "get_inode rd n = (\<lambda>s. case map_of (x_cache s) n of
     Some i \<Rightarrow> (Inr i, s)
   | None \<Rightarrow> (let sp = ly_super (x_layout s); table = inode_table s n; index = (n - 1) mod sb_inodesPerGroup sp;
         isz = int (sb_inodeSize sp) in
       if table = 0 then (Inl (NoGroupTable n), s)
       else bnd (onDevice (ext_read rd (int table * blockSize s + int index * isz) isz)) (\<lambda>raw.
         let i = read_inode n raw in
         thn (modS (\<lambda>s. s\<lparr>x_cache := AList.update n i (x_cache s)\<rparr>)) (ret i)) s))"

section \<open>File contents\<close>

text \<open>The nonzero 32-bit numbers in the first \<open>n\<close> bytes of a block.\<close>

definition pointers :: "u8 list \<Rightarrow> nat \<Rightarrow> nat list" where
  "pointers b n = filter (\<lambda>p. p \<noteq> 0) (map (\<lambda>i. ext_u32 b (4 * i)) [0..<(n + 3) div 4])"

definition indirect_blocks :: "'d block_read \<Rightarrow> nat \<Rightarrow> ('d, nat list) extM" where
  "indirect_blocks rd p = (if p = 0 then ret [] else bnd (readBlock rd p) (\<lambda>b. ret (pointers b (length b))))"

definition double_blocks :: "'d block_read \<Rightarrow> nat \<Rightarrow> ('d, nat list) extM" where
  "double_blocks rd p = (if p = 0 then ret [] else bnd (readBlock rd p) (\<lambda>dbl. bnd (getS blockSize) (\<lambda>bs.
     bnd (mapMs (pointers dbl (length dbl)) (\<lambda>q. bnd (readBlock rd q) (\<lambda>b. ret (pointers b (nat bs))))) (\<lambda>ps.
       ret (concat ps)))))"

definition blockNumbers :: "'d block_read \<Rightarrow> ext2_inode \<Rightarrow> ('d, nat list) extM" where
  "blockNumbers rd i =
     bnd (indirect_blocks rd (xi_block i ! 12)) (\<lambda>ind. bnd (double_blocks rd (xi_block i ! 13)) (\<lambda>dbl.
       ret (filter (\<lambda>p. p \<noteq> 0) (take 12 (xi_block i)) @ ind @ dbl)))"

text \<open>The loop over the blocks: \<open>acc\<close> is what is filled of the result.\<close>

fun data_loop :: "'d block_read \<Rightarrow> nat \<Rightarrow> u8 list \<Rightarrow> nat list \<Rightarrow> ('d, u8 list) extM" where
  "data_loop rd len acc [] = ret acc"
| "data_loop rd len acc (p # ps) =
     (if length acc \<ge> len then ret acc
      else bnd (readBlock rd p) (\<lambda>b. data_loop rd len (acc @ take (min (length b) (len - length acc)) b) ps))"

definition readInodeData :: "'d block_read \<Rightarrow> ext2_inode \<Rightarrow> ('d, u8 list) extM" where
  "readInodeData rd i =
     (if isSymlink i \<and> xi_size i \<le> 60 then ret (take (xi_size i) (drop 40 (xi_raw i)))
      else bnd (blockNumbers rd i) (\<lambda>ps. bnd (data_loop rd (xi_size i) [] ps) (\<lambda>acc.
        ret (acc @ replicate (xi_size i - length acc) 0))))"

section \<open>Directories\<close>

record ext2_entry =
  xe_ino :: nat
  xe_name :: string
  xe_fileType :: nat

function ext_dirents :: "u8 list \<Rightarrow> nat \<Rightarrow> ext2_entry list" where
  "ext_dirents data off =
     (if off + 8 \<le> length data
      then let i = ext_u32 data off; recLen = ext_u16 data (off + 4); nameLen = byte0 data (off + 6);
               e = \<lparr>xe_ino = i, xe_name = bytesToString (take nameLen (drop (off + 8) data)), xe_fileType = byte0 data (off + 7)\<rparr> in
        if recLen < 8 then []
        else (if i \<noteq> 0 \<and> nameLen > 0 then [e] else []) @ ext_dirents data (off + recLen)
      else [])"
  by pat_completeness auto

termination
  by (relation "measure (\<lambda>(data, off). length data - off)") auto

declare ext_dirents.simps [simp del]

definition readdirInode :: "'d block_read \<Rightarrow> ext2_inode \<Rightarrow> ('d, ext2_entry list) extM" where
  "readdirInode rd i = (if \<not> isDir i then throw NotDirectory
     else bnd (readInodeData rd i) (\<lambda>data. ret (ext_dirents data 0)))"

section \<open>Resolution\<close>

datatype ext2_step = XFollow string | XFound ext2_inode

fun ext_walk :: "'d block_read \<Rightarrow> bool \<Rightarrow> ext2_inode \<Rightarrow> string \<Rightarrow> string list \<Rightarrow> ('d, ext2_step) extM" where
  "ext_walk rd fol i cur [] = ret (XFound i)"
| "ext_walk rd fol i cur (name # rest) = bnd (readdirInode rd i) (\<lambda>es.
     case find (\<lambda>e. xe_name e = name) es of
       None \<Rightarrow> throw (NoEntry (cur @ name))
     | Some e \<Rightarrow> bnd (get_inode rd (xe_ino e)) (\<lambda>n.
         let cur' = norm_path (cur @ ''/'' @ name) in
         if isSymlink n \<and> (fol \<or> rest \<noteq> [])
         then bnd (readInodeData rd n) (\<lambda>t.
           let tgt = bytesToString t;
               nxt = (if startsWith tgt ''/'' then tgt else dirname cur' @ ''/'' @ tgt)
           in ret (XFollow (if rest = [] then nxt else nxt @ ''/'' @ join_slash rest)))
         else ext_walk rd fol n cur' rest))"

text \<open>The first argument counts the levels left: a resolution starts with 17, the depths 0 to 16.\<close>

fun ext_resolve :: "nat \<Rightarrow> 'd block_read \<Rightarrow> bool \<Rightarrow> string \<Rightarrow> ('d, ext2_inode) extM" where
  "ext_resolve 0 rd fol path = throw TooManySymlinks"
| "ext_resolve (Suc lv) rd fol path = bnd (get_inode rd 2) (\<lambda>i.
     bnd (ext_walk rd fol i ''/'' (path_parts (norm_path path))) (\<lambda>r.
       case r of XFound n \<Rightarrow> ret n | XFollow p \<Rightarrow> ext_resolve lv rd fol p))"

definition ext_readFile :: "'d block_read \<Rightarrow> string \<Rightarrow> ('d, u8 list) extM" where
  "ext_readFile rd path = bnd (ext_resolve 17 rd True path) (\<lambda>i.
     if \<not> isFile i \<and> \<not> isSymlink i then throw (NotRegular path) else readInodeData rd i)"

definition ext_list :: "'d block_read \<Rightarrow> string \<Rightarrow> ('d, string list) extM" where
  "ext_list rd path = bnd (ext_resolve 17 rd True path) (\<lambda>i. bnd (readdirInode rd i) (\<lambda>es.
     ret (filter (\<lambda>n. n \<noteq> ''.'' \<and> n \<noteq> ''..'') (map xe_name es))))"

section \<open>Mounting\<close>

record 'd mount_state =
  mt_ext :: "'d ext2"
  mt_heap :: heap
  mt_count :: nat

definition onExt :: "('d, 'a) extM \<Rightarrow> ('d mount_state, ext2_error, 'a) sem" where
  "onExt m = (\<lambda>s. case m (mt_ext s) of (r, x) \<Rightarrow> (r, s\<lparr>mt_ext := x\<rparr>))"

definition onVfs :: "'a vfsM \<Rightarrow> ('d mount_state, ext2_error, unit) sem" where
  "onVfs m = (\<lambda>s. case m (mt_heap s) of
     (Inl e, h) \<Rightarrow> (Inl (XVfs e), s\<lparr>mt_heap := h\<rparr>) | (Inr _, h) \<Rightarrow> (Inr (), s\<lparr>mt_heap := h\<rparr>))"

text \<open>
  \<open>copyDir\<close>: every call counts one directory and the limit ends the recursion. A call is nested in as many calls as
  have been counted at most, so with one level more than the limit the first equation agrees with the second.
\<close>

fun copyDir :: "nat \<Rightarrow> 'd block_read \<Rightarrow> vfs \<Rightarrow> nat \<Rightarrow> ext2_inode \<Rightarrow> string \<Rightarrow> ('d mount_state, ext2_error, unit) sem" where
  "copyDir 0 rd v maxFiles i outPath =
     thn (modS (\<lambda>s. s\<lparr>mt_count := mt_count s + 1\<rparr>)) (throw (MountLimit maxFiles))"
| "copyDir (Suc lv) rd v maxFiles i outPath =
     thn (modS (\<lambda>s. s\<lparr>mt_count := mt_count s + 1\<rparr>)) (bnd (getS mt_count) (\<lambda>c.
       if c > maxFiles then throw (MountLimit maxFiles)
       else thn (onVfs (mkdirp v outPath 0x1ed)) (bnd (onExt (readdirInode rd i)) (\<lambda>es. forM es (\<lambda>e.
         if xe_name e = ''.'' \<or> xe_name e = ''..'' then ret ()
         else bnd (onExt (get_inode rd (xe_ino e))) (\<lambda>child. let childPath = ext_join outPath (xe_name e) in
           if isDir child then copyDir lv rd v maxFiles child childPath
           else if isSymlink child
             then bnd (onExt (readInodeData rd child)) (\<lambda>t. onVfs (vfs_symlink v (bytesToString t) childPath))
           else if isFile child
             then bnd (onExt (readInodeData rd child)) (\<lambda>bs. onVfs (writeFile v childPath bs (xi_mode child AND 0x1ff)))
           else ret ()))))))"

definition ext_mountTo :: "'d block_read \<Rightarrow> vfs \<Rightarrow> string \<Rightarrow> nat option \<Rightarrow> ('d mount_state, ext2_error, unit) sem" where
  "ext_mountTo rd v rt limit = (let mx = (case limit of Some n \<Rightarrow> n | None \<Rightarrow> 10000) in
     thn (modS (\<lambda>s. s\<lparr>mt_count := 0\<rparr>)) (bnd (onExt (get_inode rd 2)) (\<lambda>i. copyDir (mx + 1) rd v mx i rt)))"

text \<open>The constructor: the superblock is read at once, and every method waits for it.\<close>

definition open_ext2 :: "'d block_read \<Rightarrow> 'd \<Rightarrow> ext2_error + 'd ext2" where
  "open_ext2 rd d = (case ext_init rd d of
     (Inl e, _) \<Rightarrow> Inl e | (Inr ly, d') \<Rightarrow> Inr \<lparr>x_layout = ly, x_cache = [], x_device = d'\<rparr>)"

definition buffer_device :: "u8 list block_read" where
  "buffer_device offset len = (\<lambda>img. (buffer_read img offset len, img))"

end
