(* ===== verification/Ext2_Props.thy ===== *)
theory Ext2_Props
  imports Ext2
begin

text \<open>
  What the ext2 reader returns for a file on an image held in memory, the order of the block pointers it follows, and
  that the level count of the mount is enough.
\<close>

section \<open>The pointers of an inode\<close>

definition block_at :: "u8 list \<Rightarrow> nat \<Rightarrow> nat \<Rightarrow> u8 list" where
  "block_at img B q = take B (drop (q * B) img)"

definition table_of :: "u8 list \<Rightarrow> nat \<Rightarrow> nat \<Rightarrow> nat list" where
  "table_of img B q = (if q = 0 then replicate (B div 4) 0 else map (\<lambda>i. ext_u32 (block_at img B q) (4 * i)) [0..<B div 4])"

text \<open>The block of each place of the file, zero for a hole: direct, indirect, double indirect.\<close>

definition file_blocks :: "u8 list \<Rightarrow> nat \<Rightarrow> ext2_inode \<Rightarrow> nat list" where
  "file_blocks img B i = take 12 (xi_block i) @ table_of img B (xi_block i ! 12) @
     concat (map (table_of img B) (table_of img B (xi_block i ! 13)))"

definition inside :: "u8 list \<Rightarrow> nat \<Rightarrow> nat \<Rightarrow> bool" where
  "inside img B q \<longleftrightarrow> (q + 1) * B \<le> length img"

definition pointers_inside :: "u8 list \<Rightarrow> nat \<Rightarrow> ext2_inode \<Rightarrow> bool" where
  "pointers_inside img B i \<longleftrightarrow>
     list_all (\<lambda>q. q = 0 \<or> inside img B q)
       (xi_block i ! 12 # xi_block i ! 13 # table_of img B (xi_block i ! 13) @ file_blocks img B i)"

lemma length_block_at: "inside img B q \<Longrightarrow> length (block_at img B q) = B"
  by (simp add: block_at_def inside_def)

text \<open>A mounted image of block size \<open>B\<close>.\<close>

definition on_image :: "u8 list \<Rightarrow> nat \<Rightarrow> u8 list ext2 \<Rightarrow> bool" where
  "on_image img B s \<longleftrightarrow> x_device s = img \<and> blockSize s = int B \<and> 0 < B \<and> 4 dvd B"

lemma readBlock_image:
  assumes "on_image img B s" "q \<noteq> 0" "inside img B q"
  shows "readBlock buffer_device q s = (Inr (block_at img B q), s)"
proof -
  have "int q * int B + int B \<le> int (length img)"
    using assms(3) by (metis inside_def distrib_right mult_1 of_nat_add of_nat_le_iff of_nat_mult)
  moreover have "\<not> int q * int B < 0" by (metis of_nat_less_0_iff of_nat_mult)
  ultimately have "buffer_read img (int q * int B) (int B) = Inr (block_at img B q)"
    by (simp add: buffer_read_def block_at_def nat_mult_distrib del: of_nat_mult)
  with assms(1,2) show ?thesis
    by (simp add: readBlock_def on_image_def onDevice_def ext_read_def buffer_device_def)
qed

lemma pointers_table:
  assumes "on_image img B s" "q \<noteq> 0" "inside img B q"
  shows "pointers (block_at img B q) (length (block_at img B q)) = filter (\<lambda>p. p \<noteq> 0) (table_of img B q)"
    and "pointers (block_at img B q) B = filter (\<lambda>p. p \<noteq> 0) (table_of img B q)"
proof -
  have "(B + 3) div 4 = B div 4" using assms(1) by (auto simp: on_image_def)
  then show "pointers (block_at img B q) B = filter (\<lambda>p. p \<noteq> 0) (table_of img B q)"
    using assms(2) by (simp add: pointers_def table_of_def)
  then show "pointers (block_at img B q) (length (block_at img B q)) = filter (\<lambda>p. p \<noteq> 0) (table_of img B q)"
    using length_block_at [OF assms(3)] by simp
qed

lemma filter_table_0 [simp]: "filter ((<) 0) (table_of img B 0) = []"
  by (simp add: table_of_def)

lemma indirect_image:
  assumes "on_image img B s" "q = 0 \<or> inside img B q"
  shows "indirect_blocks buffer_device q s = (Inr (filter (\<lambda>p. p \<noteq> 0) (table_of img B q)), s)"
  using assms by (cases "q = 0") (auto simp: indirect_blocks_def readBlock_image pointers_table(1))

lemma double_tables:
  assumes "on_image img B s" "list_all (\<lambda>q. q = 0 \<or> inside img B q) ws"
  shows "mapMs (filter (\<lambda>p. p \<noteq> 0) ws) (\<lambda>q. bnd (readBlock buffer_device q) (\<lambda>b. ret (pointers b B))) s =
    (Inr (map (\<lambda>q. filter (\<lambda>p. p \<noteq> 0) (table_of img B q)) (filter (\<lambda>p. p \<noteq> 0) ws)), s)"
  using assms(2) by (induction ws) (auto simp: readBlock_image [OF assms(1)] pointers_table(2) [OF assms(1)])

lemma concat_tables:
  "concat (map (\<lambda>q. filter ((<) 0) (table_of img B q)) (filter ((<) 0) ws)) =
     filter ((<) 0) (concat (map (table_of img B) ws))"
  by (induction ws) auto

lemma double_image:
  assumes "on_image img B s" "q = 0 \<or> inside img B q" "list_all (\<lambda>q. q = 0 \<or> inside img B q) (table_of img B q)"
  shows "double_blocks buffer_device q s =
    (Inr (filter (\<lambda>p. p \<noteq> 0) (concat (map (table_of img B) (table_of img B q)))), s)"
proof (cases "q = 0")
  case True
  have "filter (\<lambda>p. p \<noteq> 0) (concat (map (table_of img B) (replicate n 0))) = []" for n
    by (induction n) auto
  then show ?thesis using True by (simp add: double_blocks_def table_of_def [of img B 0])
next
  case False
  then have q: "inside img B q" using assms(2) by simp
  have "blockSize s = int B" using assms(1) by (simp add: on_image_def)
  then show ?thesis
    using False readBlock_image [OF assms(1) False q] pointers_table(1) [OF assms(1) False q]
      double_tables [OF assms(1,3)]
    by (simp add: double_blocks_def concat_tables)
qed

lemma blockNumbers_image:
  assumes "on_image img B s" "pointers_inside img B i"
  shows "blockNumbers buffer_device i s = (Inr (filter (\<lambda>p. p \<noteq> 0) (file_blocks img B i)), s)"
  using assms(2) indirect_image [OF assms(1), of "xi_block i ! 12"] double_image [OF assms(1), of "xi_block i ! 13"]
  by (simp add: blockNumbers_def pointers_inside_def file_blocks_def)

section \<open>File contents\<close>

lemma data_loop_image:
  assumes "on_image img B s" "list_all (\<lambda>q. q \<noteq> 0 \<and> inside img B q) ps" "length acc \<le> len"
  shows "data_loop buffer_device len acc ps s = (Inr (take len (acc @ concat (map (block_at img B) ps))), s)"
  using assms(2,3)
proof (induction ps arbitrary: acc)
  case Nil
  then show ?case by simp
next
  case (Cons q ps)
  show ?case
  proof (cases "length acc \<ge> len")
    case True
    then show ?thesis using Cons.prems by simp
  next
    case False
    let ?b = "block_at img B q"
    let ?acc = "acc @ take (min (length ?b) (len - length acc)) ?b"
    have "data_loop buffer_device len ?acc ps s = (Inr (take len (?acc @ concat (map (block_at img B) ps))), s)"
      using Cons.prems by (intro Cons.IH) auto
    moreover have "take len (?acc @ c) = take len (acc @ ?b @ c)" for c
      using False by (auto simp: min_def)
    ultimately show ?thesis
      using False Cons.prems by (simp add: readBlock_image [OF assms(1)])
  qed
qed

lemma pointers_inside_blocks:
  "pointers_inside img B i \<Longrightarrow> list_all (inside img B) (filter (\<lambda>p. p \<noteq> 0) (file_blocks img B i))"
proof -
  assume "pointers_inside img B i"
  then have "list_all (\<lambda>q. q = 0 \<or> inside img B q) (file_blocks img B i)"
    by (simp add: pointers_inside_def)
  then show ?thesis by (induction "file_blocks img B i" rule: list.induct) (auto simp: list_all_iff)
qed

lemma readInodeData_image:
  assumes "on_image img B s" "pointers_inside img B i" "isFile i"
  shows "readInodeData buffer_device i s =
    (Inr (let c = concat (map (block_at img B) (filter (\<lambda>p. p \<noteq> 0) (file_blocks img B i))) in
       take (xi_size i) c @ replicate (xi_size i - length c) 0), s)"
proof -
  have "list_all (\<lambda>q. q \<noteq> 0 \<and> inside img B q) (filter (\<lambda>p. p \<noteq> 0) (file_blocks img B i))"
    using pointers_inside_blocks [OF assms(2)] by (auto simp: list_all_iff)
  moreover have "\<not> isSymlink i" using assms(3) by (simp add: isFile_def isSymlink_def is_kind_def)
  ultimately show ?thesis
    using blockNumbers_image [OF assms(1,2)] data_loop_image [OF assms(1), of _ "[]"]
    by (simp add: readInodeData_def Let_def min_def)
qed

lemma length_blocks: "list_all (inside img B) ps \<Longrightarrow> length (concat (map (block_at img B) ps)) = length ps * B"
  by (induction ps) (simp_all add: length_block_at)

lemma nth_blocks:
  assumes "list_all (inside img B) ps" "k < length ps * B"
  shows "concat (map (block_at img B) ps) ! k = img ! (ps ! (k div B) * B + k mod B)"
  using assms
proof (induction ps arbitrary: k)
  case Nil
  then show ?case by simp
next
  case (Cons q ps)
  then have len: "length (block_at img B q) = B" and "0 < B" by (auto simp: length_block_at intro: Nat.gr0I)
  show ?case
  proof (cases "k < B")
    case True
    then have "block_at img B q ! k = img ! (q * B + k)"
      using Cons.prems(1) by (simp add: block_at_def inside_def)
    with True len show ?thesis by (simp add: nth_append)
  next
    case False
    then have "k div B = Suc ((k - B) div B)" "k mod B = (k - B) mod B"
      using \<open>0 < B\<close> by (simp_all add: le_div_geq le_mod_geq)
    with False len Cons show ?thesis by (simp add: nth_append)
  qed
qed

lemma take_filter_dense:
  assumes "n \<le> length xs" "\<forall>j < n. P (xs ! j)"
  shows "take n (filter P xs) = take n xs"
proof -
  have "filter P (take n xs) = take n xs"
    using assms by (auto simp: filter_id_conv in_set_conv_nth)
  then have "filter P xs = take n xs @ filter P (drop n xs)"
    by (metis append_take_drop_id filter_append)
  then show ?thesis using assms(1) by simp
qed

text \<open>
  C39: the contents of a regular file. On an image in memory whose block pointers lie inside it, when no block of the
  file up to its size is a hole, reading the file returns exactly its size in bytes, and byte \<open>k\<close> is the byte of the
  image at place \<open>k mod B\<close> of the block that the direct, indirect and double indirect pointers give for \<open>k div B\<close>.
\<close>

theorem dense_file_contents:
  assumes "on_image img B s" "pointers_inside img B i" "isFile i"
    and "n \<le> length (file_blocks img B i)" "\<forall>j < n. file_blocks img B i ! j \<noteq> 0" "xi_size i \<le> n * B"
  shows "\<exists>out. readInodeData buffer_device i s = (Inr out, s) \<and> length out = xi_size i \<and>
    (\<forall>k < xi_size i. out ! k = img ! (file_blocks img B i ! (k div B) * B + k mod B))"
proof -
  let ?L = "file_blocks img B i" and ?ps = "filter (\<lambda>p. p \<noteq> 0) (file_blocks img B i)"
  let ?c = "concat (map (block_at img B) ?ps)"
  have ps: "take n ?ps = take n ?L" by (rule take_filter_dense [OF assms(4,5)])
  have all: "list_all (inside img B) ?ps" by (rule pointers_inside_blocks [OF assms(2)])
  note length_blocks [OF all]
  moreover have "n \<le> length ?ps"
    using ps assms(4) by (metis length_take min.absorb2 min.cobounded1)
  then have "n * B \<le> length ?ps * B" by simp
  ultimately have c: "xi_size i \<le> length ?c" "xi_size i \<le> length ?ps * B" using assms(6) by linarith+
  have "take (xi_size i) ?c ! k = img ! (?L ! (k div B) * B + k mod B)" if k: "k < xi_size i" for k
  proof -
    have "k div B < n" using k assms(6) by (simp add: less_mult_imp_div_less)
    then have "?ps ! (k div B) = ?L ! (k div B)" using ps by (metis nth_take)
    then show ?thesis using nth_blocks [OF all, of k] k c by simp
  qed
  then show ?thesis
    using readInodeData_image [OF assms(1-3)] c by (simp add: Let_def)
qed

definition sample_inode :: "nat list \<Rightarrow> nat \<Rightarrow> ext2_inode" where
  "sample_inode ps len = \<lparr>xi_ino = 12, xi_mode = 0x81a4, xi_uid = 0, xi_size = len, xi_atime = 0, xi_ctime = 0, xi_mtime = 0,
     xi_gid = 0, xi_links = 1, xi_blocks512 = 2, xi_flags = 0, xi_block = ps @ replicate (15 - length ps) 0, xi_raw = []\<rparr>"

definition sample_ext2 :: "u8 list \<Rightarrow> u8 list ext2" where
  "sample_ext2 img = \<lparr>x_layout = \<lparr>ly_super = read_super [], ly_blockSize = block_size 0, ly_groups = []\<rparr>, x_cache = [],
     x_device = img\<rparr>"

lemma sample_on_image: "on_image img 1024 (sample_ext2 img)"
  by (simp add: on_image_def sample_ext2_def blockSize_def block_size_def)

lemma table_of_0: "table_of img 1024 0 = replicate 256 0"
  by (simp add: table_of_def)

lemma sample_file: "isFile (sample_inode ps n)"
  by (simp add: sample_inode_def isFile_def is_kind_def)

lemma list_all_zeros: "list_all (\<lambda>q. q = (0::nat) \<or> P q) (replicate n 0)"
  by (simp add: list_all_iff)

lemma concat_zero_tables: "list_all (\<lambda>q. q = (0::nat) \<or> P q) (concat (map (\<lambda>_. replicate m 0) (replicate n (0::nat))))"
  by (auto simp: list_all_iff)

lemma sample_blocks:
  "take 12 (xi_block (sample_inode [q, p] n)) = q # p # replicate 10 0"
  "xi_block (sample_inode [q, p] n) ! 12 = 0"
  "xi_block (sample_inode [q, p] n) ! 13 = 0"
  "xi_size (sample_inode [q, p] n) = n"
  by (simp_all add: sample_inode_def)

lemma sample_file_blocks:
  "file_blocks img 1024 (sample_inode [q, p] n) =
     q # p # replicate 10 0 @ replicate 256 0 @ concat (map (\<lambda>_. replicate 256 0) (replicate 256 (0 :: nat)))"
proof -
  have "map (table_of img 1024) (replicate 256 0) = map (\<lambda>_. replicate 256 0) (replicate 256 (0 :: nat))"
    by (simp add: table_of_0)
  then show ?thesis by (simp add: file_blocks_def sample_blocks table_of_0)
qed

lemma sample_pointers:
  assumes "inside img 1024 q" "inside img 1024 p"
  shows "pointers_inside img 1024 (sample_inode [q, p] n)"
  using assms concat_zero_tables [of "inside img 1024" 256 256]
  by (simp add: pointers_inside_def sample_file_blocks sample_blocks table_of_0 list_all_zeros)

theorem dense_file_contents_witness:
  "let img = replicate 1024 0 @ replicate 1024 7 @ replicate 1024 9 in
   \<exists>out. readInodeData buffer_device (sample_inode [2, 1] 1500) (sample_ext2 img) = (Inr out, sample_ext2 img) \<and>
     length out = 1500 \<and> out ! 1023 = 9 \<and> out ! 1024 = 7"
proof -
  define img :: "u8 list" where "img = replicate 1024 0 @ replicate 1024 7 @ replicate 1024 9"
  let ?i = "sample_inode [2, 1] 1500"
  have "file_blocks img 1024 ?i ! 0 = 2" "file_blocks img 1024 ?i ! 1 = 1" "2 \<le> length (file_blocks img 1024 ?i)" "xi_size ?i = 1500"
    by (simp_all add: sample_file_blocks sample_blocks)
  moreover have "pointers_inside img 1024 ?i"
    by (rule sample_pointers) (simp_all add: inside_def img_def)
  ultimately obtain out where out: "readInodeData buffer_device ?i (sample_ext2 img) = (Inr out, sample_ext2 img)"
      "length out = 1500" "\<forall>k < 1500. out ! k = img ! (file_blocks img 1024 ?i ! (k div 1024) * 1024 + k mod 1024)"
    using dense_file_contents [OF sample_on_image [of img], of ?i 2] sample_file
    by (auto simp: less_Suc_eq numeral_2_eq_2)
  moreover have "out ! 1023 = img ! (2 * 1024 + 1023)" "out ! 1024 = img ! (1 * 1024 + 0)"
    using out(3) \<open>file_blocks img 1024 ?i ! 0 = 2\<close> \<open>file_blocks img 1024 ?i ! 1 = 1\<close> by simp_all
  moreover have "img ! (2 * 1024 + 1023) = 9" "img ! (1 * 1024 + 0) = 7"
    by (simp_all add: img_def nth_append)
  ultimately show ?thesis
    unfolding img_def [symmetric] Let_def by (metis out(1))
qed

text \<open>A hole is dropped: the block after it moves to its place, and the file ends in zeros instead.\<close>

lemma hole_moves_data:
  assumes "inside img 1024 q" "q \<noteq> 0"
  shows "readInodeData buffer_device (sample_inode [0, q] 2048) (sample_ext2 img) =
    (Inr (block_at img 1024 q @ replicate 1024 0), sample_ext2 img)"
proof -
  have zeros: "filter ((<) 0) (concat (map (\<lambda>_. replicate 256 (0 :: nat)) xs)) = []" for xs :: "nat list"
    by (induction xs) auto
  have "pointers_inside img 1024 (sample_inode [0, q] 2048)"
  proof -
    have "inside img 1024 0" using assms by (simp add: inside_def)
    then show ?thesis using assms by (intro sample_pointers)
  qed
  moreover have "filter ((<) 0) (file_blocks img 1024 (sample_inode [0, q] 2048)) = [q]"
    using assms zeros [of "replicate 256 0"] by (simp add: sample_file_blocks)
  moreover have "xi_size (sample_inode [0, q] 2048) = 2048" by (simp add: sample_inode_def)
  ultimately show ?thesis
    using readInodeData_image [OF sample_on_image _ sample_file, of img "[0, q]" 2048] length_block_at [OF assms(1)]
    by (simp add: Let_def)
qed

section \<open>The levels of a mount\<close>

definition counts_up :: "('d mount_state, 'e, 'a) sem \<Rightarrow> bool" where
  "counts_up m \<longleftrightarrow> (\<forall>s. mt_count s \<le> mt_count (snd (m s)))"

lemma counts_up_bnd: "counts_up m \<Longrightarrow> (\<And>x. counts_up (f x)) \<Longrightarrow> counts_up (bnd m f)"
  unfolding counts_up_def bnd_def by (auto split: prod.split sum.split) (metis le_trans snd_conv)+

lemma counts_up_thn: "counts_up m \<Longrightarrow> counts_up k \<Longrightarrow> counts_up (thn m k)"
  unfolding thn_def by (rule counts_up_bnd)

lemma counts_up_forM: "(\<And>x. counts_up (f x)) \<Longrightarrow> counts_up (forM xs f)"
  by (induction xs) (auto simp: counts_up_thn, simp add: counts_up_def)

lemma counts_up_parts:
  "counts_up (ret x)" "counts_up (throw e)" "counts_up (getS g)" "counts_up (onExt m)" "counts_up (onVfs w)"
  "counts_up (modS (\<lambda>s. s\<lparr>mt_count := Suc (mt_count s)\<rparr>))"
  by (auto simp: counts_up_def onExt_def onVfs_def split: prod.split sum.split)

lemmas counts_up_rules = counts_up_bnd counts_up_thn counts_up_forM counts_up_parts

lemma copyDir_counts: "counts_up (copyDir lv rd v mx i path)"
  by (induction lv arbitrary: i path) (auto simp: Let_def intro!: counts_up_rules)

lemma forM_cong_inv:
  assumes "P s" "\<And>x s. P s \<Longrightarrow> f x s = g x s" "\<And>x s. P s \<Longrightarrow> P (snd (g x s))"
  shows "forM xs f s = forM xs g s"
  using assms(1)
proof (induction xs arbitrary: s)
  case (Cons x xs)
  then show ?case
    using assms(2) [of s x] assms(3) [of s x] by (cases "g x s") (auto simp: thn_def bnd_def split: sum.split)
qed simp

text \<open>
  With as many levels as directories may still be counted, more levels change nothing: \<open>copyDir\<close> ends by its own
  limit, also on a directory that contains itself.
\<close>

lemma copyDir_levels:
  "mx + 1 \<le> mt_count s + lv \<Longrightarrow> copyDir (lv + k) rd v mx i path s = copyDir lv rd v mx i path s"
proof (induction lv arbitrary: i path s)
  case 0
  then show ?case by (cases k) (simp_all add: thn_def bnd_def)
next
  case (Suc lv)
  let ?body = "\<lambda>n e. if xe_name e = ''.'' \<or> xe_name e = ''..'' then ret ()
    else bnd (onExt (get_inode rd (xe_ino e))) (\<lambda>child. let childPath = ext_join path (xe_name e) in
      if isDir child then copyDir n rd v mx child childPath
      else if isSymlink child
        then bnd (onExt (readInodeData rd child)) (\<lambda>t. onVfs (vfs_symlink v (bytesToString t) childPath))
      else if isFile child
        then bnd (onExt (readInodeData rd child)) (\<lambda>bs. onVfs (writeFile v childPath bs (xi_mode child AND 0x1ff)))
      else ret ())"
  let ?P = "\<lambda>t. mx + 1 \<le> mt_count t + lv"
  have up: "counts_up (?body n e)" for n e
    by (auto simp: Let_def intro!: counts_up_rules copyDir_counts)
  have same: "?body (lv + k) e t = ?body lv e t" if "?P t" for e t
  proof -
    have keep: "?P t'" if "onExt m t = (Inr x, t')" for m x t'
      using that \<open>?P t\<close> by (auto simp: onExt_def split: prod.splits)
    show ?thesis
      by (auto simp: bnd_def Let_def split: prod.split sum.split intro!: Suc.IH dest: keep)
  qed
  have loop: "forM es (?body (lv + k)) t = forM es (?body lv) t" if "?P t" for es t
  proof (rule forM_cong_inv [where P = ?P, OF that])
    show "?body (lv + k) e t = ?body lv e t" if "?P t" for e t
      using that by (rule same)
    show "?P (snd (?body lv e t))" if "?P t" for e t
      using that up [of e lv] unfolding counts_up_def by (meson add_right_mono le_trans)
  qed
  have keepV: "?P t'" if "onVfs m t = (Inr x, t')" "?P t" for m :: "nat vfsM" and x t t'
    using that by (auto simp: onVfs_def split: prod.splits sum.splits)
  have keepE: "?P t'" if "onExt m t = (Inr x, t')" "?P t" for m x t t'
    using that by (auto simp: onExt_def split: prod.splits)
  let ?s = "s\<lparr>mt_count := Suc (mt_count s)\<rparr>"
  have "?P ?s" using Suc.prems by simp
  then have "?P t'" if "onExt (readdirInode rd i) t = (Inr es, t')" "onVfs (mkdirp v path 0x1ed) ?s = (Inr (), t)" for t t' es
    by (intro keepE [OF that(1)] keepV [OF that(2)])
  then have "forM es (?body (lv + k)) t' = forM es (?body lv) t'"
    if "onExt (readdirInode rd i) t = (Inr es, t')" "onVfs (mkdirp v path 0x1ed) ?s = (Inr (), t)" for t t' es
    using that by (intro loop)
  then show ?case
    by (auto simp: thn_def bnd_def split: prod.split sum.split)
qed

end
