(* ===== verification/Snapshot.thy ===== *)
theory Snapshot
  imports Vfs_Files "HOL-Library.List_Lexorder" "HOL-Library.Char_ord"
begin

text \<open>
  The snapshots of \<open>src/snapshot.js\<close>: the tree of a file system flattened into entries and one blob with the bytes
  of all files, the binary container around them, and the way back. \<open>JSON\<close> turns the list of entries into text:
  the pair of functions \<open>json\<close>, \<open>unjson\<close>, where \<open>unjson\<close> is \<open>None\<close> for a syntax error.
\<close>

section \<open>Entries\<close>

record entry =
  en_path :: string
  en_type :: ntype
  en_ino :: nat
  en_mode :: u32
  en_uid :: u32
  en_gid :: u32
  en_rdev :: u32
  en_atime :: int
  en_mtime :: int
  en_ctime :: int
  en_nlink :: "nat option"
  en_offset :: nat
  en_length :: nat
  en_target :: string
  en_device :: string

text \<open>The fields of \<open>base\<close>; those of a file, a link or a device are filled afterwards.\<close>

definition base_entry :: "string \<Rightarrow> vnode \<Rightarrow> entry" where
  "base_entry path n = \<lparr>en_path = path, en_type = vtype n, en_ino = ino n, en_mode = vmode n, en_uid = uid n,
     en_gid = gid n, en_rdev = rdev n, en_atime = atime n, en_mtime = mtime n, en_ctime = ctime n, en_nlink = nlink n,
     en_offset = 0, en_length = 0, en_target = [], en_device = []\<rparr>"

definition child_path :: "string \<Rightarrow> string \<Rightarrow> string" where
  "child_path par name = (if par = ''/'' then ''/'' @ name else par @ ''/'' @ name)"

text \<open>\<open>visit\<close>: the entries and the blob grow; the offset of the next file is the length of the blob.\<close>

fun visit :: "nat \<Rightarrow> heap \<Rightarrow> nat \<Rightarrow> string \<Rightarrow> entry list \<times> u8 list \<Rightarrow> vfs_error + entry list \<times> u8 list" where
  "visit 0 h r path acc = Inl StackOverflow"
| "visit (Suc lv) h r path (es, blob) =
     (let n = nd h r; b = base_entry path n in
      case vtype n of
        NFile \<Rightarrow> Inr (es @ [b\<lparr>en_offset := length blob, en_length := length (vdata n)\<rparr>], blob @ vdata n)
      | NSymlink \<Rightarrow> Inr (es @ [b\<lparr>en_target := target n\<rparr>], blob)
      | NChar \<Rightarrow> Inr (es @ [b\<lparr>en_device := device n\<rparr>], blob)
      | NDir \<Rightarrow> foldl (\<lambda>acc name. case acc of Inl e \<Rightarrow> Inl e
            | Inr a \<Rightarrow> visit lv h (the (map_of (children n) name)) (child_path path name) a)
          (Inr (es @ [b], blob)) (sort (map fst (children n))))"

definition collectVfsEntries :: "vfs \<Rightarrow> heap \<Rightarrow> vfs_error + entry list \<times> u8 list" where
  "collectVfsEntries v h = visit (stack_depth h) h (root v) ''/'' ([], [])"

section \<open>The container\<close>

definition MAGIC :: "u8 list" where
  "MAGIC = [0x4f, 0x58, 0x46, 0x53, 0x31, 0, 0, 0]"

definition VERSION :: u32 where
  "VERSION = 1"

text \<open>\<open>dv.setUint32(off, v, true)\<close> and \<open>dv.getUint32(off, true)\<close>; reading past the end throws.\<close>

definition le32 :: "nat \<Rightarrow> u8 list" where
  "le32 v = map (\<lambda>i. word_of_nat (v div 2 ^ (8 * i))) [0..<4]"

datatype snap_error =
    NotSnapshot
  | BadVersion nat
  | BadJson
  | ShortBuffer
  | SnapVfs vfs_error

definition getU32 :: "u8 list \<Rightarrow> nat \<Rightarrow> snap_error + nat" where
  "getU32 b off = (if off + 4 \<le> length b
     then Inr (foldr (\<lambda>x acc. unat x + 256 * acc) (take 4 (drop off b)) 0) else Inl ShortBuffer)"

definition pack :: "(entry list \<Rightarrow> string) \<Rightarrow> entry list \<Rightarrow> u8 list \<Rightarrow> u8 list" where
  "pack json entries data =
     (let meta = stringToBytes (json entries) in
      MAGIC @ le32 (unat VERSION) @ le32 (length entries) @ le32 (length meta) @ le32 (length data) @ meta @ data)"

definition serializeVfsBinary :: "(entry list \<Rightarrow> string) \<Rightarrow> vfs \<Rightarrow> heap \<Rightarrow> vfs_error + u8 list" where
  "serializeVfsBinary json v h = (case collectVfsEntries v h of Inl e \<Rightarrow> Inl e | Inr (es, data) \<Rightarrow> Inr (pack json es data))"

definition unpack :: "(string \<Rightarrow> entry list option) \<Rightarrow> u8 list \<Rightarrow> snap_error + entry list \<times> u8 list" where
  "unpack unjson b =
     (if take 8 b \<noteq> MAGIC then Inl NotSnapshot
      else case getU32 b 8 of Inl e \<Rightarrow> Inl e
      | Inr ver \<Rightarrow> if ver \<noteq> unat VERSION then Inl (BadVersion ver)
      else case getU32 b 16 of Inl e \<Rightarrow> Inl e
      | Inr metaLen \<Rightarrow> (case getU32 b 20 of Inl e \<Rightarrow> Inl e
      | Inr dataLen \<Rightarrow> (case unjson (bytesToString (take metaLen (drop 24 b))) of
            None \<Rightarrow> Inl BadJson
          | Some es \<Rightarrow> Inr (es, take dataLen (drop (24 + metaLen) b)))))"

section \<open>Restoring\<close>

definition entry_node :: "entry \<Rightarrow> u8 list \<Rightarrow> nat \<Rightarrow> vnode" where
  "entry_node e blob par = \<lparr>vtype = en_type e, vname = basename (en_path e), ino = en_ino e, vmode = en_mode e,
     uid = en_uid e, gid = en_gid e, rdev = en_rdev e, atime = en_atime e, mtime = en_mtime e, ctime = en_ctime e,
     nlink = en_nlink e, parent = Some par, children = [],
     vdata = (if en_type e = NFile then take (en_length e) (drop (en_offset e) blob) else []),
     target = (if en_type e = NSymlink then en_target e else []),
     device = (if en_type e = NChar then en_device e else [])\<rparr>"

text \<open>A node made with its inode number given does not advance the counter of the module.\<close>

definition put_node :: "vnode \<Rightarrow> nat vfsM" where
  "put_node n h = (Inr (length (nodes h)), h\<lparr>nodes := nodes h @ [n]\<rparr>)"

definition installNode :: "vfs \<Rightarrow> u8 list \<Rightarrow> entry \<Rightarrow> unit vfsM" where
  "installNode v blob e =
     (if en_path e = ''/''
      then mod_node (root v) (\<lambda>n. n\<lparr>vmode := en_mode e, uid := en_uid e, gid := en_gid e, atime := en_atime e,
        mtime := en_mtime e, ctime := en_ctime e\<rparr>)
      else bnd (mkdirp v (dirname (en_path e)) 0x1ed) (\<lambda>par.
        bnd (put_node (entry_node e blob par)) (\<lambda>r. set_child par (basename (en_path e)) r)))"

text \<open>The file system to restore into, \<open>options.vfs\<close> or a new one, gets a new root.\<close>

definition fresh_root :: "vfs \<Rightarrow> vfs vfsM" where
  "fresh_root v h = (let r = length (nodes h) in
     (Inr (v\<lparr>root := r, cwd := ''/''\<rparr>),
      h\<lparr>nodes := nodes h @ [(blank_node NDir ''/'' 1 (clock h))\<lparr>parent := Some r\<rparr>]\<rparr>))"

definition install_all :: "vfs option \<Rightarrow> entry list \<Rightarrow> u8 list \<Rightarrow> vfs vfsM" where
  "install_all given entries blob =
     bnd (case given of Some v \<Rightarrow> ret v | None \<Rightarrow> new_vfs) (\<lambda>v0. bnd (fresh_root v0) (\<lambda>v.
       thn (forM (sort_key (\<lambda>e. length (en_path e)) entries) (installNode v blob)) (ret v)))"

definition restoreVfsBinary :: "(string \<Rightarrow> entry list option) \<Rightarrow> u8 list \<Rightarrow> vfs option \<Rightarrow> (heap, snap_error, vfs) sem" where
  "restoreVfsBinary unjson b given = (\<lambda>h. case unpack unjson b of
     Inl e \<Rightarrow> (Inl e, h)
   | Inr (es, blob) \<Rightarrow> (case install_all given es blob h of
         (Inl e, h') \<Rightarrow> (Inl (SnapVfs e), h') | (Inr v, h') \<Rightarrow> (Inr v, h')))"

text \<open>The JSON form: the entries and the blob as an array of numbers, text made and read by \<open>JSON\<close>.\<close>

definition serializeVfsJson :: "(entry list \<times> u8 list \<Rightarrow> string) \<Rightarrow> vfs \<Rightarrow> heap \<Rightarrow> vfs_error + string" where
  "serializeVfsJson json v h = (case collectVfsEntries v h of Inl e \<Rightarrow> Inl e | Inr x \<Rightarrow> Inr (json x))"

definition restoreVfsJson ::
  "(string \<Rightarrow> (entry list \<times> u8 list) option) \<Rightarrow> string \<Rightarrow> vfs option \<Rightarrow> (heap, snap_error, vfs) sem" where
  "restoreVfsJson unjson text given = (\<lambda>h. case unjson text of
     None \<Rightarrow> (Inl BadJson, h)
   | Some (es, blob) \<Rightarrow> (case install_all given es blob h of
         (Inl e, h') \<Rightarrow> (Inl (SnapVfs e), h') | (Inr v, h') \<Rightarrow> (Inr v, h')))"

end
