(* ===== verification/Snapshot_Props.thy ===== *)
theory Snapshot_Props
  imports Snapshot Vfs_Props
begin

text \<open>
  Restoring a snapshot gives back the tree it was made from: the same paths, and at every path a node of the same
  type, metadata and contents.
\<close>

section \<open>The container\<close>

lemma word_of_nat_div: "unat (word_of_nat (v div 2 ^ k) :: u8) = v div 2 ^ k mod 256"
  by (simp add: unat_of_nat take_bit_eq_mod)

lemma le32_bytes:
  "le32 v = [word_of_nat (v div 2 ^ 0), word_of_nat (v div 2 ^ 8), word_of_nat (v div 2 ^ 16), word_of_nat (v div 2 ^ 24)]"
proof -
  have "[0..<4] = [0, 1, 2, 3 :: nat]" by code_simp
  then show ?thesis by (simp add: le32_def)
qed

lemma four_digits:
  fixes v :: nat
  assumes "v < 2 ^ 32"
  shows "v mod 256 + 256 * (v div 2 ^ 8 mod 256 + 256 * (v div 2 ^ 16 mod 256 + 256 * (v div 2 ^ 24 mod 256))) = v"
proof -
  define a b c where "a = v div 256" and "b = a div 256" and "c = b div 256"
  have "v div 2 ^ 8 = a" "v div 2 ^ 16 = b" "v div 2 ^ 24 = c"
    by (simp_all add: a_def b_def c_def flip: div_mult2_eq)
  moreover have "c mod 256 = c" using assms by (simp add: a_def b_def c_def flip: div_mult2_eq)
  moreover have "v mod 256 + 256 * a = v" "a mod 256 + 256 * b = a" "b mod 256 + 256 * c = b"
    by (simp_all only: a_def b_def c_def mod_mult_div_eq)
  ultimately show ?thesis by presburger
qed

lemma le32_value: "v < 2 ^ 32 \<Longrightarrow> foldr (\<lambda>x acc. unat x + 256 * acc) (le32 v) 0 = v"
  unfolding le32_bytes
  by (simp only: foldr.simps comp_apply id_apply word_of_nat_div mult_0_right add_0_right)
    (simp only: power_0 div_by_1 four_digits)

lemma length_le32 [simp]: "length (le32 v) = 4"
  by (simp add: le32_def)

lemma getU32_le32: "v < 2 ^ 32 \<Longrightarrow> length pre = off \<Longrightarrow> getU32 (pre @ le32 v @ post) off = Inr v"
  by (auto simp: getU32_def le32_value)

lemma unpack_pack:
  assumes "unjson (json es) = Some es" "length (json es) < 2 ^ 32" "length data < 2 ^ 32"
  shows "unpack unjson (pack json es data) = Inr (es, data)"
proof -
  let ?meta = "stringToBytes (json es)"
  let ?b = "pack json es data"
  have mg: "length MAGIC = 8" by (simp add: MAGIC_def)
  have "?b = MAGIC @ le32 (unat VERSION) @ le32 (length es) @ le32 (length ?meta) @ le32 (length data) @ ?meta @ data"
    by (simp add: pack_def Let_def)
  moreover have "?b = (MAGIC @ le32 (unat VERSION) @ le32 (length es)) @ le32 (length ?meta) @ le32 (length data) @ ?meta @ data"
    by (simp add: pack_def Let_def)
  moreover have "?b = (MAGIC @ le32 (unat VERSION) @ le32 (length es) @ le32 (length ?meta)) @ le32 (length data) @ ?meta @ data"
    by (simp add: pack_def Let_def)
  ultimately have "getU32 ?b 8 = Inr (unat VERSION)" "getU32 ?b 16 = Inr (length ?meta)" "getU32 ?b 20 = Inr (length data)"
    using assms(2,3) mg by (metis (no_types, lifting) getU32_le32 VERSION_def unat_1 one_less_numeral_iff semiring_norm(76)
        one_less_power zero_less_numeral length_append length_le32 length_stringToBytes add.assoc numeral_plus_numeral add_num_simps)+
  moreover have "take 8 ?b = MAGIC" using mg by (simp add: pack_def Let_def)
  moreover have "drop 24 ?b = ?meta @ data" using mg by (simp add: pack_def Let_def)
  moreover have "drop (24 + length ?meta) ?b = data" using mg by (simp add: pack_def Let_def)
  ultimately show ?thesis using assms(1) by (simp add: unpack_def)
qed

section \<open>Trees\<close>

definition path_of :: "string list \<Rightarrow> string" where
  "path_of ps = CHR ''/'' # join_slash ps"

definition clean :: "string list \<Rightarrow> bool" where
  "clean ps \<longleftrightarrow> (\<forall>p \<in> set ps. clean_part p)"

fun lookup :: "heap \<Rightarrow> nat \<Rightarrow> string list \<Rightarrow> nat option" where
  "lookup h r [] = Some r"
| "lookup h r (n # ns) = (case map_of (children (nd h r)) n of None \<Rightarrow> None | Some c \<Rightarrow> lookup h c ns)"

text \<open>Names that the path functions keep as they are; only directories have entries.\<close>

definition tidy :: "heap \<Rightarrow> bool" where
  "tidy h \<longleftrightarrow> (\<forall>r < length (nodes h). let n = nd h r in
     distinct (map fst (children n)) \<and> (\<forall>(name, c) \<in> set (children n). clean_part name \<and> c < length (nodes h)) \<and>
     (vtype n \<noteq> NDir \<longrightarrow> children n = []))"

lemma tidyD:
  assumes "tidy h" "r < length (nodes h)"
  shows "distinct (map fst (children (nd h r)))" "vtype (nd h r) \<noteq> NDir \<Longrightarrow> children (nd h r) = []"
    "map_of (children (nd h r)) name = Some c \<Longrightarrow> clean_part name \<and> c < length (nodes h)"
  using assms by (auto simp: tidy_def Let_def dest!: map_of_SomeD)

lemma path_of_inj: "clean ps \<Longrightarrow> clean qs \<Longrightarrow> path_of ps = path_of qs \<longleftrightarrow> ps = qs"
  unfolding clean_def path_of_def by (metis clean_path(1))

lemma child_path_of: "clean ps \<Longrightarrow> child_path (path_of ps) n = path_of (ps @ [n])"
proof -
  assume c: "clean ps"
  have "join_slash (qs @ [n]) = join_slash qs @ ''/'' @ n" if "qs \<noteq> []" for qs
    using that by (induction qs rule: join_slash.induct) auto
  then show ?thesis
    using c clean_path(3) [of ps] by (auto simp: child_path_def path_of_def clean_def)
qed

lemma lookup_snoc:
  "lookup h r (ns @ [n]) = (case lookup h r ns of None \<Rightarrow> None | Some c \<Rightarrow> map_of (children (nd h c)) n)"
  by (induction ns arbitrary: r) (auto split: option.split)

lemma lookup_append:
  "lookup h r (ns @ ms) = (case lookup h r ns of None \<Rightarrow> None | Some c \<Rightarrow> lookup h c ms)"
  by (induction ns arbitrary: r) (auto split: option.split)

lemma lookup_tidy:
  assumes "tidy h" "r < length (nodes h)" "lookup h r ns = Some c"
  shows "clean ns \<and> c < length (nodes h)"
  using assms(2,3)
proof (induction ns arbitrary: r)
  case Nil
  then show ?case by (simp add: clean_def)
next
  case (Cons n ns)
  then obtain d where d: "map_of (children (nd h r)) n = Some d" "lookup h d ns = Some c" by (auto split: option.splits)
  then show ?case using tidyD(3) [OF assms(1) Cons.prems(1) d(1)] Cons.IH by (auto simp: clean_def)
qed

section \<open>What is collected\<close>

definition describes :: "entry \<Rightarrow> u8 list \<Rightarrow> vnode \<Rightarrow> bool" where
  "describes e blob n \<longleftrightarrow> en_type e = vtype n \<and> en_ino e = ino n \<and> en_mode e = vmode n \<and> en_uid e = uid n \<and>
     en_gid e = gid n \<and> en_rdev e = rdev n \<and> en_atime e = atime n \<and> en_mtime e = mtime n \<and> en_ctime e = ctime n \<and>
     en_nlink e = nlink n \<and>
     (vtype n = NFile \<longrightarrow> en_offset e + en_length e \<le> length blob \<and> take (en_length e) (drop (en_offset e) blob) = vdata n) \<and>
     (vtype n = NSymlink \<longrightarrow> en_target e = target n) \<and> (vtype n = NChar \<longrightarrow> en_device e = device n)"

lemma describes_append: "describes e b n \<Longrightarrow> describes e (b @ x) n"
  by (auto simp: describes_def)

text \<open>The entries of a subtree: one for every path below it, with the node it describes.\<close>

definition covers :: "heap \<Rightarrow> nat \<Rightarrow> string list \<Rightarrow> entry list \<Rightarrow> u8 list \<Rightarrow> bool" where
  "covers h r ps es b \<longleftrightarrow> distinct (map en_path es) \<and>
     (\<forall>e \<in> set es. \<exists>qs c. lookup h r qs = Some c \<and> en_path e = path_of (ps @ qs) \<and> describes e b (nd h c)) \<and>
     (\<forall>qs c. lookup h r qs = Some c \<longrightarrow> (\<exists>e \<in> set es. en_path e = path_of (ps @ qs)))"

lemma covers_append: "covers h r ps es b \<Longrightarrow> covers h r ps es (b @ x)"
  unfolding covers_def using describes_append by blast

definition visit_names :: "nat \<Rightarrow> heap \<Rightarrow> nat \<Rightarrow> string \<Rightarrow> string list \<Rightarrow> entry list \<times> u8 list \<Rightarrow> vfs_error + entry list \<times> u8 list" where
  "visit_names lv h r path names acc = foldl (\<lambda>acc name. case acc of Inl e \<Rightarrow> Inl e
     | Inr a \<Rightarrow> visit lv h (the (map_of (children (nd h r)) name)) (child_path path name) a) (Inr acc) names"

lemma visit_names_simps:
  "visit_names lv h r path [] acc = Inr acc"
  "visit_names lv h r path (n # ns) acc =
     (case visit lv h (the (map_of (children (nd h r)) n)) (child_path path n) acc of
        Inl e \<Rightarrow> Inl e | Inr a \<Rightarrow> visit_names lv h r path ns a)"
proof -
  have err: "foldl (\<lambda>acc name. case acc of Inl e \<Rightarrow> Inl e | Inr a \<Rightarrow> f name a) (Inl e) xs = Inl e"
    for f :: "string \<Rightarrow> 'a \<Rightarrow> 'e + 'a" and e xs by (induction xs) auto
  show "visit_names lv h r path (n # ns) acc =
     (case visit lv h (the (map_of (children (nd h r)) n)) (child_path path n) acc of
        Inl e \<Rightarrow> Inl e | Inr a \<Rightarrow> visit_names lv h r path ns a)"
    by (auto simp: visit_names_def err split: sum.split)
qed (simp add: visit_names_def)

text \<open>The children named in a list, of a directory at \<open>ps\<close>.\<close>

definition covers_children :: "heap \<Rightarrow> nat \<Rightarrow> string list \<Rightarrow> string list \<Rightarrow> entry list \<Rightarrow> u8 list \<Rightarrow> bool" where
  "covers_children h r ps ns es b \<longleftrightarrow> distinct (map en_path es) \<and>
     (\<forall>e \<in> set es. \<exists>n \<in> set ns. \<exists>qs c. lookup h r (n # qs) = Some c \<and> en_path e = path_of (ps @ n # qs) \<and> describes e b (nd h c)) \<and>
     (\<forall>n \<in> set ns. \<forall>qs c. lookup h r (n # qs) = Some c \<longrightarrow> (\<exists>e \<in> set es. en_path e = path_of (ps @ n # qs)))"

lemma covers_children_Cons:
  assumes t: "tidy h" "r < length (nodes h)" and ps: "clean ps"
    and n: "map_of (children (nd h r)) n = Some d" "n \<notin> set ns"
    and one: "covers h d (ps @ [n]) es1 b1" and rest: "covers_children h r ps ns es2 b"
    and b: "b = b1 @ x"
  shows "covers_children h r ps (n # ns) (es1 @ es2) b"
proof -
  have one': "covers h d (ps @ [n]) es1 b" using covers_append [OF one] b by simp
  have cl: "clean (m # qs)" if "lookup h r (m # qs) = Some c" for m qs c
    using lookup_tidy [OF t that] by simp
  have "set (map en_path es1) \<inter> set (map en_path es2) = {}"
  proof (rule ccontr)
    assume "set (map en_path es1) \<inter> set (map en_path es2) \<noteq> {}"
    then obtain e1 e2 where e: "e1 \<in> set es1" "e2 \<in> set es2" "en_path e1 = en_path e2" by auto
    obtain qs c where q: "lookup h d qs = Some c" "en_path e1 = path_of ((ps @ [n]) @ qs)"
      using one' e(1) unfolding covers_def by blast
    obtain m qs' c' where q': "m \<in> set ns" "lookup h r (m # qs') = Some c'" "en_path e2 = path_of (ps @ m # qs')"
      using rest e(2) unfolding covers_children_def by blast
    have "clean (n # qs)" "clean (m # qs')" using cl [of n qs c] cl [OF q'(2)] q(1) n(1) by simp_all
    then have "clean (ps @ n # qs)" "clean (ps @ m # qs')" using ps by (auto simp: clean_def)
    moreover have "path_of (ps @ n # qs) = path_of (ps @ m # qs')" using e(3) q(2) q'(3) by simp
    ultimately have "ps @ n # qs = ps @ m # qs'" using path_of_inj by blast
    then show False using q'(1) n(2) by simp
  qed
  moreover have "distinct (map en_path es1)" "distinct (map en_path es2)"
    using one' rest by (simp_all add: covers_def covers_children_def)
  moreover have "\<exists>m \<in> set (n # ns). \<exists>qs c. lookup h r (m # qs) = Some c \<and> en_path e = path_of (ps @ m # qs) \<and> describes e b (nd h c)"
    if "e \<in> set (es1 @ es2)" for e
  proof (cases "e \<in> set es1")
    case True
    then obtain qs c where "lookup h d qs = Some c" "en_path e = path_of ((ps @ [n]) @ qs)" "describes e b (nd h c)"
      using one' unfolding covers_def by blast
    then show ?thesis using n(1) by (intro bexI [of _ n] exI [of _ qs] exI [of _ c]) simp_all
  next
    case False
    then have "e \<in> set es2" using that by simp
    then show ?thesis using rest unfolding covers_children_def by (meson list.set_intros(2))
  qed
  moreover have "\<exists>e \<in> set (es1 @ es2). en_path e = path_of (ps @ m # qs)"
    if "m \<in> set (n # ns)" "lookup h r (m # qs) = Some c" for m qs c
  proof (cases "m = n")
    case True
    then have "lookup h d qs = Some c" using that(2) n(1) by simp
    then show ?thesis using one' True unfolding covers_def by (metis Un_iff append.assoc append_Cons append_Nil set_append)
  next
    case False
    then have "m \<in> set ns" using that(1) by simp
    then show ?thesis using rest that(2) unfolding covers_children_def by (metis Un_iff set_append)
  qed
  ultimately show ?thesis unfolding covers_children_def by simp
qed

lemma visit_names_covers:
  assumes t: "tidy h" "r < length (nodes h)" and ps: "clean ps"
    and IH: "\<And>d qs es0 b0 es b. visit lv h d (path_of qs) (es0, b0) = Inr (es, b) \<Longrightarrow> d < length (nodes h) \<Longrightarrow> clean qs \<Longrightarrow>
      \<exists>es1 b1. es = es0 @ es1 \<and> b = b0 @ b1 \<and> covers h d qs es1 b"
    and run: "visit_names lv h r (path_of ps) ns (es0, b0) = Inr (es, b)"
    and ns: "distinct ns" "set ns \<subseteq> fst ` set (children (nd h r))"
  shows "\<exists>es1 b1. es = es0 @ es1 \<and> b = b0 @ b1 \<and> covers_children h r ps ns es1 b"
  using run ns
proof (induction ns arbitrary: es0 b0)
  case Nil
  then show ?case by (simp add: visit_names_simps covers_children_def)
next
  case (Cons n ns)
  then obtain d where d: "map_of (children (nd h r)) n = Some d" by (cases "map_of (children (nd h r)) n") (auto simp: map_of_eq_None_iff)
  note dn = tidyD(3) [OF t d]
  obtain es' b' where v: "visit lv h d (path_of (ps @ [n])) (es0, b0) = Inr (es', b')"
      "visit_names lv h r (path_of ps) ns (es', b') = Inr (es, b)"
    using Cons.prems(1) d ps by (auto simp: visit_names_simps child_path_of split: sum.splits)
  obtain es1 b1 where one: "es' = es0 @ es1" "b' = b0 @ b1" "covers h d (ps @ [n]) es1 b'"
    using IH [OF v(1)] dn ps by (auto simp: clean_def)
  obtain es2 b2 where two: "es = es' @ es2" "b = b' @ b2" "covers_children h r ps ns es2 b"
    using Cons.IH [OF v(2)] Cons.prems by auto
  have "covers_children h r ps (n # ns) (es1 @ es2) b"
    by (rule covers_children_Cons [OF t ps d _ one(3) two(3) two(2)]) (use Cons.prems in simp)
  then show ?case using one two by (intro exI [of _ "es1 @ es2"] exI [of _ "b1 @ b2"]) simp
qed

lemma covers_leaf:
  assumes "children (nd h r) = []" "en_path e = path_of ps" "describes e b (nd h r)"
  shows "covers h r ps [e] b"
proof -
  have "lookup h r qs = Some c \<longleftrightarrow> qs = [] \<and> c = r" for qs c
    using assms(1) by (cases qs) auto
  then show ?thesis using assms(2,3) by (auto simp: covers_def)
qed

lemma covers_dir:
  assumes t: "tidy h" "r < length (nodes h)" and ps: "clean ps"
    and e: "en_path e = path_of ps" "describes e b (nd h r)"
    and ch: "covers_children h r ps ns es b" "set ns = fst ` set (children (nd h r))"
  shows "covers h r ps (e # es) b"
proof -
  have "en_path e \<noteq> en_path e'" if e': "e' \<in> set es" for e'
  proof -
    obtain n qs c where q: "lookup h r (n # qs) = Some c" "en_path e' = path_of (ps @ n # qs)"
      using ch(1) e' unfolding covers_children_def by blast
    then have "clean (ps @ n # qs)" using lookup_tidy [OF t q(1)] ps by (auto simp: clean_def)
    then show ?thesis using path_of_inj [OF ps] e(1) q(2) by (metis append_self_conv list.distinct(1))
  qed
  moreover have "\<exists>e' \<in> set (e # es). en_path e' = path_of (ps @ qs)" if "lookup h r qs = Some c" for qs c
  proof (cases qs)
    case Nil
    then show ?thesis using e by simp
  next
    case (Cons n qs')
    then have "n \<in> set ns"
      using that ch(2) by (auto split: option.splits simp: image_iff dest!: map_of_SomeD) force
    then show ?thesis using ch(1) that Cons unfolding covers_children_def by auto
  qed
  moreover have "\<exists>qs c. lookup h r qs = Some c \<and> en_path e' = path_of (ps @ qs) \<and> describes e' b (nd h c)"
    if "e' \<in> set (e # es)" for e'
  proof (cases "e' = e")
    case True
    then show ?thesis using e by (intro exI [of _ "[]"] exI [of _ r]) simp
  next
    case False
    then have "e' \<in> set es" using that by simp
    then show ?thesis using ch(1) unfolding covers_children_def by blast
  qed
  moreover have "distinct (map en_path es)" using ch(1) by (simp add: covers_children_def)
  ultimately show ?thesis
    unfolding covers_def by auto
qed

lemma describes_base:
  "vtype n = NDir \<Longrightarrow> describes (base_entry p n) b n"
  "vtype n = NFile \<Longrightarrow> describes ((base_entry p n)\<lparr>en_offset := length b, en_length := length (vdata n)\<rparr>) (b @ vdata n) n"
  "vtype n = NSymlink \<Longrightarrow> describes ((base_entry p n)\<lparr>en_target := target n\<rparr>) b n"
  "vtype n = NChar \<Longrightarrow> describes ((base_entry p n)\<lparr>en_device := device n\<rparr>) b n"
  by (simp_all add: describes_def base_entry_def)

lemma visit_covers:
  assumes "tidy h"
  shows "visit lv h r (path_of ps) (es0, b0) = Inr (es, b) \<Longrightarrow> r < length (nodes h) \<Longrightarrow> clean ps \<Longrightarrow>
    \<exists>es1 b1. es = es0 @ es1 \<and> b = b0 @ b1 \<and> covers h r ps es1 b"
proof (induction lv arbitrary: r ps es0 b0 es b)
  case 0
  then show ?case by simp
next
  case (Suc lv)
  let ?n = "nd h r"
  let ?e = "base_entry (path_of ps) ?n"
  have p: "en_path ?e = path_of ps" by (simp add: base_entry_def)
  note leaf = tidyD(2) [OF assms Suc.prems(2)]
  show ?case
  proof (cases "vtype ?n")
    case NFile
    then show ?thesis
      using Suc.prems(1) covers_leaf [OF leaf, of _ ps] describes_base(2) [OF NFile] p by (auto simp: Let_def)
  next
    case NSymlink
    then show ?thesis
      using Suc.prems(1) covers_leaf [OF leaf, of _ ps] describes_base(3) [OF NSymlink] p by (auto simp: Let_def)
  next
    case NChar
    then show ?thesis
      using Suc.prems(1) covers_leaf [OF leaf, of _ ps] describes_base(4) [OF NChar] p by (auto simp: Let_def)
  next
    case NDir
    let ?ns = "sort (map fst (children ?n))"
    have run: "visit_names lv h r (path_of ps) ?ns (es0 @ [?e], b0) = Inr (es, b)"
      using Suc.prems(1) NDir by (simp add: Let_def visit_names_def)
    have ns: "distinct ?ns" "set ?ns = fst ` set (children ?n)"
      using tidyD(1) [OF assms Suc.prems(2)] by simp_all
    obtain es1 b1 where "es = (es0 @ [?e]) @ es1" "b = b0 @ b1" "covers_children h r ps ?ns es1 b"
      using visit_names_covers [OF assms Suc.prems(2,3) Suc.IH run ns(1)] ns(2) by auto
    moreover from this have "covers h r ps (?e # es1) b"
      using covers_dir [OF assms Suc.prems(2,3) p describes_base(1) [OF NDir]] ns(2) by blast
    ultimately show ?thesis by auto
  qed
qed

section \<open>What is restored\<close>

definition names_of :: "entry \<Rightarrow> string list" where
  "names_of e = path_parts (en_path e)"

lemma names_path_of: "clean ps \<Longrightarrow> en_path e = path_of ps \<Longrightarrow> names_of e = ps"
  by (simp add: names_of_def path_of_def clean_def clean_path(1))

definition restored :: "entry \<Rightarrow> u8 list \<Rightarrow> vnode \<Rightarrow> bool" where
  "restored e blob n \<longleftrightarrow> n\<lparr>parent := None, children := []\<rparr> = (entry_node e blob 0)\<lparr>parent := None\<rparr>"

definition root_restored :: "entry \<Rightarrow> vnode \<Rightarrow> bool" where
  "root_restored e n \<longleftrightarrow> vmode n = en_mode e \<and> uid n = en_uid e \<and> gid n = en_gid e \<and> atime n = en_atime e \<and>
     mtime n = en_mtime e \<and> ctime n = en_ctime e"

text \<open>The tree below \<open>R\<close> after the entries \<open>xs\<close>.\<close>

definition installed :: "nat \<Rightarrow> u8 list \<Rightarrow> entry list \<Rightarrow> heap \<Rightarrow> bool" where
  "installed R blob xs H \<longleftrightarrow> vtype (nd H R) = NDir \<and>
     (\<forall>qs c. lookup H R qs = Some c \<longrightarrow> c < length (nodes H)) \<and>
     (\<forall>qs qs' c. lookup H R qs = Some c \<longrightarrow> lookup H R qs' = Some c \<longrightarrow> qs = qs') \<and>
     (\<forall>qs. lookup H R qs \<noteq> None \<longleftrightarrow> qs = [] \<or> qs \<in> names_of ` set xs) \<and>
     (\<forall>qs n c. lookup H R (qs @ [n]) \<noteq> None \<longrightarrow> lookup H R qs = Some c \<longrightarrow> vtype (nd H c) = NDir) \<and>
     (\<forall>e \<in> set xs. \<exists>c. lookup H R (names_of e) = Some c \<and>
        (if names_of e = [] then root_restored e (nd H c) else restored e blob (nd H c)))"

lemma installedD:
  assumes "installed R blob xs H"
  shows "vtype (nd H R) = NDir"
    and "lookup H R qs = Some c \<Longrightarrow> c < length (nodes H)"
    and "lookup H R qs = Some c \<Longrightarrow> lookup H R qs' = Some c \<Longrightarrow> qs = qs'"
    and "lookup H R qs \<noteq> None \<longleftrightarrow> qs = [] \<or> qs \<in> names_of ` set xs"
    and "lookup H R (qs @ [n]) \<noteq> None \<Longrightarrow> lookup H R qs = Some c \<Longrightarrow> vtype (nd H c) = NDir"
    and "e \<in> set xs \<Longrightarrow> \<exists>c. lookup H R (names_of e) = Some c \<and>
        (if names_of e = [] then root_restored e (nd H c) else restored e blob (nd H c))"
  using assms unfolding installed_def by (elim conjE; (simp only: simp_thms | blast))+

lemma mkdirp_existing:
  assumes "lookup H r ps = Some c"
    "\<And>qs zs d. ps = qs @ zs \<Longrightarrow> qs \<noteq> [] \<Longrightarrow> lookup H r qs = Some d \<Longrightarrow> vtype (nd H d) = NDir"
  shows "mkdirp_loop mode r ps H = (Inr c, H)"
  using assms
proof (induction ps arbitrary: r)
  case Nil
  then show ?case by simp
next
  case (Cons p ps)
  then obtain d where d: "map_of (children (nd H r)) p = Some d" "lookup H d ps = Some c" by (auto split: option.splits)
  have "vtype (nd H d) = NDir" using Cons.prems(2) [of "[p]" ps d] d by simp
  moreover have "mkdirp_loop mode d ps H = (Inr c, H)"
  proof (rule Cons.IH [OF d(2)])
    show "vtype (nd H x) = NDir" if "ps = qs @ zs" "qs \<noteq> []" "lookup H d qs = Some x" for qs zs x
      using Cons.prems(2) [of "p # qs" zs x] that d by simp
  qed
  ultimately show ?case using d by (simp add: get_node_def)
qed

definition add_child :: "nat \<Rightarrow> string \<Rightarrow> vnode \<Rightarrow> heap \<Rightarrow> heap" where
  "add_child par nm n H = H\<lparr>nodes := (nodes H @ [n])
     [par := (nd H par)\<lparr>children := AList.update nm (length (nodes H)) (children (nd H par))\<rparr>]\<rparr>"

lemma nd_add_child:
  assumes "par < length (nodes H)" "r \<le> length (nodes H)"
  shows "nd (add_child par nm n H) r =
    (if r = par then (nd H par)\<lparr>children := AList.update nm (length (nodes H)) (children (nd H par))\<rparr>
     else if r = length (nodes H) then n else nd H r)"
  using assms by (auto simp: add_child_def nd_def nth_append nth_list_update)

lemma lookup_add_child:
  assumes inv: "installed R blob xs H" and par: "lookup H R ps = Some par"
    and new: "lookup H R (ps @ [nm]) = None" and n: "children n = []"
  shows "lookup (add_child par nm n H) R qs = (if qs = ps @ [nm] then Some (length (nodes H)) else lookup H R qs)"
proof (induction qs rule: rev_induct)
  case Nil
  then show ?case by simp
next
  case (snoc m qs)
  have par_len: "par < length (nodes H)" by (rule installedD(2) [OF inv par])
  note nds = nd_add_child [OF par_len, of _ nm n]
  let ?H = "add_child par nm n H"
  show ?case
  proof (cases "qs = ps @ [nm]")
    case True
    have "lookup ?H R qs = Some (length (nodes H))" using snoc True by simp
    then have "lookup ?H R (qs @ [m]) = None"
      unfolding lookup_snoc [of ?H R qs m] using n par_len by (simp add: nds)
    moreover have "lookup H R (qs @ [m]) = None"
      unfolding lookup_snoc [of H R qs m] using True new by simp
    ultimately show ?thesis using True by simp
  next
    case False
    show ?thesis
    proof (cases "lookup H R qs")
      case None
      then have "qs \<noteq> ps" using par by auto
      then show ?thesis using False snoc None by (simp add: lookup_snoc)
    next
      case (Some c)
      then have "c < length (nodes H)" by (rule installedD(2) [OF inv])
      moreover have "c = par \<longleftrightarrow> qs = ps"
        using installedD(3) [OF inv Some, of ps] par Some by auto
      moreover have "lookup ?H R (qs @ [m]) = map_of (children (nd ?H c)) m"
        using snoc False Some by (simp add: lookup_snoc)
      moreover have "lookup H R (qs @ [m]) = map_of (children (nd H c)) m"
        using Some by (simp add: lookup_snoc)
      ultimately show ?thesis by (auto simp: nds)
    qed
  qed
qed

lemma installNode_child:
  assumes inv: "installed (root v) blob xs H"
    and e: "clean (ps @ [nm])" "en_path e = path_of (ps @ [nm])"
    and par: "lookup H (root v) ps = Some par" "vtype (nd H par) = NDir"
  shows "installNode v blob e H = (Inr (), add_child par nm (entry_node e blob par) H)"
proof -
  have len: "par < length (nodes H)" by (rule installedD(2) [OF inv par(1)])
  have cl: "\<forall>p \<in> set (ps @ [nm]). clean_part p" "\<forall>p \<in> set ps. clean_part p" using e(1) by (simp_all add: clean_def)
  have db: "dirname (en_path e) = path_of ps" "basename (en_path e) = nm" "en_path e \<noteq> ''/''"
    using clean_dir_base [OF cl(1)] clean_path(3) [OF cl(1)] e(2) by (simp_all add: path_of_def)
  have "mkdirp v (path_of ps) 0x1ed H = (Inr par, H)"
  proof (cases "ps = []")
    case True
    then show ?thesis using par clean_path(2) [of "[]" v] by (simp add: mkdirp_def path_of_def)
  next
    case False
    have "mkdirp_loop 0x1ed (root v) ps H = (Inr par, H)"
    proof (rule mkdirp_existing [OF par(1)])
      fix qs zs d
      assume q: "ps = qs @ zs" "qs \<noteq> []" "lookup H (root v) qs = Some d"
      show "vtype (nd H d) = NDir"
      proof (cases zs)
        case Nil
        then show ?thesis using q par by simp
      next
        case (Cons z zs')
        then have "lookup H (root v) (qs @ [z]) \<noteq> None"
          using q par(1) lookup_append [of H "root v" "qs @ [z]" zs'] by (auto split: option.splits)
        then show ?thesis by (rule installedD(5) [OF inv _ q(3)])
      qed
    qed
    then show ?thesis using False clean_path(1,3) [OF cl(2)] clean_path(2) [OF cl(2), of v] by (simp add: mkdirp_def path_of_def Let_def)
  qed
  then show ?thesis
    using db len by (simp add: installNode_def put_node_def set_child_def mod_node_def add_child_def nd_def nth_append)
qed

lemma installedI:
  assumes "vtype (nd H R) = NDir"
    and "\<And>qs c. lookup H R qs = Some c \<Longrightarrow> c < length (nodes H)"
    and "\<And>qs qs' c. lookup H R qs = Some c \<Longrightarrow> lookup H R qs' = Some c \<Longrightarrow> qs = qs'"
    and "\<And>qs. lookup H R qs \<noteq> None \<longleftrightarrow> qs = [] \<or> qs \<in> names_of ` set xs"
    and "\<And>qs n c. lookup H R (qs @ [n]) \<noteq> None \<Longrightarrow> lookup H R qs = Some c \<Longrightarrow> vtype (nd H c) = NDir"
    and "\<And>e. e \<in> set xs \<Longrightarrow> \<exists>c. lookup H R (names_of e) = Some c \<and>
        (if names_of e = [] then root_restored e (nd H c) else restored e blob (nd H c))"
  shows "installed R blob xs H"
  unfolding installed_def by (intro conjI allI impI ballI assms)

lemma installed_child:
  assumes inv: "installed R blob xs H" and e: "names_of e = ps @ [nm]" "names_of e \<notin> names_of ` set xs"
    and par: "lookup H R ps = Some par" "vtype (nd H par) = NDir"
  shows "installed R blob (xs @ [e]) (add_child par nm (entry_node e blob par) H)"
proof -
  let ?n = "entry_node e blob par" and ?L = "length (nodes H)"
  let ?H = "add_child par nm ?n H"
  have new: "lookup H R (ps @ [nm]) = None"
    using installedD(4) [OF inv, of "ps @ [nm]"] e by auto
  have lk: "lookup ?H R qs = (if qs = ps @ [nm] then Some ?L else lookup H R qs)" for qs
    by (rule lookup_add_child [OF inv par(1) new]) (simp add: entry_node_def)
  have len: "par < ?L" by (rule installedD(2) [OF inv par(1)])
  note nds = nd_add_child [OF len, of _ nm ?n]
  have old: "c < ?L" if "lookup H R qs = Some c" for qs c by (rule installedD(2) [OF inv that])
  have kept: "vtype (nd ?H c) = vtype (nd H c)" "restored x blob (nd ?H c) = restored x blob (nd H c)"
    "root_restored x (nd ?H c) = root_restored x (nd H c)" if "c < ?L" for c x
    using that len by (simp_all add: nds restored_def root_restored_def)
  have lenH: "length (nodes ?H) = Suc ?L" by (simp add: add_child_def)
  have "R < ?L" using old [of "[]"] by simp
  then have c1: "vtype (nd ?H R) = NDir" using kept installedD(1) [OF inv] by simp
  have c2: "c < length (nodes ?H)" if "lookup ?H R qs = Some c" for qs c
    using that old [of qs c] lenH by (auto simp: lk split: if_splits)
  have c3: "qs = qs'" if "lookup ?H R qs = Some c" "lookup ?H R qs' = Some c" for qs qs' c
    using that old [of qs c] old [of qs' c] installedD(3) [OF inv, of qs c qs'] by (auto simp: lk split: if_splits)
  have c4: "lookup ?H R qs \<noteq> None \<longleftrightarrow> qs = [] \<or> qs \<in> names_of ` set (xs @ [e])" for qs
    using installedD(4) [OF inv, of qs] e(1) by (auto simp: lk)
  have c5: "vtype (nd ?H c) = NDir" if q: "lookup ?H R (qs @ [n]) \<noteq> None" "lookup ?H R qs = Some c" for qs n c
  proof (cases "qs = ps \<and> n = nm")
    case True
    then show ?thesis using q par len kept(1) by (simp add: lk)
  next
    case False
    then have "lookup H R (qs @ [n]) \<noteq> None" using q(1) by (auto simp: lk split: if_splits)
    moreover from this have "lookup H R qs \<noteq> None" by (auto simp: lookup_snoc split: option.splits)
    with q(2) new have "lookup H R qs = Some c" by (auto simp: lk split: if_splits)
    ultimately show ?thesis using installedD(5) [OF inv] kept(1) old by metis
  qed
  have c6: "\<exists>c. lookup ?H R (names_of x) = Some c \<and>
      (if names_of x = [] then root_restored x (nd ?H c) else restored x blob (nd ?H c))" if "x \<in> set (xs @ [e])" for x
  proof (cases "x = e")
    case True
    have "restored e blob ?n" by (simp add: restored_def entry_node_def)
    then show ?thesis using True e(1) len by (simp add: lk nds)
  next
    case False
    then have x: "x \<in> set xs" using that by simp
    then have "names_of x \<noteq> ps @ [nm]" using e by (metis imageI)
    moreover obtain c where c: "lookup H R (names_of x) = Some c"
        "if names_of x = [] then root_restored x (nd H c) else restored x blob (nd H c)"
      using installedD(6) [OF inv x] by blast
    ultimately show ?thesis using kept(2,3) [OF old [OF c(1)], of x] by (simp add: lk)
  qed
  show ?thesis by (rule installedI [OF c1 c2 c3 c4 c5 c6])
qed

lemma installed_root:
  assumes inv: "installed (root v) blob xs H" and e: "en_path e = ''/''" "names_of e \<notin> names_of ` set xs"
  shows "\<exists>H'. installNode v blob e H = (Inr (), H') \<and> installed (root v) blob (xs @ [e]) H'"
proof -
  let ?f = "\<lambda>n. n\<lparr>vmode := en_mode e, uid := en_uid e, gid := en_gid e, atime := en_atime e,
    mtime := en_mtime e, ctime := en_ctime e\<rparr>"
  let ?H = "H\<lparr>nodes := (nodes H)[root v := ?f (nd H (root v))]\<rparr>"
  have run: "installNode v blob e H = (Inr (), ?H)" using e(1) by (simp add: installNode_def mod_node_def)
  have len: "root v < length (nodes H)" using installedD(2) [OF inv, of "[]"] by simp
  have nds: "nd ?H r = (if r = root v then ?f (nd H (root v)) else nd H r)" for r
    using len by (auto simp: nd_def nth_list_update nth_list_update_neq)
  have lk: "lookup ?H r qs = lookup H r qs" for r qs
    by (induction qs arbitrary: r) (auto simp: nds split: option.split)
  have ty: "vtype (nd ?H c) = vtype (nd H c)" for c by (simp add: nds)
  have nm: "names_of e = []" using e(1) by (simp add: names_of_def path_parts_def)
  have none: "names_of x \<noteq> []" if "x \<in> set xs" for x using that e(2) nm by (metis imageI)
  have "c = root v \<Longrightarrow> qs = []" if "lookup H (root v) qs = Some c" for qs c
    using installedD(3) [OF inv that, of "[]"] by simp
  then have "\<exists>c. lookup ?H (root v) (names_of x) = Some c \<and>
      (if names_of x = [] then root_restored x (nd ?H c) else restored x blob (nd ?H c))" if "x \<in> set (xs @ [e])" for x
  proof (cases "x = e")
    case True
    then show ?thesis using nm by (simp add: nds root_restored_def)
  next
    case False
    then have x: "x \<in> set xs" using that by simp
    obtain c where "lookup H (root v) (names_of x) = Some c" "restored x blob (nd H c)"
      using installedD(6) [OF inv x] none [OF x] by auto
    then show ?thesis
      using none [OF x] installedD(3) [OF inv, of "names_of x" c "[]"] by (auto simp: lk nds)
  qed
  then have "installed (root v) blob (xs @ [e]) ?H"
    using inv nm unfolding installed_def lk ty by (auto simp del: lookup.simps)
  then show ?thesis using run by blast
qed

text \<open>An entry comes after its directory, and no path comes twice.\<close>

definition in_order :: "entry list \<Rightarrow> entry \<Rightarrow> bool" where
  "in_order xs e \<longleftrightarrow> (\<exists>ps. clean ps \<and> en_path e = path_of ps \<and> ps \<notin> names_of ` set xs \<and>
     (ps = [] \<or> butlast ps = [] \<or> (\<exists>d \<in> set xs. names_of d = butlast ps \<and> en_type d = NDir)))"

fun all_in_order :: "entry list \<Rightarrow> entry list \<Rightarrow> bool" where
  "all_in_order xs [] = True"
| "all_in_order xs (e # es) = (in_order xs e \<and> all_in_order (xs @ [e]) es)"

lemma installed_step:
  assumes inv: "installed (root v) blob xs H" and e: "in_order xs e"
  shows "\<exists>H'. installNode v blob e H = (Inr (), H') \<and> installed (root v) blob (xs @ [e]) H'"
proof -
  obtain ps where ps: "clean ps" "en_path e = path_of ps" "ps \<notin> names_of ` set xs"
    "ps = [] \<or> butlast ps = [] \<or> (\<exists>d \<in> set xs. names_of d = butlast ps \<and> en_type d = NDir)"
    using e by (auto simp: in_order_def)
  have nm: "names_of e = ps" by (rule names_path_of [OF ps(1,2)])
  show ?thesis
  proof (cases "ps = []")
    case True
    then show ?thesis using installed_root [OF inv] ps nm by (simp add: path_of_def)
  next
    case False
    let ?qs = "butlast ps"
    have snoc: "ps = ?qs @ [last ps]" using False by simp
    have "\<exists>par. lookup H (root v) ?qs = Some par \<and> vtype (nd H par) = NDir"
    proof (cases "?qs = []")
      case True
      then show ?thesis using installedD(1) [OF inv] by simp
    next
      case nonempty: False
      then obtain d where d: "d \<in> set xs" "names_of d = ?qs" "en_type d = NDir" using ps(4) False by auto
      then obtain c where c: "lookup H (root v) ?qs = Some c" "restored d blob (nd H c)"
        using installedD(6) [OF inv d(1)] nonempty by auto
      have "vtype (nd H c) = vtype ((nd H c)\<lparr>parent := None, children := []\<rparr>)" by simp
      also have "\<dots> = NDir" using c(2) d(3) unfolding restored_def by (simp add: entry_node_def)
      finally show ?thesis using c(1) by blast
    qed
    then obtain par where par: "lookup H (root v) ?qs = Some par" "vtype (nd H par) = NDir" by blast
    show ?thesis
      using installNode_child [OF inv _ _ par, of "last ps" e] installed_child [OF inv _ _ par, of e "last ps"] snoc ps nm
      by metis
  qed
qed

lemma install_run:
  assumes "installed (root v) blob xs H" "all_in_order xs es"
  shows "\<exists>H'. forM es (installNode v blob) H = (Inr (), H') \<and> installed (root v) blob (xs @ es) H'"
  using assms
proof (induction es arbitrary: xs H)
  case Nil
  then show ?case by simp
next
  case (Cons e es)
  then obtain H1 where "installNode v blob e H = (Inr (), H1)" "installed (root v) blob (xs @ [e]) H1"
    using installed_step by fastforce
  moreover from this(2) obtain H2 where "forM es (installNode v blob) H1 = (Inr (), H2)" "installed (root v) blob ((xs @ [e]) @ es) H2"
    using Cons by fastforce
  ultimately show ?case by simp
qed

lemma all_in_order_split:
  "(\<And>ys e zs. es = ys @ e # zs \<Longrightarrow> in_order (xs @ ys) e) \<Longrightarrow> all_in_order xs es"
proof (induction es arbitrary: xs)
  case (Cons e es)
  have "in_order (xs @ [e] @ ys) x" if "es = ys @ x # zs" for ys x zs
    using Cons.prems [of "e # ys" x zs] that by simp
  then show ?case using Cons.IH [of "xs @ [e]"] Cons.prems [of "[]" e es] by simp
qed simp

lemma covers_path:
  assumes "tidy h" "r < length (nodes h)" "covers h r [] es b" "e \<in> set es"
  obtains c where "lookup h r (names_of e) = Some c" "clean (names_of e)" "en_path e = path_of (names_of e)"
    "describes e b (nd h c)"
proof -
  obtain qs c where q: "lookup h r qs = Some c" "en_path e = path_of qs" "describes e b (nd h c)"
    using assms(3,4) unfolding covers_def by auto
  then have "clean qs" using lookup_tidy [OF assms(1,2)] by blast
  then show ?thesis using that [of c] names_path_of [of qs e] q by simp
qed

lemma covers_names:
  assumes "tidy h" "r < length (nodes h)" "covers h r [] es b" "lookup h r qs = Some c"
  shows "\<exists>e \<in> set es. names_of e = qs \<and> describes e b (nd h c)"
proof -
  obtain e where e: "e \<in> set es" "en_path e = path_of qs" using assms(3,4) unfolding covers_def by force
  have "clean qs" using lookup_tidy [OF assms(1,2,4)] by simp
  then have "names_of e = qs" using names_path_of e(2) by blast
  then show ?thesis using covers_path [OF assms(1-3) e(1)] e(1) assms(4) by force
qed

lemma longer_path: "clean ps \<Longrightarrow> ps \<noteq> [] \<Longrightarrow> length (path_of (butlast ps)) < length (path_of ps)"
proof -
  assume ps: "clean ps" "ps \<noteq> []"
  then have "clean (butlast ps)" "last ps \<noteq> []" by (auto simp: clean_def clean_part_def dest: in_set_butlastD)
  then show ?thesis
    using child_path_of [of "butlast ps" "last ps"] ps(2)
    by (auto simp: child_path_def split: if_splits dest!: arg_cong [where f = length] intro!: Suc_lessI)
qed

lemma covers_in_order:
  assumes t: "tidy h" "r < length (nodes h)" and cov: "covers h r [] es b"
  shows "all_in_order [] (sort_key (\<lambda>e. length (en_path e)) es)"
proof (rule all_in_order_split)
  fix ys e zs
  let ?s = "sort_key (\<lambda>e. length (en_path e)) es"
  assume split: "?s = ys @ e # zs"
  have "set ?s = set es" by simp
  then have mem: "e \<in> set es" "set ys \<subseteq> set es" "\<And>x. x \<in> set es \<Longrightarrow> x \<in> set ys \<or> x \<in> set (e # zs)"
    unfolding split by auto
  have "distinct es" "inj_on en_path (set es)"
    using cov unfolding covers_def by (simp_all add: distinct_map)
  then have "distinct (map en_path ?s)" by (simp add: distinct_map)
  then have e_new: "en_path e \<notin> en_path ` set ys" unfolding split by simp
  have sorted: "length (en_path e) \<le> length (en_path x)" if "x \<in> set (e # zs)" for x
    using that sorted_sort_key [of "\<lambda>e. length (en_path e)" es] unfolding split by (auto simp: sorted_append)
  let ?qs = "names_of e"
  obtain c where e: "lookup h r ?qs = Some c" "clean ?qs" "en_path e = path_of ?qs"
    by (rule covers_path [OF t cov mem(1)])
  have "?qs \<notin> names_of ` set ys"
  proof
    assume "?qs \<in> names_of ` set ys"
    then obtain x where x: "x \<in> set ys" "names_of x = ?qs" by auto
    then have "en_path x = en_path e" using covers_path [OF t cov, of x] mem(2) e(3) by force
    then show False using x(1) e_new by (metis imageI)
  qed
  moreover have "\<exists>d \<in> set ys. names_of d = butlast ?qs \<and> en_type d = NDir" if ne: "?qs \<noteq> []"
  proof -
    obtain d where d: "lookup h r (butlast ?qs) = Some d" "map_of (children (nd h d)) (last ?qs) = Some c"
      using e(1) lookup_snoc [of h r "butlast ?qs" "last ?qs"] ne by (auto split: option.splits)
    then have "vtype (nd h d) = NDir"
      using tidyD(2) [OF t(1), of d] lookup_tidy [OF t d(1)] by fastforce
    then obtain p where p: "p \<in> set es" "names_of p = butlast ?qs" "en_type p = NDir"
      using covers_names [OF t cov d(1)] by (auto simp: describes_def)
    have "length (en_path p) < length (en_path e)"
      using longer_path [OF e(2) ne] p(2) e(3) covers_path [OF t cov p(1)] by metis
    then show ?thesis using p mem(3) [OF p(1)] sorted [of p] by force
  qed
  ultimately show "in_order ([] @ ys) e"
    using e unfolding in_order_def by (intro exI [of _ ?qs]) auto
qed

definition same_node :: "vnode \<Rightarrow> vnode \<Rightarrow> bool" where
  "same_node n n' \<longleftrightarrow> vtype n' = vtype n \<and> ino n' = ino n \<and> vmode n' = vmode n \<and> uid n' = uid n \<and> gid n' = gid n \<and>
     rdev n' = rdev n \<and> atime n' = atime n \<and> mtime n' = mtime n \<and> ctime n' = ctime n \<and> nlink n' = nlink n \<and>
     (vtype n = NFile \<longrightarrow> vdata n' = vdata n) \<and> (vtype n = NSymlink \<longrightarrow> target n' = target n) \<and>
     (vtype n = NChar \<longrightarrow> device n' = device n)"

definition same_owner :: "vnode \<Rightarrow> vnode \<Rightarrow> bool" where
  "same_owner n n' \<longleftrightarrow> vmode n' = vmode n \<and> uid n' = uid n \<and> gid n' = gid n \<and> atime n' = atime n \<and> mtime n' = mtime n \<and>
     ctime n' = ctime n"

lemma restored_same: "describes e blob n \<Longrightarrow> restored e blob n' \<Longrightarrow> same_node n n'"
  by (cases n') (auto simp: restored_def entry_node_def describes_def same_node_def)

lemma root_restored_same: "describes e blob n \<Longrightarrow> root_restored e n' \<Longrightarrow> same_owner n n'"
  by (simp add: root_restored_def describes_def same_owner_def)

lemma fresh_root_installed:
  assumes "fresh_root w h = (Inr v, h')"
  shows "installed (root v) blob [] h'"
proof -
  have n: "nd h' (root v) = (blank_node NDir ''/'' 1 (clock h))\<lparr>parent := Some (root v)\<rparr>" "root v < length (nodes h')"
    using assms by (auto simp: fresh_root_def Let_def nd_def)
  then have "lookup h' (root v) qs = (if qs = [] then Some (root v) else None)" for qs
    by (cases qs) (simp_all add: blank_node_def)
  then show ?thesis using n by (simp add: installed_def blank_node_def)
qed

lemma install_all_covers:
  assumes "tidy h" "r < length (nodes h)" "covers h r [] es blob"
    and "(case given of Some v \<Rightarrow> ret v | None \<Rightarrow> new_vfs) h0 = (Inr w, h1)"
  shows "\<exists>v' h'. install_all given es blob h0 = (Inr v', h') \<and> installed (root v') blob (sort_key (\<lambda>e. length (en_path e)) es) h'"
proof -
  obtain v' h2 where f: "fresh_root w h1 = (Inr v', h2)" by (simp add: fresh_root_def Let_def)
  obtain h' where "forM (sort_key (\<lambda>e. length (en_path e)) es) (installNode v' blob) h2 = (Inr (), h')"
      "installed (root v') blob (sort_key (\<lambda>e. length (en_path e)) es) h'"
    using install_run [OF fresh_root_installed [OF f] covers_in_order [OF assms(1-3)]] by auto
  then show ?thesis using assms(4) f by (simp add: install_all_def)
qed

text \<open>
  C33: a binary snapshot restores its file system. When the names are ones that paths can express, the JSON text is read
  back and the sizes fit their 32-bit fields, then the serialized bytes restore without error, into any file system and
  over any store, to a tree with exactly the same paths; the node at every path has the same type, inode number, mode,
  owner, times, link count and contents, and the root the same mode, owner and times.
\<close>

theorem snapshot_roundtrip:
  assumes "tidy h" "root v < length (nodes h)" "collectVfsEntries v h = Inr (es, blob)"
    and "unjson (json es) = Some es" "length (json es) < 2 ^ 32" "length blob < 2 ^ 32"
    and "(case given of Some w \<Rightarrow> ret w | None \<Rightarrow> new_vfs) h0 = (Inr w, h1)"
  shows "\<exists>b v' h'. serializeVfsBinary json v h = Inr b \<and> restoreVfsBinary unjson b given h0 = (Inr v', h') \<and>
    (\<forall>qs. lookup h' (root v') qs = None \<longleftrightarrow> lookup h (root v) qs = None) \<and>
    (\<forall>qs c c'. qs \<noteq> [] \<and> lookup h (root v) qs = Some c \<and> lookup h' (root v') qs = Some c' \<longrightarrow> same_node (nd h c) (nd h' c')) \<and>
    same_owner (nd h (root v)) (nd h' (root v'))"
proof -
  have "clean []" "path_of [] = ''/''" by (simp_all add: clean_def path_of_def)
  then have cov: "covers h (root v) [] es blob"
    using visit_covers [OF assms(1), of "stack_depth h" "root v" "[]" "[]" "[]" es blob] assms(2,3)
    by (simp add: collectVfsEntries_def)
  let ?s = "sort_key (\<lambda>e. length (en_path e)) es"
  obtain v' h' where run: "install_all given es blob h0 = (Inr v', h')" and inv: "installed (root v') blob ?s h'"
    using install_all_covers [OF assms(1,2) cov assms(7)] by blast
  note names = covers_names [OF assms(1,2) cov]
  have "lookup h (root v) qs \<noteq> None \<longleftrightarrow> qs \<in> names_of ` set es" for qs
    using names [of qs] covers_path [OF assms(1,2) cov] by (cases "lookup h (root v) qs") force+
  moreover have "[] \<in> names_of ` set es" using names [of "[]"] by (metis imageI lookup.simps(1))
  moreover have "set ?s = set es" by simp
  ultimately have dom: "lookup h' (root v') qs = None \<longleftrightarrow> lookup h (root v) qs = None" for qs
    using installedD(4) [OF inv, of qs] by metis
  have same: "same_node (nd h c) (nd h' c')"
    if q: "qs \<noteq> []" "lookup h (root v) qs = Some c" "lookup h' (root v') qs = Some c'" for qs c c'
  proof -
    obtain e where e: "e \<in> set es" "names_of e = qs" "describes e blob (nd h c)" using names [OF q(2)] by blast
    then have "restored e blob (nd h' c')" using installedD(6) [OF inv, of e] q by auto
    then show ?thesis by (rule restored_same [OF e(3)])
  qed
  obtain e where e: "e \<in> set es" "names_of e = []" "describes e blob (nd h (root v))" using names [of "[]"] by auto
  then have "root_restored e (nd h' (root v'))" using installedD(6) [OF inv, of e] by auto
  then have "same_owner (nd h (root v)) (nd h' (root v'))" by (rule root_restored_same [OF e(3)])
  moreover have "serializeVfsBinary json v h = Inr (pack json es blob)" using assms(3) by (simp add: serializeVfsBinary_def)
  moreover have "restoreVfsBinary unjson (pack json es blob) given h0 = (Inr v', h')"
    using unpack_pack [of unjson json es blob] assms(4-6) run by (simp add: restoreVfsBinary_def)
  ultimately show ?thesis using dom same by blast
qed

definition small_entries :: "entry list" where
  "small_entries = (case collectVfsEntries small_vfs small_fs of Inr (es, b) \<Rightarrow> es | Inl _ \<Rightarrow> [])"

theorem snapshot_roundtrip_witness:
  "\<exists>b v' h' c. serializeVfsBinary (\<lambda>es. if es = small_entries then ''ok'' else ''no'') small_vfs small_fs = Inr b \<and>
    restoreVfsBinary (\<lambda>s. if s = ''ok'' then Some small_entries else None) b (Some small_vfs) small_fs = (Inr v', h') \<and>
    lookup h' (root v') [''a'', ''f''] = Some c \<and> vdata (nd h' c) = [1, 2]"
proof -
  have col: "collectVfsEntries small_vfs small_fs = Inr (small_entries, [1, 2])" by code_simp
  have "tidy small_fs" unfolding tidy_def small_fs_def
    by (auto simp: nd_def blank_node_def less_Suc_eq numeral_eq_Suc Let_def clean_part_def)
  moreover have "root small_vfs < length (nodes small_fs)" by code_simp
  moreover have at: "lookup small_fs (root small_vfs) [''a'', ''f''] = Some 2" "vtype (nd small_fs 2) = NFile"
    "vdata (nd small_fs 2) = [1, 2]" by code_simp+
  ultimately obtain b v' h' where r: "serializeVfsBinary (\<lambda>es. if es = small_entries then ''ok'' else ''no'') small_vfs small_fs = Inr b"
      "restoreVfsBinary (\<lambda>s. if s = ''ok'' then Some small_entries else None) b (Some small_vfs) small_fs = (Inr v', h')"
      "\<forall>qs. lookup h' (root v') qs = None \<longleftrightarrow> lookup small_fs (root small_vfs) qs = None"
      "\<forall>qs c c'. qs \<noteq> [] \<and> lookup small_fs (root small_vfs) qs = Some c \<and> lookup h' (root v') qs = Some c' \<longrightarrow>
        same_node (nd small_fs c) (nd h' c')"
    using snapshot_roundtrip [OF _ _ col, of "\<lambda>s. if s = ''ok'' then Some small_entries else None"
        "\<lambda>es. if es = small_entries then ''ok'' else ''no''" "Some small_vfs" small_fs small_vfs small_fs] by auto
  have "lookup h' (root v') [''a'', ''f''] \<noteq> None" using r(3) at(1) by (metis option.distinct(1))
  then obtain c where c: "lookup h' (root v') [''a'', ''f''] = Some c" by blast
  then have "same_node (nd small_fs 2) (nd h' c)" using r(4) at(1) by blast
  then have "vdata (nd h' c) = [1, 2]" using at by (simp add: same_node_def)
  then show ?thesis using r(1,2) c by blast
qed

text \<open>The counter of inode numbers is not moved past the restored ones, so a new file can get the number of a restored one.\<close>

lemma restored_inode_reused:
  "let e = base_entry ''/f'' (blank_node NFile ''f'' 1000 0);
       h0 = empty_heap 1000 0 50;
       (r, h) = bnd (install_all (Some small_vfs) [e] []) (\<lambda>v. writeFile v ''/g'' [] 0x1a4) h0
   in map (\<lambda>n. (vname n, ino n)) (nodes h) = [(''/'', 1), (''f'', 1000), (''g'', 1000)]"
  by code_simp

end
