(* ===== verification/Rootfs.thy ===== *)
theory Rootfs
  imports Vfs_Files Tar Elf
begin

text \<open>
  \<open>src/rootfs.js\<close>: the environment and the files that an Alpine root file system gets, and mounting its archive. An
  environment is an insertion-ordered map from names to values. Decompression is the host's: the argument \<open>gunzip\<close>.
\<close>

section \<open>Probing\<close>

definition firstExisting :: "vfs \<Rightarrow> string list \<Rightarrow> heap \<Rightarrow> string option" where
  "firstExisting v paths h = find (\<lambda>p. vfs_exists v p h) paths"

text \<open>Errors of the link are swallowed; what was created before them stays.\<close>

definition safeSymlink :: "vfs \<Rightarrow> string \<Rightarrow> string \<Rightarrow> unit vfsM" where
  "safeSymlink v tgt lnk = (\<lambda>h.
     if \<not> vfs_exists v lnk h \<and> vfs_exists v tgt h then (Inr (), snd (vfs_symlink v tgt lnk h)) else (Inr (), h))"

definition findAlpinePreloadLibraries :: "vfs \<Rightarrow> heap \<Rightarrow> string list" where
  "findAlpinePreloadLibraries v h = List.map_filter (\<lambda>g. firstExisting v g h)
     [[''/lib/libz.so.1'', ''/usr/lib/libz.so.1''], [''/lib/libcrypto.so.3'', ''/usr/lib/libcrypto.so.3''],
      [''/lib/libssl.so.3'', ''/usr/lib/libssl.so.3'']]"

section \<open>The environment\<close>

text \<open>One element \<open>NAME=value\<close> of an array; without an equals sign the value is empty.\<close>

definition split_var :: "string \<Rightarrow> string \<times> string" where
  "split_var x = (takeWhile (\<lambda>c. c \<noteq> CHR ''='') x, drop 1 (dropWhile (\<lambda>c. c \<noteq> CHR ''='') x))"

definition env_object :: "env_arg \<Rightarrow> (string, string) jsmap" where
  "env_object env = (case env of
     EnvArray xs \<Rightarrow> foldl (\<lambda>m x. AList.update (fst (split_var x)) (snd (split_var x)) m) [] xs
   | EnvObject kvs \<Rightarrow> foldl (\<lambda>m (k, v). AList.update k v m) [] kvs)"

text \<open>\<open>env.NAME ??= value\<close>\<close>

definition set_default :: "string \<times> string \<Rightarrow> (string, string) jsmap \<Rightarrow> (string, string) jsmap" where
  "set_default kv m = (if map_of m (fst kv) = None then AList.update (fst kv) (snd kv) m else m)"

definition nonempty :: "(string, string) jsmap \<Rightarrow> string \<Rightarrow> bool" where
  "nonempty m k \<longleftrightarrow> map_of m k \<noteq> None \<and> map_of m k \<noteq> Some []"

definition library_path :: "(string, string) jsmap \<Rightarrow> string" where
  "library_path m = (case map_of m ''LD_LIBRARY_PATH'' of
     Some (c # cs) \<Rightarrow> (c # cs) @ '':/lib:/usr/lib'' | _ \<Rightarrow> ''/lib:/usr/lib'')"

definition endsWith :: "string \<Rightarrow> string \<Rightarrow> bool" where
  "endsWith s suf \<longleftrightarrow> length suf \<le> length s \<and> drop (length s - length suf) s = suf"

fun join_colon :: "string list \<Rightarrow> string" where
  "join_colon [] = []"
| "join_colon [p] = p"
| "join_colon (p # ps) = p @ '':'' @ join_colon ps"

definition buildAlpineRuntimeEnv :: "vfs \<Rightarrow> env_arg \<Rightarrow> string \<Rightarrow> heap \<Rightarrow> (string, string) jsmap" where
  "buildAlpineRuntimeEnv v base execPath h =
     (let e1 = fold set_default [(''PATH'', ''/sbin:/bin:/usr/sbin:/usr/bin''), (''HOME'', ''/root''), (''USER'', ''root''),
            (''SHELL'', ''/bin/sh''), (''TERM'', ''xterm'')] (env_object base);
          e2 = AList.update ''LD_LIBRARY_PATH'' (library_path e1) e1;
          preload = join_colon (findAlpinePreloadLibraries v h) in
      if (execPath = ''apk'' \<or> endsWith execPath ''/apk'' \<or> endsWith execPath ''/sbin/apk'') \<and>
         \<not> nonempty e2 ''LD_PRELOAD'' \<and> preload \<noteq> []
      then AList.update ''LD_PRELOAD'' preload e2 else e2)"

section \<open>Seeding\<close>

record seed_opts =
  so_resolvConf :: "string option"
  so_hosts :: "string option"
  so_repositories :: "string option"

definition text_lines :: "string list \<Rightarrow> string" where
  "text_lines ls = concat (map (\<lambda>l. l @ newline) ls)"

definition ALPINE_REPOSITORY_BASE :: string where
  "ALPINE_REPOSITORY_BASE = ''https://dl-cdn.alpinelinux.org/alpine/v3.23''"

definition putText :: "vfs \<Rightarrow> string \<times> string \<Rightarrow> unit vfsM" where
  "putText v pt = thn (writeFile v (fst pt) (stringToBytes (snd pt)) 0x1a4) (ret ())"

definition seed_dirs :: "string list" where
  "seed_dirs = [''/proc/self/fd'', ''/sys'', ''/run'', ''/var/cache/apk'', ''/var/lib/apk'', ''/var/tmp'', ''/root'', ''/etc/apk'']"

definition seed_config :: "seed_opts \<Rightarrow> (string \<times> string) list" where
  "seed_config o1 =
     [(''/etc/resolv.conf'', or_else (so_resolvConf o1) (text_lines [''nameserver 10.0.2.3'', ''options timeout:1 attempts:1''])),
      (''/etc/hosts'', or_else (so_hosts o1) (text_lines [''127.0.0.1 localhost localhost.localdomain'', ''10.0.2.2 host.local''])),
      (''/etc/apk/repositories'', or_else (so_repositories o1)
         (text_lines [ALPINE_REPOSITORY_BASE @ ''/main'', ALPINE_REPOSITORY_BASE @ ''/community''])),
      (''/etc/ld-musl-i386.path'', text_lines [''/lib'', ''/usr/local/lib'', ''/usr/lib''])]"

definition seed_system :: "(string \<times> string) list" where
  "seed_system =
     [(''/etc/profile'', text_lines [''export PATH=/sbin:/bin:/usr/sbin:/usr/bin'', ''export HOME=/root'', ''export TERM=xterm'',
         ''export LD_LIBRARY_PATH=/lib:/usr/lib'']),
      (''/etc/issue'', text_lines [''OpenX86 Alpine 3.23.4 (x86) on clean-room JS IA-32'']),
      (''/proc/mounts'', text_lines [''rootfs / rootfs rw 0 0'', ''proc /proc proc rw 0 0'', ''devtmpfs /dev devtmpfs rw 0 0'']),
      (''/proc/version'', text_lines [''Linux version 6.12.0-openx86 (clean-room user-mode emulation)'']),
      (''/proc/uptime'', text_lines [''1.00 0.50'']),
      (''/proc/loadavg'', text_lines [''0.00 0.00 0.00 1/1 100'']),
      (''/proc/meminfo'', text_lines [''MemTotal:        262144 kB'', ''MemFree:         196608 kB'', ''MemAvailable:    196608 kB'',
         ''Buffers:              0 kB'', ''Cached:           32768 kB'', ''SwapCached:           0 kB'', ''Active:           32768 kB'',
         ''Inactive:         32768 kB'', ''SwapTotal:            0 kB'', ''SwapFree:             0 kB'']),
      (''/proc/stat'', text_lines [''cpu  1 0 1 100 0 0 0 0 0 0'', ''cpu0 1 0 1 100 0 0 0 0 0 0'', ''intr 0'', ''ctxt 0'', ''btime 1'',
         ''processes 1'', ''procs_running 1'', ''procs_blocked 0''])]"

definition seedAlpineRuntimeFiles :: "vfs \<Rightarrow> seed_opts \<Rightarrow> unit vfsM" where
  "seedAlpineRuntimeFiles v o1 =
     thn (forM seed_dirs (\<lambda>d. thn (mkdirp v d 0x1ed) (ret ())))
     (thn (forM (seed_config o1) (putText v))
     (thn (forM [''libz.so.1'', ''libcrypto.so.3'', ''libssl.so.3''] (\<lambda>so.
        thn (safeSymlink v (''/lib/'' @ so) (''/usr/lib/'' @ so)) (safeSymlink v (''/usr/lib/'' @ so) (''/lib/'' @ so))))
     (thn (forM seed_system (putText v))
        (forM [''0'', ''1'', ''2''] (\<lambda>fd. try_link v (''/proc/self/fd/'' @ fd, ''/dev/tty''))))))"

section \<open>Mounting\<close>

text \<open>\<open>None\<close> is an archive that cannot be decompressed, or one whose reading never ends.\<close>

definition mountAlpineMiniRootfs ::
  "(u8 list \<Rightarrow> u8 list option) \<Rightarrow> vfs \<Rightarrow> string option \<Rightarrow> bool option \<Rightarrow> seed_opts \<Rightarrow> u8 list \<Rightarrow> (nat \<times> nat) vfsM option" where
  "mountAlpineMiniRootfs gunzip v rt ign so archive = (case gunzip archive of
     None \<Rightarrow> None
   | Some tar \<Rightarrow> (case mountTar v \<lparr>mo_root = or_else rt ''/'', mo_strip = False, mo_ignore = or_else ign False\<rparr> tar of
         None \<Rightarrow> None
       | Some m \<Rightarrow> Some (bnd m (\<lambda>(n, es). thn (seedAlpineRuntimeFiles v so) (ret (length es, n))))))"

end
