(* ===== verification/Runtime.thy ===== *)
theory Runtime
  imports Sys_Dispatch Rootfs Jit
begin

text \<open>
  \<open>EmulatedRuntime\<close> of \<open>src/runtime.js\<close>: loading programs, running them, \<open>fork\<close>, \<open>wait4\<close> and \<open>execve\<close>. The runtime's
  CPU carries its memory and, as \<open>kern\<close>, the system-call layer. \<open>this.memory\<close> is the memory of the CPU but for
  the time after an \<open>execve\<close> that failed half way, when it is the one kept in \<open>rt_detached\<close>. A child shares the
  page store, the file store and the handles of its parent; it takes them over when it runs and gives them back.
\<close>

section \<open>State\<close>

record rt_options =
  rq_env :: "env_arg option"
  rq_argv :: "string list option"
  rq_maxSteps :: "nat option"
  rq_childMaxSteps :: "nat option"
  rq_brk :: "u32 option"
  rq_loadBias :: "u32 option"
  rq_interpLoadBias :: "u32 option"
  rq_ignoreMissingInterp :: bool
  rq_stackTop :: "u32 option"
  rq_stackSize :: "u32 option"

datatype program = ElfProgram proc_image | FlatProgram flat_image

record child =
  ch_cpu :: sysc
  ch_nextPid :: nat
  ch_status :: "int option"
  ch_kind :: string
  ch_started :: bool

record runtime =
  rt_options :: rt_options
  rt_cpu :: sysc
  rt_loaded :: bool
  rt_detached :: "paged_memory option"
  rt_jit :: "jit option"
  rt_proc :: "program option"
  rt_nextPid :: nat
  rt_children :: "(nat, child) jsmap"

datatype rt_error =
    NoProgram
  | RtElf elf_error
  | RtVfs vfs_error
  | RtCpu "sys_trap cpu_error"

type_synonym 'a rtM = "(runtime, rt_error, 'a) sem"

definition default_page :: u32 where
  "default_page = 4096"

text \<open>\<open>new PagedMemory({ onWrite })\<close> with the defaults of its constructor.\<close>

definition newMemory :: paged_memory where
  "newMemory = \<lparr>pageSize = default_page, pageShift = 12, pageMask = default_page - 1, pages = [], nameMap = [],
     onWrite = Some [], nextMmap = 0x70000000\<rparr>"

definition new_runtime :: "rt_options \<Rightarrow> page list \<Rightarrow> heap \<Rightarrow> vfs \<Rightarrow> jit option \<Rightarrow> string \<Rightarrow> runtime" where
  "new_runtime o1 h fh v j stdin = \<lparr>rt_options = o1,
     rt_cpu = new_CPU (h, newMemory) (new_syscalls fh v stdin (or_else (rq_brk o1) 0x09000000) 100 1) 0,
     rt_loaded = False, rt_detached = None, rt_jit = j, rt_proc = None, rt_nextPid = 1000, rt_children = []\<rparr>"

text \<open>Parts of a runtime as operations of the components they belong to.\<close>

definition onCpu :: "(sysc, sys_trap cpu_error, 'a) sem \<Rightarrow> 'a rtM" where
  "onCpu m = (\<lambda>rt. case m (rt_cpu rt) of
     (Inl e, c) \<Rightarrow> (Inl (RtCpu e), rt\<lparr>rt_cpu := c\<rparr>) | (Inr x, c) \<Rightarrow> (Inr x, rt\<lparr>rt_cpu := c\<rparr>))"

definition onFiles :: "(vfs \<Rightarrow> 'a vfsM) \<Rightarrow> 'a rtM" where
  "onFiles f = (\<lambda>rt. let k = kern (rt_cpu rt) in case f (sy_vfs k) (sy_heap k) of
     (Inl e, h) \<Rightarrow> (Inl (RtVfs e), rt\<lparr>rt_cpu := (rt_cpu rt)\<lparr>kern := k\<lparr>sy_heap := h\<rparr>\<rparr>\<rparr>)
   | (Inr x, h) \<Rightarrow> (Inr x, rt\<lparr>rt_cpu := (rt_cpu rt)\<lparr>kern := k\<lparr>sy_heap := h\<rparr>\<rparr>\<rparr>))"

definition mountFile :: "string \<Rightarrow> u8 list \<Rightarrow> nat rtM" where
  "mountFile path data = onFiles (\<lambda>v. writeFile v path data 0x1a4)"

definition rt_mountFiles :: "(string \<times> u8 list) list \<Rightarrow> string \<Rightarrow> unit rtM" where
  "rt_mountFiles files rt0 = onFiles (\<lambda>v. mountFiles v files rt0)"

section \<open>Environment and initial stack\<close>

definition defaultEnv :: env_arg where
  "defaultEnv = EnvObject [(''PATH'', ''/sbin:/bin:/usr/sbin:/usr/bin''), (''HOME'', ''/root''), (''USER'', ''root''),
     (''SHELL'', ''/bin/sh''), (''TERM'', ''xterm''), (''LD_LIBRARY_PATH'', ''/lib:/usr/lib'')]"

definition runtimeEnv :: "vfs \<Rightarrow> env_arg option \<Rightarrow> string option \<Rightarrow> heap \<Rightarrow> env_arg" where
  "runtimeEnv v env execPath h = EnvObject (buildAlpineRuntimeEnv v (or_else env defaultEnv) (or_else execPath []) h)"

definition proc_opts_of :: "rt_options \<Rightarrow> string option \<Rightarrow> vfs \<Rightarrow> proc_opts" where
  "proc_opts_of o1 execPath v = \<lparr>po_execPath = execPath, po_loadBias = rq_loadBias o1, po_interpLoadBias = rq_interpLoadBias o1,
     po_vfs = Some v, po_ignoreMissingInterp = rq_ignoreMissingInterp o1, po_stackTop = rq_stackTop o1, po_stackSize = rq_stackSize o1\<rparr>"

text \<open>The options with which \<open>loadELF\<close> and \<open>_resetCpuForProcess\<close> call \<open>setupInitialStack\<close>.\<close>

definition stack_for :: "proc_image \<Rightarrow> string list \<Rightarrow> env_arg \<Rightarrow> string \<Rightarrow> sys_state \<Rightarrow> stack_opts" where
  "stack_for p argv env execPath k = \<lparr>sk_stackTop = Some (pi_stackTop p), sk_argv = Some argv, sk_execPath = Some execPath,
     sk_env = Some env, sk_auxv = [], sk_phdrAddr = Some (im_phdrAddr (pi_main p)), sk_phent = Some (im_phent (pi_main p)),
     sk_phnum = Some (im_phnum (pi_main p)), sk_base = Some (case pi_interp p of Some i \<Rightarrow> im_base i | None \<Rightarrow> 0),
     sk_entry = Some (im_entry (pi_main p)), sk_uid = Some (sy_uid k), sk_gid = Some (sy_gid k)\<rparr>"

section \<open>Loading\<close>

text \<open>\<open>this.memory\<close>, and what becomes of the runtime when it and the page store have changed.\<close>

definition this_memory :: "runtime \<Rightarrow> mst" where
  "this_memory rt = (fst (mem (rt_cpu rt)), case rt_detached rt of Some m \<Rightarrow> m | None \<Rightarrow> snd (mem (rt_cpu rt)))"

definition put_memory :: "mst \<Rightarrow> runtime \<Rightarrow> runtime" where
  "put_memory s rt = (case rt_detached rt of
     None \<Rightarrow> rt\<lparr>rt_cpu := (rt_cpu rt)\<lparr>mem := s\<rparr>\<rparr>
   | Some _ \<Rightarrow> rt\<lparr>rt_cpu := (rt_cpu rt)\<lparr>mem := (fst s, snd (mem (rt_cpu rt)))\<rparr>, rt_detached := Some (snd s)\<rparr>)"

definition onThisMemory :: "'a memM \<Rightarrow> 'a rtM" where
  "onThisMemory m = (\<lambda>rt. case m (this_memory rt) of
     (Inl e, s) \<Rightarrow> (Inl (RtCpu (CpuFault e)), put_memory s rt) | (Inr x, s) \<Rightarrow> (Inr x, put_memory s rt))"

text \<open>\<open>architecture.loadProcess\<close> into the runtime's memory.\<close>

definition load_process :: "u8 list \<Rightarrow> proc_opts \<Rightarrow> proc_image rtM" where
  "load_process bs po = (\<lambda>rt. case loadELF32Process bs po (this_memory rt, sy_heap (kern (rt_cpu rt))) of
     (r, (s, fh)) \<Rightarrow>
       let rt1 = put_memory s (rt\<lparr>rt_cpu := (rt_cpu rt)\<lparr>kern := (kern (rt_cpu rt))\<lparr>sy_heap := fh\<rparr>\<rparr>\<rparr>) in
       (case r of Inl e \<Rightarrow> (Inl (RtElf e), rt1) | Inr p \<Rightarrow> (Inr p, rt1)))"

text \<open>A new CPU on the runtime's memory.\<close>

definition createCPU :: "u32 \<Rightarrow> u32 \<Rightarrow> runtime \<Rightarrow> runtime" where
  "createCPU brk entry rt = rt\<lparr>rt_cpu := new_CPU (this_memory rt) ((kern (rt_cpu rt))\<lparr>sy_brk := brk\<rparr>) entry,
     rt_loaded := True, rt_detached := None\<rparr>"

record load_opts =
  lo_argv :: "string list option"
  lo_env :: "env_arg option"
  lo_execPath :: "string option"

definition first_some :: "'a option \<Rightarrow> 'a option \<Rightarrow> 'a option" where
  "first_some a b = (case a of Some _ \<Rightarrow> a | None \<Rightarrow> b)"

definition loadELF :: "u8 list \<Rightarrow> u8 list \<Rightarrow> load_opts \<Rightarrow> proc_image rtM" where
  "loadELF rnd bs lo = bnd (getS id) (\<lambda>rt.
     bnd (load_process bs (proc_opts_of (rt_options rt) (lo_execPath lo) (sy_vfs (kern (rt_cpu rt))))) (\<lambda>p.
     let path = or_else (lo_execPath lo) ''a.out'' in
     thn (modS (createCPU (pi_brk p) (pi_entry p)))
     (thn (bnd (getS id) (\<lambda>rt. let k = kern (rt_cpu rt) in
        onCpu (setupInitialStack rnd (stack_for p (or_else (first_some (lo_argv lo) (rq_argv (rt_options rt))) [path])
          (runtimeEnv (sy_vfs k) (first_some (lo_env lo) (rq_env (rt_options rt))) (Some path) (sy_heap k)) path k))))
     (thn (modS (\<lambda>rt. rt\<lparr>rt_proc := Some (ElfProgram p)\<rparr>)) (ret p)))))"

definition loadExecutableFromVFS :: "u8 list \<Rightarrow> string \<Rightarrow> load_opts \<Rightarrow> proc_image rtM" where
  "loadExecutableFromVFS rnd path lo = bnd (onFiles (\<lambda>v. readFile v path)) (\<lambda>bs.
     loadELF rnd bs (lo\<lparr>lo_execPath := Some (or_else (lo_execPath lo) path), lo_argv := Some (or_else (lo_argv lo) [path])\<rparr>))"

definition loadFlat :: "u8 list \<Rightarrow> u8 list \<Rightarrow> u32 \<Rightarrow> string option \<Rightarrow> u32 option \<Rightarrow> u32 option \<Rightarrow> string list option \<Rightarrow> flat_image rtM" where
  "loadFlat rnd bs addr name stTop sz argv =
     (let stackTop = or_else stTop 0xbffff000; stackSize = or_else sz 0x100000 in
      bnd (onThisMemory (loadFlatBinary bs addr None (Some (or_else name ''[flat]'')))) (\<lambda>flat.
      thn (onThisMemory (map_mem (stackTop - stackSize) (uint stackSize) (PermNum PERM_RW) ''[stack]''))
      (thn (modS (createCPU (fl_brk flat) (fl_entry flat)))
      (thn (onCpu (setupInitialStack rnd \<lparr>sk_stackTop = Some stackTop, sk_argv = Some (or_else argv [''flat'']), sk_execPath = None,
         sk_env = None, sk_auxv = [], sk_phdrAddr = None, sk_phent = None, sk_phnum = None, sk_base = None,
         sk_entry = Some (fl_entry flat), sk_uid = None, sk_gid = None\<rparr>))
      (thn (modS (\<lambda>rt. rt\<lparr>rt_proc := Some (FlatProgram flat)\<rparr>)) (ret flat))))))"

section \<open>execve\<close>

text \<open>The CPU starts again on the runtime's memory; the x87 and SSE state stay, as does the step count.\<close>

definition resetCpuForProcess :: "u8 list \<Rightarrow> proc_image \<Rightarrow> string list \<Rightarrow> env_arg \<Rightarrow> string \<Rightarrow> u32 rtM" where
  "resetCpuForProcess rnd p argv env execPath =
     thn (modS (\<lambda>rt. rt\<lparr>rt_cpu := (rt_cpu rt)\<lparr>mem := this_memory rt, regs := (\<lambda>_. 0),
       sregs := default_sregs, segBase := (\<lambda>_. 0), eip := pi_entry p, eflags := 0x202\<rparr>, rt_detached := None\<rparr>))
     (bnd (getS id) (\<lambda>rt. let k = kern (rt_cpu rt) in
        onCpu (setupInitialStack rnd (stack_for p argv (runtimeEnv (sy_vfs k) (Some env) (Some execPath) (sy_heap k)) execPath k))))"

text \<open>The environment is extended here and once more in \<open>_resetCpuForProcess\<close>.\<close>

definition rt_execve :: "u8 list \<Rightarrow> string \<Rightarrow> string list \<Rightarrow> string list \<Rightarrow> u32 rtM" where
  "rt_execve rnd path argv env = bnd (onFiles (\<lambda>v. readFile v path)) (\<lambda>bs.
     thn (modS (\<lambda>rt. rt\<lparr>rt_detached := Some newMemory\<rparr>))
     (bnd (getS id) (\<lambda>rt0.
     bnd (load_process bs (proc_opts_of (rt_options rt0) (Some path) (sy_vfs (kern (rt_cpu rt0))))) (\<lambda>p.
     thn (modS (\<lambda>rt. rt\<lparr>rt_cpu := (rt_cpu rt)\<lparr>kern := (kern (rt_cpu rt))\<lparr>sy_brk := pi_brk p\<rparr>\<rparr>,
       rt_proc := Some (ElfProgram p)\<rparr>))
     (bnd (getS (\<lambda>rt. runtimeEnv (sy_vfs (kern (rt_cpu rt)))
         (Some (if env \<noteq> [] then EnvArray env else or_else (rq_env (rt_options rt)) defaultEnv)) (Some path)
         (sy_heap (kern (rt_cpu rt))))) (\<lambda>envValue.
     thn (resetCpuForProcess rnd p (if argv = [] then [path] else argv) envValue path) (ret 0)))))))"

section \<open>fork\<close>

definition cloneCpu :: "sysc \<Rightarrow> mst \<Rightarrow> sys_state \<Rightarrow> sysc" where
  "cloneCpu c m k = c\<lparr>mem := m, kern := k, steps := 0\<rparr>"

text \<open>The layer of the child: new but for the parts handed over.\<close>

definition child_syscalls :: "rt_options \<Rightarrow> nat \<Rightarrow> sys_state \<Rightarrow> sys_state" where
  "child_syscalls o1 pid k =
     (new_syscalls (sy_heap k) (sy_vfs k) [] (or_else (rq_brk o1) 0x09000000) (word_of_nat pid) (sy_pid k))
       \<lparr>sy_handles := sy_handles k, sy_pipes := sy_pipes k, sy_fd := sy_fd k, sy_nextFd := sy_nextFd k, sy_cwd := sy_cwd k,
        sy_futex := sy_futex k\<rparr>"

definition forkProcess :: "string \<Rightarrow> nat rtM" where
  "forkProcess kind = (\<lambda>rt.
     let pid = rt_nextPid rt; c = rt_cpu rt;
         (h, cm) = clone_cow (this_memory rt) (Some []);
         cc = cloneCpu c (h, cm) (child_syscalls (rt_options rt) pid (kern c));
         ch = \<lparr>ch_cpu = cc\<lparr>regs := (regs cc)(REG_EAX := 0)\<rparr>, ch_nextPid = pid + 1, ch_status = None, ch_kind = kind,
               ch_started = False\<rparr>
     in (Inr pid, rt\<lparr>rt_nextPid := pid + 1, rt_cpu := c\<lparr>mem := (h, snd (mem c))\<rparr>,
           rt_children := AList.update pid ch (rt_children rt)\<rparr>))"

text \<open>
  What a child shares: it is taken over before the child runs and given back after it. The standard streams are among
  it, because the handles the child got are bound to the layer that made them.
\<close>

definition adopt :: "sysc \<Rightarrow> sysc \<Rightarrow> sysc" where
  "adopt from to = to\<lparr>mem := (fst (mem from), snd (mem to)),
     kern := (kern to)\<lparr>sy_heap := sy_heap (kern from), sy_vfs := sy_vfs (kern from), sy_handles := sy_handles (kern from),
       sy_pipes := sy_pipes (kern from), sy_futex := sy_futex (kern from), sy_output := sy_output (kern from),
       sy_stderr := sy_stderr (kern from), sy_stdin := sy_stdin (kern from), sy_stdinOffset := sy_stdinOffset (kern from)\<rparr>\<rparr>"

section \<open>Waiting for a child\<close>

datatype wait_choice = NoChild | Finished nat int | Runs nat child

text \<open>The part before the child's run is awaited. \<open>0xfffffff6\<close> is \<open>-ECHILD\<close>.\<close>

definition wait_select :: "int \<Rightarrow> runtime \<Rightarrow> wait_choice" where
  "wait_select pid rt =
     (let sel = (if s32 pid \<le> 0 then (case rt_children rt of [] \<Rightarrow> 0 | (p, _) # _ \<Rightarrow> p) else nat (s32 pid)) in
      if sel = 0 then NoChild
      else case map_of (rt_children rt) sel of
        None \<Rightarrow> NoChild
      | Some ch \<Rightarrow> (case ch_status ch of Some code \<Rightarrow> Finished sel code | None \<Rightarrow> Runs sel ch))"

definition ECHILD_ret :: u32 where
  "ECHILD_ret = 0xffffffff - 9"

text \<open>The end of the child's run: its exit code is kept, if it has one, and the shared stores are the parent's again.\<close>

definition child_ended :: "nat \<Rightarrow> child \<Rightarrow> sysc \<Rightarrow> int option \<Rightarrow> runtime \<Rightarrow> runtime" where
  "child_ended pid ch c code rt = rt\<lparr>rt_cpu := adopt c (rt_cpu rt),
     rt_children := AList.update pid (ch\<lparr>ch_cpu := c, ch_status := code\<rparr>) (rt_children rt)\<rparr>"

definition wait_finish :: "nat \<Rightarrow> int \<Rightarrow> u32 \<Rightarrow> u32 rtM" where
  "wait_finish pid code statusAddr =
     thn (if statusAddr = 0 then ret ()
          else onThisMemory (write32 statusAddr (push_bit 8 (word_of_int code AND 0xff))))
     (thn (modS (\<lambda>rt. rt\<lparr>rt_children := AList.delete pid (rt_children rt)\<rparr>)) (ret (word_of_nat pid)))"

text \<open>The runtime of a child when it starts to run.\<close>

definition child_runtime :: "runtime \<Rightarrow> child \<Rightarrow> runtime" where
  "child_runtime rt ch = \<lparr>rt_options = rt_options rt, rt_cpu = adopt (rt_cpu rt) (ch_cpu ch), rt_loaded = True,
     rt_detached = None, rt_jit = rt_jit rt, rt_proc = rt_proc rt, rt_nextPid = ch_nextPid ch, rt_children = []\<rparr>"

section \<open>Running\<close>

record rt_result =
  rr_exitCode :: int
  rr_output :: string
  rr_stderr :: string
  rr_steps :: nat
  rr_regs :: "(string, u32) jsmap"

definition result_of :: "int \<Rightarrow> runtime \<Rightarrow> rt_result" where
  "result_of code rt = (let c = rt_cpu rt in
     \<lparr>rr_exitCode = code, rr_output = sy_output (kern c), rr_stderr = sy_stderr (kern c), rr_steps = steps c, rr_regs = dumpRegs c\<rparr>)"

text \<open>The block-cache JIT when there is one, else the interpreter; both run on fuel.\<close>

definition run_cpu :: "nat \<Rightarrow> (sys_state, sys_trap) env \<Rightarrow> nat \<Rightarrow> unit rtM" where
  "run_cpu fuel ev mx = (\<lambda>rt. case rt_jit rt of
     None \<Rightarrow> onCpu (run fuel ev mx) rt
   | Some j \<Rightarrow> (case jit_run fuel ev mx (j, rt_cpu rt) of
         (Inl e, (j', c)) \<Rightarrow> (Inl (RtCpu e), rt\<lparr>rt_jit := Some j', rt_cpu := c\<rparr>)
       | (Inr x, (j', c)) \<Rightarrow> (Inr x, rt\<lparr>rt_jit := Some j', rt_cpu := c\<rparr>)))"

definition rt_run :: "nat \<Rightarrow> (sys_state, sys_trap) env \<Rightarrow> nat option \<Rightarrow> rt_result rtM" where
  "rt_run fuel ev maxSteps = (\<lambda>rt.
     if \<not> rt_loaded rt then (Inl NoProgram, rt)
     else let mx = or_else (first_some maxSteps (rq_maxSteps (rt_options rt))) 10000000 in
       case run_cpu fuel ev mx rt of
         (Inr _, rt') \<Rightarrow> (Inr (result_of 0 rt'), rt')
       | (Inl (RtCpu (Trap (ProcessExit code))), rt') \<Rightarrow> (Inr (result_of code rt'), rt')
       | (Inl e, rt') \<Rightarrow> (Inl e, rt'))"

definition runELF :: "nat \<Rightarrow> (sys_state, sys_trap) env \<Rightarrow> u8 list \<Rightarrow> u8 list \<Rightarrow> load_opts \<Rightarrow> nat option \<Rightarrow> rt_result rtM" where
  "runELF fuel ev rnd bs lo maxSteps = thn (loadELF rnd bs lo) (rt_run fuel ev maxSteps)"

definition runFlat :: "nat \<Rightarrow> (sys_state, sys_trap) env \<Rightarrow> u8 list \<Rightarrow> u8 list \<Rightarrow> u32 \<Rightarrow> nat option \<Rightarrow> rt_result rtM" where
  "runFlat fuel ev rnd bs addr maxSteps = thn (loadFlat rnd bs addr None None None None) (rt_run fuel ev maxSteps)"

section \<open>Running with suspended calls\<close>

text \<open>
  \<open>runAsync\<close>: the loop steps the CPU; a call that waits for a promise suspends it until \<open>await\<close> has changed the state,
  an \<open>ExecveTrap\<close> is carried out. Every other exception ends the run, \<open>ProcessExit\<close> with a result.
\<close>

fun async_loop ::
  "nat \<Rightarrow> (sys_state, sys_trap) env \<Rightarrow> (pending \<Rightarrow> runtime \<Rightarrow> runtime) \<Rightarrow> u8 list \<Rightarrow> nat \<Rightarrow> unit rtM" where
  "async_loop 0 ev await rnd mx rt = (Inl (RtCpu (CpuFault Diverges)), rt)"
| "async_loop (Suc n) ev await rnd mx rt =
     (if steps (rt_cpu rt) < mx
      then case onCpu (step ev) rt of
          (Inr _, rt') \<Rightarrow> async_loop n ev await rnd mx rt'
        | (Inl (RtCpu (Trap (AsyncSyscallPending p tr))), rt') \<Rightarrow> async_loop n ev await rnd mx (await p rt')
        | (Inl (RtCpu (Trap (ExecveTrap path argv envp))), rt') \<Rightarrow>
            (case rt_execve rnd path argv envp rt' of
               (Inr _, rt2) \<Rightarrow> async_loop n ev await rnd mx rt2 | (Inl e, rt2) \<Rightarrow> (Inl e, rt2))
        | (Inl e, rt') \<Rightarrow> (Inl e, rt')
      else (Inl (RtCpu (CPUError (''Step limit reached ('' @ to_dec mx @ '')''))), rt))"

definition runAsync ::
  "nat \<Rightarrow> (sys_state, sys_trap) env \<Rightarrow> (pending \<Rightarrow> runtime \<Rightarrow> runtime) \<Rightarrow> u8 list \<Rightarrow> nat option \<Rightarrow> rt_result rtM" where
  "runAsync fuel ev await rnd maxSteps = (\<lambda>rt.
     if \<not> rt_loaded rt then (Inl NoProgram, rt)
     else let mx = or_else (first_some maxSteps (rq_maxSteps (rt_options rt))) 50000000 in
       case async_loop fuel ev await rnd mx rt of
         (Inr _, rt') \<Rightarrow> (Inr (result_of 0 rt'), rt')
       | (Inl (RtCpu (Trap (ProcessExit code))), rt') \<Rightarrow> (Inr (result_of code rt'), rt')
       | (Inl e, rt') \<Rightarrow> (Inl e, rt'))"

definition runELFAsync ::
  "nat \<Rightarrow> (sys_state, sys_trap) env \<Rightarrow> (pending \<Rightarrow> runtime \<Rightarrow> runtime) \<Rightarrow> u8 list \<Rightarrow> u8 list \<Rightarrow> load_opts \<Rightarrow> nat option \<Rightarrow> rt_result rtM" where
  "runELFAsync fuel ev await rnd bs lo maxSteps = thn (loadELF rnd bs lo) (runAsync fuel ev await rnd maxSteps)"

section \<open>wait4\<close>

text \<open>
  A child that has not run yet is run to its end first, with its own environment of hooks \<open>ev\<close>. An exception of its
  run other than its exit is thrown on and leaves the child in the table.
\<close>

definition rt_wait4 ::
  "nat \<Rightarrow> (sys_state, sys_trap) env \<Rightarrow> (pending \<Rightarrow> runtime \<Rightarrow> runtime) \<Rightarrow> u8 list \<Rightarrow> int \<Rightarrow> u32 \<Rightarrow> u32 rtM" where
  "rt_wait4 fuel ev await rnd pid statusAddr = (\<lambda>rt. case wait_select pid rt of
     NoChild \<Rightarrow> (Inr ECHILD_ret, rt)
   | Finished p code \<Rightarrow> wait_finish p code statusAddr rt
   | Runs p ch \<Rightarrow>
       (case runAsync fuel ev await rnd (Some (or_else (rq_childMaxSteps (rt_options rt)) 100000000)) (child_runtime rt ch) of
          (Inr res, crt) \<Rightarrow> wait_finish p (rr_exitCode res) statusAddr (child_ended p ch (rt_cpu crt) (Some (rr_exitCode res)) rt)
        | (Inl e, crt) \<Rightarrow> (Inl e, child_ended p ch (rt_cpu crt) None rt)))"

end
