(* ===== verification/Runtime_Props.thy ===== *)
theory Runtime_Props
  imports Runtime Sys_Props
begin

text \<open>
  The runtime's process operations: what \<open>fork\<close> gives the child and leaves to the parent, the table of children, what
  \<open>wait4\<close> stores and returns, and where the runtime departs from a Unix process.
\<close>

section \<open>fork\<close>

lemma newMemory_default: "new_PagedMemory 4096 (Some []) 0x70000000 = Some newMemory"
proof -
  have "log2_floor 4096 = 12" by (simp add: log2_floor.simps)
  then show ?thesis by (simp add: new_PagedMemory_def newMemory_def default_page_def)
qed

lemma share_fold_keeps:
  "pdata (foldl (\<lambda>h (no, r). h[r := share_page (h ! r)]) h ps ! q) = pdata (h ! q)"
  "pperm (foldl (\<lambda>h (no, r). h[r := share_page (h ! r)]) h ps ! q) = pperm (h ! q)"
proof -
  have "pdata (h[r := share_page (h ! r)] ! q) = pdata (h ! q) \<and> pperm (h[r := share_page (h ! r)] ! q) = pperm (h ! q)"
    for h :: "page list" and r
    by (cases "q = r \<and> r < length h") (auto simp: share_page_def nth_list_update list_update_beyond)
  then show "pdata (foldl (\<lambda>h (no, r). h[r := share_page (h ! r)]) h ps ! q) = pdata (h ! q)"
    "pperm (foldl (\<lambda>h (no, r). h[r := share_page (h ! r)]) h ps ! q) = pperm (h ! q)"
    by (induction ps arbitrary: h) (auto split: prod.splits)
qed

lemma clone_cow_bytes:
  assumes "clone_cow s cb = (h, cm)"
  shows "byte_at (h, cm) = byte_at s" "byte_at (h, snd s) = byte_at s"
  using assms
  by (auto simp: clone_cow_def byte_at_def fun_eq_iff share_fold_keeps pageNo_def pageOff_def split: prod.splits option.split)


section \<open>The table of children\<close>

definition pids_ok :: "runtime \<Rightarrow> bool" where
  "pids_ok rt \<longleftrightarrow> jsmap_wf (rt_children rt) \<and> (\<forall>p \<in> fst ` set (rt_children rt). 0 < p \<and> p < rt_nextPid rt) \<and> 0 < rt_nextPid rt"

lemma fork_pids: "pids_ok rt \<Longrightarrow> pids_ok (snd (forkProcess kind rt))"
  by (auto simp: pids_ok_def forkProcess_def Let_def split: prod.split dest!: set_mp [OF set_update_sub])

lemma put_memory_fields [simp]:
  "rt_children (put_memory s rt) = rt_children rt" "rt_nextPid (put_memory s rt) = rt_nextPid rt"
  by (simp_all add: put_memory_def split: option.split)

lemma this_put_memory [simp]: "this_memory (put_memory s rt) = s"
  by (cases s) (simp add: this_memory_def put_memory_def split: option.split)

lemma wait_finish_pids: "pids_ok rt \<Longrightarrow> pids_ok (snd (wait_finish p code a rt))"
  by (auto simp: pids_ok_def wait_finish_def onThisMemory_def thn_def bnd_def set_delete_eq
      split: prod.split sum.split)

lemma wait_pids:
  assumes "pids_ok rt"
  shows "pids_ok (snd (rt_wait4 fuel ev await rnd pid a rt))"
proof -
  have "pids_ok (child_ended p ch c code rt)" if "map_of (rt_children rt) p = Some ch" for p ch c code
    using assms that
    by (auto simp: pids_ok_def child_ended_def dest!: set_mp [OF set_update_sub] map_of_SomeD)
  moreover have "map_of (rt_children rt) p = Some ch" if "wait_select pid rt = Runs p ch" for p ch
    using that by (auto simp: wait_select_def Let_def split: if_splits option.splits)
  ultimately show ?thesis
    using assms wait_finish_pids
    by (auto simp: rt_wait4_def split: wait_choice.split prod.split sum.split)
qed

section \<open>wait4\<close>

lemma wait_no_child: "rt_children rt = [] \<Longrightarrow> rt_wait4 fuel ev await rnd pid a rt = (Inr (errno 10), rt)"
  by (simp add: rt_wait4_def wait_select_def ECHILD_ret_def errno_def Let_def)

lemma wait_reaps:
  assumes "map_of (rt_children rt) p = Some ch" "ch_status ch = Some code" "0 < p" "p < 2 ^ 31" "a \<noteq> 0"
    and "mem_wf (this_memory rt)" "mapped_with (this_memory rt) PERM_RW {a, a + 1, a + 2, a + 3}"
  shows "\<exists>rt'. rt_wait4 fuel ev await rnd (int p) a rt = (Inr (word_of_nat p), rt') \<and>
    read32 a (this_memory rt') = (Inr (push_bit 8 (word_of_int code AND 0xff)), this_memory rt') \<and>
    map_of (rt_children rt') = (map_of (rt_children rt))(p := None)"
proof -
  have sel: "wait_select (int p) rt = Finished p code"
  proof -
    have "s32 (int p) = int p" using assms(4) by (simp only: s32_def sint_sbintrunc') (simp add: signed_take_bit_int_eq_self)
    then show ?thesis using assms(1-3) by (simp add: wait_select_def)
  qed
  let ?v = "push_bit 8 (word_of_int code AND 0xff) :: u32"
  obtain s where s: "write32 a ?v (this_memory rt) = (Inr (), s)" "read32 a s = (Inr ?v, s)"
    unfolding write32_def read32_def
    using guest.le32_roundtrip [OF assms(6) mapped_RW(2,1) [OF assms(7)], of ?v] by blast
  have "wait_finish p code a rt = (Inr (word_of_nat p), (put_memory s rt)\<lparr>rt_children := AList.delete p (rt_children rt)\<rparr>)"
    using assms(5) s(1) by (simp add: wait_finish_def onThisMemory_def)
  moreover have "this_memory ((put_memory s rt)\<lparr>rt_children := cs\<rparr>) = s" for cs
    using this_put_memory [of s rt] by (simp add: this_memory_def split: option.splits)
  ultimately show ?thesis
    using s(2) sel by (simp add: rt_wait4_def)
qed

section \<open>Departures from a Unix process\<close>

text \<open>The program break of the parent is not handed to the child.\<close>

lemma fork_loses_brk:
  assumes "rq_brk (rt_options rt) = None" "map_of (rt_children (snd (forkProcess kind rt))) (rt_nextPid rt) = Some ch"
  shows "sy_brk (kern (ch_cpu ch)) = 0x09000000"
  using assms
  by (auto simp: forkProcess_def Let_def cloneCpu_def child_syscalls_def new_syscalls_def or_else_def split: prod.splits)

text \<open>The child counts its own children from the pid that the parent gives out next.\<close>

lemma fork_pids_collide:
  assumes "map_of (rt_children (snd (forkProcess kind rt))) (rt_nextPid rt) = Some ch"
  shows "fst (forkProcess kind' (child_runtime rt0 ch)) = fst (forkProcess kind' (snd (forkProcess kind rt)))"
  using assms by (auto simp: forkProcess_def Let_def child_runtime_def split: prod.splits)

text \<open>
  An \<open>execve\<close> of a file that is not a program fails after the memory was replaced: the CPU goes on with the old memory
  and the system calls with a new, empty one.
\<close>

lemma failed_execve_splits_memory:
  assumes "readFile (sy_vfs (kern (rt_cpu rt))) path (sy_heap (kern (rt_cpu rt))) = (Inr bs, sy_heap (kern (rt_cpu rt)))"
    "length bs < 52"
  shows "\<exists>rt'. rt_execve rnd path argv envp rt = (Inl (RtElf NotElf), rt') \<and>
    mem (rt_cpu rt') = mem (rt_cpu rt) \<and> rt_detached rt' = Some newMemory"
  using assms
  by (simp add: rt_execve_def onFiles_def Let_def load_process_def loadELF32Process_def onImage_def loadELF32Image_def
      parseELF32_def this_memory_def put_memory_def bnd_def)

text \<open>Both \<open>execve\<close> and the reset of the CPU extend the library path, so it grows by two copies at every call.\<close>

lemma execve_library_path_grows:
  "(let e1 = buildAlpineRuntimeEnv v (EnvArray [''LD_LIBRARY_PATH=/x'']) ''/bin/sh'' h;
        e2 = buildAlpineRuntimeEnv v (EnvObject e1) ''/bin/sh'' h
    in map_of e2 ''LD_LIBRARY_PATH'') = Some ''/x:/lib:/usr/lib:/lib:/usr/lib''"
  by code_simp

end
