(* ===== verification/Spec2Isabelle.thy ===== *)
theory Spec2Isabelle
  imports Cpu_Block Cpu_Arith Io Sync Orchestration Processes Kernel Overlay_Props Tar_Props Sys_Props Elf_Props Jit_Props
    Devices_Props Ext2_Props Snapshot_Props Runtime_Props
begin

text \<open>
  A verification development for the x86 Linux user-mode emulator under \<open>src/src\<close>: a JavaScript program that
  loads a 32-bit Linux executable into a paged memory, interprets its instructions, and answers its system calls from
  an in-memory file system. The directory \<open>src/dist\<close> is the build's copy of the same files.

  \<^bold>\<open>The program and its parts.\<close>
  \<open>EmulatedRuntime\<close> (\<open>runtime.js\<close>) owns a \<open>PagedMemory\<close>, a \<open>CPU\<close>, a \<open>LinuxSyscalls\<close> object, a \<open>VFS\<close> and, as
  an option, a block-cache JIT. The ELF loader maps the segments and builds the first stack; the CPU fetches from the
  memory and calls the system-call layer on \<open>int 0x80\<close>; a system call reads and writes guest memory, the descriptor
  table and the file system, and calls back into the runtime for \<open>fork\<close>, \<open>execve\<close> and \<open>wait4\<close>. \<open>fork\<close> clones the
  memory by copy-on-write, so the page objects are shared between processes. Above the runtime stand the process
  manager, the kernel facade and two layers of actors; beside it the archive, snapshot, ext2 and device code that
  fills the file system.

  \<^bold>\<open>How the source is modelled.\<close>
  A JavaScript number that the source keeps unsigned with \<open>>>> 0\<close> is a \<open>32 word\<close>, an element of a byte array is an
  \<open>8 word\<close>; other integers are \<open>nat\<close> or \<open>int\<close>, rounded by \<open>js_num\<close> where they can leave the exact range. A method is
  a function from the state to a result or an error and the new state (\<open>('s, 'e, 'a) sem\<close> of \<open>Prelude\<close>), so what was
  done before an exception stays done. Objects that several owners share (pages, file system nodes, the maps in the
  default contexts of actors) are addresses of a store; a \<open>Map\<close> whose order is observed is an association list.
  Promises are tickets, and resolving one is an entry of a log. Text has one byte per character.

  \<^bold>\<open>The theories.\<close>

  \<^item> \<open>Prelude\<close>, \<open>Util\<close> (\<open>util.js\<close>): the error monad and its rules, lists, words, the collections
    of simplification rules; register and flag numbers, alignment, errno values, paths.
  \<^item> \<open>Memory\<close> (\<open>memory.js\<close>): \<open>Page\<close>, \<open>PagedMemory\<close> and every method of theirs. \<open>Memory_Facts\<close> gives the contract:
    the abstract memory is a map from addresses to a byte and its permission (\<open>byte_at\<close>). The locale \<open>byte_memory\<close>
    states it for a read and a write operation, interpreted for guest accesses and for the loader's forced writes; the
    locale \<open>page_op\<close> states it for loops over pages, interpreted for \<open>map\<close>, \<open>unmap\<close> and \<open>mprotect\<close>. \<open>Memory_Props\<close>:
    round trips with their frames, mapping and protection, the search for a free region, the memory map listing.
    \<open>Memory_Fork\<close>: reference counts and copy-on-write isolation over any interleaving of operations of any number of
    processes.
  \<^item> \<open>Cpu\<close>, \<open>Cpu_Alu\<close>, \<open>Cpu_Exec\<close>, \<open>Cpu_Step\<close> (\<open>cpu.js\<close>): state, prefixes and addressing, arithmetic and flags,
    string and x87 instructions, the two-byte opcodes and the main dispatch, one definition per group of opcodes.
    \<open>Cpu_Facts\<close>: truncation, flags and parts of registers. \<open>Cpu_Memory\<close>: the locale \<open>store_order\<close>, a preorder on
    memory states that single stores respect; in it, every instruction respects the preorder. \<open>Cpu_Safety\<close> interprets
    it for page protection and for process isolation. \<open>Cpu_Props\<close>, \<open>Cpu_Block\<close>, \<open>Cpu_Arith\<close>: what comparisons,
    multi-word addition, calls, block copies, shifts, multiplication and division compute.
  \<^item> \<open>Jit\<close>, \<open>Jit_Props\<close> (\<open>jit.js\<close>): hot counters, the block compiler, compiled operations, invalidation; a
    compiled block is equivalent to the interpreter.
  \<^item> \<open>Sys\<close>, \<open>Sys_Calls\<close>, \<open>Sys_Dispatch\<close> (\<open>syscalls.js\<close>): handles, the descriptor table, the helpers, the system calls
    by number, \<open>handle\<close>. \<open>Sys_Memory\<close> extends \<open>store_order\<close> to \<open>mapping_order\<close>, for which every system call is
    proved, and so the isolation of processes that make system calls. \<open>Sys_Props\<close>: fresh anonymous memory, pipes as
    byte queues, bounds of directory records, and cases that differ from Linux.
  \<^item> \<open>Elf\<close>, \<open>Elf_Props\<close> (\<open>elf.js\<close>): headers, segments, dynamic table, relocation, the initial stack, the process
    loader; what a loaded executable looks like in memory.
  \<^item> \<open>Vfs\<close>, \<open>Vfs_Files\<close> (\<open>vfs.js\<close>): nodes, path resolution, all operations, open files, watches, snapshots.
    \<open>Vfs_Facts\<close>: the invariant of the node store, relative to a frozen set of nodes. \<open>Vfs_Props\<close>: the tree stays well
    formed, written files are read back. \<open>Overlay\<close>, \<open>Overlay_Props\<close> (\<open>overlay-vfs.js\<close>): whiteouts, copy-up and
    merged directories; the base is frozen. Both are runs of the locale \<open>stepper\<close>.
  \<^item> \<open>Tar\<close>, \<open>Tar_Props\<close> (\<open>tar.js\<close>): reading, mounting and writing archives; the round trip and when reading ends.
  \<^item> \<open>Snapshot\<close>, \<open>Snapshot_Props\<close> (\<open>snapshot.js\<close>): the tree as entries and one blob, its container, restoring; the
    round trip.
  \<^item> \<open>Devices\<close>, \<open>Devices_Props\<close> (\<open>devices.js\<close>): file devices with the locale \<open>file_device\<close> and the overlay of two, the
    HTTP byte device with its page cache. \<open>Ext2\<close>, \<open>Ext2_Props\<close> (\<open>ext2.js\<close>): the reader over any block device.
  \<^item> \<open>Rootfs\<close> (\<open>rootfs.js\<close>), \<open>Runtime\<close>, \<open>Runtime_Props\<close> (\<open>runtime.js\<close>): environment and files of a root file
    system; loading, running, \<open>fork\<close>, \<open>wait4\<close>, \<open>execve\<close>.
  \<^item> \<open>Io\<close> (\<open>io.js\<close>, \<open>pty.js\<close>), \<open>Sync\<close> (\<open>sync.js\<close>, \<open>signals.js\<close>), \<open>Network\<close> (\<open>network.js\<close>): byte queues with waiting
    readers, terminals, futexes, signals, sockets and the name server.
  \<^item> \<open>Machines\<close> (\<open>xstate-lite.js\<close>, \<open>machines.js\<close>), \<open>Orchestration\<close> (\<open>xstate-orchestration.js\<close>), \<open>Kernel\<close>
    (\<open>kernel.js\<close>), \<open>Processes\<close> (\<open>process-manager.js\<close>): actors, their machines, the kernel facade and the process
    manager. Invariants of runs are interpretations of the locale \<open>stepper\<close>.

  \<^bold>\<open>Bounds and fuel.\<close>

  \<^item> \<open>isRangeMapped_loop\<close>, \<open>findFreeRegion_loop\<close> and the archive reader \<open>parse_loop\<close> are partial functions into
    \<open>option\<close>; \<open>None\<close> is a loop that never ends. That they end is proved where it is claimed.
  \<^item> The prefix loop has \<open>2 ^ 32\<close> rounds: after that many prefix bytes the instruction pointer is back at the start
    with the same memory, so the loop of the source never ends, which is the outcome \<open>Diverges\<close>.
  \<^item> \<open>run\<close>, \<open>jit_run\<close> and \<open>runAsync\<close> take fuel, because a guest program need not stop; no property about their result
    hides behind exhausted fuel, the properties are about single steps and blocks.
  \<^item> Recursion over the file tree (\<open>resolve\<close>, \<open>snapshot\<close>, \<open>collectVfsEntries\<close>) is bounded by the field \<open>stack_depth\<close>
    of the store and ends in \<open>StackOverflow\<close>, as the engine's does.
  \<^item> Limits of the source are kept as they are: 4096 pointers of an argument array, 4096 entries of the dynamic table,
    the maximum length of a C string, 17 levels of symbolic links in ext2. The ext2 mount has as many levels as
    its limit of files plus one; \<open>copyDir_levels\<close> shows that more make no difference.
  \<^item> The other loops (\<open>http_loop\<close>, \<open>ext_dirents\<close>, \<open>free_fd\<close>, \<open>stripAnsi\<close>, the name server's) end by a measure.

  \<^bold>\<open>Parameters.\<close>
  The host's clock, random bytes, double-precision arithmetic, \<open>fetch\<close>, sockets, gzip, JSON and Base64 conversions, the
  reader of standard input and the settling of promises are arguments of the definitions that use them.

  \<^bold>\<open>Where the code is not what it means to be.\<close>
  Some lemmas state behaviour that a user would not expect: \<open>mprotect\<close> in a child changes the parent's pages, a wait for
  a faulted process never ends, the memory after a failed \<open>execve\<close>, a hole in an ext2 file moves the data after it, a full
  response to a range request is misread, a restored inode number is given out again. They are stated as the code behaves.

  \<^bold>\<open>Not modelled.\<close>
  \<open>IDBDevice\<close> and the persistence files (requests to IndexedDB, localStorage and the file system of the host), the
  network of Node and the browser's fetch and WebSocket classes (I/O behind the interface that is a parameter), the package
  manager (compositions of the archive and file system functions with regular expressions over text), the command-line
  runtime, diagnostics and benchmarks (console output and timing), the service workers and page bridge, the build tools,
  and the architecture registry, which has one entry and forwards to modelled functions. Of \<open>util.js\<close> the logger and of
  \<open>sync.js\<close> the functions that block the host's thread are left out.
\<close>

end
